(* ===== verification/Prelude.thy ===== *)
theory Prelude
  imports Main "HOL-Library.Word" "HOL-Library.Multiset" "HOL-Library.AList"
begin

text \<open>
  Prelude: what every component of the model shares.

  \<^item> Machine integers: \<open>u32\<close>, \<open>u64\<close>, \<open>u128\<close> are words of that width (the code's
    timestamps, limits and counters); \<open>saturating_u32\<close> is the code's
    \<open>try_into().unwrap_or(u32::MAX)\<close>.
  \<^item> Hash maps: a \<open>HashMap\<close> is the list of its entries, with distinct keys, in the order
    in which iterating over it would visit them.  Rust does not specify that order, so a
    fact about an iteration is stated for every list of entries, or shown to depend on
    the map alone (\<open>hm_equiv\<close>).
  \<^item> Locks: a \<open>Mutex\<close> carries its poison flag; \<open>lock\<close> fails exactly when it is set.
  \<^item> Results: an operation on a state returns an error or a value together with the
    state; \<open>and_then\<close> is the code's question mark operator.
\<close>

named_theorems hm_simps \<open>lookup after an update of a hash map\<close>
named_theorems hm_intros \<open>operations keep the keys of a hash map distinct\<close>

section \<open>Machine integers\<close>

type_synonym u8 = "8 word"
type_synonym u32 = "32 word"
type_synonym u64 = "64 word"
type_synonym u128 = "128 word"

definition u32_max :: u32 where
  "u32_max = 4294967295"

definition saturating_u32 :: "u64 \<Rightarrow> u32" where
  "saturating_u32 x = (if unat x < 2 ^ 32 then ucast x else u32_max)"

lemma unat_u32_max: "unat u32_max = 2 ^ 32 - 1"
  by (simp add: u32_max_def)

lemma unat_saturating_u32: "unat (saturating_u32 x) = min (unat x) (2 ^ 32 - 1)"
proof (cases "unat x < 2 ^ 32")
  case True
  then have "unat (ucast x :: u32) = unat x"
    by (simp add: unsigned_ucast_eq take_bit_nat_eq_self)
  with True show ?thesis
    by (simp add: saturating_u32_def)
next
  case False
  then show ?thesis
    by (simp add: saturating_u32_def unat_u32_max)
qed

section \<open>Hash maps\<close>

type_synonym ('k, 'v) hmap = "('k \<times> 'v) list"

definition hm_get :: "('k, 'v) hmap \<Rightarrow> 'k \<Rightarrow> 'v option" where
  "hm_get m k = map_of m k"

definition hm_insert :: "'k \<Rightarrow> 'v \<Rightarrow> ('k, 'v) hmap \<Rightarrow> ('k, 'v) hmap" where
  "hm_insert k v m = AList.update k v m"

definition hm_remove :: "'k \<Rightarrow> ('k, 'v) hmap \<Rightarrow> ('k, 'v) hmap" where
  "hm_remove k m = AList.delete k m"

definition hm_keys :: "('k, 'v) hmap \<Rightarrow> 'k list" where
  "hm_keys m = map fst m"

definition hm_values :: "('k, 'v) hmap \<Rightarrow> 'v list" where
  "hm_values m = map snd m"

definition hm_wf :: "('k, 'v) hmap \<Rightarrow> bool" where
  "hm_wf m \<longleftrightarrow> distinct (hm_keys m)"

definition hm_equiv :: "('k, 'v) hmap \<Rightarrow> ('k, 'v) hmap \<Rightarrow> bool" where
  "hm_equiv m n \<longleftrightarrow> hm_wf m \<and> hm_wf n \<and> hm_get m = hm_get n"

lemma hm_get_Nil [simp, hm_simps]: "hm_get [] k = None"
  by (simp add: hm_get_def)

lemma hm_get_Cons [simp]: "hm_get ((k, v) # m) k' = (if k = k' then Some v else hm_get m k')"
  by (simp add: hm_get_def)

lemma hm_get_insert [simp, hm_simps]:
  "hm_get (hm_insert k v m) k' = (if k' = k then Some v else hm_get m k')"
  by (simp add: hm_get_def hm_insert_def update_conv)

lemma hm_get_remove [simp, hm_simps]:
  "hm_get (hm_remove k m) k' = (if k' = k then None else hm_get m k')"
  by (simp add: hm_get_def hm_remove_def delete_conv)

lemma hm_wf_Nil [simp, hm_intros]: "hm_wf []"
  by (simp add: hm_wf_def hm_keys_def)

lemma hm_wf_Cons [simp]: "hm_wf ((k, v) # m) \<longleftrightarrow> hm_get m k = None \<and> hm_wf m"
  by (auto simp: hm_wf_def hm_keys_def hm_get_def map_of_eq_None_iff)

lemma hm_wf_insert [simp, hm_intros]: "hm_wf m \<Longrightarrow> hm_wf (hm_insert k v m)"
  by (simp add: hm_wf_def hm_keys_def hm_insert_def distinct_update)

lemma hm_wf_remove [simp, hm_intros]: "hm_wf m \<Longrightarrow> hm_wf (hm_remove k m)"
  by (simp add: hm_wf_def hm_keys_def hm_remove_def distinct_delete)

lemma hm_wf_filter [simp, hm_intros]: "hm_wf m \<Longrightarrow> hm_wf (filter P m)"
  by (simp add: hm_wf_def hm_keys_def distinct_map_filter)

lemma hm_get_filter:
  "hm_wf m \<Longrightarrow>
   hm_get (filter P m) k = (case hm_get m k of
      None \<Rightarrow> None | Some v \<Rightarrow> if P (k, v) then Some v else None)"
proof (induction m)
  case Nil
  then show ?case by simp
next
  case (Cons kv m)
  obtain a b where kv: "kv = (a, b)" by (cases kv)
  with Cons.prems have m: "hm_wf m" "hm_get m a = None" by auto
  from Cons.IH [OF m(1)] m(2) kv show ?case
    by (cases "a = k") (auto split: option.splits)
qed

lemma hm_get_mem: "hm_wf m \<Longrightarrow> hm_get m k = Some v \<longleftrightarrow> (k, v) \<in> set m"
  by (simp add: hm_get_def hm_wf_def hm_keys_def)

lemma hm_get_in_set: "hm_get m k = Some v \<Longrightarrow> (k, v) \<in> set m"
  by (simp add: hm_get_def map_of_SomeD)

lemma hm_get_None_iff: "hm_get m k = None \<longleftrightarrow> k \<notin> set (hm_keys m)"
  by (simp add: hm_get_def hm_keys_def map_of_eq_None_iff)

lemma hm_wf_distinct: "hm_wf m \<Longrightarrow> distinct m"
  unfolding hm_wf_def hm_keys_def by (simp add: distinct_map)

lemma hm_insert_not_Nil [simp]: "hm_insert k v m \<noteq> []"
  by (cases m) (auto simp: hm_insert_def)

lemma hm_equiv_mset:
  fixes m n :: "('k, 'v) hmap"
  shows "hm_equiv m n \<Longrightarrow> mset m = mset n"
proof -
  assume e: "hm_equiv m n"
  have "set m = set n"
  proof (rule set_eqI)
    fix x :: "'k \<times> 'v"
    obtain k v where "x = (k, v)" by (cases x)
    with e show "(x \<in> set m) = (x \<in> set n)"
      by (simp add: hm_equiv_def flip: hm_get_mem)
  qed
  with e show ?thesis
    by (simp add: hm_equiv_def hm_wf_distinct set_eq_iff_mset_eq_distinct)
qed

section \<open>Locks\<close>

datatype 'a mutex = Mutex (mtx_poisoned: bool) (mtx_data: 'a)

definition new_mutex :: "'a \<Rightarrow> 'a mutex" where
  "new_mutex x = Mutex False x"

text \<open>\<open>Mutex::lock\<close>: the left value stands for the \<open>PoisonError\<close>.\<close>

definition lock :: "'a mutex \<Rightarrow> unit + 'a" where
  "lock m = (if mtx_poisoned m then Inl () else Inr (mtx_data m))"

text \<open>Writing through the guard of a locked mutex.\<close>

definition put_guard :: "'a mutex \<Rightarrow> 'a \<Rightarrow> 'a mutex" where
  "put_guard m x = Mutex (mtx_poisoned m) x"

lemma mtx_data_new [simp]: "mtx_data (new_mutex x) = x"
  by (simp add: new_mutex_def)

lemma mtx_poisoned_new [simp]: "\<not> mtx_poisoned (new_mutex x)"
  by (simp add: new_mutex_def)

lemma mtx_data_put [simp]: "mtx_data (put_guard m x) = x"
  by (simp add: put_guard_def)

lemma mtx_poisoned_put [simp]: "mtx_poisoned (put_guard m x) = mtx_poisoned m"
  by (simp add: put_guard_def)

lemma lock_Inr_iff [simp]: "lock m = Inr x \<longleftrightarrow> \<not> mtx_poisoned m \<and> mtx_data m = x"
  by (auto simp: lock_def)

lemma lock_Inl_iff [simp]: "lock m = Inl u \<longleftrightarrow> mtx_poisoned m"
  by (auto simp: lock_def)

lemma lock_ok: "\<not> mtx_poisoned m \<Longrightarrow> lock m = Inr (mtx_data m)"
  by (simp add: lock_def)

lemma lock_poisoned: "mtx_poisoned m \<Longrightarrow> lock m = Inl ()"
  by (simp add: lock_def)

section \<open>Results with a state\<close>

definition and_then ::
  "('e + 'a) \<times> 's \<Rightarrow> ('a \<Rightarrow> 's \<Rightarrow> ('e + 'b) \<times> 's) \<Rightarrow> ('e + 'b) \<times> 's" where
  "and_then rs k = (case rs of (Inl e, s) \<Rightarrow> (Inl e, s) | (Inr x, s) \<Rightarrow> k x s)"

lemma and_then_Inl [simp]: "and_then (Inl e, s) k = (Inl e, s)"
  by (simp add: and_then_def)

lemma and_then_Inr [simp]: "and_then (Inr x, s) k = k x s"
  by (simp add: and_then_def)

lemma and_then_cases:
  "and_then rs k = (r, s') \<Longrightarrow>
   (\<And>e. rs = (Inl e, s') \<Longrightarrow> r = Inl e \<Longrightarrow> P) \<Longrightarrow>
   (\<And>x s. rs = (Inr x, s) \<Longrightarrow> k x s = (r, s') \<Longrightarrow> P) \<Longrightarrow> P"
  by (auto simp: and_then_def split: prod.splits sum.splits)

text \<open>An invariant of the state kept by both parts is kept by the whole.\<close>

lemma and_then_inv:
  "I (snd rs) \<Longrightarrow> (\<And>x s. I s \<Longrightarrow> I (snd (k x s))) \<Longrightarrow> I (snd (and_then rs k))"
  by (auto simp: and_then_def split: prod.splits sum.splits)

text \<open>\<open>Result::ok\<close> and \<open>Result::is_ok\<close>.\<close>

definition result_ok :: "'e + 'a \<Rightarrow> 'a option" where
  "result_ok r = (case r of Inl _ \<Rightarrow> None | Inr x \<Rightarrow> Some x)"

lemma result_ok_simps [simp]: "result_ok (Inl e) = None" "result_ok (Inr x) = Some x"
  by (simp_all add: result_ok_def)

section \<open>Lists\<close>

text \<open>\<open>iter().find(p)\<close> and replacing the first match through \<open>iter_mut().find(p)\<close>.\<close>

fun update_first :: "('a \<Rightarrow> bool) \<Rightarrow> ('a \<Rightarrow> 'a) \<Rightarrow> 'a list \<Rightarrow> 'a list" where
  "update_first p f [] = []"
| "update_first p f (x # xs) = (if p x then f x # xs else x # update_first p f xs)"

lemma length_update_first [simp]: "length (update_first p f xs) = length xs"
  by (induction xs) auto

lemma set_update_first: "set (update_first p f xs) \<subseteq> set xs \<union> f ` {x \<in> set xs. p x}"
  by (induction xs) auto

lemma update_first_none: "find p xs = None \<Longrightarrow> update_first p f xs = xs"
  by (induction xs) (auto split: if_splits)

lemma map_update_first_same:
  "(\<And>x. p x \<Longrightarrow> g (f x) = g x) \<Longrightarrow> map g (update_first p f xs) = map g xs"
  by (induction xs) auto

lemma find_update_first:
  "find p xs = Some x \<Longrightarrow> p (f x) \<Longrightarrow> find p (update_first p f xs) = Some (f x)"
  by (induction xs) (auto split: if_splits)

lemma find_update_first_other:
  "(\<And>x. p x \<Longrightarrow> \<not> q x) \<Longrightarrow> (\<And>x. p x \<Longrightarrow> \<not> q (f x)) \<Longrightarrow>
   find q (update_first p f xs) = find q xs"
  by (induction xs) auto

text \<open>The same for a key that the update keeps.\<close>

lemma find_update_first_key:
  "(\<And>x. key x = j \<Longrightarrow> key (f x) = j) \<Longrightarrow>
   find (\<lambda>x. key x = i) (update_first (\<lambda>x. key x = j) f xs) =
     (if i = j then map_option f (find (\<lambda>x. key x = i) xs) else find (\<lambda>x. key x = i) xs)"
  by (induction xs) auto

lemma map_update_first_key:
  "(\<And>x. key x = j \<Longrightarrow> key (f x) = j) \<Longrightarrow>
   map key (update_first (\<lambda>x. key x = j) f xs) = map key xs"
  by (induction xs) auto

lemma find_append: "find p (xs @ ys) = (case find p xs of None \<Rightarrow> find p ys | Some x \<Rightarrow> Some x)"
  by (induction xs) auto

lemma last_sort_key:
  assumes "xs \<noteq> []"
  shows "last (sort_key f xs) \<in> set xs \<and> (\<forall>x \<in> set xs. f x \<le> f (last (sort_key f xs)))"
proof -
  let ?ys = "sort_key f xs"
  have ne: "?ys \<noteq> []" using assms by (metis set_empty set_sort)
  then have l: "last ?ys \<in> set xs" using last_in_set [OF ne] by simp
  have "f x \<le> f (last ?ys)" if "x \<in> set xs" for x
  proof -
    from that have "x \<in> set ?ys" by simp
    then obtain i where i: "i < length ?ys" "x = ?ys ! i" by (metis in_set_conv_nth)
    have "sorted (map f ?ys)" by simp
    with i have "map f ?ys ! i \<le> map f ?ys ! (length ?ys - 1)"
      by (intro sorted_nth_mono) auto
    with i ne show ?thesis by (simp add: last_conv_nth)
  qed
  with l show ?thesis by blast
qed

end
