(* ===== verification/ChatTypes.thy ===== *)
theory ChatTypes
  imports Prelude
begin

text \<open>
  The data the components exchange: the protobuf messages of the GOuda API and the views of
  the Matrix SDK's values that the code reads.  Both are declared outside src/; the types
  here hold exactly the fields and variants the code names, and one further variant
  (\<open>\<dots>Other\<close>) where the code has a catch-all branch.

  \<^item> An enumeration field of a protobuf message is a number on the wire; \<open>proto_enum\<close>
    is the variant it decodes to, or none for a number that is no variant.
  \<^item> A chain of builder calls (\<open>RoomChangeEventBuilder::new(id).change_x(v).to_proto()\<close>)
    is the list of its \<open>change_x\<close> calls.
  \<^item> \<open>Raw\<close> JSON is its text; parsing it is a parameter of the operations that do so.
\<close>

type_synonym 'a proto_enum = "'a option"

section \<open>Protobuf messages\<close>

datatype notification_setting = Mute | MentionsAndKeywordsOnly | AllMessages

datatype presence_state = PresenceUnknown | Away | Offline | Online

datatype room_join_rule = InviteRule | KnockRule | PublicRule

datatype user_room_state = Banned | Invited | Joined | Knocked | Unjoined

datatype membership_change_kind =
  MJoined | MLeft | MBanned | MKicked | MInvited | MKnocked

datatype poll_type = Disclosed | Undisclosed

datatype status_code =
  Connected | LoggedIn | LoggedOut | NetworkUnavailable | SessionInvalid

datatype cross_signing_method = SasString | SasSymbol

datatype room_leave_reason = LeftByUser | LeftKicked | LeftBanned

record user_status =
  us_state :: "presence_state proto_enum"
  us_message :: "string option"

record user =
  u_id :: string
  u_display_name :: "string option"
  u_avatar_path :: "string option"
  u_status :: "user_status option"

record poll_option =
  po_id :: string
  po_text :: string
  po_voted :: "string list"

record poll =
  poll_kind :: "poll_type proto_enum"
  poll_completed :: bool
  poll_max_selections :: u32
  poll_question :: string
  poll_options :: "poll_option list"

datatype content =
  CText string
| CFile string "string option"
| CPoll poll
| CRemoved "string option"
| CMembership membership_change_kind string

record reaction =
  r_message_id :: string
  r_room_id :: string
  r_reaction :: string
  r_user_id :: "string option"

record message =
  m_id :: string
  m_room_id :: string
  m_sender_id :: string
  m_timestamp :: u64
  m_content :: "content option"
  m_related_id :: "string option"
  m_is_encrypted :: bool
  m_reactions :: "reaction list"
  m_mentions :: "string list"
  m_room_mentioned :: bool
  m_thread_id :: "string option"
  m_edited :: bool

text \<open>\<open>Message::default()\<close>: every field is the default of its type.\<close>

definition default_message :: message where
  "default_message =
     \<lparr>m_id = '''', m_room_id = '''', m_sender_id = '''', m_timestamp = 0, m_content = None,
      m_related_id = None, m_is_encrypted = False, m_reactions = [], m_mentions = [],
      m_room_mentioned = False, m_thread_id = None, m_edited = False\<rparr>"

definition default_user :: user where
  "default_user = \<lparr>u_id = '''', u_display_name = None, u_avatar_path = None, u_status = None\<rparr>"

record room_permissions =
  rp_edit :: bool
  rp_invite :: bool
  rp_kick :: bool
  rp_ban :: bool
  rp_mention :: bool
  rp_pin :: bool
  rp_conference :: bool

record room =
  room_id :: string
  room_display_name :: "string option"
  room_users :: "(string, user_room_state proto_enum) hmap"
  room_space_ids :: "string list"
  room_unread :: u32
  room_is_direct :: bool
  room_join :: room_join_rule
  room_permissions :: "room_permissions option"
  room_latest_ts :: "u64 option"
  room_avatar :: "string option"
  room_favorite :: bool
  room_settings :: "notification_setting option option"
  room_invitation :: "string option"
  room_pinned :: "string list"
  room_read_marker :: "(string, u64) hmap"
  room_conference :: "string option"

datatype room_change =
  ChDisplayName string
| ChUserIdList "(string, user_room_state proto_enum) hmap"
| ChJoinRule room_join_rule
| ChAvatarPath string
| ChFavourite bool
| ChConferenceUrl string
| ChPinned "string list"
| ChPermissions room_permissions
| ChReadMarker "(string, u64) hmap"
| ChTyping "string list"
| ChUnread u32
| ChSettings "notification_setting option"

datatype message_change =
  McContent content
| McEncrypted bool
| McMentions "string list"
| McEdited bool

datatype user_change =
  UcDisplayName string
| UcAvatarPath string
| UcStatus user_status

datatype verification_code = Symbols "(string \<times> string option) list" | StringCode string

datatype end_result = Successful bool | EndError string

datatype error_type =
  ENotImplemented | ENotInitialized | EAlreadyInitialized | EAuthorization | EAlreadyLoggedIn
| ENetwork | ETimeout | EInvalidUrl | EInvalidUserId | EUserNotFound | ERoomNotFound
| EInvalidMessageId | EMessageNotFound | EReactionNotFound | EThreadNotFound | EUnknown
| EVerificationFlowNotFound | ENotAllowed | EMessageSizeLimitExceeded
| EUploadSizeLimitExceeded | EInvalidRecoveryKey

record chat_error =
  ce_type :: error_type
  ce_string :: "string option"

text \<open>What is sent to the application: events through the request context, and errors.\<close>

datatype response =
  RoomChangeEvent string "room_change list"
| MessageChangeEvent string string "message_change list"
| UserChangeEvent string "user_change list"
| MessageReceivedEvent message
| MessageRemoveEvent string string
| ReactionCreatedEvent reaction
| ReactionRemovedEvent reaction
| RoomCreatedEvent room
| RoomLeftEvent string room_leave_reason "string option"
| InvitedEvent string "string option" "string option"
| StatusUpdate status_code
| GlobalSettingsEvent notification_setting
| CrossSigningStartEvent string "cross_signing_method list"
| CrossSigningMethodSelectedEvent string cross_signing_method "verification_code option"
| VerificationEndEvent "string option" end_result
| VerificationStatusEvent bool bool bool
| CapabilityEvent "u64 option"
| UserResponse user
| RoomListResponse "room list"
| ErrorResponse chat_error

section \<open>Views of the Matrix SDK's events\<close>

type_synonym raw = string

datatype 'c event_content = Original 'c | RedactedContent

text \<open>A file of a media message: its name, its body and the URL of its source, if any.\<close>

record media_content =
  mc_filename :: "string option"
  mc_body :: string
  mc_source :: "string option"

datatype message_type =
  MtAudio media_content
| MtEmote string
| MtFile media_content
| MtImage media_content
| MtLocation string "string option"
| MtNotice string
| MtServerNotice string
| MtText string
| MtVideo media_content
| MtOther

record mentions =
  mn_user_ids :: "string list"
  mn_room :: bool

record new_content =
  nc_msgtype :: message_type
  nc_mentions :: "mentions option"

datatype relation =
  RelReplacement string new_content
| RelReply string
| RelThread string
| RelOther

record room_message_content =
  rmc_msgtype :: message_type
  rmc_relates_to :: "relation option"
  rmc_mentions :: "mentions option"

record redaction_content =
  rc_redacts :: "string option"
  rc_reason :: "string option"

datatype poll_kind_m = PkDisclosed | PkUndisclosed | PkOther

record poll_start =
  ps_question :: string
  ps_kind :: poll_kind_m
  ps_max_selections :: u64
  ps_answers :: "(string \<times> string) list"

text \<open>
  A poll start event holds a new poll, or a replacement of the poll it names.  The
  SDK's \<open>poll_start()\<close> gives the block of either; the field itself is optional in a
  replacement.
\<close>

datatype poll_start_content =
  PsNew poll_start
| PsReplacement string poll_start "poll_start option"
| PsOther poll_start

fun poll_start_of :: "poll_start_content \<Rightarrow> poll_start" where
  "poll_start_of (PsNew b) = b"
| "poll_start_of (PsReplacement _ b _) = b"
| "poll_start_of (PsOther b) = b"

record poll_response_content =
  pr_poll_id :: string
  pr_answers :: "string list"

record annotation =
  an_event_id :: string
  an_key :: string

datatype membership_change_m =
  ChJoined | ChLeft | ChBanned | ChKicked | ChKickedAndBanned | ChInvited | ChKnocked
| ChInvitationAccepted | ChKnockAccepted
| ChProfileChanged "string option option" "string option option"
| ChOther

text \<open>
  A room member event: the change against the previous membership, the member it is
  about, and the reason.  A profile change holds the new value of each changed field.
\<close>

record member_content =
  mb_change :: membership_change_m
  mb_state_key :: string
  mb_reason :: "string option"

datatype message_like =
  RoomMessage "room_message_content event_content"
| RoomRedaction "redaction_content event_content"
| RoomEncrypted "unit event_content"
| UnstablePollStart "poll_start_content event_content"
| UnstablePollResponse "poll_response_content event_content"
| UnstablePollEnd "string event_content"
| ReactionEvent "annotation event_content"
| MessageLikeOther

datatype state_event =
  RoomMember "member_content event_content"
| StateOther

datatype event_body =
  MessageLike message_like
| State state_event

text \<open>A timeline event without its room, and the full event that names its room.\<close>

record sync_event =
  ev_id :: string
  ev_sender :: string
  ev_ts :: u64
  ev_body :: event_body

record full_event = sync_event +
  ev_room_id :: string

definition into_full_event :: "sync_event \<Rightarrow> string \<Rightarrow> full_event" where
  "into_full_event e r =
     \<lparr>ev_id = ev_id e, ev_sender = ev_sender e, ev_ts = ev_ts e, ev_body = ev_body e,
      ev_room_id = r\<rparr>"

text \<open>
  \<open>TimelineEvent\<close>: the kinds of an event of the timeline, with the metadata the code
  reads from the event without parsing its body.
\<close>

datatype timeline_kind =
  Decrypted raw
| UnableToDecrypt raw "string option"
| PlainText raw

record timeline_event =
  te_kind :: timeline_kind
  te_event_id :: "string option"
  te_sender :: "string option"
  te_timestamp :: "u64 option"

text \<open>
  The parsers of raw events (serde, in the SDK), as parameters: an original or decrypted
  event with its room, an event of a sync, and an encrypted event.
\<close>

record parsers =
  parse_full :: "raw \<Rightarrow> full_event option"
  parse_sync :: "raw \<Rightarrow> sync_event option"
  parse_encrypted :: "raw \<Rightarrow> raw option"

end
