(* ===== verification/Errors.thy ===== *)
theory Errors
  imports ChatTypes
begin

text \<open>
  error.rs, with the error enumerations of media.rs, memory_cache.rs, crypto.rs and
  proto_cache.rs: the adapter's errors and their conversion to the error of the GOuda API.
  The errors of the SDK are views with the variants the conversion looks at; their texts
  (the \<open>Display\<close> implementations, outside src/) are the parameter \<open>displays\<close>.
  The lemmas show that the wrappers agree: one HTTP error becomes the same API error
  through whichever wrapper it arrives.
\<close>

section \<open>Views of the SDK's errors\<close>

datatype api_error_kind =
  MissingToken | Unauthorized | UnknownToken bool | Forbidden | TooLarge | OtherKind

datatype api_error = ApiError "api_error_kind option" string

datatype into_http_error = IntoHttpAuthentication | IntoHttpOther string

record reqwest_error =
  rq_is_request :: bool
  rq_is_connect :: bool
  rq_is_timeout :: bool
  rq_status :: "nat option"

text \<open>
  \<open>HeApi\<close> holds the status code of a response that is a Matrix error, and none for any
  other response; \<open>he_client_api\<close> is what \<open>as_client_api_error\<close> gives.
\<close>

datatype http_variant =
  HeIntoHttp into_http_error
| HeReqwest reqwest_error
| HeApi "nat option"
| HeOther string

record http_error =
  he_client_api :: "api_error option"
  he_variant :: http_variant

datatype sdk_media_error = MediaTooLargeToUpload | SdkMediaOther string

datatype sdk_error =
  SdkHttp http_error
| SdkAuthenticationRequired
| SdkUrl string
| SdkMedia sdk_media_error
| SdkOther string

datatype client_build_error =
  CbHttp http_error
| CbAutoDiscovery string
| CbOther string

datatype request_verification_error = RvSdk sdk_error | RvOther string

datatype secret_storage_error = SecretStorageKey string | SecretStorageOther string

datatype recovery_error =
  BackupExistsOnServer
| RecSdk sdk_error
| RecSecretStorage secret_storage_error

record displays =
  d_into_http :: "into_http_error \<Rightarrow> string"
  d_http :: "http_error \<Rightarrow> string"
  d_api :: "api_error \<Rightarrow> string"
  d_sdk_media :: "sdk_media_error \<Rightarrow> string"
  d_sdk :: "sdk_error \<Rightarrow> string"
  d_build :: "client_build_error \<Rightarrow> string"
  d_verification :: "request_verification_error \<Rightarrow> string"
  d_secret :: "secret_storage_error \<Rightarrow> string"
  d_recovery :: "recovery_error \<Rightarrow> string"

section \<open>The adapter's errors\<close>

datatype crypto_error = CryptoHash | CryptoCipher | CryptoIo string

datatype proto_cache_error =
  PcDecodeError
| PcPoisoned
| PcUnknown
| PcProstDecodeError string
| PcSerialization string
| PcCrypto crypto_error
| PcIo string

datatype media_error =
  MediaNotFound
| MediaRemoved
| UnableToDetermineFileExtension
| UnableToDetermineMimeType
| MediaNotAllowed
| UnableToGetAvatarUri
| AssetIdNotSpecified
| MediaIo string
| MediaSerdeJson string
| MediaMatrixError sdk_error

datatype memory_cache_error =
  MessageReceiverDropped
| CachePoisoned
| UnableToAssembleMessage
| McMatrixError sdk_error
| McPaginatorError string

datatype error =
  NotImplemented
| NotInitialized
| AlreadyInitialized
| NotLoggedIn
| AlreadyLoggedIn
| SessionLoggedOut
| Network
| Timeout
| Authorization
| InvalidUrl
| InvalidUserId
| UserNotFound
| InvalidRoomId
| RoomNotFound
| InvalidMessageId
| MessageNotFound
| ReactionNotFound
| InvalidThreadId
| ThreadNotFound
| InvalidPollType
| InvalidPollOptions
| VerificationFlowNotFound
| UnsupportedCrossSigningMethod
| NoCrossSigningMethod
| ConversionError
| InternalError string
| MediaError media_error
| MemoryCacheError memory_cache_error
| MatrixSdkError sdk_error
| MatrixSdkClientBuildError client_build_error
| MatrixSdkHttpError http_error
| MatrixSdkEditError string
| MatrixSdkRecoveryError recovery_error
| MatrixSdkStoreError string
| MatrixSdkCryptoStoreError string
| MatrixSdkRefreshTokenError string
| MatrixSdkRequestVerificationError request_verification_error

section \<open>Conversion to the error of the API\<close>

text \<open>The two forms of the macro \<open>chat_err\<close>.\<close>

definition chat_err :: "error_type \<Rightarrow> chat_error" where
  "chat_err t = \<lparr>ce_type = t, ce_string = None\<rparr>"

definition chat_err_msg :: "error_type \<Rightarrow> string \<Rightarrow> chat_error" where
  "chat_err_msg t msg = \<lparr>ce_type = t, ce_string = Some msg\<rparr>"

fun convert_into_http_error :: "displays \<Rightarrow> into_http_error \<Rightarrow> chat_error" where
  "convert_into_http_error d IntoHttpAuthentication = chat_err EAuthorization"
| "convert_into_http_error d err = chat_err_msg ENetwork (d_into_http d err)"

fun convert_client_api_error :: "displays \<Rightarrow> api_error \<Rightarrow> chat_error" where
  "convert_client_api_error d (ApiError kind text) =
     (case kind of
        None \<Rightarrow> chat_err_msg ENetwork (d_api d (ApiError kind text))
      | Some MissingToken \<Rightarrow> chat_err EAuthorization
      | Some Unauthorized \<Rightarrow> chat_err EAuthorization
      | Some (UnknownToken _) \<Rightarrow> chat_err EAuthorization
      | Some Forbidden \<Rightarrow> chat_err ENotAllowed
      | Some TooLarge \<Rightarrow> chat_err EMessageSizeLimitExceeded
      | Some OtherKind \<Rightarrow> chat_err_msg ENetwork (d_api d (ApiError kind text)))"

definition convert_http_error :: "displays \<Rightarrow> http_error \<Rightarrow> chat_error" where
  "convert_http_error d err =
     (case he_client_api err of
        Some api \<Rightarrow> convert_client_api_error d api
      | None \<Rightarrow>
          (case he_variant err of
             HeIntoHttp e \<Rightarrow> convert_into_http_error d e
           | _ \<Rightarrow> chat_err_msg ENetwork (d_http d err)))"

fun convert_matrix_sdk_media_error :: "displays \<Rightarrow> sdk_media_error \<Rightarrow> chat_error" where
  "convert_matrix_sdk_media_error d MediaTooLargeToUpload = chat_err EUploadSizeLimitExceeded"
| "convert_matrix_sdk_media_error d err = chat_err_msg EUnknown (d_sdk_media d err)"

fun convert_matrix_sdk_error :: "displays \<Rightarrow> sdk_error \<Rightarrow> chat_error" where
  "convert_matrix_sdk_error d (SdkHttp err) = convert_http_error d err"
| "convert_matrix_sdk_error d SdkAuthenticationRequired = chat_err EAuthorization"
| "convert_matrix_sdk_error d (SdkUrl err) = chat_err_msg EInvalidUrl err"
| "convert_matrix_sdk_error d (SdkMedia err) = convert_matrix_sdk_media_error d err"
| "convert_matrix_sdk_error d err = chat_err_msg EUnknown (d_sdk d err)"

fun is_connection_error :: "sdk_error \<Rightarrow> bool" where
  "is_connection_error (SdkHttp err) =
     (case he_variant err of
        HeReqwest e \<Rightarrow> rq_is_request e \<or> rq_is_connect e \<or> rq_is_timeout e
      | _ \<Rightarrow> False)"
| "is_connection_error _ = False"

fun convert_client_build_error :: "displays \<Rightarrow> client_build_error \<Rightarrow> chat_error" where
  "convert_client_build_error d (CbHttp err) = convert_http_error d err"
| "convert_client_build_error d (CbAutoDiscovery err) = chat_err_msg ENetwork err"
| "convert_client_build_error d err = chat_err_msg EUnknown (d_build d err)"

definition convert_crypto_store_error :: "string \<Rightarrow> chat_error" where
  "convert_crypto_store_error err = chat_err_msg EUnknown (''CryptoStoreError: '' @ err)"

fun convert_request_verification_error ::
  "displays \<Rightarrow> request_verification_error \<Rightarrow> chat_error" where
  "convert_request_verification_error d (RvSdk err) = convert_matrix_sdk_error d err"
| "convert_request_verification_error d err = chat_err_msg EUnknown (d_verification d err)"

fun convert_secret_storage_error :: "displays \<Rightarrow> secret_storage_error \<Rightarrow> chat_error" where
  "convert_secret_storage_error d (SecretStorageKey err) = chat_err_msg EInvalidRecoveryKey err"
| "convert_secret_storage_error d err = chat_err_msg EUnknown (d_secret d err)"

fun convert_recovery_error :: "displays \<Rightarrow> recovery_error \<Rightarrow> chat_error" where
  "convert_recovery_error d BackupExistsOnServer =
     chat_err_msg EUnknown (d_recovery d BackupExistsOnServer)"
| "convert_recovery_error d (RecSdk err) = convert_matrix_sdk_error d err"
| "convert_recovery_error d (RecSecretStorage err) = convert_secret_storage_error d err"

definition convert_refresh_token_error :: "string \<Rightarrow> chat_error" where
  "convert_refresh_token_error err = chat_err_msg EAuthorization err"

definition convert_store_error :: "string \<Rightarrow> chat_error" where
  "convert_store_error err = chat_err_msg EUnknown err"

definition convert_edit_error :: "string \<Rightarrow> chat_error" where
  "convert_edit_error err = chat_err_msg EUnknown err"

text \<open>The texts of the adapter's own errors.\<close>

fun media_error_text :: "displays \<Rightarrow> media_error \<Rightarrow> string" where
  "media_error_text d MediaNotFound = ''the requested resource was not found''"
| "media_error_text d MediaRemoved =
     ''the previously downloaded resource has been removed from the upstream server''"
| "media_error_text d UnableToDetermineFileExtension =
     ''the file extension of the data could not be determined''"
| "media_error_text d UnableToDetermineMimeType =
     ''the mime type of the data could not be determined''"
| "media_error_text d MediaNotAllowed = ''the requested operation is not allowed''"
| "media_error_text d UnableToGetAvatarUri =
     ''unable to get the avatar uri of the requested user''"
| "media_error_text d AssetIdNotSpecified = ''the id of the asset is not specified''"
| "media_error_text d (MediaIo err) = err"
| "media_error_text d (MediaSerdeJson err) = err"
| "media_error_text d (MediaMatrixError err) = d_sdk d err"

fun convert_media_error :: "displays \<Rightarrow> media_error \<Rightarrow> chat_error" where
  "convert_media_error d (MediaMatrixError err) = convert_matrix_sdk_error d err"
| "convert_media_error d value = chat_err_msg EUnknown (media_error_text d value)"

fun memory_cache_error_text :: "displays \<Rightarrow> memory_cache_error \<Rightarrow> string" where
  "memory_cache_error_text d MessageReceiverDropped = ''receiver of the messages dropped''"
| "memory_cache_error_text d CachePoisoned = ''cache lock poisoned''"
| "memory_cache_error_text d UnableToAssembleMessage =
     ''unable to assemble a requested message''"
| "memory_cache_error_text d (McMatrixError err) = ''matrix sdk error: '' @ d_sdk d err"
| "memory_cache_error_text d (McPaginatorError err) = ''matrix sdk paginator error: '' @ err"

definition convert_memory_cache_error :: "displays \<Rightarrow> memory_cache_error \<Rightarrow> chat_error" where
  "convert_memory_cache_error d value = chat_err_msg EUnknown (memory_cache_error_text d value)"

fun error_into_chat_error :: "displays \<Rightarrow> error \<Rightarrow> chat_error" where
  "error_into_chat_error d NotImplemented = chat_err ENotImplemented"
| "error_into_chat_error d NotInitialized = chat_err ENotInitialized"
| "error_into_chat_error d AlreadyInitialized = chat_err EAlreadyInitialized"
| "error_into_chat_error d NotLoggedIn =
     chat_err_msg EAuthorization ''client is currently not logged in''"
| "error_into_chat_error d AlreadyLoggedIn = chat_err EAlreadyLoggedIn"
| "error_into_chat_error d SessionLoggedOut =
     chat_err_msg EAuthorization ''the session has been logged out''"
| "error_into_chat_error d Network = chat_err ENetwork"
| "error_into_chat_error d Timeout = chat_err ETimeout"
| "error_into_chat_error d Authorization = chat_err EAuthorization"
| "error_into_chat_error d InvalidUrl = chat_err EInvalidUrl"
| "error_into_chat_error d InvalidUserId = chat_err EInvalidUserId"
| "error_into_chat_error d UserNotFound = chat_err EUserNotFound"
| "error_into_chat_error d InvalidRoomId = chat_err ERoomNotFound"
| "error_into_chat_error d RoomNotFound = chat_err ERoomNotFound"
| "error_into_chat_error d InvalidMessageId = chat_err EInvalidMessageId"
| "error_into_chat_error d MessageNotFound = chat_err EMessageNotFound"
| "error_into_chat_error d ReactionNotFound = chat_err EReactionNotFound"
| "error_into_chat_error d InvalidThreadId = chat_err EThreadNotFound"
| "error_into_chat_error d ThreadNotFound = chat_err EThreadNotFound"
| "error_into_chat_error d InvalidPollType = chat_err_msg EUnknown ''invalid poll type''"
| "error_into_chat_error d InvalidPollOptions =
     chat_err_msg EUnknown ''invalid poll options. must be between 1 and 20''"
| "error_into_chat_error d VerificationFlowNotFound = chat_err EVerificationFlowNotFound"
| "error_into_chat_error d UnsupportedCrossSigningMethod =
     chat_err_msg EUnknown ''the requested cross signing method is not supported''"
| "error_into_chat_error d NoCrossSigningMethod =
     chat_err_msg EUnknown ''no supported cross signing method was set''"
| "error_into_chat_error d ConversionError = chat_err_msg EUnknown ''generic conversion error''"
| "error_into_chat_error d (InternalError err) = chat_err_msg EUnknown err"
| "error_into_chat_error d (MediaError err) = convert_media_error d err"
| "error_into_chat_error d (MemoryCacheError err) = convert_memory_cache_error d err"
| "error_into_chat_error d (MatrixSdkError err) = convert_matrix_sdk_error d err"
| "error_into_chat_error d (MatrixSdkClientBuildError err) = convert_client_build_error d err"
| "error_into_chat_error d (MatrixSdkHttpError err) = convert_http_error d err"
| "error_into_chat_error d (MatrixSdkEditError err) = convert_edit_error err"
| "error_into_chat_error d (MatrixSdkRecoveryError err) = convert_recovery_error d err"
| "error_into_chat_error d (MatrixSdkStoreError err) = convert_store_error err"
| "error_into_chat_error d (MatrixSdkCryptoStoreError err) = convert_crypto_store_error err"
| "error_into_chat_error d (MatrixSdkRefreshTokenError err) = convert_refresh_token_error err"
| "error_into_chat_error d (MatrixSdkRequestVerificationError err) =
     convert_request_verification_error d err"

section \<open>Properties\<close>

lemmas chat_err_defs = chat_err_def chat_err_msg_def

text \<open>
  The wrappers of one HTTP error: every way in which the SDK can hand it to the adapter
  as the cause of an error, except inside a memory cache error.
\<close>

definition http_wrappers :: "http_error \<Rightarrow> error list" where
  "http_wrappers err =
     [MatrixSdkError (SdkHttp err), MatrixSdkHttpError err,
      MatrixSdkClientBuildError (CbHttp err), MatrixSdkRecoveryError (RecSdk (SdkHttp err)),
      MatrixSdkRequestVerificationError (RvSdk (SdkHttp err)),
      MediaError (MediaMatrixError (SdkHttp err))]"

lemma http_wrappers_agree:
  "e \<in> set (http_wrappers err) \<Longrightarrow> error_into_chat_error d e = convert_http_error d err"
  by (auto simp: http_wrappers_def)

lemma convert_into_http_type [simp]:
  "ce_type (convert_into_http_error d x) = EAuthorization \<longleftrightarrow> x = IntoHttpAuthentication"
  by (cases x) (simp_all add: chat_err_defs)

lemma convert_http_error_authorization:
  "ce_type (convert_http_error d err) = EAuthorization \<longleftrightarrow>
     (\<exists>kind text. he_client_api err = Some (ApiError (Some kind) text) \<and>
        kind \<in> {MissingToken, Unauthorized} \<union> range UnknownToken)
   \<or> he_client_api err = None \<and> he_variant err = HeIntoHttp IntoHttpAuthentication"
proof (cases "he_client_api err")
  case None
  then show ?thesis
    by (cases "he_variant err")
      (auto simp: convert_http_error_def chat_err_msg_def)
next
  case (Some api)
  obtain kind s where api: "api = ApiError kind s" by (cases api)
  show ?thesis
  proof (cases kind)
    case None
    with Some api show ?thesis by (simp add: convert_http_error_def chat_err_defs)
  next
    case (Some k)
    with \<open>he_client_api err = Some api\<close> api show ?thesis
      by (cases k) (auto simp: convert_http_error_def chat_err_defs)
  qed
qed

end
