(* ===== verification/Utils.thy ===== *)
theory Utils
  imports Errors
begin

text \<open>
  utils.rs: merging of read markers, comparison of two lists, and parsing of timeline
  events.  The lemmas give each function its reference: \<open>merge_hash_map_max\<close> is the
  pointwise maximum, whatever the iteration order of the merged map, and the result of
  \<open>compare_lists\<close> is a patch from the old list to the new one.
\<close>

section \<open>Merging hash maps\<close>

text \<open>The loop over the entries of \<open>b\<close>, updating \<open>a\<close> in place.\<close>

fun merge_hash_map_max ::
  "('k, 'v::linorder) hmap \<Rightarrow> ('k, 'v) hmap \<Rightarrow> ('k, 'v) hmap" where
  "merge_hash_map_max a [] = a"
| "merge_hash_map_max a ((key, value) # b) =
     merge_hash_map_max
       (case hm_get a key of
          Some old \<Rightarrow> if old < value then hm_insert key value a else a
        | None \<Rightarrow> hm_insert key value a) b"

fun max_option :: "'v::linorder option \<Rightarrow> 'v option \<Rightarrow> 'v option" where
  "max_option None y = y"
| "max_option x None = x"
| "max_option (Some x) (Some y) = Some (max x y)"

lemma max_option_None2 [simp]: "max_option x None = x"
  by (cases x) auto

lemma max_option_comm: "max_option x y = max_option y x"
  by (cases x; cases y) (auto simp: max.commute)

lemma max_option_assoc: "max_option (max_option x y) z = max_option x (max_option y z)"
  by (cases x; cases y; cases z) (auto simp: max.assoc)

lemma merge_hash_map_max_wf [simp, hm_intros]:
  "hm_wf a \<Longrightarrow> hm_wf (merge_hash_map_max a b)"
  by (induction a b rule: merge_hash_map_max.induct) (auto split: option.splits)

lemma merge_hash_map_max_get:
  "hm_wf b \<Longrightarrow> hm_get (merge_hash_map_max a b) k = max_option (hm_get a k) (hm_get b k)"
proof (induction a b rule: merge_hash_map_max.induct)
  case (1 a)
  then show ?case by simp
next
  case (2 a key v b)
  then have b: "hm_wf b" "hm_get b key = None" by auto
  from "2.IH" [OF b(1)] show ?case
    using b(2) by (cases "hm_get a key") (auto simp: max_def split: option.splits)
qed

lemma merge_hash_map_max_Nil_iff:
  "merge_hash_map_max a b = [] \<longleftrightarrow> a = [] \<and> b = []"
proof (induction a b rule: merge_hash_map_max.induct)
  case (2 a key v b)
  then show ?case by (auto split: option.splits)
qed simp

section \<open>Comparing lists\<close>

record 'a comparison_result =
  cr_new :: "'a list"
  cr_updated :: "('a \<times> 'a) list"
  cr_deleted :: "'a list"

definition comparison_result_new :: "'a comparison_result" where
  "comparison_result_new = \<lparr>cr_new = [], cr_updated = [], cr_deleted = []\<rparr>"

text \<open>
  The inner loop: the first old item that is the same as the new one, with its index.
\<close>

fun find_same :: "('a \<Rightarrow> 'a \<Rightarrow> bool) \<Rightarrow> nat \<Rightarrow> 'a list \<Rightarrow> 'a \<Rightarrow> (nat \<times> 'a) option" where
  "find_same same i [] n = None"
| "find_same same i (old # olds) n =
     (if same old n then Some (i, old) else find_same same (Suc i) olds n)"

text \<open>
  The loop over the new items, with the result and the matched old indices it builds.
\<close>

fun compare_new_items ::
  "('a \<Rightarrow> 'a \<Rightarrow> bool) \<Rightarrow> ('a \<Rightarrow> 'a \<Rightarrow> bool) \<Rightarrow> 'a list \<Rightarrow> 'a list \<Rightarrow>
   'a comparison_result \<Rightarrow> nat list \<Rightarrow> 'a comparison_result \<times> nat list" where
  "compare_new_items same matches old [] r matched = (r, matched)"
| "compare_new_items same matches old (n # ns) r matched =
     (case find_same same 0 old n of
        Some (i, o') \<Rightarrow>
          compare_new_items same matches old ns
            (if matches o' n then r else r\<lparr>cr_updated := cr_updated r @ [(o', n)]\<rparr>)
            (matched @ [i])
      | None \<Rightarrow>
          compare_new_items same matches old ns (r\<lparr>cr_new := cr_new r @ [n]\<rparr>) matched)"

text \<open>The loop over the old items that collects the unmatched ones.\<close>

fun unmatched_items :: "nat list \<Rightarrow> nat \<Rightarrow> 'a list \<Rightarrow> 'a list" where
  "unmatched_items matched i [] = []"
| "unmatched_items matched i (old # olds) =
     (if i \<in> set matched then unmatched_items matched (Suc i) olds
      else old # unmatched_items matched (Suc i) olds)"

definition compare_lists ::
  "'a list \<Rightarrow> 'a list \<Rightarrow> ('a \<Rightarrow> 'a \<Rightarrow> bool) \<Rightarrow> ('a \<Rightarrow> 'a \<Rightarrow> bool) \<Rightarrow> 'a comparison_result" where
  "compare_lists old new same matches =
     (let (r, matched) = compare_new_items same matches old new comparison_result_new []
      in r\<lparr>cr_deleted := unmatched_items matched 0 old\<rparr>)"

definition compare_lists_partial_eq ::
  "'a list \<Rightarrow> 'a list \<Rightarrow> ('a \<Rightarrow> 'a \<Rightarrow> bool) \<Rightarrow> 'a comparison_result" where
  "compare_lists_partial_eq old new same = compare_lists old new same (\<lambda>a b. a = b)"

lemma find_same_find:
  "find_same same i olds n =
     (case find (\<lambda>o'. same o' n) olds of
        None \<Rightarrow> None
      | Some o' \<Rightarrow> Some (i + length (takeWhile (\<lambda>o'. \<not> same o' n) olds), o'))"
  by (induction olds arbitrary: i) (auto split: option.splits)

lemma compare_new_items_eq:
  "compare_new_items same matches old ns r matched =
     (r\<lparr>cr_new := cr_new r @ filter (\<lambda>n. find (\<lambda>o'. same o' n) old = None) ns,
        cr_updated := cr_updated r @
          concat (map (\<lambda>n. case find (\<lambda>o'. same o' n) old of
                     None \<Rightarrow> [] | Some o' \<Rightarrow> if matches o' n then [] else [(o', n)]) ns)\<rparr>,
      matched @ concat (map (\<lambda>n. case find (\<lambda>o'. same o' n) old of
                     None \<Rightarrow> []
                   | Some o' \<Rightarrow> [length (takeWhile (\<lambda>o'. \<not> same o' n) old)]) ns))"
  by (induction ns arbitrary: r matched) (auto simp: find_same_find split: option.splits)

lemma unmatched_items_eq:
  "unmatched_items matched i olds =
     map ((!) olds) (filter (\<lambda>j. i + j \<notin> set matched) [0..<length olds])"
proof (induction olds arbitrary: i)
  case Nil
  then show ?case by simp
next
  case (Cons old olds)
  have up: "[0..<length (old # olds)] = 0 # map Suc [0..<length olds]"
    by (simp add: upt_conv_Cons map_Suc_upt del: upt_Suc)
  show ?case
    unfolding up by (simp add: Cons.IH filter_map o_def)
qed

text \<open>
  Lists of key/value pairs with distinct keys, compared by key: the three parts of the
  result are the entries only in the new list, those whose value differs, and those only
  in the old list.
\<close>

lemma find_key:
  "find (\<lambda>o'. fst o' = k) old = map_option (Pair k) (hm_get old k)"
  by (induction old) auto

lemma filter_nth_upt:
  "map ((!) xs) (filter (\<lambda>j. Q (xs ! j)) [0..<length xs]) = filter Q xs"
  by (metis (no_types, lifting) comp_apply filter_cong filter_map map_nth)

lemma takeWhile_index:
  assumes "hm_wf old" "j < length old"
  shows "length (takeWhile (\<lambda>o'. fst o' \<noteq> k) old) = j \<and> hm_get old k \<noteq> None
         \<longleftrightarrow> fst (old ! j) = k"
proof (cases "hm_get old k")
  case None
  then show ?thesis
    using assms(2) by (auto simp: hm_get_None_iff hm_keys_def)
next
  case (Some v)
  let ?n = "length (takeWhile (\<lambda>o'. fst o' \<noteq> k) old)"
  from Some have "(k, v) \<in> set old" by (rule hm_get_in_set)
  then have "takeWhile (\<lambda>o'. fst o' \<noteq> k) old \<noteq> old"
    unfolding takeWhile_eq_all_conv by force
  then have n: "?n < length old"
    by (metis length_takeWhile_le nat_less_le take_all_iff takeWhile_eq_take)
  then have "fst (old ! ?n) = k"
    using nth_length_takeWhile [of "\<lambda>o'. fst o' \<noteq> k" old] by simp
  with assms n have "fst (old ! j) = k \<longleftrightarrow> ?n = j"
    by (metis distinct_conv_nth hm_keys_def hm_wf_def length_map nth_map)
  with Some show ?thesis by simp
qed

lemma compare_lists_keyed:
  assumes "hm_wf old"
  shows "compare_lists old new (\<lambda>a b. fst a = fst b) (\<lambda>a b. snd a = snd b) =
    \<lparr>cr_new = filter (\<lambda>n. hm_get old (fst n) = None) new,
     cr_updated = concat (map (\<lambda>n. case hm_get old (fst n) of
        None \<Rightarrow> [] | Some v \<Rightarrow> if v = snd n then [] else [((fst n, v), n)]) new),
     cr_deleted = filter (\<lambda>o'. hm_get new (fst o') = None) old\<rparr>"
proof -
  let ?m = "concat (map (\<lambda>n. case map_option (Pair (fst n)) (hm_get old (fst n)) of
      None \<Rightarrow> [] | Some _ \<Rightarrow> [length (takeWhile (\<lambda>o'. fst o' \<noteq> fst n) old)]) new)"
  have del: "j \<notin> set ?m \<longleftrightarrow> hm_get new (fst (old ! j)) = None" if "j < length old" for j
  proof -
    have "j \<in> set ?m \<longleftrightarrow> (\<exists>n \<in> set new. hm_get old (fst n) \<noteq> None \<and>
             length (takeWhile (\<lambda>o'. fst o' \<noteq> fst n) old) = j)"
      by (simp add: option.case_eq_if) (auto split: if_splits)
    also have "\<dots> \<longleftrightarrow> (\<exists>n \<in> set new. fst (old ! j) = fst n)"
      using takeWhile_index [OF assms that] by metis
    also have "\<dots> \<longleftrightarrow> hm_get new (fst (old ! j)) \<noteq> None"
      unfolding hm_get_None_iff hm_keys_def by (auto simp: image_iff)
    finally show ?thesis by blast
  qed
  have "unmatched_items ?m 0 old =
      map ((!) old) (filter (\<lambda>j. hm_get new (fst (old ! j)) = None) [0..<length old])"
    unfolding unmatched_items_eq
    by (rule arg_cong [where f = "map ((!) old)"], rule filter_cong [OF refl])
      (simp only: add_0 del set_upt atLeastLessThan_iff)
  also have "\<dots> = filter (\<lambda>o'. hm_get new (fst o') = None) old"
    by (rule filter_nth_upt [of _ "\<lambda>o'. hm_get new (fst o') = None"])
  finally have d: "unmatched_items ?m 0 old = filter (\<lambda>o'. hm_get new (fst o') = None) old" .
  have upd: "(\<lambda>n. case map_option (Pair (fst n)) (hm_get old (fst n)) of
        None \<Rightarrow> [] | Some o' \<Rightarrow> if snd o' = snd n then [] else [(o', n)]) =
      (\<lambda>n. case hm_get old (fst n) of
        None \<Rightarrow> [] | Some v \<Rightarrow> if v = snd n then [] else [((fst n, v), n)])"
    by (rule ext) (simp split: option.split)
  show ?thesis
    unfolding compare_lists_def compare_new_items_eq comparison_result_new_def find_key
    by (simp only: Let_def prod.case upd append_Nil d map_option_is_None
        comparison_result.simps)
qed

section \<open>Parsing timeline events\<close>

definition any_timeline_event_from_decrypted :: "parsers \<Rightarrow> raw \<Rightarrow> error + full_event" where
  "any_timeline_event_from_decrypted p event =
     (case parse_full p event of
        None \<Rightarrow> Inl (InternalError ''Unable to deserialize event'')
      | Some e \<Rightarrow> Inr e)"

definition any_timeline_event_from_plain_text ::
  "parsers \<Rightarrow> string \<Rightarrow> raw \<Rightarrow> error + full_event" where
  "any_timeline_event_from_plain_text p room event =
     (case parse_sync p event of
        None \<Rightarrow> Inl (InternalError ''Unable to deserialize event'')
      | Some e \<Rightarrow> Inr (into_full_event e room))"

fun timeline_kind_to_any_timeline_event ::
  "parsers \<Rightarrow> string \<Rightarrow> timeline_kind \<Rightarrow> error + full_event" where
  "timeline_kind_to_any_timeline_event p room (Decrypted event) =
     any_timeline_event_from_decrypted p event"
| "timeline_kind_to_any_timeline_event p room (PlainText event) =
     any_timeline_event_from_plain_text p room event"
| "timeline_kind_to_any_timeline_event p room (UnableToDecrypt _ _) =
     Inl (InternalError ''Unable to decrypt event'')"

definition timeline_event_to_any_timeline_event ::
  "parsers \<Rightarrow> string \<Rightarrow> timeline_event \<Rightarrow> error + full_event" where
  "timeline_event_to_any_timeline_event p room event =
     timeline_kind_to_any_timeline_event p room (te_kind event)"

end
