(* ===== verification/Bridge.thy ===== *)
theory Bridge
  imports Errors
begin

text \<open>
  bridge.rs: the conversions between the values of the Matrix SDK and those of the GOuda
  API.  The SDK's enumerations are open; \<open>\<dots>Other\<close> stands for the variants the code has
  no arm for.  The lemmas are the round trips of the conversions that have an inverse.
\<close>

datatype join_rule_m =
  JrInvite | JrKnock | JrPublic | JrPrivate | JrRestricted | JrKnockRestricted | JrOther

datatype membership_state_m = MsBan | MsInvite | MsJoin | MsKnock | MsLeave | MsOther

datatype presence_m = PmOffline | PmOnline | PmUnavailable | PmOther

fun join_rule_into_chat :: "join_rule_m \<Rightarrow> room_join_rule" where
  "join_rule_into_chat JrInvite = InviteRule"
| "join_rule_into_chat JrKnock = KnockRule"
| "join_rule_into_chat JrPublic = PublicRule"
| "join_rule_into_chat _ = InviteRule"

fun join_rule_into_matrix :: "room_join_rule \<Rightarrow> join_rule_m" where
  "join_rule_into_matrix InviteRule = JrInvite"
| "join_rule_into_matrix KnockRule = JrKnock"
| "join_rule_into_matrix PublicRule = JrPublic"

text \<open>The kinds of join rules have the same variants, without their data.\<close>

fun join_rule_kind_into_chat :: "join_rule_m \<Rightarrow> room_join_rule" where
  "join_rule_kind_into_chat JrInvite = InviteRule"
| "join_rule_kind_into_chat JrKnock = KnockRule"
| "join_rule_kind_into_chat JrPublic = PublicRule"
| "join_rule_kind_into_chat _ = InviteRule"

text \<open>An emoji of a short authentication string is its symbol and its description.\<close>

fun emojis_into_chat :: "(string \<times> string) list \<Rightarrow> (string \<times> string option) list" where
  "emojis_into_chat [] = []"
| "emojis_into_chat ((symbol, description) # es) =
     (symbol, Some description) # emojis_into_chat es"

fun membership_state_into_chat :: "membership_state_m \<Rightarrow> user_room_state" where
  "membership_state_into_chat MsBan = Banned"
| "membership_state_into_chat MsInvite = Invited"
| "membership_state_into_chat MsJoin = Joined"
| "membership_state_into_chat MsKnock = Knocked"
| "membership_state_into_chat MsLeave = Unjoined"
| "membership_state_into_chat _ = Unjoined"

fun presence_into_chat :: "presence_m \<Rightarrow> presence_state" where
  "presence_into_chat PmOffline = Offline"
| "presence_into_chat PmOnline = Online"
| "presence_into_chat PmUnavailable = Away"
| "presence_into_chat _ = Away"

fun presence_try_into_matrix :: "presence_state \<Rightarrow> error + presence_m" where
  "presence_try_into_matrix Away = Inr PmUnavailable"
| "presence_try_into_matrix Offline = Inr PmOffline"
| "presence_try_into_matrix Online = Inr PmOnline"
| "presence_try_into_matrix PresenceUnknown = Inl ConversionError"

fun membership_change_try_into_chat ::
  "membership_change_m \<Rightarrow> error + membership_change_kind" where
  "membership_change_try_into_chat ChJoined = Inr MJoined"
| "membership_change_try_into_chat ChInvitationAccepted = Inr MJoined"
| "membership_change_try_into_chat ChKnockAccepted = Inr MJoined"
| "membership_change_try_into_chat ChLeft = Inr MLeft"
| "membership_change_try_into_chat ChBanned = Inr MBanned"
| "membership_change_try_into_chat ChKickedAndBanned = Inr MBanned"
| "membership_change_try_into_chat ChKicked = Inr MKicked"
| "membership_change_try_into_chat ChInvited = Inr MInvited"
| "membership_change_try_into_chat ChKnocked = Inr MKnocked"
| "membership_change_try_into_chat _ = Inl ConversionError"

definition poll_option_into_matrix :: "poll_option \<Rightarrow> string \<times> string" where
  "poll_option_into_matrix p = (po_id p, po_text p)"

definition poll_answer_into_chat :: "string \<times> string \<Rightarrow> poll_option" where
  "poll_answer_into_chat a = \<lparr>po_id = fst a, po_text = snd a, po_voted = []\<rparr>"

fun poll_type_into_matrix :: "poll_type \<Rightarrow> poll_kind_m" where
  "poll_type_into_matrix Disclosed = PkDisclosed"
| "poll_type_into_matrix Undisclosed = PkUndisclosed"

fun poll_kind_try_into_chat :: "poll_kind_m \<Rightarrow> error + poll_type" where
  "poll_kind_try_into_chat PkDisclosed = Inr Disclosed"
| "poll_kind_try_into_chat PkUndisclosed = Inr Undisclosed"
| "poll_kind_try_into_chat _ = Inl InvalidPollType"

section \<open>Round trips\<close>

lemma join_rule_roundtrip [simp]:
  "join_rule_into_chat (join_rule_into_matrix r) = r"
  "join_rule_kind_into_chat (join_rule_into_matrix r) = r"
  by (cases r, simp_all)+

lemma poll_kind_roundtrip [simp]:
  "poll_kind_try_into_chat (poll_type_into_matrix t) = Inr t"
  by (cases t) simp_all

lemma presence_roundtrip:
  "presence_try_into_matrix p = Inr m \<Longrightarrow> presence_into_chat m = p"
  by (cases p) auto

lemma presence_try_into_matrix_Inl [simp]:
  "presence_try_into_matrix p = Inl e \<longleftrightarrow> p = PresenceUnknown \<and> e = ConversionError"
  by (cases p) auto

lemma poll_option_roundtrip:
  "poll_answer_into_chat (poll_option_into_matrix p) = p\<lparr>po_voted := []\<rparr>"
  by (simp add: poll_answer_into_chat_def poll_option_into_matrix_def)

lemma emojis_into_chat_map:
  "emojis_into_chat es = map (\<lambda>(s, d). (s, Some d)) es"
  by (induction es) auto

text \<open>The changes that the API does not show are exactly the ones with no arm.\<close>

lemma membership_change_Inl [simp]:
  "membership_change_try_into_chat c = Inl e \<longleftrightarrow>
     e = ConversionError \<and> (c = ChOther \<or> (\<exists>d a. c = ChProfileChanged d a))"
  by (cases c) auto

end
