(* ===== verification/Polls.thy ===== *)
theory Polls
  imports Utils Bridge "HOL-Library.Option_ord"
begin

text \<open>
  polls.rs: a poll message is assembled from its start event and its relations: later
  start events replace its content, responses add the votes of their sender, an end event
  completes it.

  The state is the poll content.  \<open>replace_content\<close> writes three fields before the
  conversion that can fail, so it returns the written content along with its result.
  The abstract view of a poll is \<open>voters\<close>, the set of users that voted for an option;
  the lemmas say what each operation does to it.
\<close>

section \<open>Building and replacing the content\<close>

definition assemble_poll_start :: "poll_start \<Rightarrow> error + poll" where
  "assemble_poll_start c =
     (case poll_kind_try_into_chat (ps_kind c) of
        Inl _ \<Rightarrow> Inl InvalidPollType
      | Inr t \<Rightarrow> Inr \<lparr>poll_kind = Some t, poll_completed = False,
                     poll_max_selections = saturating_u32 (ps_max_selections c),
                     poll_question = ps_question c,
                     poll_options = map poll_answer_into_chat (ps_answers c)\<rparr>)"

definition replace_content :: "poll \<Rightarrow> poll_start \<Rightarrow> (error + unit) \<times> poll" where
  "replace_content old new =
     (let old = old\<lparr>poll_max_selections := saturating_u32 (ps_max_selections new)\<rparr>;
          old = old\<lparr>poll_options := map poll_answer_into_chat (ps_answers new)\<rparr>;
          old = old\<lparr>poll_question := ps_question new\<rparr>
      in case poll_kind_try_into_chat (ps_kind new) of
           Inl e \<Rightarrow> (Inl e, old)
         | Inr t \<Rightarrow> (Inr (), old\<lparr>poll_kind := Some t\<rparr>))"

section \<open>Answers\<close>

definition clear_user_answers :: "poll \<Rightarrow> string \<Rightarrow> poll" where
  "clear_user_answers c user_id =
     c\<lparr>poll_options :=
        map (\<lambda>opt. opt\<lparr>po_voted := filter (\<lambda>u. u \<noteq> user_id) (po_voted opt)\<rparr>) (poll_options c)\<rparr>"

definition push_vote :: "string \<Rightarrow> poll_option \<Rightarrow> poll_option" where
  "push_vote sender opt =
     (if sender \<in> set (po_voted opt) then opt else opt\<lparr>po_voted := po_voted opt @ [sender]\<rparr>)"

text \<open>The loop over the accepted answers; an answer that names no option is skipped.\<close>

fun add_votes :: "string \<Rightarrow> string list \<Rightarrow> poll_option list \<Rightarrow> poll_option list" where
  "add_votes sender [] opts = opts"
| "add_votes sender (answer # answers) opts =
     add_votes sender answers (update_first (\<lambda>p. po_id p = answer) (push_vote sender) opts)"

definition add_answer :: "poll \<Rightarrow> string \<Rightarrow> string list \<Rightarrow> poll" where
  "add_answer content sender answers =
     (let c = clear_user_answers content sender
      in c\<lparr>poll_options :=
            add_votes sender (take (unat (poll_max_selections c)) answers) (poll_options c)\<rparr>)"

section \<open>Events of a poll\<close>

fun any_timeline_event_to_message_like :: "event_body \<Rightarrow> error + message_like" where
  "any_timeline_event_to_message_like (MessageLike m) = Inr m"
| "any_timeline_event_to_message_like (State _) = Inl (InternalError ''Event is not message like'')"

definition deserialize_poll_start_content ::
  "parsers \<Rightarrow> string \<Rightarrow> timeline_event \<Rightarrow> error + poll_start_content" where
  "deserialize_poll_start_content p room event =
     (case timeline_event_to_any_timeline_event p room event of
        Inl e \<Rightarrow> Inl e
      | Inr ev \<Rightarrow> (case any_timeline_event_to_message_like (ev_body ev) of
          Inl e \<Rightarrow> Inl e
        | Inr (UnstablePollStart (Original c)) \<Rightarrow> Inr c
        | Inr (UnstablePollStart RedactedContent) \<Rightarrow>
            Inl (InternalError ''Event with the given ID is redacted'')
        | Inr _ \<Rightarrow> Inl (InternalError ''Event with the given ID is not a poll start event'')))"

definition deserialize_poll_response_content ::
  "parsers \<Rightarrow> string \<Rightarrow> timeline_event \<Rightarrow> error + poll_response_content" where
  "deserialize_poll_response_content p room event =
     (case timeline_event_to_any_timeline_event p room event of
        Inl e \<Rightarrow> Inl e
      | Inr ev \<Rightarrow> (case any_timeline_event_to_message_like (ev_body ev) of
          Inl e \<Rightarrow> Inl e
        | Inr (UnstablePollResponse (Original c)) \<Rightarrow> Inr c
        | Inr (UnstablePollResponse RedactedContent) \<Rightarrow>
            Inl (InternalError ''Event with the given ID is redacted'')
        | Inr _ \<Rightarrow> Inl (InternalError ''Event with the given ID is not a poll start event'')))"

definition deserialize_poll_end_content ::
  "parsers \<Rightarrow> string \<Rightarrow> timeline_event \<Rightarrow> error + string" where
  "deserialize_poll_end_content p room event =
     (case timeline_event_to_any_timeline_event p room event of
        Inl e \<Rightarrow> Inl e
      | Inr ev \<Rightarrow> (case any_timeline_event_to_message_like (ev_body ev) of
          Inl e \<Rightarrow> Inl e
        | Inr (UnstablePollEnd (Original c)) \<Rightarrow> Inr c
        | Inr (UnstablePollEnd RedactedContent) \<Rightarrow>
            Inl (InternalError ''Event with the given ID is redacted'')
        | Inr _ \<Rightarrow> Inl (InternalError ''Event with the given ID is not a poll end event'')))"

text \<open>
  The body of the loop of \<open>assemble_poll\<close> over the sorted relations: the kinds are tried
  in turn, and only a failing replacement stops the loop.
\<close>

definition apply_relation ::
  "parsers \<Rightarrow> string \<Rightarrow> poll \<Rightarrow> timeline_event \<Rightarrow> error + poll" where
  "apply_relation p room content relation =
     (case te_sender relation of
        None \<Rightarrow> Inr content
      | Some sender \<Rightarrow>
          (case deserialize_poll_start_content p room relation of
             Inr ev \<Rightarrow>
               (case replace_content content (poll_start_of ev) of
                  (Inl e, _) \<Rightarrow> Inl e
                | (Inr _, c) \<Rightarrow> Inr c)
           | Inl _ \<Rightarrow>
               (case deserialize_poll_response_content p room relation of
                  Inr ev \<Rightarrow> Inr (add_answer content sender (pr_answers ev))
                | Inl _ \<Rightarrow>
                    (case deserialize_poll_end_content p room relation of
                       Inr _ \<Rightarrow> Inr (content\<lparr>poll_completed := True\<rparr>)
                     | Inl _ \<Rightarrow> Inr content))))"

fun apply_relations ::
  "parsers \<Rightarrow> string \<Rightarrow> poll \<Rightarrow> timeline_event list \<Rightarrow> error + poll" where
  "apply_relations p room content [] = Inr content"
| "apply_relations p room content (relation # relations) =
     (case apply_relation p room content relation of
        Inl e \<Rightarrow> Inl e
      | Inr c \<Rightarrow> apply_relations p room c relations)"

text \<open>
  \<open>assemble_poll\<close>: \<open>fetched\<close> is what the SDK's \<open>load_or_fetch_event_with_relations\<close> gives
  for the poll.
\<close>

definition assemble_poll ::
  "parsers \<Rightarrow> string \<Rightarrow> sdk_error + timeline_event \<times> timeline_event list \<Rightarrow> error + poll" where
  "assemble_poll p room fetched =
     (case fetched of
        Inl e \<Rightarrow> Inl (MatrixSdkError e)
      | Inr (event, relations) \<Rightarrow>
          (case deserialize_poll_start_content p room event of
             Inl e \<Rightarrow> Inl e
           | Inr c \<Rightarrow>
               (case assemble_poll_start (poll_start_of c) of
                  Inl e \<Rightarrow> Inl e
                | Inr content \<Rightarrow>
                    apply_relations p room content (sort_key te_timestamp relations))))"

section \<open>Votes\<close>

text \<open>The users that voted for an option, as the first option with that ID records them.\<close>

definition voters :: "poll \<Rightarrow> string \<Rightarrow> string set" where
  "voters c i = (case find (\<lambda>p. po_id p = i) (poll_options c) of
      None \<Rightarrow> {} | Some p \<Rightarrow> set (po_voted p))"

definition has_option :: "poll \<Rightarrow> string \<Rightarrow> bool" where
  "has_option c i \<longleftrightarrow> find (\<lambda>p. po_id p = i) (poll_options c) \<noteq> None"

definition votes_distinct :: "poll \<Rightarrow> bool" where
  "votes_distinct c \<longleftrightarrow> (\<forall>p \<in> set (poll_options c). distinct (po_voted p))"

lemma po_id_push_vote [simp]: "po_id (push_vote s p) = po_id p"
  by (simp add: push_vote_def)

lemma po_voted_push_vote [simp]: "set (po_voted (push_vote s p)) = insert s (set (po_voted p))"
  by (auto simp: push_vote_def)

lemma find_map_option:
  "(\<And>x. p (f x) = p x) \<Longrightarrow> find p (map f xs) = map_option f (find p xs)"
  by (induction xs) auto

lemma find_push_vote:
  "find (\<lambda>p. po_id p = i) (update_first (\<lambda>p. po_id p = a) (push_vote s) opts) =
     map_option (if i = a then push_vote s else id) (find (\<lambda>p. po_id p = i) opts)"
  by (induction opts) (auto simp: option.map_id option.map_ident id_def)

lemma find_add_votes:
  "\<exists>f. find (\<lambda>p. po_id p = i) (add_votes s as opts) = map_option f (find (\<lambda>p. po_id p = i) opts) \<and>
       (\<forall>p. set (po_voted (f p)) = set (po_voted p) \<union> (if i \<in> set as then {s} else {}))"
proof (induction as arbitrary: opts)
  case Nil
  show ?case by (rule exI [of _ id]) (simp add: option.map_id id_def option.map_ident)
next
  case (Cons a as)
  from Cons.IH [of "update_first (\<lambda>p. po_id p = a) (push_vote s) opts"] obtain f where
    f: "find (\<lambda>p. po_id p = i)
            (add_votes s as (update_first (\<lambda>p. po_id p = a) (push_vote s) opts)) =
          map_option f (find (\<lambda>p. po_id p = i) (update_first (\<lambda>p. po_id p = a) (push_vote s) opts))"
      "\<And>p. set (po_voted (f p)) = set (po_voted p) \<union> (if i \<in> set as then {s} else {})"
    by auto
  show ?case
    by (rule exI [of _ "f \<circ> (if i = a then push_vote s else id)"])
      (auto simp: f find_push_vote option.map_comp o_def option.map_ident id_def)
qed

lemma clear_user_answers_find:
  "find (\<lambda>p. po_id p = i) (poll_options (clear_user_answers c u)) =
     map_option (\<lambda>opt. opt\<lparr>po_voted := filter (\<lambda>v. v \<noteq> u) (po_voted opt)\<rparr>)
       (find (\<lambda>p. po_id p = i) (poll_options c))"
  by (simp add: clear_user_answers_def find_map_option)

lemma clear_user_answers_max [simp]:
  "poll_max_selections (clear_user_answers c u) = poll_max_selections c"
  by (simp add: clear_user_answers_def)

lemma add_answer_fields [simp]:
  "poll_max_selections (add_answer c s as) = poll_max_selections c"
  "poll_kind (add_answer c s as) = poll_kind c"
  "poll_completed (add_answer c s as) = poll_completed c"
  "poll_question (add_answer c s as) = poll_question c"
  by (simp_all add: add_answer_def clear_user_answers_def Let_def)

lemma voters_add_answer:
  "voters (add_answer c s as) i =
     (if has_option c i
      then (voters c i - {s}) \<union>
           (if i \<in> set (take (unat (poll_max_selections c)) as) then {s} else {})
      else {})"
proof -
  let ?opts = "poll_options (clear_user_answers c s)"
  let ?as = "take (unat (poll_max_selections c)) as"
  obtain f where f:
    "find (\<lambda>p. po_id p = i) (add_votes s ?as ?opts) = map_option f (find (\<lambda>p. po_id p = i) ?opts)"
    "\<And>p. set (po_voted (f p)) = set (po_voted p) \<union> (if i \<in> set ?as then {s} else {})"
    using find_add_votes [of i s ?as ?opts] by blast
  show ?thesis
    unfolding voters_def has_option_def
    by (cases "find (\<lambda>p. po_id p = i) (poll_options c)")
      (auto simp: add_answer_def Let_def f clear_user_answers_find)
qed

lemma has_option_add_answer [simp]: "has_option (add_answer c s as) i = has_option c i"
proof -
  have "find (\<lambda>p. po_id p = i) (add_votes s bs opts) = None \<longleftrightarrow>
        find (\<lambda>p. po_id p = i) opts = None" for bs opts
    using find_add_votes [of i s bs opts] by auto
  then show ?thesis
    by (simp add: has_option_def add_answer_def Let_def clear_user_answers_find)
qed

text \<open>Only the last answer of a user counts.\<close>

lemma clear_push_vote:
  "(push_vote s p)\<lparr>po_voted := filter (\<lambda>u. u \<noteq> s) (po_voted (push_vote s p))\<rparr> =
     p\<lparr>po_voted := filter (\<lambda>u. u \<noteq> s) (po_voted p)\<rparr>"
  by (simp add: push_vote_def)

lemma clear_add_votes:
  "map (\<lambda>opt. opt\<lparr>po_voted := filter (\<lambda>u. u \<noteq> s) (po_voted opt)\<rparr>) (add_votes s as opts) =
   map (\<lambda>opt. opt\<lparr>po_voted := filter (\<lambda>u. u \<noteq> s) (po_voted opt)\<rparr>) opts"
proof (induction as arbitrary: opts)
  case (Cons a as)
  then show ?case
    by (simp add: map_update_first_same clear_push_vote)
qed simp

lemma clear_user_answers_add_answer:
  "clear_user_answers (add_answer c s as) s = clear_user_answers c s"
  by (simp add: add_answer_def clear_user_answers_def Let_def clear_add_votes)

lemma add_answer_last_wins:
  "add_answer (add_answer c s as) s bs = add_answer c s bs"
  by (simp add: add_answer_def [of "add_answer c s as"] clear_user_answers_add_answer
      add_answer_def [of c s bs])

text \<open>No user is counted twice for an option.\<close>

lemma votes_distinct_update:
  "\<forall>p \<in> set opts. distinct (po_voted p) \<Longrightarrow>
   \<forall>p \<in> set (update_first q (push_vote s) opts). distinct (po_voted p)"
  by (induction opts) (auto simp: push_vote_def)

lemma votes_distinct_add_votes:
  "\<forall>p \<in> set opts. distinct (po_voted p) \<Longrightarrow>
   \<forall>p \<in> set (add_votes s as opts). distinct (po_voted p)"
proof (induction as arbitrary: opts)
  case (Cons a as)
  from Cons.IH [OF votes_distinct_update [OF Cons.prems]] show ?case by simp
qed simp

lemma votes_distinct_add_answer:
  "votes_distinct c \<Longrightarrow> votes_distinct (add_answer c s as)"
  unfolding votes_distinct_def add_answer_def Let_def
  by (simp, rule votes_distinct_add_votes) (simp add: clear_user_answers_def)

lemma votes_distinct_options_map:
  "poll_options c = map poll_answer_into_chat xs \<Longrightarrow> votes_distinct c"
  by (auto simp: votes_distinct_def poll_answer_into_chat_def)

section \<open>The votes of a user\<close>

text \<open>
  The abstract view of a poll maps each user to the options they voted for; an answer
  replaces the entry of its sender and changes no other.
\<close>

definition votes_of :: "poll \<Rightarrow> string \<Rightarrow> string set" where
  "votes_of c u = {i. u \<in> voters c i}"

definition accepted_options :: "poll \<Rightarrow> string list \<Rightarrow> string set" where
  "accepted_options c as = {i \<in> set (take (unat (poll_max_selections c)) as). has_option c i}"

lemma has_option_voters: "u \<in> voters c i \<Longrightarrow> has_option c i"
  by (auto simp: voters_def has_option_def split: option.splits)

lemma votes_of_add_answer_fun:
  "votes_of (add_answer c s as) = (votes_of c)(s := accepted_options c as)"
proof (rule ext, rule set_eqI)
  fix u i
  show "i \<in> votes_of (add_answer c s as) u \<longleftrightarrow>
        i \<in> ((votes_of c)(s := accepted_options c as)) u"
    using has_option_voters [of u c i]
    by (auto simp: votes_of_def accepted_options_def voters_add_answer)
qed

lemma accepted_options_add_answer [simp]:
  "accepted_options (add_answer c s as) bs = accepted_options c bs"
  by (simp add: accepted_options_def)

lemma card_accepted_options: "card (accepted_options c as) \<le> unat (poll_max_selections c)"
proof -
  let ?t = "take (unat (poll_max_selections c)) as"
  have "card (accepted_options c as) \<le> card (set ?t)"
    by (rule card_mono) (auto simp: accepted_options_def)
  also have "\<dots> \<le> length ?t" by (rule card_length)
  finally show ?thesis by simp
qed

text \<open>A sequence of responses: the last one of each user decides.\<close>

fun add_answers :: "poll \<Rightarrow> (string \<times> string list) list \<Rightarrow> poll" where
  "add_answers c [] = c"
| "add_answers c ((s, as) # rs) = add_answers (add_answer c s as) rs"

lemma add_answers_completed [simp]: "poll_completed (add_answers c rs) = poll_completed c"
  by (induction c rs rule: add_answers.induct) auto

lemma votes_of_add_answers:
  "votes_of (add_answers c rs) u =
     (case map_of (rev rs) u of None \<Rightarrow> votes_of c u | Some as \<Rightarrow> accepted_options c as)"
proof (induction c rs rule: add_answers.induct)
  case (2 c s as rs)
  then show ?case
    by (auto simp: votes_of_add_answer_fun map_add_def split: option.splits)
qed simp

text \<open>A relation that \<open>assemble_poll\<close> takes for a response, with its sender and answers.\<close>

definition response_of ::
  "parsers \<Rightarrow> string \<Rightarrow> timeline_event \<Rightarrow> (string \<times> string list) option" where
  "response_of p room rel =
     (case (te_sender rel, deserialize_poll_start_content p room rel,
            deserialize_poll_response_content p room rel) of
        (Some s, Inl _, Inr r) \<Rightarrow> Some (s, pr_answers r)
      | _ \<Rightarrow> None)"

lemma apply_relation_response:
  "response_of p room rel = Some (s, as) \<Longrightarrow>
   apply_relation p room c rel = Inr (add_answer c s as)"
  by (auto simp: response_of_def apply_relation_def split: option.splits sum.splits)

lemma apply_relations_responses:
  "map (response_of p room) rels = map Some rs \<Longrightarrow>
   apply_relations p room c rels = Inr (add_answers c rs)"
proof (induction rels arbitrary: c rs)
  case (Cons rel rels)
  then obtain s as rs' where "rs = (s, as) # rs'" "response_of p room rel = Some (s, as)"
    "map (response_of p room) rels = map Some rs'"
    by (cases rs) auto
  with Cons.IH show ?case by (simp add: apply_relation_response)
qed simp

text \<open>An applied relation keeps \<open>votes_distinct\<close>; so the assembled poll has it.\<close>

lemma votes_distinct_replace_content:
  "votes_distinct (snd (replace_content c b))"
  by (auto simp: replace_content_def Let_def votes_distinct_def poll_answer_into_chat_def
      split: sum.splits)

lemma votes_distinct_completed [simp]:
  "votes_distinct (c\<lparr>poll_completed := b\<rparr>) = votes_distinct c"
  by (simp add: votes_distinct_def)

lemma votes_distinct_apply_relation:
  assumes "votes_distinct c" "apply_relation p room c rel = Inr c'"
  shows "votes_distinct c'"
proof -
  have "replace_content c b = (r, c') \<Longrightarrow> votes_distinct c'" for b r
    using votes_distinct_replace_content [of c b] by simp
  with assms show ?thesis
    by (auto simp: apply_relation_def votes_distinct_add_answer
        split: option.splits sum.splits prod.splits)
qed

lemma votes_distinct_apply_relations:
  "votes_distinct c \<Longrightarrow> apply_relations p room c rels = Inr c' \<Longrightarrow> votes_distinct c'"
  by (induction rels arbitrary: c)
    (auto split: sum.splits dest: votes_distinct_apply_relation)

lemma assemble_poll_start_fields:
  "assemble_poll_start b = Inr c \<Longrightarrow>
   votes_distinct c \<and> \<not> poll_completed c \<and> votes_of c u = {} \<and>
   unat (poll_max_selections c) = min (unat (ps_max_selections b)) (2 ^ 32 - 1)"
  by (auto simp: assemble_poll_start_def votes_distinct_def votes_of_def voters_def
      poll_answer_into_chat_def unat_saturating_u32 find_Some_iff in_set_conv_nth
      split: sum.splits option.splits)

section \<open>Properties\<close>

text \<open>
  The answer of a user replaces all earlier votes of that user by the options
  the answer names, among its first \<open>max_selections\<close> entries, and changes the votes of no
  other user: \<open>add_answer\<close> is an update of the map from users to votes.
\<close>

theorem add_answer_refines_vote_update:
  "votes_of (add_answer c s as) =
     (votes_of c)(s := {i \<in> set (take (unat (poll_max_selections c)) as). has_option c i})"
  by (simp only: votes_of_add_answer_fun accepted_options_def)

text \<open>
  Claim C15: In an assembled poll whose relations are responses, the votes of a user are
  the existing options named by the chronologically last response of that user, cut to
  \<open>max_selections\<close> entries; a user without a response has no vote, nobody has more votes
  than allowed, nobody is counted twice for an option, and the poll is not completed.
\<close>

theorem assemble_poll_last_response_wins:
  assumes "assemble_poll p room (Inr (event, rels)) = Inr c"
    and "map (response_of p room) (sort_key te_timestamp rels) = map Some rs"
  shows "votes_of c u = (case map_of (rev rs) u of
           None \<Rightarrow> {} | Some as \<Rightarrow> accepted_options c as)
       \<and> card (votes_of c u) \<le> unat (poll_max_selections c)
       \<and> votes_distinct c \<and> \<not> poll_completed c"
proof -
  obtain b c0 where b: "deserialize_poll_start_content p room event = Inr b"
    and c0: "assemble_poll_start (poll_start_of b) = Inr c0"
    and ap: "apply_relations p room c0 (sort_key te_timestamp rels) = Inr c"
    using assms(1) by (auto simp: assemble_poll_def split: sum.splits)
  have c: "c = add_answers c0 rs"
    using ap apply_relations_responses [OF assms(2), of c0] by simp
  have acc: "accepted_options (add_answers c0 rs) as = accepted_options c0 as" for as
    by (induction c0 rs rule: add_answers.induct) auto
  have v: "votes_of c u = (case map_of (rev rs) u of
           None \<Rightarrow> {} | Some as \<Rightarrow> accepted_options c as)"
    using assemble_poll_start_fields [OF c0, of u]
    by (auto simp: c votes_of_add_answers acc split: option.splits)
  then have "card (votes_of c u) \<le> unat (poll_max_selections c)"
    using card_accepted_options [of c] by (auto split: option.splits)
  with v show ?thesis
    using votes_distinct_apply_relations [OF _ ap] assemble_poll_start_fields [OF c0]
    by (auto simp: c)
qed

text \<open>A concrete poll: two users answer, one of them twice.\<close>

definition example_poll_start :: poll_start where
  "example_poll_start = \<lparr>ps_question = ''Q'', ps_kind = PkDisclosed, ps_max_selections = 1,
     ps_answers = [(''a'', ''A''), (''b'', ''B'')]\<rparr>"

definition example_response :: "string list \<Rightarrow> sync_event" where
  "example_response as = \<lparr>ev_id = ''e'', ev_sender = ''u'', ev_ts = 0,
     ev_body = MessageLike (UnstablePollResponse
       (Original \<lparr>pr_poll_id = ''p'', pr_answers = as\<rparr>))\<rparr>"

definition example_parsers :: parsers where
  "example_parsers = \<lparr>parse_full = (\<lambda>_. None),
     parse_sync = (\<lambda>t. if t = ''start'' then Some \<lparr>ev_id = ''p'', ev_sender = ''o'', ev_ts = 0,
         ev_body = MessageLike (UnstablePollStart (Original (PsNew example_poll_start)))\<rparr>
       else Some (example_response [t])),
     parse_encrypted = (\<lambda>_. None)\<rparr>"

definition example_timeline :: "string \<Rightarrow> string \<Rightarrow> u64 \<Rightarrow> timeline_event" where
  "example_timeline t s ts = \<lparr>te_kind = PlainText t, te_event_id = Some ''x'',
     te_sender = Some s, te_timestamp = Some ts\<rparr>"

lemmas poll_example_defs =
  example_parsers_def example_timeline_def example_response_def example_poll_start_def
  deserialize_poll_start_content_def deserialize_poll_response_content_def
  timeline_event_to_any_timeline_event_def any_timeline_event_from_plain_text_def
  into_full_event_def response_of_def

lemma assemble_poll_last_response_wins_witness:
  "\<exists>c. assemble_poll example_parsers ''r''
       (Inr (example_timeline ''start'' ''o'' 0,
             [example_timeline ''b'' ''u'' 3, example_timeline ''a'' ''v'' 2,
              example_timeline ''a'' ''u'' 1])) = Inr c
     \<and> votes_of c ''u'' = accepted_options c [''b'']"
proof -
  let ?rels = "[example_timeline ''b'' ''u'' 3, example_timeline ''a'' ''v'' 2,
      example_timeline ''a'' ''u'' 1]"
  let ?rs = "[(''u'', [''a'']), (''v'', [''a'']), (''u'', [''b''])]"
  have sorted: "sort_key te_timestamp ?rels = rev ?rels"
    by (simp add: example_timeline_def word_le_nat_alt)
  have m: "map (response_of example_parsers ''r'') (sort_key te_timestamp ?rels) = map Some ?rs"
    unfolding sorted by (simp add: poll_example_defs)
  obtain c where c: "assemble_poll example_parsers ''r''
      (Inr (example_timeline ''start'' ''o'' 0, ?rels)) = Inr c"
    using apply_relations_responses [OF m]
    by (simp add: assemble_poll_def poll_example_defs assemble_poll_start_def)
  from assemble_poll_last_response_wins [OF c m, of "''u''"] c show ?thesis by auto
qed

end
