(* ===== verification/FileSystem.thy ===== *)
theory FileSystem
  imports Prelude
begin

text \<open>
  What the code uses of the standard library: paths (\<open>std::path\<close>), files
  (\<open>tokio::fs\<close>) and random bytes (\<open>OsRng\<close>).

  A path is its root flag and its components; repeated separators and \<open>.\<close> components
  are dropped, as \<open>Path::components\<close> does.  The file system maps the resolved components
  to the bytes of a file; \<open>fs_outcomes\<close> decides, operation by operation, whether the
  environment lets it succeed: an operation can fail, and a failing write can leave any
  prefix of its data behind (\<open>IoTorn\<close>), as a write that is not atomic does when the disk
  is full or the process dies.  An empty list of outcomes means that nothing fails.
\<close>

section \<open>Paths\<close>

type_synonym bytes = "u8 list"

record path =
  path_abs :: bool
  path_comps :: "string list"

definition slash :: char where
  "slash = CHR ''/''"

fun split_path :: "string \<Rightarrow> string \<Rightarrow> string list" where
  "split_path acc [] = [rev acc]"
| "split_path acc (c # cs) =
     (if c = slash then rev acc # split_path [] cs else split_path (c # acc) cs)"

definition parse_path :: "string \<Rightarrow> path" where
  "parse_path s =
     \<lparr>path_abs = (case s of [] \<Rightarrow> False | c # _ \<Rightarrow> c = slash),
      path_comps = filter (\<lambda>c. c \<noteq> '''' \<and> c \<noteq> ''.'') (split_path '''' s)\<rparr>"

fun render_comps :: "string list \<Rightarrow> string" where
  "render_comps [] = ''''"
| "render_comps [c] = c"
| "render_comps (c # cs) = c @ slash # render_comps cs"

text \<open>\<open>Path::to_string_lossy\<close>.\<close>

definition render_path :: "path \<Rightarrow> string" where
  "render_path p = (if path_abs p then [slash] else '''') @ render_comps (path_comps p)"

text \<open>\<open>Path::join\<close>: an absolute argument replaces the path.\<close>

definition path_join :: "path \<Rightarrow> path \<Rightarrow> path" where
  "path_join p q = (if path_abs q then q else p\<lparr>path_comps := path_comps p @ path_comps q\<rparr>)"

definition path_file_name :: "path \<Rightarrow> string option" where
  "path_file_name p =
     (if path_comps p = [] \<or> last (path_comps p) = ''..'' then None
      else Some (last (path_comps p)))"

text \<open>\<open>PathBuf::set_file_name\<close>: drops the file name, if there is one, and joins.\<close>

definition path_set_file_name :: "path \<Rightarrow> string \<Rightarrow> path" where
  "path_set_file_name p name =
     path_join (if path_file_name p = None then p else p\<lparr>path_comps := butlast (path_comps p)\<rparr>)
       (parse_path name)"

text \<open>\<open>Path::extension\<close>: what follows the last dot of the file name, unless it starts it.\<close>

definition path_extension :: "path \<Rightarrow> string option" where
  "path_extension p =
     (case path_file_name p of
        None \<Rightarrow> None
      | Some n \<Rightarrow>
          (let ext = rev (takeWhile (\<lambda>c. c \<noteq> CHR ''.'') (rev n))
           in if length ext + 1 < length n then Some ext else None))"

text \<open>A plain name: one component, which is what the code takes IDs and names for.\<close>

definition plain_name :: "string \<Rightarrow> bool" where
  "plain_name n \<longleftrightarrow> n \<noteq> '''' \<and> n \<noteq> ''.'' \<and> n \<noteq> ''..'' \<and> slash \<notin> set n"

lemma split_path_no_slash:
  "slash \<notin> set s \<Longrightarrow> split_path acc s = [rev acc @ s]"
  by (induction acc s rule: split_path.induct) auto

lemma parse_path_plain:
  "plain_name n \<Longrightarrow> parse_path n = \<lparr>path_abs = False, path_comps = [n]\<rparr>"
  by (cases n) (auto simp: plain_name_def parse_path_def split_path_no_slash)

lemma path_comps_join_plain:
  "plain_name n \<Longrightarrow>
   path_join p (parse_path n) = p\<lparr>path_comps := path_comps p @ [n]\<rparr>"
  by (simp add: parse_path_plain path_join_def)

lemma set_file_name_join_plain:
  "plain_name m \<Longrightarrow> plain_name n \<Longrightarrow>
   path_set_file_name (path_join p (parse_path m)) n = path_join p (parse_path n)"
  by (simp add: path_set_file_name_def path_file_name_def path_comps_join_plain)
    (simp add: plain_name_def)

section \<open>Files\<close>

datatype outcome = IoOk | IoFail string | IoTorn nat string

record fs =
  fs_cwd :: "string list"
  fs_files :: "(string list, bytes) hmap"
  fs_dirs :: "string list list"
  fs_outcomes :: "outcome list"

fun resolve_comps :: "string list \<Rightarrow> string list \<Rightarrow> string list" where
  "resolve_comps base [] = base"
| "resolve_comps base (c # cs) =
     resolve_comps (if c = ''..'' then butlast base else base @ [c]) cs"

definition fs_key :: "fs \<Rightarrow> path \<Rightarrow> string list" where
  "fs_key fs p = resolve_comps (if path_abs p then [] else fs_cwd fs) (path_comps p)"

lemma resolve_comps_append: "resolve_comps base (xs @ ys) = resolve_comps (resolve_comps base xs) ys"
  by (induction base xs rule: resolve_comps.induct) auto

text \<open>The outcome of the next operation.\<close>

definition next_outcome :: "fs \<Rightarrow> outcome \<times> fs" where
  "next_outcome fs =
     (case fs_outcomes fs of
        [] \<Rightarrow> (IoOk, fs)
      | out # outs \<Rightarrow> (out, fs\<lparr>fs_outcomes := outs\<rparr>))"

definition is_dir :: "fs \<Rightarrow> string list \<Rightarrow> bool" where
  "is_dir fs k \<longleftrightarrow> k = [] \<or> k \<in> set (fs_dirs fs)"

definition file_at :: "fs \<Rightarrow> path \<Rightarrow> bytes option" where
  "file_at fs p = hm_get (fs_files fs) (fs_key fs p)"

definition not_found :: string where
  "not_found = ''No such file or directory''"

definition fs_read :: "path \<Rightarrow> fs \<Rightarrow> (string + bytes) \<times> fs" where
  "fs_read p fs =
     (case next_outcome fs of
        (IoOk, fs) \<Rightarrow>
          (case file_at fs p of None \<Rightarrow> (Inl not_found, fs) | Some d \<Rightarrow> (Inr d, fs))
      | (IoFail e, fs) \<Rightarrow> (Inl e, fs)
      | (IoTorn _ e, fs) \<Rightarrow> (Inl e, fs))"

definition fs_put :: "path \<Rightarrow> bytes \<Rightarrow> fs \<Rightarrow> fs" where
  "fs_put p d fs = fs\<lparr>fs_files := hm_insert (fs_key fs p) d (fs_files fs)\<rparr>"

text \<open>\<open>tokio::fs::write\<close> creates or truncates the file and writes the data.\<close>

definition fs_write :: "path \<Rightarrow> bytes \<Rightarrow> fs \<Rightarrow> (string + unit) \<times> fs" where
  "fs_write p d fs =
     (case next_outcome fs of
        (out, fs) \<Rightarrow>
          if is_dir fs (fs_key fs p) then (Inl ''Is a directory'', fs)
          else if \<not> is_dir fs (butlast (fs_key fs p)) then (Inl not_found, fs)
          else (case out of
                  IoOk \<Rightarrow> (Inr (), fs_put p d fs)
                | IoFail e \<Rightarrow> (Inl e, fs)
                | IoTorn n e \<Rightarrow> (Inl e, fs_put p (take n d) fs)))"

definition fs_remove_file :: "path \<Rightarrow> fs \<Rightarrow> (string + unit) \<times> fs" where
  "fs_remove_file p fs =
     (case next_outcome fs of
        (IoOk, fs) \<Rightarrow>
          (case file_at fs p of
             None \<Rightarrow> (Inl not_found, fs)
           | Some _ \<Rightarrow> (Inr (), fs\<lparr>fs_files := hm_remove (fs_key fs p) (fs_files fs)\<rparr>))
      | (IoFail e, fs) \<Rightarrow> (Inl e, fs)
      | (IoTorn _ e, fs) \<Rightarrow> (Inl e, fs))"

text \<open>\<open>tokio::fs::rename\<close> of a file, which replaces the target.\<close>

definition fs_rename :: "path \<Rightarrow> path \<Rightarrow> fs \<Rightarrow> (string + unit) \<times> fs" where
  "fs_rename src dst fs =
     (case next_outcome fs of
        (IoOk, fs) \<Rightarrow>
          (case file_at fs src of
             None \<Rightarrow> (Inl not_found, fs)
           | Some d \<Rightarrow>
               if is_dir fs (fs_key fs dst) then (Inl ''Is a directory'', fs)
               else if \<not> is_dir fs (butlast (fs_key fs dst)) then (Inl not_found, fs)
               else (Inr (), fs_put dst d
                       (fs\<lparr>fs_files := hm_remove (fs_key fs src) (fs_files fs)\<rparr>)))
      | (IoFail e, fs) \<Rightarrow> (Inl e, fs)
      | (IoTorn _ e, fs) \<Rightarrow> (Inl e, fs))"

text \<open>\<open>Path::exists\<close> turns an error into false.\<close>

definition fs_exists :: "path \<Rightarrow> fs \<Rightarrow> bool \<times> fs" where
  "fs_exists p fs =
     (case next_outcome fs of
        (IoOk, fs) \<Rightarrow> (file_at fs p \<noteq> None \<or> is_dir fs (fs_key fs p), fs)
      | (_, fs) \<Rightarrow> (False, fs))"

fun prefixes_of :: "'a list \<Rightarrow> 'a list list" where
  "prefixes_of [] = [[]]"
| "prefixes_of (x # xs) = [] # map ((#) x) (prefixes_of xs)"

definition fs_create_dir_all :: "path \<Rightarrow> fs \<Rightarrow> (string + unit) \<times> fs" where
  "fs_create_dir_all p fs =
     (case next_outcome fs of
        (IoOk, fs) \<Rightarrow>
          if \<exists>k \<in> set (prefixes_of (fs_key fs p)). hm_get (fs_files fs) k \<noteq> None
          then (Inl ''Not a directory'', fs)
          else (Inr (), fs\<lparr>fs_dirs :=
                 filter (\<lambda>k. k \<notin> set (fs_dirs fs)) (prefixes_of (fs_key fs p)) @ fs_dirs fs\<rparr>)
      | (IoFail e, fs) \<Rightarrow> (Inl e, fs)
      | (IoTorn _ e, fs) \<Rightarrow> (Inl e, fs))"

text \<open>Nothing fails any more.\<close>

definition faultless :: "fs \<Rightarrow> bool" where
  "faultless fs \<longleftrightarrow> fs_outcomes fs = []"

lemma next_outcome_faultless [simp]: "faultless fs \<Longrightarrow> next_outcome fs = (IoOk, fs)"
  by (simp add: faultless_def next_outcome_def)

lemma next_outcome_keeps:
  "next_outcome fs = (out, fs') \<Longrightarrow>
   fs_files fs' = fs_files fs \<and> fs_dirs fs' = fs_dirs fs \<and> fs_cwd fs' = fs_cwd fs"
  by (auto simp: next_outcome_def split: list.splits)

lemma faultless_put [simp]: "faultless (fs_put p d fs) = faultless fs"
  by (simp add: faultless_def fs_put_def)

lemma faultless_files [simp]: "faultless (fs\<lparr>fs_files := x\<rparr>) = faultless fs"
  "faultless (fs\<lparr>fs_dirs := y\<rparr>) = faultless fs"
  by (simp_all add: faultless_def)

lemma fs_key_cong: "fs_cwd fs' = fs_cwd fs \<Longrightarrow> fs_key fs' = fs_key fs"
  by (rule ext) (simp add: fs_key_def)

lemma fs_key_put [simp]: "fs_key (fs_put p d fs) = fs_key fs"
  by (rule fs_key_cong) (simp add: fs_put_def)

lemma fs_key_update [simp]:
  "fs_key (fs\<lparr>fs_files := x\<rparr>) = fs_key fs" "fs_key (fs\<lparr>fs_dirs := y\<rparr>) = fs_key fs"
  "fs_key (fs\<lparr>fs_outcomes := z\<rparr>) = fs_key fs"
  by (rule fs_key_cong, simp)+

lemma is_dir_update [simp]:
  "is_dir (fs\<lparr>fs_files := x\<rparr>) = is_dir fs" "is_dir (fs_put p d fs) = is_dir fs"
  by (rule ext, simp add: is_dir_def fs_put_def)+

lemma file_at_put [simp]:
  "file_at (fs_put p d fs) q = (if fs_key fs q = fs_key fs p then Some d else file_at fs q)"
  by (simp add: file_at_def) (simp add: fs_put_def)

lemma file_at_keeps:
  "next_outcome fs = (out, fs') \<Longrightarrow> file_at fs' p = file_at fs p \<and> fs_key fs' = fs_key fs"
  using next_outcome_keeps [of fs out fs'] fs_key_cong [of fs' fs]
  by (auto simp: file_at_def)

lemma fs_read_keeps:
  "fs_read p fs = (r, fs') \<Longrightarrow>
   file_at fs' q = file_at fs q \<and> fs_key fs' = fs_key fs \<and> fs_dirs fs' = fs_dirs fs"
proof -
  assume r: "fs_read p fs = (r, fs')"
  obtain out f where o: "next_outcome fs = (out, f)" by (cases "next_outcome fs")
  from r o have "fs' = f"
    by (auto simp: fs_read_def split: outcome.splits option.splits)
  with file_at_keeps [OF o] next_outcome_keeps [OF o] show ?thesis by simp
qed

lemma fs_read_faultless:
  "faultless fs \<Longrightarrow> fs_read p fs =
     (case file_at fs p of None \<Rightarrow> (Inl not_found, fs) | Some d \<Rightarrow> (Inr d, fs))"
  by (simp add: fs_read_def)

lemma fs_read_InrD: "fs_read p fs = (Inr d, fs') \<Longrightarrow> file_at fs p = Some d"
proof -
  assume r: "fs_read p fs = (Inr d, fs')"
  obtain out f where o: "next_outcome fs = (out, f)" by (cases "next_outcome fs")
  from r o file_at_keeps [OF o, of p] show ?thesis
    by (auto simp: fs_read_def split: outcome.splits option.splits)
qed

lemma fs_write_ok:
  "fs_write p d fs = (Inr (), fs') \<Longrightarrow> file_at fs' p = Some d"
  by (auto simp: fs_write_def split: prod.splits outcome.splits if_splits)

lemma fs_write_other:
  "fs_write p d fs = (r, fs') \<Longrightarrow> fs_key fs q \<noteq> fs_key fs p \<Longrightarrow> file_at fs' q = file_at fs q"
proof -
  assume r: "fs_write p d fs = (r, fs')" and q: "fs_key fs q \<noteq> fs_key fs p"
  obtain out f where o: "next_outcome fs = (out, f)" by (cases "next_outcome fs")
  from r q o file_at_keeps [OF o, of q] show ?thesis
    by (auto simp: fs_write_def split: outcome.splits if_splits)
qed

lemma fs_write_keeps:
  "fs_write p d fs = (r, fs') \<Longrightarrow> fs_key fs' = fs_key fs \<and> fs_dirs fs' = fs_dirs fs"
proof -
  assume r: "fs_write p d fs = (r, fs')"
  obtain out f where o: "next_outcome fs = (out, f)" by (cases "next_outcome fs")
  have "fs_dirs (fs_put q x f) = fs_dirs f" for q x by (simp add: fs_put_def)
  with r o file_at_keeps [OF o] next_outcome_keeps [OF o] show ?thesis
    by (auto simp: fs_write_def split: outcome.splits if_splits)
qed

text \<open>A failed write leaves the old file or a prefix of the new data.\<close>

lemma fs_write_cases:
  assumes "fs_write p d fs = (r, fs')"
  obtains "r = Inr ()" "file_at fs' p = Some d"
  | e where "r = Inl e" "file_at fs' p = file_at fs p"
  | e n where "r = Inl e" "file_at fs' p = Some (take n d)"
proof -
  obtain out f where o: "next_outcome fs = (out, f)" by (cases "next_outcome fs")
  note k = file_at_keeps [OF o, of p]
  show thesis
    using assms o k that
    by (cases out) (auto simp: fs_write_def split: if_splits)
qed

lemma fs_write_faultless:
  "faultless fs \<Longrightarrow> \<not> is_dir fs (fs_key fs p) \<Longrightarrow> is_dir fs (butlast (fs_key fs p)) \<Longrightarrow>
   fs_write p d fs = (Inr (), fs_put p d fs)"
  by (simp add: fs_write_def)

text \<open>A directory that exists is created again without an effect.\<close>

definition dir_ready :: "path \<Rightarrow> fs \<Rightarrow> bool" where
  "dir_ready p fs \<longleftrightarrow> set (prefixes_of (fs_key fs p)) \<subseteq> set (fs_dirs fs) \<and>
     (\<forall>k \<in> set (prefixes_of (fs_key fs p)). hm_get (fs_files fs) k = None)"

lemma in_prefixes_of: "xs \<in> set (prefixes_of xs)"
  by (induction xs) auto

lemma fs_create_dir_all_ready:
  "faultless fs \<Longrightarrow> dir_ready p fs \<Longrightarrow> fs_create_dir_all p fs = (Inr (), fs)"
proof -
  assume f: "faultless fs" and d: "dir_ready p fs"
  then have "filter (\<lambda>k. k \<notin> set (fs_dirs fs)) (prefixes_of (fs_key fs p)) = []"
    by (auto simp: dir_ready_def filter_empty_conv)
  with f d show ?thesis
    by (cases fs) (auto simp: fs_create_dir_all_def dir_ready_def)
qed

lemma dir_ready_is_dir: "dir_ready p fs \<Longrightarrow> is_dir fs (fs_key fs p)"
  using in_prefixes_of [of "fs_key fs p"] by (auto simp: dir_ready_def is_dir_def)

lemma hm_remove_None: "hm_get m k = None \<Longrightarrow> hm_remove k m = m"
  by (induction m) (auto simp: hm_remove_def split: if_splits)

lemma fs_remove_file_faultless:
  "faultless fs \<Longrightarrow> snd (fs_remove_file p fs) = fs\<lparr>fs_files := hm_remove (fs_key fs p) (fs_files fs)\<rparr>"
  by (cases fs) (auto simp: fs_remove_file_def file_at_def hm_remove_None split: option.splits)

lemma file_at_remove [simp]:
  "file_at (fs\<lparr>fs_files := hm_remove k (fs_files fs)\<rparr>) p =
     (if fs_key fs p = k then None else file_at fs p)"
  by (simp add: file_at_def)

section \<open>Random bytes\<close>

text \<open>The process's view of its environment: the file system and the random source.\<close>

record world =
  w_fs :: fs
  w_random :: "nat \<Rightarrow> u8"
  w_drawn :: nat

definition fill_bytes :: "nat \<Rightarrow> world \<Rightarrow> bytes \<times> world" where
  "fill_bytes n w =
     (map (w_random w) [w_drawn w ..< w_drawn w + n], w\<lparr>w_drawn := w_drawn w + n\<rparr>)"

lemma length_fill_bytes: "fill_bytes n w = (bs, w') \<Longrightarrow> length bs = n \<and> w_fs w' = w_fs w"
  by (auto simp: fill_bytes_def)

text \<open>Running an operation of the file system in the world.\<close>

definition on_fs :: "(fs \<Rightarrow> 'a \<times> fs) \<Rightarrow> world \<Rightarrow> 'a \<times> world" where
  "on_fs f w = (case f (w_fs w) of (r, fs) \<Rightarrow> (r, w\<lparr>w_fs := fs\<rparr>))"

end
