(* ===== verification/Crypto.thy ===== *)
theory Crypto
  imports FileSystem Errors
begin

text \<open>
  crypto.rs: a file is sealed with a passphrase as 16 bytes of salt, 12 bytes of nonce and
  the ciphertext.  The key derivation (argon2) and the cipher (AES-256-GCM) are the
  parameters \<open>crypto_env\<close>; what the code relies on is \<open>cipher_ok\<close>: deciphering inverts
  enciphering under the same key and nonce.  The locale \<open>sealed_store\<close> is the contract
  the other components use: what has been stored under a passphrase is loaded under it,
  and a failed store leaves the old file or a prefix of the new one.
\<close>

section \<open>The operations\<close>

record crypto_env =
  hash_password :: "bytes \<Rightarrow> bytes \<Rightarrow> bytes option"
  cipher_encrypt :: "bytes \<Rightarrow> bytes \<Rightarrow> bytes \<Rightarrow> bytes option"
  cipher_decrypt :: "bytes \<Rightarrow> bytes \<Rightarrow> bytes \<Rightarrow> bytes option"

definition cipher_ok :: "crypto_env \<Rightarrow> bool" where
  "cipher_ok env \<longleftrightarrow>
     (\<forall>key nonce d c. cipher_encrypt env key nonce d = Some c \<longrightarrow>
        cipher_decrypt env key nonce c = Some d)"

definition as_bytes :: "string \<Rightarrow> bytes" where
  "as_bytes s = map of_char s"

definition derive_new_key ::
  "crypto_env \<Rightarrow> string \<Rightarrow> world \<Rightarrow> (crypto_error + bytes \<times> bytes) \<times> world" where
  "derive_new_key env passphrase w =
     (let (salt, w) = fill_bytes 16 w
      in case hash_password env (as_bytes passphrase) salt of
           None \<Rightarrow> (Inl CryptoHash, w)
         | Some key \<Rightarrow> (Inr (salt, key), w))"

definition derive_key :: "crypto_env \<Rightarrow> string \<Rightarrow> bytes \<Rightarrow> crypto_error + bytes" where
  "derive_key env passphrase salt =
     (case hash_password env (as_bytes passphrase) salt of
        None \<Rightarrow> Inl CryptoHash
      | Some key \<Rightarrow> Inr key)"

definition encrypt ::
  "crypto_env \<Rightarrow> bytes \<Rightarrow> bytes \<Rightarrow> world \<Rightarrow> (crypto_error + bytes) \<times> world" where
  "encrypt env data key w =
     (let (nonce, w) = fill_bytes 12 w
      in case cipher_encrypt env key nonce data of
           None \<Rightarrow> (Inl CryptoCipher, w)
         | Some ciphertext \<Rightarrow> (Inr (nonce @ ciphertext), w))"

text \<open>\<open>read_exact\<close> on what is left of a reader.\<close>

definition read_exact :: "nat \<Rightarrow> bytes \<Rightarrow> crypto_error + bytes \<times> bytes" where
  "read_exact n reader =
     (if length reader < n then Inl (CryptoIo ''early eof'')
      else Inr (take n reader, drop n reader))"

definition decrypt :: "crypto_env \<Rightarrow> bytes \<Rightarrow> bytes \<Rightarrow> crypto_error + bytes" where
  "decrypt env reader key =
     (case read_exact 12 reader of
        Inl e \<Rightarrow> Inl e
      | Inr (nonce, data) \<Rightarrow>
          (case cipher_decrypt env key nonce data of
             None \<Rightarrow> Inl CryptoCipher
           | Some d \<Rightarrow> Inr d))"

text \<open>What \<open>decrypt_file\<close> does with the content of the opened file.\<close>

definition decrypt_content :: "crypto_env \<Rightarrow> string \<Rightarrow> bytes \<Rightarrow> crypto_error + bytes" where
  "decrypt_content env passphrase reader =
     (case read_exact 16 reader of
        Inl e \<Rightarrow> Inl e
      | Inr (salt, reader) \<Rightarrow>
          (case derive_key env passphrase salt of
             Inl e \<Rightarrow> Inl e
           | Inr key \<Rightarrow> decrypt env reader key))"

definition decrypt_file ::
  "crypto_env \<Rightarrow> path \<Rightarrow> string \<Rightarrow> world \<Rightarrow> (crypto_error + bytes) \<times> world" where
  "decrypt_file env file passphrase w =
     (case on_fs (fs_read file) w of
        (Inl e, w) \<Rightarrow> (Inl (CryptoIo e), w)
      | (Inr reader, w) \<Rightarrow> (decrypt_content env passphrase reader, w))"

definition encrypt_to_file ::
  "crypto_env \<Rightarrow> path \<Rightarrow> string \<Rightarrow> bytes \<Rightarrow> world \<Rightarrow> (crypto_error + unit) \<times> world" where
  "encrypt_to_file env file passphrase decrypted w =
     and_then (derive_new_key env passphrase w) (\<lambda>(salt, key) w.
       and_then (encrypt env decrypted key w) (\<lambda>encrypted w.
         case on_fs (fs_write file (salt @ encrypted)) w of
           (Inl e, w) \<Rightarrow> (Inl (CryptoIo e), w)
         | (Inr _, w) \<Rightarrow> (Inr (), w)))"

section \<open>The contract of a sealed store\<close>

text \<open>
  \<open>seals e pw b d\<close>: the bytes \<open>b\<close> of a file hold the data \<open>d\<close> under the passphrase.
\<close>

locale sealed_store =
  fixes env_ok :: "'e \<Rightarrow> bool"
    and seals :: "'e \<Rightarrow> string \<Rightarrow> bytes \<Rightarrow> bytes \<Rightarrow> bool"
    and store :: "'e \<Rightarrow> path \<Rightarrow> string \<Rightarrow> bytes \<Rightarrow> world \<Rightarrow> (crypto_error + unit) \<times> world"
    and load :: "'e \<Rightarrow> path \<Rightarrow> string \<Rightarrow> world \<Rightarrow> (crypto_error + bytes) \<times> world"
  assumes store_file: "store e p pw d w = (r, w') \<Longrightarrow>
      (\<exists>b. r = Inr () \<and> seals e pw b d \<and> file_at (w_fs w') p = Some b)
    \<or> (\<exists>x. r = Inl x \<and> file_at (w_fs w') p = file_at (w_fs w) p)
    \<or> (\<exists>x n b. r = Inl x \<and> seals e pw b d \<and> file_at (w_fs w') p = Some (take n b))"
    and store_frame: "store e p pw d w = (r, w') \<Longrightarrow>
      fs_key (w_fs w') = fs_key (w_fs w) \<and>
      (fs_key (w_fs w) q \<noteq> fs_key (w_fs w) p \<longrightarrow> file_at (w_fs w') q = file_at (w_fs w) q)"
    and load_frame: "load e p pw w = (l, w') \<Longrightarrow>
      fs_key (w_fs w') = fs_key (w_fs w) \<and> file_at (w_fs w') q = file_at (w_fs w) q"
    and load_sealed: "env_ok e \<Longrightarrow> faultless (w_fs w) \<Longrightarrow>
      file_at (w_fs w) p = Some b \<Longrightarrow> seals e pw b d \<Longrightarrow> fst (load e p pw w) = Inr d"
    and load_missing: "file_at (w_fs w) p = None \<Longrightarrow> \<exists>x. fst (load e p pw w) = Inl x"
begin

lemma store_ok_sealed:
  "store e p pw d w = (Inr (), w') \<Longrightarrow>
   \<exists>b. seals e pw b d \<and> file_at (w_fs w') p = Some b"
  using store_file by fastforce

lemma store_load:
  "env_ok e \<Longrightarrow> store e p pw d w = (Inr (), w') \<Longrightarrow> faultless (w_fs w') \<Longrightarrow>
   fst (load e p pw w') = Inr d"
  using store_ok_sealed load_sealed by blast

text \<open>Two files of one directory do not disturb each other.\<close>

lemma store_other_file:
  "store e p pw d w = (r, w') \<Longrightarrow> fs_key (w_fs w) q \<noteq> fs_key (w_fs w) p \<Longrightarrow>
   file_at (w_fs w') q = file_at (w_fs w) q"
  using store_frame by blast

lemma store_store_load_first:
  assumes "env_ok e" "store e p pw d w = (Inr (), w1)" "store e q pw d' w1 = (r, w2)"
    and "fs_key (w_fs w) p \<noteq> fs_key (w_fs w) q" "faultless (w_fs w2)"
  shows "fst (load e p pw w2) = Inr d"
proof -
  from store_ok_sealed [OF assms(2)] obtain b where
    b: "seals e pw b d" "file_at (w_fs w1) p = Some b" by blast
  have "fs_key (w_fs w1) = fs_key (w_fs w)" using store_frame [OF assms(2)] by blast
  then have "file_at (w_fs w2) p = Some b"
    using store_other_file [OF assms(3), of p] assms(4) b(2) by simp
  then show ?thesis using load_sealed [OF assms(1,5)] b(1) by blast
qed

end

section \<open>The contract holds\<close>

definition sealed_by :: "crypto_env \<Rightarrow> string \<Rightarrow> bytes \<Rightarrow> bytes \<Rightarrow> bool" where
  "sealed_by env pw b d \<longleftrightarrow>
     (\<exists>salt nonce key c. b = salt @ nonce @ c \<and> length salt = 16 \<and> length nonce = 12 \<and>
        hash_password env (as_bytes pw) salt = Some key \<and>
        cipher_encrypt env key nonce d = Some c)"

lemma decrypt_content_sealed:
  "cipher_ok env \<Longrightarrow> sealed_by env pw b d \<Longrightarrow> decrypt_content env pw b = Inr d"
  by (auto simp: sealed_by_def cipher_ok_def decrypt_content_def read_exact_def
      derive_key_def decrypt_def)

lemma encrypt_to_file_cases:
  assumes "encrypt_to_file env p pw d w = (r, w')"
  obtains (early) x where "r = Inl x" "w_fs w' = w_fs w"
  | (written) b r' where "sealed_by env pw b d" "fs_write p b (w_fs w) = (r', w_fs w')"
      "r = (case r' of Inl e \<Rightarrow> Inl (CryptoIo e) | Inr _ \<Rightarrow> Inr ())"
proof -
  obtain salt w1 where s: "fill_bytes 16 w = (salt, w1)" by (cases "fill_bytes 16 w")
  obtain nonce w2 where n: "fill_bytes 12 w1 = (nonce, w2)" by (cases "fill_bytes 12 w1")
  note l = length_fill_bytes [OF s] length_fill_bytes [OF n]
  show thesis
  proof (cases "hash_password env (as_bytes pw) salt")
    case None
    with assms s l show thesis
      by (intro early) (auto simp: encrypt_to_file_def derive_new_key_def)
  next
    case (Some key)
    show thesis
    proof (cases "cipher_encrypt env key nonce d")
      case None
      with assms s n l Some show thesis
        by (intro early) (auto simp: encrypt_to_file_def derive_new_key_def encrypt_def)
    next
      case (Some c)
      with \<open>hash_password env (as_bytes pw) salt = Some key\<close> l
      have "sealed_by env pw (salt @ nonce @ c) d" by (auto simp: sealed_by_def)
      with assms s n l Some \<open>hash_password env (as_bytes pw) salt = Some key\<close> show thesis
        by (intro written [of "salt @ nonce @ c" "fst (fs_write p (salt @ nonce @ c) (w_fs w))"])
          (auto simp: encrypt_to_file_def derive_new_key_def encrypt_def on_fs_def
            split: prod.splits sum.splits)
    qed
  qed
qed

lemma decrypt_file_world:
  "decrypt_file env p pw w = (r, w') \<Longrightarrow>
   fs_key (w_fs w') = fs_key (w_fs w) \<and> file_at (w_fs w') q = file_at (w_fs w) q"
  using fs_read_keeps [of p "w_fs w"]
  by (auto simp: decrypt_file_def on_fs_def split: prod.splits sum.splits)

interpretation crypto: sealed_store cipher_ok sealed_by encrypt_to_file decrypt_file
proof (unfold_locales, goal_cases)
  case (1 e p pw d w r w')
  then show ?case
  proof (cases rule: encrypt_to_file_cases)
    case (early x)
    then show ?thesis by simp
  next
    case (written b r')
    from written(2) show ?thesis
      by (rule fs_write_cases) (use written in auto)
  qed
next
  case (2 e p pw d w r w' q)
  then show ?case
  proof (cases rule: encrypt_to_file_cases)
    case (early x)
    then show ?thesis by simp
  next
    case (written b r')
    then show ?thesis
      using fs_write_keeps [OF written(2)] fs_write_other [OF written(2)] by blast
  qed
next
  case (3 e p pw w r w' q)
  then show ?case by (rule decrypt_file_world)
next
  case (4 e w p b pw d)
  then show ?case
    by (simp add: decrypt_file_def on_fs_def fs_read_faultless decrypt_content_sealed)
next
  case (5 w p e pw)
  have "fst (fs_read p (w_fs w)) \<noteq> Inr d" for d
    using 5 fs_read_InrD [of p "w_fs w" d] by (cases "fs_read p (w_fs w)") auto
  then show ?case
    by (cases "fs_read p (w_fs w)"; cases "fst (fs_read p (w_fs w))")
      (auto simp: decrypt_file_def on_fs_def)
qed

section \<open>Properties\<close>

text \<open>
  What \<open>encrypt_to_file\<close> has written is what \<open>decrypt_file\<close> returns under the same
  passphrase, and the store touches no other file.
\<close>

theorem encrypt_decrypt_file_roundtrip:
  assumes "cipher_ok env"
    and "encrypt_to_file env p pw d w = (Inr (), w')"
    and "faultless (w_fs w')"
  shows "fst (decrypt_file env p pw w') = Inr d \<and>
    (fs_key (w_fs w) q \<noteq> fs_key (w_fs w) p \<longrightarrow> file_at (w_fs w') q = file_at (w_fs w) q)"
  using crypto.store_load [OF assms] crypto.store_other_file [OF assms(2), of q] by simp

text \<open>A cipher that meets the hypothesis: every byte is shifted by the first byte of the key.\<close>

definition toy_crypto :: crypto_env where
  "toy_crypto = \<lparr>hash_password = (\<lambda>pw salt. Some (pw @ salt)),
     cipher_encrypt = (\<lambda>key nonce d. Some (map (\<lambda>b. b + hd key) d)),
     cipher_decrypt = (\<lambda>key nonce c. Some (map (\<lambda>b. b - hd key) c))\<rparr>"

lemma toy_crypto_ok: "cipher_ok toy_crypto"
  by (simp add: cipher_ok_def toy_crypto_def o_def)

definition toy_world :: world where
  "toy_world = \<lparr>w_fs = \<lparr>fs_cwd = [], fs_files = [], fs_dirs = [[''c'']], fs_outcomes = []\<rparr>,
     w_random = (\<lambda>i. of_nat i), w_drawn = 0\<rparr>"

definition toy_path :: path where
  "toy_path = \<lparr>path_abs = True, path_comps = [''c'', ''info'']\<rparr>"

lemmas toy_defs = toy_crypto_def toy_world_def toy_path_def encrypt_to_file_def
  derive_new_key_def encrypt_def fill_bytes_def on_fs_def fs_write_def next_outcome_def
  fs_key_def is_dir_def fs_put_def faultless_def

lemma encrypt_decrypt_file_roundtrip_witness:
  "\<exists>w'. encrypt_to_file toy_crypto toy_path ''pw'' [1, 2, 3] toy_world = (Inr (), w') \<and>
     fst (decrypt_file toy_crypto toy_path ''pw'' w') = Inr [1, 2, 3]"
proof -
  obtain w' where w: "encrypt_to_file toy_crypto toy_path ''pw'' [1, 2, 3] toy_world = (Inr (), w')"
    and f: "faultless (w_fs w')"
    by (simp add: toy_defs)
  from encrypt_decrypt_file_roundtrip [OF toy_crypto_ok w f, of toy_path] w show ?thesis by blast
qed

lemma decrypt_short_file:
  assumes "file_at (w_fs w) p = Some b" "length b < 28"
  shows "\<exists>e. fst (decrypt_file env p pw w) = Inl e"
proof (cases "fs_read p (w_fs w)")
  case (Pair r fs')
  show ?thesis
  proof (cases r)
    case (Inl e)
    with Pair show ?thesis by (simp add: decrypt_file_def on_fs_def)
  next
    case (Inr d)
    with Pair assms have "d = b" using fs_read_InrD by fastforce
    with assms(2) have "\<exists>e. decrypt_content env pw d = Inl e"
      by (auto simp: decrypt_content_def read_exact_def derive_key_def decrypt_def
          split: option.splits)
    with Pair Inr show ?thesis by (simp add: decrypt_file_def on_fs_def)
  qed
qed

text \<open>
  A file that is too short for a salt and a nonce is never taken for data: reading
  it is an error, whatever the cipher does.
\<close>

theorem decrypt_file_too_short:
  assumes "file_at (w_fs w) p = Some b" "length b < 28"
  shows "\<exists>e. fst (decrypt_file env p pw w) = Inl e"
  using assms by (rule decrypt_short_file)

lemma decrypt_file_too_short_witness:
  "\<exists>e. fst (decrypt_file toy_crypto toy_path ''pw''
     (toy_world\<lparr>w_fs := fs_put toy_path [1, 2, 3] (w_fs toy_world)\<rparr>)) = Inl e"
  by (rule decrypt_file_too_short [of _ _ "[1, 2, 3]"]) simp_all

end
