(* ===== verification/ProtoCache.thy ===== *)
theory ProtoCache
  imports Crypto
begin

text \<open>
  proto_cache.rs: the persistent cache of the application's state.  The state is the
  in-memory data behind two locks and two sealed files, \<open>info\<close> (the sync token and the
  user status) and \<open>users\<close>.  The codecs are parameters: protobuf for the users, JSON for
  the info, and the update of a user by a change event (all outside src/).

  The lemmas show that the length-prefixed list format is read back, that the cache holds
  at most one entry per user and lookups see the last one, that saving and opening again
  restores the state, and in which order the files reach the disk.
\<close>

section \<open>Lists of messages\<close>

text \<open>\<open>u64::to_le_bytes\<close> and \<open>u64::from_le_bytes\<close>.\<close>

definition u64_to_le_bytes :: "u64 \<Rightarrow> bytes" where
  "u64_to_le_bytes x = map (\<lambda>i. ucast (drop_bit (8 * i) x)) [0..<8]"

definition u64_from_le_bytes :: "bytes \<Rightarrow> u64" where
  "u64_from_le_bytes bs = of_nat (foldr (\<lambda>b n. unat b + 256 * n) bs 0)"

fun encode_proto_messages :: "('m \<Rightarrow> bytes) \<Rightarrow> 'm list \<Rightarrow> bytes" where
  "encode_proto_messages enc [] = []"
| "encode_proto_messages enc (msg # msgs) =
     (let encoded = enc msg; size = u64_to_le_bytes (of_nat (length encoded))
      in size @ encoded @ encode_proto_messages enc msgs)"

text \<open>
  The decoding loop.  It consumes at least the eight bytes of a length per round, so it
  ends on every input.
\<close>

function decode_proto_messages ::
  "(bytes \<Rightarrow> string + 'm) \<Rightarrow> 'm list \<Rightarrow> bytes \<Rightarrow> proto_cache_error + 'm list" where
  "decode_proto_messages dec result encoded =
     (if encoded = [] then Inr result
      else if length encoded < 8 then Inl PcDecodeError
      else (let size = unat (u64_from_le_bytes (take 8 encoded));
                encoded = drop 8 encoded
            in if length encoded < size then Inl PcDecodeError
               else (case dec (take size encoded) of
                       Inl e \<Rightarrow> Inl (PcProstDecodeError e)
                     | Inr message \<Rightarrow>
                         decode_proto_messages dec (result @ [message]) (drop size encoded))))"
  by pat_completeness auto
termination by (relation "measure (\<lambda>(dec, result, encoded). length encoded)") auto

declare decode_proto_messages.simps [simp del]

lemma horner_bytes:
  "foldr (\<lambda>i n. (m div 256 ^ i) mod 256 + 256 * n) [j..<j + k] (0::nat) =
     (m div 256 ^ j) mod 256 ^ k"
proof (induction k arbitrary: j)
  case (Suc k)
  have "[j..<j + Suc k] = j # [Suc j..<Suc j + k]" by (simp add: upt_conv_Cons)
  moreover have "m div 256 ^ j div 256 = m div 256 div 256 ^ j"
    by (simp only: div_mult2_eq [symmetric] mult.commute)
  ultimately show ?case
    using Suc.IH [of "Suc j"]
    by (simp add: mod_mult2_eq div_mult2_eq mult.commute [of _ 256] del: upt_Suc)
qed simp

lemma u64_le_bytes_roundtrip: "u64_from_le_bytes (u64_to_le_bytes x) = x"
proof -
  have b: "unat (ucast (drop_bit (8 * i) x) :: u8) = (unat x div 256 ^ i) mod 256" for i
  proof -
    have "unat (ucast (drop_bit (8 * i) x) :: u8) = take_bit 8 (drop_bit (8 * i) (unat x))"
      using take_bit_nat_eq_self [OF unsigned_less [of x]]
      by (simp add: unsigned_ucast_eq unsigned_drop_bit_eq)
    also have "\<dots> = (unat x div 256 ^ i) mod 256"
      by (simp add: drop_bit_eq_div take_bit_eq_mod power_mult)
    finally show ?thesis .
  qed
  have "foldr (\<lambda>b n. unat b + 256 * n) (u64_to_le_bytes x) 0 =
        foldr (\<lambda>i n. (unat x div 256 ^ i) mod 256 + 256 * n) [0..<0 + 8] 0"
    unfolding u64_to_le_bytes_def foldr_map by (simp add: o_def b)
  also have "\<dots> = unat x mod 256 ^ 8" by (simp only: horner_bytes) simp
  also have "\<dots> = unat x"
  proof -
    have "unat x < 2 ^ LENGTH(64)" by (rule unsigned_less)
    then show ?thesis by simp
  qed
  finally show ?thesis by (simp add: u64_from_le_bytes_def)
qed

lemma length_u64_to_le_bytes [simp]: "length (u64_to_le_bytes x) = 8"
  by (simp add: u64_to_le_bytes_def)

lemma u64_to_le_bytes_not_Nil [simp]: "u64_to_le_bytes x \<noteq> []"
  by (simp add: u64_to_le_bytes_def)

lemma decode_one:
  assumes "length (enc m) < 2 ^ 64" "dec (enc m) = Inr m"
  shows "decode_proto_messages dec acc (encode_proto_messages enc (m # ms) @ tail) =
         decode_proto_messages dec (acc @ [m]) (encode_proto_messages enc ms @ tail)"
  using assms
  by (subst decode_proto_messages.simps)
    (simp add: Let_def u64_le_bytes_roundtrip unat_of_nat)

text \<open>Decoding reads every encoded message and goes on with what follows.\<close>

lemma decode_encode_append:
  "\<forall>m \<in> set ms. length (enc m) < 2 ^ 64 \<and> dec (enc m) = Inr m \<Longrightarrow>
   decode_proto_messages dec acc (encode_proto_messages enc ms @ tail) =
   decode_proto_messages dec (acc @ ms) tail"
proof (induction ms arbitrary: acc)
  case (Cons m ms)
  then show ?case
    using decode_one [of enc m dec acc ms tail] by simp
qed simp

lemma decode_proto_messages_Nil [simp]: "decode_proto_messages dec acc [] = Inr acc"
  by (simp add: decode_proto_messages.simps)

lemma decode_short:
  "tail \<noteq> [] \<Longrightarrow> length tail < 8 \<Longrightarrow> decode_proto_messages dec acc tail = Inl PcDecodeError"
  by (simp add: decode_proto_messages.simps)

lemma decode_cut_message:
  "length tail < n \<Longrightarrow> n < 2 ^ 64 \<Longrightarrow>
   decode_proto_messages dec acc (u64_to_le_bytes (of_nat n) @ tail) = Inl PcDecodeError"
  by (subst decode_proto_messages.simps)
    (simp add: Let_def u64_le_bytes_roundtrip unat_of_nat)

section \<open>The cache\<close>

record info =
  sync_token :: "string option"
  user_status :: "user_status option"

definition default_info :: info where
  "default_info = \<lparr>sync_token = None, user_status = None\<rparr>"

record proto_cache_inner =
  pc_passphrase :: string
  pc_info_file :: path
  pc_users_file :: path
  pc_info :: "info mutex"
  pc_users :: "user list option mutex"

text \<open>
  The codecs: \<open>prost\<close> for a user, \<open>serde_json\<close> for the info, and the generated
  \<open>UserChangeEvent::update_into_user\<close>.
\<close>

record codecs =
  cd_crypto :: crypto_env
  cd_encode_user :: "user \<Rightarrow> bytes"
  cd_decode_user :: "bytes \<Rightarrow> string + user"
  cd_info_to_json :: "info \<Rightarrow> string + bytes"
  cd_info_from_json :: "bytes \<Rightarrow> string + info"
  cd_update_user :: "user_change list \<Rightarrow> user \<Rightarrow> user"

definition codecs_ok :: "codecs \<Rightarrow> bool" where
  "codecs_ok cd \<longleftrightarrow> cipher_ok (cd_crypto cd) \<and>
     (\<forall>i b. cd_info_to_json cd i = Inr b \<longrightarrow> cd_info_from_json cd b = Inr i) \<and>
     (\<forall>cs u. u_id (cd_update_user cd cs u) = u_id u)"

text \<open>A user that fits a length prefix and is read back by the protobuf codec.\<close>

definition user_codec_ok :: "codecs \<Rightarrow> user \<Rightarrow> bool" where
  "user_codec_ok cd u \<longleftrightarrow>
     length (cd_encode_user cd u) < 2 ^ 64 \<and> cd_decode_user cd (cd_encode_user cd u) = Inr u"

definition read_info ::
  "codecs \<Rightarrow> proto_cache_inner \<Rightarrow> world \<Rightarrow>
   (proto_cache_error + unit) \<times> (proto_cache_inner \<times> world)" where
  "read_info cd c w =
     (case decrypt_file (cd_crypto cd) (pc_info_file c) (pc_passphrase c) w of
        (Inl e, w) \<Rightarrow> (Inl (PcCrypto e), c, w)
      | (Inr decrypted, w) \<Rightarrow>
          (case cd_info_from_json cd decrypted of
             Inl e \<Rightarrow> (Inl (PcSerialization e), c, w)
           | Inr storage \<Rightarrow>
               (case lock (pc_info c) of
                  Inl _ \<Rightarrow> (Inl PcPoisoned, c, w)
                | Inr _ \<Rightarrow> (Inr (), c\<lparr>pc_info := put_guard (pc_info c) storage\<rparr>, w))))"

definition read_users ::
  "codecs \<Rightarrow> proto_cache_inner \<Rightarrow> world \<Rightarrow>
   (proto_cache_error + unit) \<times> (proto_cache_inner \<times> world)" where
  "read_users cd c w =
     (case decrypt_file (cd_crypto cd) (pc_users_file c) (pc_passphrase c) w of
        (Inl e, w) \<Rightarrow> (Inl (PcCrypto e), c, w)
      | (Inr encoded, w) \<Rightarrow>
          (case decode_proto_messages (cd_decode_user cd) [] encoded of
             Inl e \<Rightarrow> (Inl e, c, w)
           | Inr decoded \<Rightarrow>
               (case lock (pc_users c) of
                  Inl _ \<Rightarrow> (Inl PcPoisoned, c, w)
                | Inr _ \<Rightarrow> (Inr (), c\<lparr>pc_users := put_guard (pc_users c) (Some decoded)\<rparr>, w))))"

text \<open>Both reads are tried; their errors are logged only.\<close>

definition read_from_file_system ::
  "codecs \<Rightarrow> proto_cache_inner \<Rightarrow> world \<Rightarrow> proto_cache_inner \<times> world" where
  "read_from_file_system cd c w =
     (let (c, w) = snd (read_info cd c w) in snd (read_users cd c w))"

definition initialize_directory :: "path \<Rightarrow> world \<Rightarrow> world" where
  "initialize_directory dir w = snd (on_fs (fs_create_dir_all dir) w)"

definition from_directory ::
  "codecs \<Rightarrow> path \<Rightarrow> string \<Rightarrow> world \<Rightarrow> proto_cache_inner \<times> world" where
  "from_directory cd dir passphrase w =
     (let w = initialize_directory dir w;
          obj = \<lparr>pc_passphrase = passphrase,
                 pc_info_file = path_join dir (parse_path ''info''),
                 pc_users_file = path_join dir (parse_path ''users''),
                 pc_info = new_mutex default_info,
                 pc_users = new_mutex None\<rparr>
      in read_from_file_system cd obj w)"

definition write_users ::
  "codecs \<Rightarrow> proto_cache_inner \<Rightarrow> world \<Rightarrow> (proto_cache_error + unit) \<times> world" where
  "write_users cd c w =
     (case lock (pc_users c) of
        Inl _ \<Rightarrow> (Inl PcPoisoned, w)
      | Inr None \<Rightarrow> (Inr (), w)
      | Inr (Some users) \<Rightarrow>
          (case encrypt_to_file (cd_crypto cd) (pc_users_file c) (pc_passphrase c)
                  (encode_proto_messages (cd_encode_user cd) users) w of
             (Inl e, w) \<Rightarrow> (Inl (PcCrypto e), w)
           | (Inr _, w) \<Rightarrow> (Inr (), w)))"

definition write_info ::
  "codecs \<Rightarrow> proto_cache_inner \<Rightarrow> world \<Rightarrow> (proto_cache_error + unit) \<times> world" where
  "write_info cd c w =
     (case lock (pc_info c) of
        Inl _ \<Rightarrow> (Inl PcPoisoned, w)
      | Inr i \<Rightarrow>
          (case cd_info_to_json cd i of
             Inl e \<Rightarrow> (Inl (PcSerialization e), w)
           | Inr serialized \<Rightarrow>
               (case encrypt_to_file (cd_crypto cd) (pc_info_file c) (pc_passphrase c)
                       serialized w of
                  (Inl e, w) \<Rightarrow> (Inl (PcCrypto e), w)
                | (Inr _, w) \<Rightarrow> (Inr (), w))))"

text \<open>The body of the save interval: the info is written only after the users.\<close>

definition save :: "codecs \<Rightarrow> proto_cache_inner \<Rightarrow> world \<Rightarrow> world" where
  "save cd c w =
     (case write_users cd c w of
        (Inl _, w) \<Rightarrow> w
      | (Inr _, w) \<Rightarrow> snd (write_info cd c w))"

definition inner_sync_token :: "proto_cache_inner \<Rightarrow> proto_cache_error + string option" where
  "inner_sync_token c =
     (case lock (pc_info c) of Inl _ \<Rightarrow> Inl PcPoisoned | Inr i \<Rightarrow> Inr (sync_token i))"

definition inner_set_sync_token ::
  "string \<Rightarrow> proto_cache_inner \<Rightarrow> (proto_cache_error + unit) \<times> proto_cache_inner" where
  "inner_set_sync_token t c =
     (case lock (pc_info c) of
        Inl _ \<Rightarrow> (Inl PcPoisoned, c)
      | Inr i \<Rightarrow> (Inr (), c\<lparr>pc_info := put_guard (pc_info c) (i\<lparr>sync_token := Some t\<rparr>)\<rparr>))"

definition inner_user_status :: "proto_cache_inner \<Rightarrow> proto_cache_error + user_status option" where
  "inner_user_status c =
     (case lock (pc_info c) of Inl _ \<Rightarrow> Inl PcPoisoned | Inr i \<Rightarrow> Inr (user_status i))"

definition inner_set_user_status ::
  "user_status \<Rightarrow> proto_cache_inner \<Rightarrow> (proto_cache_error + unit) \<times> proto_cache_inner" where
  "inner_set_user_status s c =
     (case lock (pc_info c) of
        Inl _ \<Rightarrow> (Inl PcPoisoned, c)
      | Inr i \<Rightarrow> (Inr (), c\<lparr>pc_info := put_guard (pc_info c) (i\<lparr>user_status := Some s\<rparr>)\<rparr>))"

definition put_user :: "user \<Rightarrow> user list \<Rightarrow> user list" where
  "put_user u users =
     (case find (\<lambda>p. u_id p = u_id u) users of
        Some _ \<Rightarrow> update_first (\<lambda>p. u_id p = u_id u) (\<lambda>_. u) users
      | None \<Rightarrow> users @ [u])"

definition inner_cache_user ::
  "user \<Rightarrow> proto_cache_inner \<Rightarrow> (proto_cache_error + unit) \<times> proto_cache_inner" where
  "inner_cache_user u c =
     (case lock (pc_users c) of
        Inl _ \<Rightarrow> (Inl PcPoisoned, c)
      | Inr users \<Rightarrow>
          (Inr (), c\<lparr>pc_users := put_guard (pc_users c)
             (Some (put_user u (case users of None \<Rightarrow> [] | Some us \<Rightarrow> us)))\<rparr>))"

definition inner_update_user ::
  "codecs \<Rightarrow> string \<Rightarrow> user_change list \<Rightarrow> proto_cache_inner \<Rightarrow>
   (proto_cache_error + unit) \<times> proto_cache_inner" where
  "inner_update_user cd user_id changes c =
     (case lock (pc_users c) of
        Inl _ \<Rightarrow> (Inl PcPoisoned, c)
      | Inr None \<Rightarrow> (Inr (), c)
      | Inr (Some users) \<Rightarrow>
          (case find (\<lambda>p. u_id p = user_id) users of
             None \<Rightarrow> (Inr (), c)
           | Some _ \<Rightarrow>
               (Inr (), c\<lparr>pc_users := put_guard (pc_users c)
                  (Some (update_first (\<lambda>p. u_id p = user_id) (cd_update_user cd changes) users))\<rparr>)))"

definition inner_get_user :: "string \<Rightarrow> proto_cache_inner \<Rightarrow> proto_cache_error + user option" where
  "inner_get_user user_id c =
     (case lock (pc_users c) of
        Inl _ \<Rightarrow> Inl PcPoisoned
      | Inr None \<Rightarrow> Inr None
      | Inr (Some users) \<Rightarrow> Inr (find (\<lambda>p. u_id p = user_id) users))"

text \<open>The outer object logs the errors and answers none.\<close>

definition flatten_result :: "'e + 'a option \<Rightarrow> 'a option" where
  "flatten_result r = (case r of Inl _ \<Rightarrow> None | Inr x \<Rightarrow> x)"

definition cache_sync_token :: "proto_cache_inner \<Rightarrow> string option" where
  "cache_sync_token c = flatten_result (inner_sync_token c)"

definition cache_set_sync_token :: "string \<Rightarrow> proto_cache_inner \<Rightarrow> proto_cache_inner" where
  "cache_set_sync_token t c = snd (inner_set_sync_token t c)"

definition cache_user_status :: "proto_cache_inner \<Rightarrow> user_status option" where
  "cache_user_status c = flatten_result (inner_user_status c)"

definition cache_set_user_status :: "user_status \<Rightarrow> proto_cache_inner \<Rightarrow> proto_cache_inner" where
  "cache_set_user_status s c = snd (inner_set_user_status s c)"

definition cached_user :: "string \<Rightarrow> proto_cache_inner \<Rightarrow> user option" where
  "cached_user user_id c = flatten_result (inner_get_user user_id c)"

fun cache_response_content ::
  "codecs \<Rightarrow> response \<Rightarrow> proto_cache_inner \<Rightarrow> proto_cache_inner" where
  "cache_response_content cd (UserResponse u) c = snd (inner_cache_user u c)"
| "cache_response_content cd (UserChangeEvent user_id changes) c =
     snd (inner_update_user cd user_id changes c)"
| "cache_response_content cd _ c = c"

section \<open>Users in the cache\<close>

definition unique_users :: "user list \<Rightarrow> bool" where
  "unique_users us \<longleftrightarrow> distinct (map u_id us)"

definition cached_users :: "proto_cache_inner \<Rightarrow> user list" where
  "cached_users c = (case mtx_data (pc_users c) of None \<Rightarrow> [] | Some us \<Rightarrow> us)"

lemma cached_user_find:
  "\<not> mtx_poisoned (pc_users c) \<Longrightarrow> cached_user i c = find (\<lambda>p. u_id p = i) (cached_users c)"
  by (auto simp: cached_user_def inner_get_user_def flatten_result_def cached_users_def lock_ok
      split: option.splits)

lemma find_put_user:
  "find (\<lambda>p. u_id p = i) (put_user u us) =
     (if i = u_id u then Some u else find (\<lambda>p. u_id p = i) us)"
  by (auto simp: put_user_def find_append find_update_first_key
      split: option.splits)

lemma unique_users_put_user: "unique_users us \<Longrightarrow> unique_users (put_user u us)"
  by (auto simp: put_user_def unique_users_def map_update_first_key find_None_iff
      split: option.splits)

lemma unique_users_update_first:
  "unique_users us \<Longrightarrow> (\<And>u. u_id (f u) = u_id u) \<Longrightarrow> unique_users (update_first p f us)"
  by (simp add: unique_users_def map_update_first_same)

lemma find_update_user:
  "(\<And>u. u_id (f u) = u_id u) \<Longrightarrow>
   find (\<lambda>p. u_id p = i) (update_first (\<lambda>p. u_id p = j) f us) =
     (if i = j then map_option f (find (\<lambda>p. u_id p = i) us) else find (\<lambda>p. u_id p = i) us)"
  by (simp add: find_update_first_key)

section \<open>Saving\<close>

lemma write_users_effect:
  assumes "write_users cd c w = (r, w')"
  shows "fs_key (w_fs w') = fs_key (w_fs w)"
    and "fs_key (w_fs w) q \<noteq> fs_key (w_fs w) (pc_users_file c) \<Longrightarrow>
         file_at (w_fs w') q = file_at (w_fs w) q"
  using assms
  by (auto simp: write_users_def split: sum.splits option.splits prod.splits
      dest: crypto.store_frame)

text \<open>The two files of a directory are different files.\<close>

lemma plain_info_users: "plain_name ''info''" "plain_name ''users''"
  by (simp_all add: plain_name_def slash_def)

lemma cache_files_differ:
  "fs_key fs (path_join dir (parse_path ''info'')) \<noteq> fs_key fs (path_join dir (parse_path ''users''))"
  by (simp add: path_comps_join_plain plain_info_users fs_key_def resolve_comps_append)

text \<open>A cache on the files of a directory, with locks that are not poisoned.\<close>

definition cache_at :: "path \<Rightarrow> string \<Rightarrow> proto_cache_inner \<Rightarrow> bool" where
  "cache_at dir pw c \<longleftrightarrow>
     pc_passphrase c = pw \<and>
     pc_info_file c = path_join dir (parse_path ''info'') \<and>
     pc_users_file c = path_join dir (parse_path ''users'') \<and>
     \<not> mtx_poisoned (pc_info c) \<and> \<not> mtx_poisoned (pc_users c)"

lemma cache_at_keys:
  "cache_at dir pw c \<Longrightarrow> fs_key fs (pc_info_file c) \<noteq> fs_key fs (pc_users_file c)"
  using cache_files_differ [of fs dir] by (simp add: cache_at_def)

lemma initialize_directory_keeps:
  "file_at (w_fs (initialize_directory dir w)) p = file_at (w_fs w) p"
  "fs_key (w_fs (initialize_directory dir w)) = fs_key (w_fs w)"
  "faultless (w_fs w) \<Longrightarrow> faultless (w_fs (initialize_directory dir w))"
proof -
  obtain out f where o: "next_outcome (w_fs w) = (out, f)" by (cases "next_outcome (w_fs w)")
  note k = file_at_keeps [OF o, of p]
  have f: "file_at (f\<lparr>fs_dirs := x\<rparr>) p = file_at f p" for x by (simp add: file_at_def)
  show "file_at (w_fs (initialize_directory dir w)) p = file_at (w_fs w) p"
    using o k f by (cases out) (auto simp: initialize_directory_def on_fs_def fs_create_dir_all_def)
  show "fs_key (w_fs (initialize_directory dir w)) = fs_key (w_fs w)"
    using o k by (cases out) (auto simp: initialize_directory_def on_fs_def fs_create_dir_all_def)
  show "faultless (w_fs w) \<Longrightarrow> faultless (w_fs (initialize_directory dir w))"
    by (auto simp: initialize_directory_def on_fs_def fs_create_dir_all_def)
qed

lemma decrypt_file_faultless:
  "faultless (w_fs w) \<Longrightarrow> decrypt_file env p pw w = (r, w') \<Longrightarrow> w' = w"
  by (auto simp: decrypt_file_def on_fs_def fs_read_faultless split: option.splits)

text \<open>Opening a directory whose two files are sealed and readable.\<close>

lemma from_directory_restores:
  assumes ok: "codecs_ok cd" "faultless (w_fs w)"
    and info: "fst (decrypt_file (cd_crypto cd) (path_join dir (parse_path ''info'')) pw
        (initialize_directory dir w)) = Inr b" "cd_info_from_json cd b = Inr i"
    and users: "fst (decrypt_file (cd_crypto cd) (path_join dir (parse_path ''users'')) pw
        (initialize_directory dir w)) = Inr d"
      "decode_proto_messages (cd_decode_user cd) [] d = Inr us"
  shows "mtx_data (pc_info (fst (from_directory cd dir pw w))) = i \<and>
         mtx_data (pc_users (fst (from_directory cd dir pw w))) = Some us \<and>
         cache_at dir pw (fst (from_directory cd dir pw w))"
proof -
  let ?w = "initialize_directory dir w"
  have f: "faultless (w_fs ?w)" using ok(2) by (rule initialize_directory_keeps)
  have i: "decrypt_file (cd_crypto cd) (path_join dir (parse_path ''info'')) pw ?w = (Inr b, ?w)"
    using info(1) decrypt_file_faultless [OF f] by (metis prod.collapse)
  have u: "decrypt_file (cd_crypto cd) (path_join dir (parse_path ''users'')) pw ?w = (Inr d, ?w)"
    using users(1) decrypt_file_faultless [OF f] by (metis prod.collapse)
  show ?thesis
    using info(2) users(2)
    by (simp add: from_directory_def read_from_file_system_def read_info_def read_users_def
        i u lock_ok cache_at_def)
qed

text \<open>
  The state of the users file that saving leaves behind.
\<close>

lemma write_users_file:
  assumes "write_users cd c w = (r, w')" "\<not> mtx_poisoned (pc_users c)"
    "mtx_data (pc_users c) = Some us"
  shows "(\<exists>b. r = Inr () \<and> sealed_by (cd_crypto cd) (pc_passphrase c) b
             (encode_proto_messages (cd_encode_user cd) us)
           \<and> file_at (w_fs w') (pc_users_file c) = Some b)
       \<or> (\<exists>x. r = Inl x \<and> file_at (w_fs w') (pc_users_file c) = file_at (w_fs w) (pc_users_file c))
       \<or> (\<exists>x n b. r = Inl x \<and> sealed_by (cd_crypto cd) (pc_passphrase c) b
             (encode_proto_messages (cd_encode_user cd) us)
           \<and> file_at (w_fs w') (pc_users_file c) = Some (take n b))"
proof -
  obtain r' where e: "encrypt_to_file (cd_crypto cd) (pc_users_file c) (pc_passphrase c)
      (encode_proto_messages (cd_encode_user cd) us) w = (r', w')"
    and r: "r = (case r' of Inl e \<Rightarrow> Inl (PcCrypto e) | Inr _ \<Rightarrow> Inr ())"
    using assms by (auto simp: write_users_def lock_ok split: prod.splits sum.splits)
  from crypto.store_file [OF e] r show ?thesis by auto
qed

lemma write_info_effect:
  assumes "write_info cd c w = (r, w')"
  shows "fs_key (w_fs w') = fs_key (w_fs w)"
    and "fs_key (w_fs w) q \<noteq> fs_key (w_fs w) (pc_info_file c) \<Longrightarrow>
         file_at (w_fs w') q = file_at (w_fs w) q"
  using assms
  by (auto simp: write_info_def split: sum.splits option.splits prod.splits
      dest: crypto.store_frame)

lemma write_info_sealed:
  assumes "write_info cd c w = (Inr (), w')" "codecs_ok cd"
  shows "\<exists>b s. sealed_by (cd_crypto cd) (pc_passphrase c) b s \<and>
     file_at (w_fs w') (pc_info_file c) = Some b \<and>
     cd_info_from_json cd s = Inr (mtx_data (pc_info c))"
proof -
  obtain s where j: "cd_info_to_json cd (mtx_data (pc_info c)) = Inr s"
    and e: "encrypt_to_file (cd_crypto cd) (pc_info_file c) (pc_passphrase c) s w = (Inr (), w')"
    using assms(1) by (auto simp: write_info_def split: sum.splits prod.splits)
  from crypto.store_ok_sealed [OF e] j assms(2) show ?thesis
    unfolding codecs_ok_def by blast
qed

text \<open>A saved cache is opened with what it held.\<close>

lemma saved_cache_opens:
  assumes "codecs_ok cd" "cache_at dir pw c"
    and "mtx_data (pc_users c) = Some us" "\<forall>u \<in> set us. user_codec_ok cd u"
    and "write_users cd c w = (Inr (), w1)" "write_info cd c w1 = (Inr (), w2)"
    and "faultless (w_fs w2)"
  shows "save cd c w = w2 \<and> cache_at dir pw (fst (from_directory cd dir pw w2)) \<and>
    mtx_data (pc_info (fst (from_directory cd dir pw w2))) = mtx_data (pc_info c) \<and>
    mtx_data (pc_users (fst (from_directory cd dir pw w2))) = Some us"
proof -
  let ?c = "fst (from_directory cd dir pw w2)" and ?w = "initialize_directory dir w2"
  have at: "pc_passphrase c = pw" "pc_info_file c = path_join dir (parse_path ''info'')"
    "pc_users_file c = path_join dir (parse_path ''users'')"
    and locks: "\<not> mtx_poisoned (pc_users c)" "\<not> mtx_poisoned (pc_info c)"
    and cok: "cipher_ok (cd_crypto cd)"
    using assms(1,2) by (simp_all add: cache_at_def codecs_ok_def)
  have f: "faultless (w_fs ?w)" using assms(7) by (rule initialize_directory_keeps)
  obtain b where b: "sealed_by (cd_crypto cd) pw b (encode_proto_messages (cd_encode_user cd) us)"
    "file_at (w_fs w1) (pc_users_file c) = Some b"
    using write_users_file [OF assms(5) locks(1) assms(3)] at by auto
  have "file_at (w_fs w2) (pc_users_file c) = Some b"
    using write_info_effect(2) [OF assms(6), of "pc_users_file c"] b(2)
      cache_at_keys [OF assms(2), of "w_fs w1"] by auto
  then have u: "fst (decrypt_file (cd_crypto cd) (path_join dir (parse_path ''users'')) pw ?w) =
      Inr (encode_proto_messages (cd_encode_user cd) us)"
    using crypto.load_sealed [OF cok f _ b(1)] at by (simp add: initialize_directory_keeps)
  have d: "decode_proto_messages (cd_decode_user cd) [] (encode_proto_messages (cd_encode_user cd) us)
      = Inr us"
    using decode_encode_append [of us "cd_encode_user cd" "cd_decode_user cd" "[]" "[]"] assms(4)
    by (simp add: user_codec_ok_def)
  obtain b' s where s: "sealed_by (cd_crypto cd) pw b' s"
    "file_at (w_fs w2) (pc_info_file c) = Some b'"
    "cd_info_from_json cd s = Inr (mtx_data (pc_info c))"
    using write_info_sealed [OF assms(6,1)] at by auto
  have i: "fst (decrypt_file (cd_crypto cd) (path_join dir (parse_path ''info'')) pw ?w) = Inr s"
    using crypto.load_sealed [OF cok f _ s(1)] s(2) at by (simp add: initialize_directory_keeps)
  have r: "mtx_data (pc_info ?c) = mtx_data (pc_info c)" "mtx_data (pc_users ?c) = Some us"
    "cache_at dir pw ?c"
    using from_directory_restores [OF assms(1,7) i s(3) u d] by auto
  show ?thesis
    using r assms(5,6) by (simp add: save_def)
qed

section \<open>Properties\<close>

text \<open>
  Decoding an encoded list of messages gives the list back, and a list cut inside a
  length or inside a message is refused with \<open>DecodeError\<close>, never decoded in part.
\<close>

theorem proto_messages_roundtrip:
  assumes "\<forall>m \<in> set ms. length (enc m) < 2 ^ 64 \<and> dec (enc m) = Inr m"
    and "0 < k" "k < 8" "n < length x" "length x < 2 ^ 64"
  shows "decode_proto_messages dec [] (encode_proto_messages enc ms) = Inr ms
       \<and> decode_proto_messages dec []
           (encode_proto_messages enc ms @ take k (u64_to_le_bytes (of_nat (length x))))
         = Inl PcDecodeError
       \<and> decode_proto_messages dec []
           (encode_proto_messages enc ms @ u64_to_le_bytes (of_nat (length x)) @ take n x)
         = Inl PcDecodeError"
proof (intro conjI)
  show "decode_proto_messages dec [] (encode_proto_messages enc ms) = Inr ms"
    using decode_encode_append [OF assms(1), of "[]" "[]"] by simp
  show "decode_proto_messages dec []
      (encode_proto_messages enc ms @ take k (u64_to_le_bytes (of_nat (length x)))) =
    Inl PcDecodeError"
    unfolding decode_encode_append [OF assms(1)] using assms(2,3) by (intro decode_short) auto
  show "decode_proto_messages dec []
      (encode_proto_messages enc ms @ u64_to_le_bytes (of_nat (length x)) @ take n x) =
    Inl PcDecodeError"
    unfolding decode_encode_append [OF assms(1)] using assms(4,5) by (intro decode_cut_message) auto
qed

lemma proto_messages_roundtrip_witness:
  "decode_proto_messages Inr [] (encode_proto_messages (\<lambda>m. m) [[1, 2], [], [3]])
     = Inr [[1, 2], [], [3]]"
  using proto_messages_roundtrip [of "[[1, 2], [], [3]]" "\<lambda>m. m" Inr 3 0 "[7]"] by simp

text \<open>
  Claim C25: When saving has succeeded, a cache opened on the same directory with the same
  passphrase has the sync token, the user status and every user of the saved one.
\<close>

theorem save_then_open_restores:
  assumes "codecs_ok cd" "cache_at dir pw c"
    and "mtx_data (pc_users c) = Some us" "\<forall>u \<in> set us. user_codec_ok cd u"
    and "write_users cd c w = (Inr (), w1)" "write_info cd c w1 = (Inr (), w2)"
    and "faultless (w_fs w2)"
  shows "save cd c w = w2
       \<and> cache_sync_token (fst (from_directory cd dir pw w2)) = cache_sync_token c
       \<and> cache_user_status (fst (from_directory cd dir pw w2)) = cache_user_status c
       \<and> cached_user i (fst (from_directory cd dir pw w2)) = cached_user i c"
  using saved_cache_opens [OF assms] assms(2,3)
  by (simp add: cache_sync_token_def inner_sync_token_def cache_user_status_def
      inner_user_status_def cache_at_def lock_ok cached_user_find cached_users_def)

text \<open>
  Claim C18: Saving replaces the info file, with its sync token, only after the users file holds
  the users of the cache, whatever fails in between; when there are no users to write the
  users file is left alone.
\<close>

theorem save_writes_users_before_info:
  assumes "cache_at dir pw c"
    and "file_at (w_fs (save cd c w)) (pc_info_file c) \<noteq> file_at (w_fs w) (pc_info_file c)"
  shows "case mtx_data (pc_users c) of
      None \<Rightarrow> file_at (w_fs (save cd c w)) (pc_users_file c) = file_at (w_fs w) (pc_users_file c)
    | Some us \<Rightarrow> \<exists>b. file_at (w_fs (save cd c w)) (pc_users_file c) = Some b \<and>
        sealed_by (cd_crypto cd) pw b (encode_proto_messages (cd_encode_user cd) us)"
proof -
  obtain r w1 where u: "write_users cd c w = (r, w1)" by (cases "write_users cd c w")
  have same: "file_at (w_fs w1) (pc_info_file c) = file_at (w_fs w) (pc_info_file c)"
    using write_users_effect(2) [OF u] cache_at_keys [OF assms(1)] by blast
  then obtain r2 w2 where r: "r = Inr ()" and i: "write_info cd c w1 = (r2, w2)"
    and s: "save cd c w = w2"
    using assms(2) u by (cases r; cases "write_info cd c w1") (auto simp: save_def)
  have users: "file_at (w_fs w2) (pc_users_file c) = file_at (w_fs w1) (pc_users_file c)"
    using write_info_effect(2) [OF i] cache_at_keys [OF assms(1)] by metis
  show ?thesis
  proof (cases "mtx_data (pc_users c)")
    case None
    with u r have "w1 = w" using assms(1) by (simp add: write_users_def lock_ok cache_at_def)
    with None s users show ?thesis by simp
  next
    case (Some us)
    then show ?thesis
      using write_users_file [OF u _ Some] assms(1) r s users by (auto simp: cache_at_def)
  qed
qed

text \<open>A concrete cache, and codecs for its one user and one info.\<close>

definition toy_user :: user where
  "toy_user = default_user\<lparr>u_id := ''u''\<rparr>"

definition toy_info :: info where
  "toy_info = \<lparr>sync_token = Some ''t'', user_status = None\<rparr>"

definition toy_codecs :: codecs where
  "toy_codecs = \<lparr>cd_crypto = toy_crypto,
     cd_encode_user = (\<lambda>u. [7]), cd_decode_user = (\<lambda>b. Inr toy_user),
     cd_info_to_json = (\<lambda>i. if i = toy_info then Inr [1] else Inl ''''),
     cd_info_from_json = (\<lambda>b. Inr toy_info),
     cd_update_user = (\<lambda>cs u. u)\<rparr>"

definition toy_cache :: proto_cache_inner where
  "toy_cache = \<lparr>pc_passphrase = ''p'',
     pc_info_file = path_join (parse_path ''/c'') (parse_path ''info''),
     pc_users_file = path_join (parse_path ''/c'') (parse_path ''users''),
     pc_info = new_mutex toy_info, pc_users = new_mutex (Some [toy_user])\<rparr>"

lemma toy_codecs_ok: "codecs_ok toy_codecs" "user_codec_ok toy_codecs toy_user"
  by (auto simp: codecs_ok_def toy_codecs_def toy_crypto_ok user_codec_ok_def)

lemma toy_cache_at: "cache_at (parse_path ''/c'') ''p'' toy_cache"
  by (simp add: cache_at_def toy_cache_def)

lemmas toy_cache_defs = toy_cache_def toy_codecs_def toy_crypto_def toy_world_def
  write_users_def write_info_def lock_ok encrypt_to_file_def
  derive_new_key_def encrypt_def fill_bytes_def on_fs_def fs_write_def next_outcome_def
  fs_key_def is_dir_def fs_put_def faultless_def parse_path_def slash_def path_join_def

lemma toy_save:
  "\<exists>w1 w2. write_users toy_codecs toy_cache toy_world = (Inr (), w1) \<and>
     write_info toy_codecs toy_cache w1 = (Inr (), w2) \<and> faultless (w_fs w2) \<and>
     file_at (w_fs w2) (pc_info_file toy_cache) \<noteq> None"
  by (simp add: toy_cache_defs file_at_def)

lemma save_then_open_restores_witness:
  "\<exists>w2. cache_sync_token (fst (from_directory toy_codecs (parse_path ''/c'') ''p'' w2)) = Some ''t''"
proof -
  obtain w1 w2 where w: "write_users toy_codecs toy_cache toy_world = (Inr (), w1)"
    "write_info toy_codecs toy_cache w1 = (Inr (), w2)" "faultless (w_fs w2)"
    using toy_save by blast
  have "\<forall>u \<in> set [toy_user]. user_codec_ok toy_codecs u" by (simp add: toy_codecs_ok)
  from save_then_open_restores [OF toy_codecs_ok(1) toy_cache_at _ this w]
  have "cache_sync_token (fst (from_directory toy_codecs (parse_path ''/c'') ''p'' w2)) =
      cache_sync_token toy_cache"
    by (simp add: toy_cache_def)
  then show ?thesis
    by (intro exI [of _ w2]) (simp add: cache_sync_token_def inner_sync_token_def toy_cache_def
        lock_ok flatten_result_def toy_info_def)
qed

lemma save_writes_users_before_info_witness:
  "\<exists>b. file_at (w_fs (save toy_codecs toy_cache toy_world)) (pc_users_file toy_cache) = Some b"
proof -
  obtain w1 w2 where w: "write_users toy_codecs toy_cache toy_world = (Inr (), w1)"
    "write_info toy_codecs toy_cache w1 = (Inr (), w2)"
    "file_at (w_fs w2) (pc_info_file toy_cache) \<noteq> None"
    using toy_save by blast
  then have "file_at (w_fs (save toy_codecs toy_cache toy_world)) (pc_info_file toy_cache) \<noteq>
      file_at (w_fs toy_world) (pc_info_file toy_cache)"
    by (simp add: save_def) (simp add: toy_world_def file_at_def)
  from save_writes_users_before_info [OF toy_cache_at this] show ?thesis
    by (auto simp: toy_cache_def)
qed

text \<open>
  Claim C28: A write of the users file that stops in the first 28 bytes, which the order of the
  two writes is meant to make harmless, loses the cached users but not the sync token:
  the cache opened afterwards answers no user and still has the token of the info file,
  at which the next sync will start.
\<close>

theorem torn_save_keeps_token_without_users:
  assumes "cache_at dir pw c" "write_users cd c w = (Inl x, w')"
    and "file_at (w_fs w') (pc_users_file c) = Some b" "length b < 28" "faultless (w_fs w')"
    and "cipher_ok (cd_crypto cd)" "sealed_by (cd_crypto cd) pw bi s"
    and "file_at (w_fs w) (pc_info_file c) = Some bi" "cd_info_from_json cd s = Inr i"
  shows "cached_user u (fst (from_directory cd dir pw (save cd c w))) = None
       \<and> cache_sync_token (fst (from_directory cd dir pw (save cd c w))) = sync_token i"
proof -
  let ?w = "initialize_directory dir w'"
  let ?i = "path_join dir (parse_path ''info'')" and ?u = "path_join dir (parse_path ''users'')"
  have p: "pc_info_file c = ?i" "pc_users_file c = ?u" using assms(1) by (simp_all add: cache_at_def)
  have s: "save cd c w = w'" using assms(2) by (simp add: save_def)
  have f: "faultless (w_fs ?w)" using assms(5) by (rule initialize_directory_keeps)
  have "file_at (w_fs w') ?i = Some bi"
    using write_users_effect(2) [OF assms(2), of ?i] cache_at_keys [OF assms(1)] p assms(8) by metis
  then have "file_at (w_fs ?w) ?i = Some bi" by (simp add: initialize_directory_keeps)
  from crypto.load_sealed [OF assms(6) f this assms(7)]
  have i: "decrypt_file (cd_crypto cd) ?i pw ?w = (Inr s, ?w)"
    using decrypt_file_faultless [OF f] by (metis prod.collapse)
  have "\<exists>e. fst (decrypt_file (cd_crypto cd) ?u pw ?w) = Inl e"
    using decrypt_short_file [of ?w ?u b] assms(3,4) p
    by (simp add: initialize_directory_keeps)
  then obtain e where d: "decrypt_file (cd_crypto cd) ?u pw ?w = (Inl e, ?w)"
    using decrypt_file_faultless [OF f] by (metis prod.collapse)
  show ?thesis
    using assms(9)
    by (simp add: s from_directory_def read_from_file_system_def read_info_def read_users_def
        i d lock_ok cached_user_find cached_users_def cache_sync_token_def inner_sync_token_def
        flatten_result_def)
qed

definition torn_world :: world where
  "torn_world = toy_world\<lparr>w_fs :=
     \<lparr>fs_cwd = [], fs_files = [([''c'', ''info''], replicate 28 0 @ [113])],
      fs_dirs = [[''c'']], fs_outcomes = [IoTorn 20 ''no space'']\<rparr>\<rparr>"

lemma torn_save_keeps_token_without_users_witness:
  "cached_user ''u'' (fst (from_directory toy_codecs (parse_path ''/c'') ''p''
     (save toy_codecs toy_cache torn_world))) = None \<and>
   cache_sync_token (fst (from_directory toy_codecs (parse_path ''/c'') ''p''
     (save toy_codecs toy_cache torn_world))) = Some ''t''"
proof -
  obtain x w' b where w: "write_users toy_codecs toy_cache torn_world = (Inl x, w')"
    "file_at (w_fs w') (pc_users_file toy_cache) = Some b" "length b < 28" "faultless (w_fs w')"
    by (simp add: toy_cache_defs torn_world_def file_at_def)
  have s: "sealed_by (cd_crypto toy_codecs) ''p'' (replicate 28 0 @ [113]) [1]"
    unfolding sealed_by_def
    by (rule exI [of _ "replicate 16 0"], rule exI [of _ "replicate 12 0"])
      (simp add: toy_codecs_def toy_crypto_def as_bytes_def numeral_eq_Suc)
  have i: "file_at (w_fs torn_world) (pc_info_file toy_cache) = Some (replicate 28 0 @ [113])"
    by (simp add: toy_cache_defs torn_world_def file_at_def)
  have j: "cd_info_from_json toy_codecs [1] = Inr toy_info" by (simp add: toy_codecs_def)
  have c: "cipher_ok (cd_crypto toy_codecs)" using toy_codecs_ok(1) by (simp add: codecs_ok_def)
  from torn_save_keeps_token_without_users [OF toy_cache_at w c s i j, of "''u''"]
  show ?thesis by (simp add: toy_info_def)
qed

section \<open>Every run of the cache\<close>

text \<open>
  The runs: the cache is opened, fed with responses, tokens and statuses, saved with any
  outcomes of the file operations, and opened again, which covers a restart at any point.
\<close>

inductive cache_run :: "codecs \<Rightarrow> path \<Rightarrow> string \<Rightarrow> proto_cache_inner \<times> world \<Rightarrow> bool"
  for cd dir pw where
  run_open: "file_at (w_fs w) (path_join dir (parse_path ''users'')) = None \<Longrightarrow>
     cache_run cd dir pw (from_directory cd dir pw w)"
| run_content: "cache_run cd dir pw (c, w) \<Longrightarrow> (\<And>u. r = UserResponse u \<Longrightarrow> user_codec_ok cd u) \<Longrightarrow>
     cache_run cd dir pw (cache_response_content cd r c, w)"
| run_token: "cache_run cd dir pw (c, w) \<Longrightarrow> cache_run cd dir pw (cache_set_sync_token t c, w)"
| run_status: "cache_run cd dir pw (c, w) \<Longrightarrow> cache_run cd dir pw (cache_set_user_status s c, w)"
| run_outcomes: "cache_run cd dir pw (c, w) \<Longrightarrow>
     cache_run cd dir pw (c, w\<lparr>w_fs := (w_fs w)\<lparr>fs_outcomes := outs\<rparr>\<rparr>)"
| run_save: "cache_run cd dir pw (c, w) \<Longrightarrow> cache_run cd dir pw (c, save cd c w)"
| run_reopen: "cache_run cd dir pw (c, w) \<Longrightarrow> cache_run cd dir pw (from_directory cd dir pw w)"

text \<open>
  An authenticated cipher refuses a ciphertext that has been cut.
\<close>

definition detects_truncation :: "crypto_env \<Rightarrow> bool" where
  "detects_truncation env \<longleftrightarrow>
     (\<forall>key nonce d c n. cipher_encrypt env key nonce d = Some c \<longrightarrow> n < length c \<longrightarrow>
        cipher_decrypt env key nonce (take n c) = None)"

definition updates_ok :: "codecs \<Rightarrow> bool" where
  "updates_ok cd \<longleftrightarrow> (\<forall>cs u. user_codec_ok cd u \<longrightarrow> user_codec_ok cd (cd_update_user cd cs u))"

definition good_users :: "codecs \<Rightarrow> user list \<Rightarrow> bool" where
  "good_users cd us \<longleftrightarrow> unique_users us \<and> (\<forall>u \<in> set us. user_codec_ok cd u)"

definition users_file_inv :: "codecs \<Rightarrow> path \<Rightarrow> string \<Rightarrow> world \<Rightarrow> bool" where
  "users_file_inv cd dir pw w \<longleftrightarrow>
     (\<forall>b. file_at (w_fs w) (path_join dir (parse_path ''users'')) = Some b \<longrightarrow>
        (\<exists>us b' n. good_users cd us \<and> b = take n b' \<and>
           sealed_by (cd_crypto cd) pw b' (encode_proto_messages (cd_encode_user cd) us)))"

definition cache_inv :: "codecs \<Rightarrow> path \<Rightarrow> string \<Rightarrow> proto_cache_inner \<times> world \<Rightarrow> bool" where
  "cache_inv cd dir pw s \<longleftrightarrow>
     cache_at dir pw (fst s) \<and> good_users cd (cached_users (fst s)) \<and>
     users_file_inv cd dir pw (snd s)"

lemma truncated_content:
  assumes "detects_truncation env" "cipher_ok env" "sealed_by env pw b d"
    "decrypt_content env pw (take n b) = Inr d'"
  shows "d' = d"
proof -
  obtain salt nonce key c where b: "b = salt @ nonce @ c" "length salt = 16" "length nonce = 12"
    "hash_password env (as_bytes pw) salt = Some key" "cipher_encrypt env key nonce d = Some c"
    using assms(3) by (auto simp: sealed_by_def)
  have n: "28 \<le> n"
    using assms(4) b by (auto simp: decrypt_content_def read_exact_def derive_key_def decrypt_def
        split: if_splits)
  then have "decrypt_content env pw (take n b) =
      (case cipher_decrypt env key nonce (take (n - 28) c) of None \<Rightarrow> Inl CryptoCipher | Some d \<Rightarrow> Inr d)"
    using b by (simp add: decrypt_content_def read_exact_def derive_key_def decrypt_def)
  with assms(1,2,4) b(5) show ?thesis
    unfolding detects_truncation_def cipher_ok_def
    by (cases "n - 28 < length c") (fastforce split: option.splits)+
qed


lemma cache_ops_keep:
  assumes "cache_at dir pw c" "good_users cd (cached_users c)" "codecs_ok cd" "updates_ok cd"
  shows "(\<And>u. r = UserResponse u \<Longrightarrow> user_codec_ok cd u) \<Longrightarrow>
      cache_at dir pw (cache_response_content cd r c) \<and>
      good_users cd (cached_users (cache_response_content cd r c))"
    and "cache_at dir pw (cache_set_sync_token t c) \<and>
      good_users cd (cached_users (cache_set_sync_token t c))"
    and "cache_at dir pw (cache_set_user_status s c) \<and>
      good_users cd (cached_users (cache_set_user_status s c))"
proof -
  have l: "\<not> mtx_poisoned (pc_info c)" "\<not> mtx_poisoned (pc_users c)"
    using assms(1) by (simp_all add: cache_at_def)
  have upd: "u_id (cd_update_user cd cs u) = u_id u" for cs u
    using assms(3) by (simp add: codecs_ok_def)
  have good_upd: "good_users cd (update_first (\<lambda>p. u_id p = i) (cd_update_user cd cs) us)"
    if "good_users cd us" for i cs us
    using that assms(4) set_update_first [of "\<lambda>p. u_id p = i" "cd_update_user cd cs" us]
    by (auto simp: good_users_def updates_ok_def unique_users_update_first [OF _ upd])
  have good_put: "good_users cd (put_user u us)" if "good_users cd us" "user_codec_ok cd u" for u us
  proof -
    have "set (put_user u us) \<subseteq> insert u (set us)"
      using set_update_first [of "\<lambda>p. u_id p = u_id u" "\<lambda>_. u" us]
      by (auto simp: put_user_def split: option.splits)
    with that unique_users_put_user show ?thesis by (fastforce simp: good_users_def)
  qed
  show "cache_at dir pw (cache_response_content cd r c) \<and>
      good_users cd (cached_users (cache_response_content cd r c))"
    if "\<And>u. r = UserResponse u \<Longrightarrow> user_codec_ok cd u"
    using assms(1,2) that good_upd good_put l
    by (cases "(cd, r, c)" rule: cache_response_content.cases)
      (auto simp: inner_cache_user_def inner_update_user_def lock_ok cached_users_def cache_at_def
        split: option.splits)
  show "cache_at dir pw (cache_set_sync_token t c) \<and>
      good_users cd (cached_users (cache_set_sync_token t c))"
    "cache_at dir pw (cache_set_user_status s c) \<and>
      good_users cd (cached_users (cache_set_user_status s c))"
    using assms(1,2) l
    by (simp_all add: cache_set_sync_token_def inner_set_sync_token_def cache_set_user_status_def
        inner_set_user_status_def lock_ok cached_users_def cache_at_def)
qed

text \<open>A write of the users file leaves a file of the invariant.\<close>

lemma save_users_file_inv:
  assumes "cache_inv cd dir pw (c, w)"
  shows "users_file_inv cd dir pw (save cd c w)"
proof -
  have at: "cache_at dir pw c" and p: "pc_users_file c = path_join dir (parse_path ''users'')"
    and good: "good_users cd (cached_users c)" and inv: "users_file_inv cd dir pw w"
    using assms by (simp_all add: cache_inv_def cache_at_def)
  obtain r w1 where u: "write_users cd c w = (r, w1)" by (cases "write_users cd c w")
  have i1: "users_file_inv cd dir pw w1"
  proof (cases "mtx_data (pc_users c)")
    case None
    with u at inv show ?thesis by (simp add: write_users_def lock_ok cache_at_def)
  next
    case (Some us)
    then have "good_users cd us" using good by (simp add: cached_users_def)
    moreover have "take (length b) b = b" for b :: bytes by simp
    ultimately show ?thesis
      using write_users_file [OF u _ Some] at inv p
      unfolding users_file_inv_def cache_at_def by (metis option.inject)
  qed
  show ?thesis
  proof (cases r)
    case (Inl e)
    with u i1 show ?thesis by (simp add: save_def)
  next
    case (Inr x)
    obtain r2 w2 where i: "write_info cd c w1 = (r2, w2)" by (cases "write_info cd c w1")
    have "file_at (w_fs w2) (pc_users_file c) = file_at (w_fs w1) (pc_users_file c)"
      using write_info_effect(2) [OF i] cache_at_keys [OF at] by metis
    with i1 u i Inr p show ?thesis by (simp add: save_def users_file_inv_def)
  qed
qed

text \<open>Opening the directory: the users file is read completely or not at all.\<close>

lemma from_directory_file_at:
  "file_at (w_fs (snd (from_directory cd dir pw w))) p = file_at (w_fs w) p"
  by (auto simp: from_directory_def read_from_file_system_def read_info_def read_users_def Let_def
      initialize_directory_keeps split: prod.splits sum.splits
      dest!: decrypt_file_world [where q = p])

lemma from_directory_inv:
  assumes "users_file_inv cd dir pw w" "codecs_ok cd" "detects_truncation (cd_crypto cd)"
  shows "cache_inv cd dir pw (from_directory cd dir pw w)"
proof -
  let ?i = "path_join dir (parse_path ''info'')" and ?u = "path_join dir (parse_path ''users'')"
  let ?c = "\<lparr>pc_passphrase = pw, pc_info_file = ?i, pc_users_file = ?u,
     pc_info = new_mutex default_info, pc_users = new_mutex None\<rparr>"
  let ?w = "initialize_directory dir w"
  obtain r1 c1 w1 where 1: "read_info cd ?c ?w = (r1, c1, w1)" by (cases "read_info cd ?c ?w")
  obtain r2 c2 w2 where 2: "read_users cd c1 w1 = (r2, c2, w2)" by (cases "read_users cd c1 w1")
  have c1: "cache_at dir pw c1" "mtx_data (pc_users c1) = None" "pc_users_file c1 = ?u"
    "pc_passphrase c1 = pw" "file_at (w_fs w1) ?u = file_at (w_fs w) ?u"
    using 1 by (auto simp: read_info_def cache_at_def initialize_directory_keeps
        split: prod.splits sum.splits dest!: decrypt_file_world [where q = ?u])
  have "good_users cd (cached_users c2) \<and> cache_at dir pw c2"
  proof (cases "mtx_data (pc_users c2)")
    case None
    with 2 c1 show ?thesis
      by (auto simp: read_users_def cached_users_def good_users_def unique_users_def cache_at_def
          split: prod.splits sum.splits)
  next
    case (Some us)
    then obtain enc where e: "fst (decrypt_file (cd_crypto cd) ?u pw w1) = Inr enc"
      and us: "decode_proto_messages (cd_decode_user cd) [] enc = Inr us"
      and c2: "cache_at dir pw c2"
      using 2 c1 by (auto simp: read_users_def cache_at_def split: prod.splits sum.splits)
    obtain b where b: "file_at (w_fs w) ?u = Some b" "decrypt_content (cd_crypto cd) pw b = Inr enc"
      using e c1(5) fs_read_InrD [of ?u "w_fs w1"]
      by (auto simp: decrypt_file_def on_fs_def split: prod.splits sum.splits)
    then obtain us' b' n where g: "good_users cd us'" "b = take n b'"
      "sealed_by (cd_crypto cd) pw b' (encode_proto_messages (cd_encode_user cd) us')"
      using assms(1) unfolding users_file_inv_def by blast
    have "enc = encode_proto_messages (cd_encode_user cd) us'"
      using truncated_content [OF assms(3) _ g(3)] b(2) g(2) assms(2) by (simp add: codecs_ok_def)
    then have "us = us'"
      using us g(1) decode_encode_append [of us' "cd_encode_user cd" "cd_decode_user cd" "[]" "[]"]
      by (simp add: good_users_def user_codec_ok_def)
    with Some g(1) c2 show ?thesis by (simp add: cached_users_def)
  qed
  moreover have "fst (from_directory cd dir pw w) = c2"
    by (simp add: from_directory_def read_from_file_system_def Let_def 1 2)
  ultimately show ?thesis
    using assms(1) by (simp add: cache_inv_def users_file_inv_def from_directory_file_at)
qed

lemma cache_run_inv:
  assumes "cache_run cd dir pw s" "codecs_ok cd" "updates_ok cd" "detects_truncation (cd_crypto cd)"
  shows "cache_inv cd dir pw s"
  using assms(1)
proof (induction rule: cache_run.induct)
  case (run_open w)
  then show ?case
    by (intro from_directory_inv [OF _ assms(2,4)]) (simp add: users_file_inv_def)
next
  case (run_content c w r)
  then have "cache_at dir pw c" "good_users cd (cached_users c)" "users_file_inv cd dir pw w"
    by (simp_all add: cache_inv_def)
  with cache_ops_keep(1) [OF this(1,2) assms(2,3) run_content.hyps(2)] show ?case
    by (simp add: cache_inv_def)
next
  case (run_token c w t)
  then have "cache_at dir pw c" "good_users cd (cached_users c)" "users_file_inv cd dir pw w"
    by (simp_all add: cache_inv_def)
  with cache_ops_keep(2) [OF this(1,2) assms(2,3)] show ?case by (simp add: cache_inv_def)
next
  case (run_status c w s)
  then have "cache_at dir pw c" "good_users cd (cached_users c)" "users_file_inv cd dir pw w"
    by (simp_all add: cache_inv_def)
  with cache_ops_keep(3) [OF this(1,2) assms(2,3)] show ?case by (simp add: cache_inv_def)
next
  case (run_outcomes c w outs)
  then show ?case
    by (simp add: cache_inv_def users_file_inv_def file_at_def)
next
  case (run_save c w)
  then show ?case using save_users_file_inv by (simp add: cache_inv_def)
next
  case (run_reopen c w)
  then show ?case by (intro from_directory_inv [OF _ assms(2,4)]) (simp add: cache_inv_def)
qed

text \<open>
  Claim C6: However the cache is fed, saved, interrupted and reopened, it holds at most one
  entry per user; a user that has been cached is the one that is looked up, and the
  entries of the other users stay.
\<close>

theorem cache_run_unique_users:
  assumes "cache_run cd dir pw (c, w)" "codecs_ok cd" "updates_ok cd"
    "detects_truncation (cd_crypto cd)"
  shows "distinct (map u_id (cached_users c)) \<and>
    cached_user i (cache_response_content cd (UserResponse u) c) =
      (if i = u_id u then Some u else cached_user i c) \<and>
    cached_user i (cache_response_content cd (UserChangeEvent j cs) c) =
      (if i = j then map_option (cd_update_user cd cs) (cached_user i c) else cached_user i c)"
proof -
  have inv: "cache_inv cd dir pw (c, w)" by (rule cache_run_inv [OF assms])
  then have l: "\<not> mtx_poisoned (pc_users c)" and d: "distinct (map u_id (cached_users c))"
    by (simp_all add: cache_inv_def cache_at_def good_users_def unique_users_def)
  have put: "cached_user i (cache_response_content cd (UserResponse u) c) =
      (if i = u_id u then Some u else cached_user i c)"
    using l by (simp add: cached_user_find inner_cache_user_def lock_ok)
      (simp add: cached_users_def find_put_user)
  have upd: "u_id (cd_update_user cd cs u) = u_id u" for cs u
    using assms(2) by (simp add: codecs_ok_def)
  have "cached_user i (cache_response_content cd (UserChangeEvent j cs) c) =
      (if i = j then map_option (cd_update_user cd cs) (cached_user i c) else cached_user i c)"
    using l by (auto simp: cached_user_find inner_update_user_def lock_ok cached_users_def
        find_update_user [OF upd] split: option.splits)
  with d put show ?thesis by blast
qed

text \<open>A cipher of one message, which refuses everything else.\<close>

definition one_codecs :: codecs where
  "one_codecs = toy_codecs\<lparr>cd_crypto := \<lparr>hash_password = (\<lambda>pw salt. Some salt),
     cipher_encrypt = (\<lambda>key nonce d. if d = [] then Some [9] else None),
     cipher_decrypt = (\<lambda>key nonce c. if c = [9] then Some [] else None)\<rparr>\<rparr>"

lemma cache_run_unique_users_witness:
  "\<exists>c w. cache_run one_codecs (parse_path ''/c'') ''p'' (c, w) \<and>
     distinct (map u_id (cached_users c)) \<and> cached_user ''u'' c = Some toy_user"
proof -
  let ?s = "from_directory one_codecs (parse_path ''/c'') ''p'' toy_world"
  have "file_at (w_fs toy_world) (path_join (parse_path ''/c'') (parse_path ''users'')) = None"
    by (simp add: toy_world_def file_at_def)
  then have r0: "cache_run one_codecs (parse_path ''/c'') ''p'' (fst ?s, snd ?s)"
    using run_open by simp
  have c: "user_codec_ok one_codecs toy_user"
    by (simp add: user_codec_ok_def one_codecs_def toy_codecs_def)
  then have r: "cache_run one_codecs (parse_path ''/c'') ''p''
      (cache_response_content one_codecs (UserResponse toy_user) (fst ?s), snd ?s)"
    by (intro run_content [OF r0]) simp
  have ok: "codecs_ok one_codecs" "updates_ok one_codecs" "detects_truncation (cd_crypto one_codecs)"
    by (auto simp: codecs_ok_def updates_ok_def detects_truncation_def one_codecs_def toy_codecs_def
        cipher_ok_def user_codec_ok_def less_Suc_eq split: if_splits)
  show ?thesis
    using cache_run_unique_users [OF r ok] cache_run_unique_users [OF r0 ok, of "''u''" toy_user] r
    by (intro exI conjI) (auto simp: toy_user_def default_user_def)
qed

end
