(* ===== verification/Notifications.thy ===== *)
theory Notifications
  imports Utils
begin

text \<open>
  notifications.rs, with the slot of memory_cache.rs that holds the last loaded settings.
  The SDK's push rules are the parameter \<open>notification_rules\<close>.  The application's view of
  the settings is rebuilt from the events sent to it; the locale \<open>change_feed\<close> states what
  such a feed of changes promises, and the manager's comparison of old and new settings is
  an instance of it.
\<close>

section \<open>Settings\<close>

datatype room_notification_mode = NmAllMessages | NmMentionsAndKeywordsOnly | NmMute

text \<open>The settings are ordered by how much they notify about.\<close>

fun setting_rank :: "notification_setting \<Rightarrow> nat" where
  "setting_rank Mute = 0"
| "setting_rank MentionsAndKeywordsOnly = 1"
| "setting_rank AllMessages = 2"

lemma setting_rank_inj: "setting_rank a = setting_rank b \<longleftrightarrow> a = b"
  by (cases a; cases b) simp_all

instantiation notification_setting :: linorder
begin

definition less_eq_notification_setting :: "notification_setting \<Rightarrow> notification_setting \<Rightarrow> bool" where
  "less_eq_notification_setting a b \<longleftrightarrow> setting_rank a \<le> setting_rank b"

definition less_notification_setting :: "notification_setting \<Rightarrow> notification_setting \<Rightarrow> bool" where
  "less_notification_setting a b \<longleftrightarrow> setting_rank a < setting_rank b"

instance
  by standard (auto simp: less_eq_notification_setting_def less_notification_setting_def
      setting_rank_inj)

end

fun matrix_notification_mode_to_chat_notification_settings ::
  "room_notification_mode \<Rightarrow> notification_setting" where
  "matrix_notification_mode_to_chat_notification_settings NmAllMessages = AllMessages"
| "matrix_notification_mode_to_chat_notification_settings NmMute = Mute"
| "matrix_notification_mode_to_chat_notification_settings NmMentionsAndKeywordsOnly =
     MentionsAndKeywordsOnly"

definition apply_notification_mode ::
  "notification_setting \<Rightarrow> room_notification_mode \<Rightarrow> notification_setting" where
  "apply_notification_mode setting mode =
     (if setting = AllMessages then setting
      else if mode = NmAllMessages then AllMessages
      else if mode = NmMentionsAndKeywordsOnly then MentionsAndKeywordsOnly
      else setting)"

text \<open>
  What the code asks the SDK for: the default mode of the rooms that are encrypted or not
  and one-to-one or not, the rooms with a rule of their own, and their modes.
\<close>

record notification_rules =
  nr_default_mode :: "bool \<Rightarrow> bool \<Rightarrow> room_notification_mode"
  nr_user_defined :: "string list"
  nr_valid_room_id :: "string \<Rightarrow> bool"
  nr_room_mode :: "string \<Rightarrow> room_notification_mode option"

definition compose_global_notification_settings :: "notification_rules \<Rightarrow> notification_setting" where
  "compose_global_notification_settings rules =
     (let result = Mute;
          result = apply_notification_mode result (nr_default_mode rules True False);
          result = apply_notification_mode result (nr_default_mode rules False False);
          result = apply_notification_mode result (nr_default_mode rules True True);
          result = apply_notification_mode result (nr_default_mode rules False True)
      in result)"

record cached_notification_settings =
  cn_global :: notification_setting
  cn_rooms :: "(string, notification_setting) hmap"

definition default_notification_settings :: cached_notification_settings where
  "default_notification_settings = \<lparr>cn_global = AllMessages, cn_rooms = []\<rparr>"

text \<open>The loop over the rooms with a rule of their own.\<close>

fun load_room_settings ::
  "notification_rules \<Rightarrow> string list \<Rightarrow> (string, notification_setting) hmap \<Rightarrow>
   (string, notification_setting) hmap" where
  "load_room_settings rules [] settings = settings"
| "load_room_settings rules (rid # ids) settings =
     (if \<not> nr_valid_room_id rules rid then load_room_settings rules ids settings
      else (case nr_room_mode rules rid of
              None \<Rightarrow> load_room_settings rules ids settings
            | Some mode \<Rightarrow>
                load_room_settings rules ids
                  (hm_insert rid
                     (matrix_notification_mode_to_chat_notification_settings mode) settings)))"

definition load_notification_settings :: "notification_rules \<Rightarrow> cached_notification_settings" where
  "load_notification_settings rules =
     \<lparr>cn_global = compose_global_notification_settings rules,
      cn_rooms = load_room_settings rules (nr_user_defined rules) []\<rparr>"

section \<open>The manager\<close>

text \<open>The slot of the memory cache.\<close>

type_synonym settings_slot = "cached_notification_settings option mutex"

definition cache_notification_settings ::
  "cached_notification_settings \<Rightarrow> settings_slot \<Rightarrow> (memory_cache_error + unit) \<times> settings_slot" where
  "cache_notification_settings settings slot =
     (case lock slot of
        Inl _ \<Rightarrow> (Inl CachePoisoned, slot)
      | Inr _ \<Rightarrow> (Inr (), put_guard slot (Some settings)))"

definition get_cached_notification_settings ::
  "settings_slot \<Rightarrow> memory_cache_error + cached_notification_settings option" where
  "get_cached_notification_settings slot =
     (case lock slot of Inl _ \<Rightarrow> Inl CachePoisoned | Inr s \<Rightarrow> Inr s)"

definition room_update_event :: "string \<Rightarrow> notification_setting option \<Rightarrow> response" where
  "room_update_event rid settings = RoomChangeEvent rid [ChSettings settings]"

definition compare_room_changes ::
  "(string \<times> notification_setting) list \<Rightarrow> (string \<times> notification_setting) list \<Rightarrow>
   response list" where
  "compare_room_changes old new =
     (let result = compare_lists old new (\<lambda>a b. fst a = fst b) (\<lambda>a b. snd a = snd b)
      in map (\<lambda>(rid, settings). room_update_event rid (Some settings)) (cr_new result) @
         map (\<lambda>(rid, _). room_update_event rid None) (cr_deleted result) @
         map (\<lambda>(_, (rid, settings)). room_update_event rid (Some settings))
           (cr_updated result))"

text \<open>Handling of one change: the slot and the events sent, in order.\<close>

definition handle_notification_settings_change ::
  "notification_rules \<Rightarrow> settings_slot \<Rightarrow> settings_slot \<times> response list" where
  "handle_notification_settings_change rules slot =
     (case get_cached_notification_settings slot of
        Inl _ \<Rightarrow> (slot, [])
      | Inr old \<Rightarrow>
          (let new = load_notification_settings rules;
               slot = snd (cache_notification_settings new slot);
               global = (case old of
                   Some o' \<Rightarrow> if cn_global o' \<noteq> cn_global new
                             then [GlobalSettingsEvent (cn_global new)] else []
                 | None \<Rightarrow> [GlobalSettingsEvent (cn_global new)]);
               old = (case old of None \<Rightarrow> default_notification_settings | Some o' \<Rightarrow> o')
           in (slot, global @ compare_room_changes (cn_rooms old) (cn_rooms new))))"

text \<open>The task: the initial settings are cached, then every change is handled in turn.\<close>

fun notification_loop ::
  "notification_rules list \<Rightarrow> settings_slot \<Rightarrow> settings_slot \<times> response list" where
  "notification_loop [] slot = (slot, [])"
| "notification_loop (rules # changes) slot =
     (let (slot, events) = handle_notification_settings_change rules slot;
          (slot, events') = notification_loop changes slot
      in (slot, events @ events'))"

definition subscribe_to_changes ::
  "notification_rules \<Rightarrow> notification_rules list \<Rightarrow> settings_slot \<Rightarrow>
   settings_slot \<times> response list" where
  "subscribe_to_changes initial changes slot =
     notification_loop changes
       (snd (cache_notification_settings (load_notification_settings initial) slot))"

section \<open>Feeds of changes\<close>

text \<open>
  What a feed of changes promises: the events between two states turn the view of the
  first into the view of the second.  \<open>ok\<close> is the invariant of the states.
\<close>

locale change_feed =
  fixes ok :: "'c \<Rightarrow> bool"
    and view :: "'c \<Rightarrow> 'v"
    and changes :: "'c \<Rightarrow> 'c \<Rightarrow> 'e list"
    and apply_event :: "'e \<Rightarrow> 'v \<Rightarrow> 'v"
  assumes patch: "ok old \<Longrightarrow> ok new \<Longrightarrow> fold apply_event (changes old new) (view old) = view new"
begin

fun feed :: "'c \<Rightarrow> 'c list \<Rightarrow> 'e list" where
  "feed c [] = []"
| "feed c (c' # cs) = changes c c' @ feed c' cs"

text \<open>A view that starts in step with the state stays in step.\<close>

lemma feed_in_step:
  "ok c \<Longrightarrow> \<forall>c' \<in> set cs. ok c' \<Longrightarrow>
   fold apply_event (feed c cs) (view c) = view (last (c # cs))"
  by (induction c cs rule: feed.induct) (auto simp: patch)

end

text \<open>The application's view of the settings.\<close>

record settings_view =
  sv_global :: notification_setting
  sv_room :: "string \<Rightarrow> notification_setting option"

fun apply_settings_event :: "response \<Rightarrow> settings_view \<Rightarrow> settings_view" where
  "apply_settings_event (GlobalSettingsEvent s) v = v\<lparr>sv_global := s\<rparr>"
| "apply_settings_event (RoomChangeEvent rid [ChSettings s]) v =
     v\<lparr>sv_room := (sv_room v)(rid := s)\<rparr>"
| "apply_settings_event _ v = v"

definition settings_view_of :: "cached_notification_settings \<Rightarrow> settings_view" where
  "settings_view_of c = \<lparr>sv_global = cn_global c, sv_room = hm_get (cn_rooms c)\<rparr>"

definition settings_changes ::
  "cached_notification_settings \<Rightarrow> cached_notification_settings \<Rightarrow> response list" where
  "settings_changes old new =
     (if cn_global old \<noteq> cn_global new then [GlobalSettingsEvent (cn_global new)] else []) @
     compare_room_changes (cn_rooms old) (cn_rooms new)"

lemma apply_room_update [simp]:
  "apply_settings_event (room_update_event k x) v = v\<lparr>sv_room := (sv_room v)(k := x)\<rparr>"
  by (simp add: room_update_event_def)

lemma fold_room_updates:
  "hm_wf kvs \<Longrightarrow>
   fold apply_settings_event (map (\<lambda>(k, s). room_update_event k (f s)) kvs) v =
     v\<lparr>sv_room := (\<lambda>i. case hm_get kvs i of None \<Rightarrow> sv_room v i | Some s \<Rightarrow> f s)\<rparr>"
proof (induction kvs arbitrary: v)
  case (Cons kv kvs)
  obtain k s where kv: "kv = (k, s)" by (cases kv)
  with Cons.prems have "hm_get kvs k = None" "hm_wf kvs" by auto
  then show ?case
    using kv by (simp add: Cons.IH) (auto simp: fun_eq_iff split: option.splits)
qed simp

lemma updated_entries:
  "map (\<lambda>(_, (k, s)). room_update_event k (Some s))
     (concat (map (\<lambda>n. case hm_get old (fst n) of
        None \<Rightarrow> [] | Some v \<Rightarrow> if v = snd n then [] else [((fst n, v), n)]) new)) =
   map (\<lambda>(k, s). room_update_event k (Some s))
     (filter (\<lambda>(k, s). case hm_get old k of None \<Rightarrow> False | Some v \<Rightarrow> v \<noteq> s) new)"
  by (induction new) (auto split: option.splits)

text \<open>The events of a comparison, applied to the old map, give the new one.\<close>

lemma compare_room_changes_patch:
  assumes "hm_wf old" "hm_wf new"
  shows "fold apply_settings_event (compare_room_changes old new)
           (v\<lparr>sv_room := hm_get old\<rparr>) = v\<lparr>sv_room := hm_get new\<rparr>"
proof -
  let ?N = "filter (\<lambda>n. hm_get old (fst n) = None) new"
  let ?D = "filter (\<lambda>o'. hm_get new (fst o') = None) old"
  let ?U = "filter (\<lambda>(k, s). case hm_get old k of None \<Rightarrow> False | Some v \<Rightarrow> v \<noteq> s) new"
  have c: "compare_room_changes old new =
      map (\<lambda>(k, s). room_update_event k (Some s)) ?N @
      map (\<lambda>(k, s). room_update_event k None) ?D @
      map (\<lambda>(k, s). room_update_event k (Some s)) ?U"
    unfolding compare_room_changes_def compare_lists_keyed [OF assms(1)]
    by (simp only: Let_def comparison_result.simps updated_entries)
  have "(case hm_get ?U i of None \<Rightarrow> case hm_get ?D i of None \<Rightarrow>
           case hm_get ?N i of None \<Rightarrow> hm_get old i | Some s \<Rightarrow> Some s
         | Some s \<Rightarrow> None | Some s \<Rightarrow> Some s) = hm_get new i" for i
    using assms by (auto simp: hm_get_filter split: option.splits)
  then show ?thesis
    using assms by (simp add: c fold_room_updates hm_wf_filter cong: option.case_cong)
qed

definition settings_wf :: "cached_notification_settings \<Rightarrow> bool" where
  "settings_wf c \<longleftrightarrow> hm_wf (cn_rooms c)"

interpretation settings: change_feed settings_wf settings_view_of settings_changes
  apply_settings_event
proof unfold_locales
  fix old new
  assume "settings_wf old" "settings_wf new"
  then have p: "fold apply_settings_event (compare_room_changes (cn_rooms old) (cn_rooms new))
      (v\<lparr>sv_room := hm_get (cn_rooms old)\<rparr>) = v\<lparr>sv_room := hm_get (cn_rooms new)\<rparr>" for v
    by (intro compare_room_changes_patch) (simp_all add: settings_wf_def)
  show "fold apply_settings_event (settings_changes old new) (settings_view_of old) =
      settings_view_of new"
    using p [of "\<lparr>sv_global = cn_global new, sv_room = hm_get (cn_rooms old)\<rparr>"]
    by (auto simp: settings_changes_def settings_view_of_def)
qed

section \<open>Lemmas on the manager\<close>

lemma apply_notification_mode_max:
  "apply_notification_mode s m = max s (matrix_notification_mode_to_chat_notification_settings m)"
  by (cases s; cases m) (auto simp: apply_notification_mode_def max_def
      less_eq_notification_setting_def)

lemma load_room_settings_wf: "hm_wf s \<Longrightarrow> hm_wf (load_room_settings rules ids s)"
  by (induction rules ids s rule: load_room_settings.induct) (auto split: option.splits)

lemma load_wf [simp]: "settings_wf (load_notification_settings rules)"
  by (simp add: settings_wf_def load_notification_settings_def load_room_settings_wf)

lemma handle_change_cached:
  "\<not> mtx_poisoned slot \<Longrightarrow> mtx_data slot = Some c \<Longrightarrow>
   handle_notification_settings_change rules slot =
     (put_guard slot (Some (load_notification_settings rules)),
      settings_changes c (load_notification_settings rules))"
  by (simp add: handle_notification_settings_change_def get_cached_notification_settings_def
      cache_notification_settings_def lock_ok settings_changes_def Let_def)

lemma put_guard_put [simp]: "put_guard (put_guard m x) y = put_guard m y"
  by (simp add: put_guard_def)

lemma notification_loop_feed:
  "\<not> mtx_poisoned slot \<Longrightarrow> mtx_data slot = Some c \<Longrightarrow>
   notification_loop changes slot =
     (put_guard slot (Some (last (c # map load_notification_settings changes))),
      settings.feed c (map load_notification_settings changes))"
proof (induction changes arbitrary: slot c)
  case Nil
  then show ?case by (cases slot) (simp add: put_guard_def)
next
  case (Cons rules changes)
  then show ?case by (simp add: handle_change_cached)
qed

section \<open>Properties\<close>

text \<open>
  Claim C27: An application whose view agrees with the settings loaded at the start agrees with
  the settings of the last change after it has applied the events the manager sent, in
  whatever order the hash maps were iterated, and so does the cache.
\<close>

theorem notification_view_in_step:
  assumes "\<not> mtx_poisoned slot"
    and "subscribe_to_changes initial changes slot = (slot', events)"
  shows "fold apply_settings_event events
           (settings_view_of (load_notification_settings initial)) =
         settings_view_of (load_notification_settings (last (initial # changes)))
       \<and> mtx_data slot' = Some (load_notification_settings (last (initial # changes)))"
proof -
  let ?c = "load_notification_settings initial"
  have l: "last (?c # map load_notification_settings changes) =
      load_notification_settings (last (initial # changes))"
    by (simp add: last_map)
  have "subscribe_to_changes initial changes slot =
      (put_guard slot (Some (last (?c # map load_notification_settings changes))),
       settings.feed ?c (map load_notification_settings changes))"
    using assms(1) by (simp add: subscribe_to_changes_def cache_notification_settings_def lock_ok
        notification_loop_feed [where c = ?c])
  with assms(2) l show ?thesis
    using settings.feed_in_step [of ?c "map load_notification_settings changes"] by auto
qed

text \<open>
  The composed global setting is the most permissive of the four default modes of
  group and direct rooms, encrypted or not; what the first calls find is never lost.
\<close>

theorem compose_global_is_maximum:
  "compose_global_notification_settings rules =
     Max ((\<lambda>(encrypted, direct). matrix_notification_mode_to_chat_notification_settings
        (nr_default_mode rules encrypted direct)) ` UNIV)"
proof -
  have mute: "max Mute s = s" for s
    by (cases s) (auto simp: max_def less_eq_notification_setting_def)
  have u: "(UNIV :: (bool \<times> bool) set) = {(True, False), (False, False), (True, True), (False, True)}"
    by auto
  show ?thesis
    unfolding u
    by (simp add: compose_global_notification_settings_def apply_notification_mode_max Let_def
        mute max.assoc max.left_commute max.commute)
qed

definition example_rules :: "(string \<Rightarrow> room_notification_mode option) \<Rightarrow> notification_rules" where
  "example_rules f = \<lparr>nr_default_mode = (\<lambda>e d. if d then NmAllMessages else NmMute),
     nr_user_defined = [''a'', ''b''], nr_valid_room_id = (\<lambda>_. True), nr_room_mode = f\<rparr>"

lemma notification_view_in_step_witness:
  "\<exists>slot' events. subscribe_to_changes (example_rules (\<lambda>_. Some NmMute))
       [example_rules (\<lambda>r. if r = ''a'' then Some NmAllMessages else None)] (new_mutex None) =
         (slot', events) \<and>
     mtx_data slot' = Some \<lparr>cn_global = AllMessages, cn_rooms = [(''a'', AllMessages)]\<rparr>"
proof -
  obtain slot' events where r: "subscribe_to_changes (example_rules (\<lambda>_. Some NmMute))
       [example_rules (\<lambda>r. if r = ''a'' then Some NmAllMessages else None)] (new_mutex None) =
         (slot', events)"
    by force
  from notification_view_in_step [OF _ r] r show ?thesis
    by (simp add: example_rules_def load_notification_settings_def hm_insert_def
        compose_global_notification_settings_def apply_notification_mode_def)
qed

end
