(* ===== verification/Media.thy ===== *)
theory Media
  imports Crypto
begin

text \<open>
  media.rs: avatars and attachments on the file system.  An \<open>AssetManager\<close> keeps one asset
  of a directory as two files, the data and an info file that names the data file and the
  upstream URL it came from; the trait \<open>Asset\<close>, with its four implementations, says how
  the asset is compared with the server, downloaded and uploaded.

  The trait is the record \<open>asset_ops\<close> of its operations, its contract the locale \<open>asset\<close>.
  Type detection, JSON and the clock are the parameter \<open>media_env\<close>; the answers of the
  server are parts of the assets' states.
\<close>

section \<open>File types\<close>

record asset_info =
  ai_file :: string
  ai_download_ts :: u64
  ai_upstream_url :: string

record media_env =
  md_infer :: "bytes \<Rightarrow> string option"
  md_mime_from_ext :: "string \<Rightarrow> string option"
  md_info_to_json :: "asset_info \<Rightarrow> string + bytes"
  md_info_from_json :: "bytes \<Rightarrow> string + asset_info"
  md_now :: u64

definition determine_file_extension_from_data :: "media_env \<Rightarrow> bytes \<Rightarrow> string option" where
  "determine_file_extension_from_data env data = md_infer env data"

definition determine_file_extension_with_path ::
  "media_env \<Rightarrow> bytes \<Rightarrow> path \<Rightarrow> string option" where
  "determine_file_extension_with_path env data path =
     (case path_extension path of
        Some ext \<Rightarrow> Some ext
      | None \<Rightarrow> determine_file_extension_from_data env data)"

text \<open>\<open>str::from_utf8\<close>: the well-formed sequences of one to four bytes.\<close>

definition utf8_tail :: "u8 \<Rightarrow> bool" where
  "utf8_tail b \<longleftrightarrow> 0x80 \<le> b \<and> b \<le> 0xBF"

fun is_utf8_text :: "bytes \<Rightarrow> bool" where
  "is_utf8_text [] = True"
| "is_utf8_text (a # bs) =
     (if a \<le> 0x7F then is_utf8_text bs
      else if 0xC2 \<le> a \<and> a \<le> 0xDF then
        (case bs of b # rest \<Rightarrow> utf8_tail b \<and> is_utf8_text rest | _ \<Rightarrow> False)
      else if 0xE0 \<le> a \<and> a \<le> 0xEF then
        (case bs of
           b # c # rest \<Rightarrow>
             utf8_tail b \<and> utf8_tail c \<and> (a = 0xE0 \<longrightarrow> 0xA0 \<le> b) \<and> (a = 0xED \<longrightarrow> b \<le> 0x9F) \<and>
             is_utf8_text rest
         | _ \<Rightarrow> False)
      else if 0xF0 \<le> a \<and> a \<le> 0xF4 then
        (case bs of
           b # c # d # rest \<Rightarrow>
             utf8_tail b \<and> utf8_tail c \<and> utf8_tail d \<and>
             (a = 0xF0 \<longrightarrow> 0x90 \<le> b) \<and> (a = 0xF4 \<longrightarrow> b \<le> 0x8F) \<and> is_utf8_text rest
         | _ \<Rightarrow> False)
      else False)"

definition default_mime :: string where
  "default_mime = ''application/octet-stream''"

definition determine_file_extension_and_mime ::
  "media_env \<Rightarrow> bytes \<Rightarrow> path \<Rightarrow> string option \<times> string" where
  "determine_file_extension_and_mime env data path =
     (case determine_file_extension_with_path env data path of
        None \<Rightarrow> (None, default_mime)
      | Some ext \<Rightarrow>
          (Some ext,
           case md_mime_from_ext env ext of
             Some mime \<Rightarrow> mime
           | None \<Rightarrow> if is_utf8_text data then ''text/plain; charset=utf-8'' else default_mime))"

section \<open>The trait of assets\<close>

record download =
  dl_data :: bytes
  dl_file_extension :: "string option"
  dl_upstream_url :: string

record upload =
  ul_file_extension :: "string option"
  ul_upstream_url :: string

record 'a asset_ops =
  op_asset_id :: "'a \<Rightarrow> media_error + string"
  op_is_up_to_date :: "asset_info \<Rightarrow> 'a \<Rightarrow> (media_error + bool) \<times> 'a"
  op_was_removed :: "'a \<Rightarrow> bool \<times> 'a"
  op_download :: "'a \<Rightarrow> (media_error + download) \<times> 'a"
  op_upload :: "path \<Rightarrow> 'a \<Rightarrow> fs \<Rightarrow> (media_error + upload) \<times> 'a \<times> fs"

section \<open>The manager of one asset\<close>

record 'a asset_manager =
  am_data_root_dir :: path
  am_asset_dir :: path
  am_asset :: 'a

definition get_info_file_name :: "'a asset_ops \<Rightarrow> 'a asset_manager \<Rightarrow> media_error + string" where
  "get_info_file_name ops m =
     (case op_asset_id ops (am_asset m) of
        Inl e \<Rightarrow> Inl e
      | Inr asset_id \<Rightarrow> Inr (asset_id @ ''_info'' @ ''.json''))"

definition get_asset_file_name ::
  "'a asset_ops \<Rightarrow> string option \<Rightarrow> 'a asset_manager \<Rightarrow> media_error + string" where
  "get_asset_file_name ops extension m =
     (case op_asset_id ops (am_asset m) of
        Inl e \<Rightarrow> Inl e
      | Inr asset_id \<Rightarrow>
          (case extension of
             Some ext \<Rightarrow> Inr (asset_id @ ''.'' @ ext)
           | None \<Rightarrow> Inr asset_id))"

definition get_download_dir_relative :: "'a asset_manager \<Rightarrow> path" where
  "get_download_dir_relative m = am_asset_dir m"

definition get_download_dir_absolute :: "'a asset_manager \<Rightarrow> path" where
  "get_download_dir_absolute m = path_join (am_data_root_dir m) (get_download_dir_relative m)"

definition get_info_path_absolute :: "'a asset_ops \<Rightarrow> 'a asset_manager \<Rightarrow> media_error + path" where
  "get_info_path_absolute ops m =
     (case get_info_file_name ops m of
        Inl e \<Rightarrow> Inl e
      | Inr file_name \<Rightarrow> Inr (path_join (get_download_dir_absolute m) (parse_path file_name)))"

definition get_info_path_relative :: "'a asset_ops \<Rightarrow> 'a asset_manager \<Rightarrow> media_error + path" where
  "get_info_path_relative ops m =
     (case get_info_file_name ops m of
        Inl e \<Rightarrow> Inl e
      | Inr file_name \<Rightarrow> Inr (path_join (get_download_dir_relative m) (parse_path file_name)))"

definition get_asset_path_absolute ::
  "'a asset_ops \<Rightarrow> string \<Rightarrow> 'a asset_manager \<Rightarrow> media_error + path" where
  "get_asset_path_absolute ops file_name m =
     (case get_info_path_absolute ops m of
        Inl e \<Rightarrow> Inl e
      | Inr p \<Rightarrow> Inr (path_set_file_name p file_name))"

definition get_asset_path_relative ::
  "'a asset_ops \<Rightarrow> string \<Rightarrow> 'a asset_manager \<Rightarrow> media_error + path" where
  "get_asset_path_relative ops file_name m =
     (case get_info_path_relative ops m of
        Inl e \<Rightarrow> Inl e
      | Inr p \<Rightarrow> Inr (path_set_file_name p file_name))"

definition asset_path_result ::
  "'a asset_ops \<Rightarrow> string \<Rightarrow> 'a asset_manager \<Rightarrow> media_error + string" where
  "asset_path_result ops file_name m =
     (case get_asset_path_relative ops file_name m of
        Inl e \<Rightarrow> Inl e
      | Inr p \<Rightarrow> Inr (render_path p))"

definition read_asset_info ::
  "media_env \<Rightarrow> 'a asset_ops \<Rightarrow> 'a asset_manager \<Rightarrow> fs \<Rightarrow> asset_info option \<times> fs" where
  "read_asset_info env ops m fs =
     (case get_info_path_absolute ops m of
        Inl _ \<Rightarrow> (None, fs)
      | Inr path \<Rightarrow>
          (case fs_exists path fs of
             (False, fs) \<Rightarrow> (None, fs)
           | (True, fs) \<Rightarrow>
               (case fs_read path fs of
                  (Inl _, fs) \<Rightarrow> (None, fs)
                | (Inr content, fs) \<Rightarrow>
                    (result_ok (md_info_from_json env content), fs))))"

definition write_asset_info ::
  "media_env \<Rightarrow> path \<Rightarrow> asset_info \<Rightarrow> fs \<Rightarrow> (media_error + unit) \<times> fs" where
  "write_asset_info env path info fs =
     (case md_info_to_json env info of
        Inl e \<Rightarrow> (Inl (MediaSerdeJson e), fs)
      | Inr serialized \<Rightarrow>
          (case fs_write path serialized fs of
             (Inl e, fs) \<Rightarrow> (Inl (MediaIo e), fs)
           | (Inr _, fs) \<Rightarrow> (Inr (), fs)))"

definition write_asset :: "path \<Rightarrow> bytes \<Rightarrow> fs \<Rightarrow> (media_error + unit) \<times> fs" where
  "write_asset path data fs =
     (case fs_write path data fs of
        (Inl e, fs) \<Rightarrow> (Inl (MediaIo e), fs)
      | (Inr _, fs) \<Rightarrow> (Inr (), fs))"

text \<open>The data is written before the info that declares it downloaded.\<close>

definition write_info_and_asset ::
  "media_env \<Rightarrow> 'a asset_ops \<Rightarrow> 'a asset_manager \<Rightarrow> asset_info \<Rightarrow> bytes \<Rightarrow> fs \<Rightarrow>
   (media_error + unit) \<times> fs" where
  "write_info_and_asset env ops m info data fs =
     (case get_info_path_absolute ops m of
        Inl e \<Rightarrow> (Inl e, fs)
      | Inr info_path \<Rightarrow>
          (case get_asset_path_absolute ops (ai_file info) m of
             Inl e \<Rightarrow> (Inl e, fs)
           | Inr item_path \<Rightarrow>
               and_then (write_asset item_path data fs) (\<lambda>_.
                 write_asset_info env info_path info)))"

definition delete_asset_and_info ::
  "'a asset_ops \<Rightarrow> asset_info \<Rightarrow> 'a asset_manager \<Rightarrow> fs \<Rightarrow> fs" where
  "delete_asset_and_info ops info m fs =
     (case get_info_path_absolute ops m of
        Inl _ \<Rightarrow> fs
      | Inr info_path \<Rightarrow>
          (case get_asset_path_absolute ops (ai_file info) m of
             Inl _ \<Rightarrow> fs
           | Inr asset_path \<Rightarrow> snd (fs_remove_file asset_path (snd (fs_remove_file info_path fs)))))"

text \<open>An asset that cannot be compared with the server is taken for up to date.\<close>

definition is_up_to_date ::
  "'a asset_ops \<Rightarrow> asset_info \<Rightarrow> 'a asset_manager \<Rightarrow> bool \<times> 'a asset_manager" where
  "is_up_to_date ops info m =
     (case op_is_up_to_date ops info (am_asset m) of
        (Inl _, a) \<Rightarrow> (True, m\<lparr>am_asset := a\<rparr>)
      | (Inr result, a) \<Rightarrow> (result, m\<lparr>am_asset := a\<rparr>))"

definition has_been_downloaded_before ::
  "media_env \<Rightarrow> 'a asset_ops \<Rightarrow> 'a asset_manager \<Rightarrow> fs \<Rightarrow>
   (media_error + string) option \<times> 'a asset_manager \<times> fs" where
  "has_been_downloaded_before env ops m fs =
     (case read_asset_info env ops m fs of
        (None, fs) \<Rightarrow> (None, m, fs)
      | (Some info, fs) \<Rightarrow>
          (case is_up_to_date ops info m of
             (True, m) \<Rightarrow> (Some (asset_path_result ops (ai_file info) m), m, fs)
           | (False, m) \<Rightarrow>
               (case op_was_removed ops (am_asset m) of
                  (True, a) \<Rightarrow>
                    (let m = m\<lparr>am_asset := a\<rparr>
                     in (Some (Inl MediaRemoved), m, delete_asset_and_info ops info m fs))
                | (False, a) \<Rightarrow> (None, m\<lparr>am_asset := a\<rparr>, fs))))"

definition download_asset ::
  "media_env \<Rightarrow> 'a asset_ops \<Rightarrow> 'a asset_manager \<Rightarrow> fs \<Rightarrow>
   (media_error + string) \<times> 'a asset_manager \<times> fs" where
  "download_asset env ops m fs =
     (case op_download ops (am_asset m) of
        (Inl e, a) \<Rightarrow> (Inl e, m\<lparr>am_asset := a\<rparr>, fs)
      | (Inr d, a) \<Rightarrow>
          (let m = m\<lparr>am_asset := a\<rparr>;
               (existing, fs) = read_asset_info env ops m fs;
               fs = (case existing of None \<Rightarrow> fs | Some i \<Rightarrow> delete_asset_and_info ops i m fs)
           in case get_asset_file_name ops (dl_file_extension d) m of
                Inl e \<Rightarrow> (Inl e, m, fs)
              | Inr data_file_name \<Rightarrow>
                  (let info = \<lparr>ai_file = data_file_name, ai_download_ts = md_now env,
                               ai_upstream_url = dl_upstream_url d\<rparr>
                   in case write_info_and_asset env ops m info (dl_data d) fs of
                        (Inl e, fs) \<Rightarrow> (Inl e, m, fs)
                      | (Inr _, fs) \<Rightarrow> (asset_path_result ops data_file_name m, m, fs))))"

text \<open>\<open>AssetManager::download\<close> and \<open>AssetManager::upload\<close>.\<close>

definition manager_download ::
  "media_env \<Rightarrow> 'a asset_ops \<Rightarrow> 'a asset_manager \<Rightarrow> fs \<Rightarrow>
   (media_error + string) \<times> 'a asset_manager \<times> fs" where
  "manager_download env ops m fs =
     (case has_been_downloaded_before env ops m fs of
        (Some path, m, fs) \<Rightarrow> (path, m, fs)
      | (None, m, fs) \<Rightarrow> download_asset env ops m fs)"

definition manager_upload ::
  "media_env \<Rightarrow> 'a asset_ops \<Rightarrow> path \<Rightarrow> 'a asset_manager \<Rightarrow> fs \<Rightarrow>
   (media_error + string) \<times> 'a asset_manager \<times> fs" where
  "manager_upload env ops src m fs =
     (let src = path_join (am_data_root_dir m) src
      in case op_upload ops src (am_asset m) fs of
           (Inl e, a, fs) \<Rightarrow> (Inl e, m\<lparr>am_asset := a\<rparr>, fs)
         | (Inr up, a, fs) \<Rightarrow>
             (let m = m\<lparr>am_asset := a\<rparr>;
                  (existing, fs) = read_asset_info env ops m fs;
                  fs = (case existing of None \<Rightarrow> fs | Some i \<Rightarrow> delete_asset_and_info ops i m fs)
              in case get_asset_file_name ops (ul_file_extension up) m of
                   Inl e \<Rightarrow> (Inl e, m, fs)
                 | Inr asset_file_name \<Rightarrow>
                     (let info = \<lparr>ai_file = asset_file_name, ai_download_ts = md_now env,
                                  ai_upstream_url = ul_upstream_url up\<rparr>
                      in case get_info_path_absolute ops m of
                           Inl e \<Rightarrow> (Inl e, m, fs)
                         | Inr info_path \<Rightarrow>
                             (case get_asset_path_absolute ops asset_file_name m of
                                Inl e \<Rightarrow> (Inl e, m, fs)
                              | Inr asset_path \<Rightarrow>
                                  (case fs_rename src asset_path fs of
                                     (Inl e, fs) \<Rightarrow> (Inl (MediaIo e), m, fs)
                                   | (Inr _, fs) \<Rightarrow>
                                       (case write_asset_info env info_path info fs of
                                          (Inl e, fs) \<Rightarrow> (Inl e, m, fs)
                                        | (Inr _, fs) \<Rightarrow>
                                            (asset_path_result ops asset_file_name m, m, fs)))))))"

section \<open>The assets\<close>

text \<open>
  The avatar of a room: the room's current avatar URL and what the server answers to
  fetching and uploading media and to setting the avatar.
\<close>

record room_avatar_asset =
  ra_id :: string
  ra_avatar_url :: "string option"
  ra_content :: "string \<Rightarrow> sdk_error + bytes"
  ra_upload :: "string \<Rightarrow> bytes \<Rightarrow> sdk_error + string"
  ra_set_avatar_url :: "string \<Rightarrow> sdk_error + unit"

definition download_mxc :: "(string \<Rightarrow> sdk_error + bytes) \<Rightarrow> string \<Rightarrow> media_error + bytes" where
  "download_mxc get_media_content uri =
     (case get_media_content uri of Inl e \<Rightarrow> Inl (MediaMatrixError e) | Inr c \<Rightarrow> Inr c)"

definition room_avatar_is_up_to_date ::
  "asset_info \<Rightarrow> room_avatar_asset \<Rightarrow> (media_error + bool) \<times> room_avatar_asset" where
  "room_avatar_is_up_to_date info a =
     (case ra_avatar_url a of
        Some url \<Rightarrow> (Inr (url = ai_upstream_url info), a)
      | None \<Rightarrow> (Inr False, a))"

definition room_avatar_download ::
  "media_env \<Rightarrow> room_avatar_asset \<Rightarrow> (media_error + download) \<times> room_avatar_asset" where
  "room_avatar_download env a =
     (case ra_avatar_url a of
        None \<Rightarrow> (Inl MediaNotFound, a)
      | Some url \<Rightarrow>
          (case download_mxc (ra_content a) url of
             Inl e \<Rightarrow> (Inl e, a)
           | Inr content \<Rightarrow>
               (Inr \<lparr>dl_data = content,
                     dl_file_extension = determine_file_extension_from_data env content,
                     dl_upstream_url = url\<rparr>, a)))"

definition room_avatar_upload ::
  "media_env \<Rightarrow> path \<Rightarrow> room_avatar_asset \<Rightarrow> fs \<Rightarrow>
   (media_error + upload) \<times> room_avatar_asset \<times> fs" where
  "room_avatar_upload env src a fs =
     (case fs_read src fs of
        (Inl e, fs) \<Rightarrow> (Inl (MediaIo e), a, fs)
      | (Inr data, fs) \<Rightarrow>
          (let (ext, mime) = determine_file_extension_and_mime env data src
           in case ra_upload a mime data of
                Inl e \<Rightarrow> (Inl (MediaMatrixError e), a, fs)
              | Inr uri \<Rightarrow>
                  (case ra_set_avatar_url a uri of
                     Inl e \<Rightarrow> (Inl (MediaMatrixError e), a, fs)
                   | Inr _ \<Rightarrow>
                       (Inr \<lparr>ul_file_extension = ext, ul_upstream_url = uri\<rparr>, a, fs))))"

definition room_avatar_ops :: "media_env \<Rightarrow> room_avatar_asset asset_ops" where
  "room_avatar_ops env =
     \<lparr>op_asset_id = (\<lambda>a. Inr (ra_id a)),
      op_is_up_to_date = room_avatar_is_up_to_date,
      op_was_removed = (\<lambda>a. (ra_avatar_url a = None, a)),
      op_download = room_avatar_download env,
      op_upload = room_avatar_upload env\<rparr>"

text \<open>
  The avatar of a user: the URI is asked for once and kept when the answer was no error;
  \<open>ua_answers\<close> are the answers of the next calls of \<open>fetch_avatar_uri\<close>, and an error when
  there is none left.
\<close>

record user_avatar_asset =
  ua_user_id :: string
  ua_avatar_uri :: "string option option"
  ua_answers :: "(error + string option) list"
  ua_content :: "string \<Rightarrow> sdk_error + bytes"

definition next_avatar_answer ::
  "user_avatar_asset \<Rightarrow> (error + string option) \<times> user_avatar_asset" where
  "next_avatar_answer a =
     (case ua_answers a of
        [] \<Rightarrow> (Inl Network, a)
      | r # rs \<Rightarrow> (r, a\<lparr>ua_answers := rs\<rparr>))"

definition user_avatar_new ::
  "string \<Rightarrow> (error + string option) list \<Rightarrow> (string \<Rightarrow> sdk_error + bytes) \<Rightarrow> user_avatar_asset" where
  "user_avatar_new user_id answers content =
     (let a = \<lparr>ua_user_id = user_id, ua_avatar_uri = None, ua_answers = answers,
               ua_content = content\<rparr>;
          (r, a) = next_avatar_answer a
      in a\<lparr>ua_avatar_uri := result_ok r\<rparr>)"

definition get_avatar_uri ::
  "user_avatar_asset \<Rightarrow> (media_error + string option) \<times> user_avatar_asset" where
  "get_avatar_uri a =
     (case ua_avatar_uri a of
        Some uri \<Rightarrow> (Inr uri, a)
      | None \<Rightarrow>
          (case next_avatar_answer a of
             (Inr uri, a) \<Rightarrow> (Inr uri, a\<lparr>ua_avatar_uri := Some uri\<rparr>)
           | (Inl _, a) \<Rightarrow> (Inl UnableToGetAvatarUri, a)))"

definition user_avatar_is_up_to_date ::
  "asset_info \<Rightarrow> user_avatar_asset \<Rightarrow> (media_error + bool) \<times> user_avatar_asset" where
  "user_avatar_is_up_to_date info a =
     (case get_avatar_uri a of
        (Inl e, a) \<Rightarrow> (Inl e, a)
      | (Inr None, a) \<Rightarrow> (Inr False, a)
      | (Inr (Some uri), a) \<Rightarrow> (Inr (uri = ai_upstream_url info), a))"

definition user_avatar_was_removed :: "user_avatar_asset \<Rightarrow> bool \<times> user_avatar_asset" where
  "user_avatar_was_removed a =
     (case get_avatar_uri a of
        (Inl _, a) \<Rightarrow> (False, a)
      | (Inr uri, a) \<Rightarrow> (uri = None, a))"

definition user_avatar_download ::
  "media_env \<Rightarrow> user_avatar_asset \<Rightarrow> (media_error + download) \<times> user_avatar_asset" where
  "user_avatar_download env a =
     (case get_avatar_uri a of
        (Inl e, a) \<Rightarrow> (Inl e, a)
      | (Inr None, a) \<Rightarrow> (Inl MediaNotFound, a)
      | (Inr (Some uri), a) \<Rightarrow>
          (case download_mxc (ua_content a) uri of
             Inl e \<Rightarrow> (Inl e, a)
           | Inr content \<Rightarrow>
               (Inr \<lparr>dl_data = content,
                     dl_file_extension = determine_file_extension_from_data env content,
                     dl_upstream_url = uri\<rparr>, a)))"

definition user_avatar_ops :: "media_env \<Rightarrow> user_avatar_asset asset_ops" where
  "user_avatar_ops env =
     \<lparr>op_asset_id = (\<lambda>a. Inr (ua_user_id a)),
      op_is_up_to_date = user_avatar_is_up_to_date,
      op_was_removed = user_avatar_was_removed,
      op_download = user_avatar_download env,
      op_upload = (\<lambda>_ a fs. (Inl MediaNotAllowed, a, fs))\<rparr>"

text \<open>
  An attachment to send: its ID is the ID of the event the server creates for it.
  \<open>at_send\<close> is the server's answer, \<open>at_sent\<close> records what has been sent.
\<close>

record sent_attachment =
  sa_file_name :: string
  sa_mime :: string
  sa_data :: bytes
  sa_reply :: "string option"

record room_attachment_asset =
  at_asset_id :: "string option"
  at_file_name :: "string option"
  at_reply_to :: "string option"
  at_send :: "sent_attachment \<Rightarrow> sdk_error + string"
  at_sent :: "sent_attachment list"

definition room_attachment_new ::
  "(sent_attachment \<Rightarrow> sdk_error + string) \<Rightarrow> string option \<Rightarrow> room_attachment_asset" where
  "room_attachment_new send file_name =
     \<lparr>at_asset_id = None, at_file_name = file_name, at_reply_to = None, at_send = send,
      at_sent = []\<rparr>"

definition room_attachment_upload ::
  "media_env \<Rightarrow> path \<Rightarrow> room_attachment_asset \<Rightarrow> fs \<Rightarrow>
   (media_error + upload) \<times> room_attachment_asset \<times> fs" where
  "room_attachment_upload env src a fs =
     (case fs_read src fs of
        (Inl e, fs) \<Rightarrow> (Inl (MediaIo e), a, fs)
      | (Inr data, fs) \<Rightarrow>
          (let file_name = (case at_file_name a of
                 Some n \<Rightarrow> n
               | None \<Rightarrow> (case path_file_name src of Some n \<Rightarrow> n | None \<Rightarrow> ''''));
               (ext, mime) = determine_file_extension_and_mime env data src;
               sent = \<lparr>sa_file_name = file_name, sa_mime = mime, sa_data = data,
                       sa_reply = at_reply_to a\<rparr>
           in case at_send a sent of
                Inl e \<Rightarrow> (Inl (MediaMatrixError e), a, fs)
              | Inr event_id \<Rightarrow>
                  (Inr \<lparr>ul_file_extension = ext, ul_upstream_url = ''''\<rparr>,
                   a\<lparr>at_sent := at_sent a @ [sent], at_asset_id := Some event_id\<rparr>, fs)))"

definition room_attachment_ops :: "media_env \<Rightarrow> room_attachment_asset asset_ops" where
  "room_attachment_ops env =
     \<lparr>op_asset_id = (\<lambda>a. case at_asset_id a of
        None \<Rightarrow> Inl AssetIdNotSpecified | Some i \<Rightarrow> Inr i),
      op_is_up_to_date = (\<lambda>_ a. (Inr True, a)),
      op_was_removed = (\<lambda>a. (False, a)),
      op_download = (\<lambda>a. (Inl MediaNotAllowed, a)),
      op_upload = room_attachment_upload env\<rparr>"

text \<open>The media of an event: \<open>me_source\<close> is the URL of its source, if it has one.\<close>

record media_event_asset =
  me_asset_id :: string
  me_source :: "string option"
  me_file :: "sdk_error + bytes option"
  me_file_name :: "string option"

definition get_upstream_url :: "media_event_asset \<Rightarrow> media_error + string" where
  "get_upstream_url a =
     (case me_source a of None \<Rightarrow> Inl MediaNotFound | Some url \<Rightarrow> Inr url)"

definition media_event_is_up_to_date ::
  "asset_info \<Rightarrow> media_event_asset \<Rightarrow> (media_error + bool) \<times> media_event_asset" where
  "media_event_is_up_to_date info a =
     (case get_upstream_url a of
        Inl e \<Rightarrow> (Inl e, a)
      | Inr url \<Rightarrow> (Inr (url = ai_upstream_url info), a))"

definition media_event_download ::
  "media_env \<Rightarrow> media_event_asset \<Rightarrow> (media_error + download) \<times> media_event_asset" where
  "media_event_download env a =
     (case get_upstream_url a of
        Inl e \<Rightarrow> (Inl e, a)
      | Inr url \<Rightarrow>
          (case me_file a of
             Inl e \<Rightarrow> (Inl (MediaMatrixError e), a)
           | Inr None \<Rightarrow> (Inl MediaNotFound, a)
           | Inr (Some data) \<Rightarrow>
               (Inr \<lparr>dl_data = data,
                     dl_file_extension = (case me_file_name a of
                        Some n \<Rightarrow> determine_file_extension_with_path env data (parse_path n)
                      | None \<Rightarrow> determine_file_extension_from_data env data),
                     dl_upstream_url = url\<rparr>, a)))"

definition media_event_ops :: "media_env \<Rightarrow> media_event_asset asset_ops" where
  "media_event_ops env =
     \<lparr>op_asset_id = (\<lambda>a. Inr (me_asset_id a)),
      op_is_up_to_date = media_event_is_up_to_date,
      op_was_removed = (\<lambda>a. (get_upstream_url a = Inl MediaNotFound, a)),
      op_download = media_event_download env,
      op_upload = (\<lambda>_ a fs. (Inl MediaNotAllowed, a, fs))\<rparr>"

section \<open>The media manager\<close>

record media_manager =
  mm_data_root_dir :: path
  mm_room_avatars_dir :: path
  mm_user_avatars_dir :: path
  mm_attachments_dir :: path

text \<open>Creating a directory logs its errors.\<close>

definition init_dir_relative :: "media_manager \<Rightarrow> path \<Rightarrow> fs \<Rightarrow> fs" where
  "init_dir_relative mm dir fs = snd (fs_create_dir_all (path_join (mm_data_root_dir mm) dir) fs)"

definition init_dirs :: "media_manager \<Rightarrow> fs \<Rightarrow> fs" where
  "init_dirs mm fs =
     init_dir_relative mm (mm_attachments_dir mm)
       (init_dir_relative mm (mm_user_avatars_dir mm)
         (init_dir_relative mm (mm_room_avatars_dir mm) fs))"

definition media_manager_new :: "path \<Rightarrow> path \<Rightarrow> fs \<Rightarrow> media_manager \<times> fs" where
  "media_manager_new root media_dir fs =
     (let mm = \<lparr>mm_data_root_dir = root,
                mm_room_avatars_dir = path_join media_dir (parse_path ''room_avatars''),
                mm_user_avatars_dir = path_join media_dir (parse_path ''user_avatars''),
                mm_attachments_dir = path_join media_dir (parse_path ''attachments'')\<rparr>
      in (mm, init_dirs mm fs))"

definition asset_manager_new :: "path \<Rightarrow> path \<Rightarrow> 'a \<Rightarrow> 'a asset_manager" where
  "asset_manager_new root dir asset =
     \<lparr>am_data_root_dir = root, am_asset_dir = dir, am_asset = asset\<rparr>"

definition get_room_avatar_path ::
  "media_env \<Rightarrow> media_manager \<Rightarrow> room_avatar_asset \<Rightarrow> fs \<Rightarrow> string option \<times> fs" where
  "get_room_avatar_path env mm asset fs =
     (let m = asset_manager_new (mm_data_root_dir mm) (mm_room_avatars_dir mm) asset;
          (r, m, fs) = manager_download env (room_avatar_ops env) m fs
      in (result_ok r, fs))"

definition upload_room_avatar ::
  "media_env \<Rightarrow> media_manager \<Rightarrow> room_avatar_asset \<Rightarrow> path \<Rightarrow> fs \<Rightarrow> (media_error + string) \<times> fs" where
  "upload_room_avatar env mm asset avatar_path fs =
     (let m = asset_manager_new (mm_data_root_dir mm) (mm_room_avatars_dir mm) asset;
          (r, m, fs) = manager_upload env (room_avatar_ops env) avatar_path m fs
      in (r, fs))"

definition get_user_avatar_path ::
  "media_env \<Rightarrow> media_manager \<Rightarrow> string \<Rightarrow> (error + string option) list \<Rightarrow>
   (string \<Rightarrow> sdk_error + bytes) \<Rightarrow> fs \<Rightarrow> string option \<times> fs" where
  "get_user_avatar_path env mm user_id answers content fs =
     (let m = asset_manager_new (mm_data_root_dir mm) (mm_user_avatars_dir mm)
            (user_avatar_new user_id answers content);
          (r, m, fs) = manager_download env (user_avatar_ops env) m fs
      in (result_ok r, fs))"

text \<open>The result is the ID of the created event; the sent attachments come with it.\<close>

definition send_room_attachment ::
  "media_env \<Rightarrow> media_manager \<Rightarrow> string \<Rightarrow> (sent_attachment \<Rightarrow> sdk_error + string) \<Rightarrow>
   path \<Rightarrow> string option \<Rightarrow> string option \<Rightarrow> fs \<Rightarrow>
   (media_error + string) \<times> sent_attachment list \<times> fs" where
  "send_room_attachment env mm rid send attachment_path file_name related_event fs =
     (let dir = path_join (mm_attachments_dir mm) (parse_path rid);
          fs = init_dir_relative mm dir fs;
          asset = room_attachment_new send file_name;
          asset = (case related_event of
             None \<Rightarrow> asset | Some event_id \<Rightarrow> asset\<lparr>at_reply_to := Some event_id\<rparr>);
          m = asset_manager_new (mm_data_root_dir mm) dir asset;
          ops = room_attachment_ops env;
          (r, m, fs) = manager_upload env ops attachment_path m fs
      in case r of
           Inl e \<Rightarrow> (Inl e, at_sent (am_asset m), fs)
         | Inr _ \<Rightarrow> (op_asset_id ops (am_asset m), at_sent (am_asset m), fs))"

definition download_from_media_event_content ::
  "media_env \<Rightarrow> media_manager \<Rightarrow> string \<Rightarrow> string \<Rightarrow> string option \<Rightarrow>
   (sdk_error + bytes option) \<Rightarrow> string option \<Rightarrow> fs \<Rightarrow> (media_error + string) \<times> fs" where
  "download_from_media_event_content env mm rid event_id source file file_name fs =
     (let dir = path_join (mm_attachments_dir mm) (parse_path rid);
          fs = init_dir_relative mm dir fs;
          m = asset_manager_new (mm_data_root_dir mm) dir
            \<lparr>me_asset_id = event_id, me_source = source, me_file = file, me_file_name = file_name\<rparr>;
          (r, m, fs) = manager_download env (media_event_ops env) m fs
      in (r, fs))"

section \<open>Where an asset is stored\<close>

text \<open>
  A place for the asset with the given ID: a directory, without subdirectories, whose
  absolute path is \<open>get_download_dir_absolute\<close>, and an ID that is one path component.
\<close>

definition asset_place :: "'a asset_ops \<Rightarrow> 'a asset_manager \<Rightarrow> string \<Rightarrow> fs \<Rightarrow> bool" where
  "asset_place ops m i fs \<longleftrightarrow>
     op_asset_id ops (am_asset m) = Inr i \<and> plain_name i \<and> faultless fs \<and>
     is_dir fs (fs_key fs (get_download_dir_absolute m)) \<and>
     (\<forall>k \<in> set (fs_dirs fs). butlast k = fs_key fs (get_download_dir_absolute m) \<longrightarrow> k = [])"

definition info_name :: "string \<Rightarrow> string" where
  "info_name i = i @ ''_info'' @ ''.json''"

definition data_name :: "string \<Rightarrow> string option \<Rightarrow> string" where
  "data_name i ext = (case ext of Some e \<Rightarrow> i @ ''.'' @ e | None \<Rightarrow> i)"

definition plain_extension :: "string option \<Rightarrow> bool" where
  "plain_extension ext \<longleftrightarrow> (case ext of Some e \<Rightarrow> slash \<notin> set e | None \<Rightarrow> True)"

definition asset_file :: "'a asset_manager \<Rightarrow> string \<Rightarrow> path" where
  "asset_file m n = path_join (get_download_dir_absolute m) (parse_path n)"

lemma plain_info_name [simp]: "plain_name i \<Longrightarrow> plain_name (info_name i)"
  by (cases i) (auto simp: plain_name_def info_name_def slash_def)

lemma plain_data_name [simp]: "plain_name i \<Longrightarrow> plain_extension e \<Longrightarrow> plain_name (data_name i e)"
  by (cases i) (auto simp: plain_name_def data_name_def plain_extension_def slash_def append_eq_Cons_conv
      split: option.splits)

lemma info_name_neq_data_name [simp]: "info_name i \<noteq> data_name i e" "data_name i e \<noteq> info_name i"
  by (auto simp: info_name_def data_name_def split: option.splits)

lemma asset_file_key:
  "plain_name n \<Longrightarrow> fs_key fs (asset_file m n) = fs_key fs (get_download_dir_absolute m) @ [n]"
  by (simp add: asset_file_def path_comps_join_plain fs_key_def resolve_comps_append)
    (simp add: plain_name_def)

lemma asset_file_key_eq [simp]:
  "plain_name n \<Longrightarrow> plain_name n' \<Longrightarrow>
   fs_key fs (asset_file m n) = fs_key fs (asset_file m n') \<longleftrightarrow> n = n'"
  by (simp add: asset_file_key)

lemma asset_place_update [simp]:
  "asset_place ops m i (fs\<lparr>fs_files := x\<rparr>) = asset_place ops m i fs"
  by (simp add: asset_place_def)

lemma asset_place_put [simp]: "asset_place ops m i (fs_put p d fs) = asset_place ops m i fs"
  by (simp add: asset_place_def fs_put_def)

lemma asset_place_write:
  assumes "asset_place ops m i fs" "plain_name n"
  shows "fs_write (asset_file m n) d fs = (Inr (), fs_put (asset_file m n) d fs)"
proof (rule fs_write_faultless)
  show "faultless fs" using assms(1) by (simp add: asset_place_def)
  show "\<not> is_dir fs (fs_key fs (asset_file m n))"
    using assms by (auto simp: is_dir_def asset_file_key asset_place_def)
  show "is_dir fs (butlast (fs_key fs (asset_file m n)))"
    using assms by (simp add: asset_file_key asset_place_def)
qed

lemma asset_place_info_path:
  assumes "asset_place ops m i fs"
  shows "get_info_path_absolute ops m = Inr (asset_file m (info_name i))"
    and "get_asset_file_name ops e m = Inr (data_name i e)"
  using assms
  by (auto simp: asset_place_def get_info_path_absolute_def get_info_file_name_def asset_file_def
      info_name_def get_asset_file_name_def data_name_def split: option.splits)

lemma asset_place_paths:
  assumes "asset_place ops m i fs" "plain_name n"
  shows "get_asset_path_absolute ops n m = Inr (asset_file m n)"
    and "asset_path_result ops n m = Inr (render_path (path_join (am_asset_dir m) (parse_path n)))"
  using assms plain_info_name [of i]
  by (auto simp: asset_place_def get_info_path_absolute_def get_info_file_name_def asset_file_def
      get_asset_path_absolute_def asset_path_result_def get_asset_path_relative_def
      get_info_path_relative_def get_download_dir_relative_def set_file_name_join_plain
      info_name_def)

text \<open>What the info file says, when it is there and readable.\<close>

definition info_on_disk :: "media_env \<Rightarrow> 'a asset_manager \<Rightarrow> string \<Rightarrow> fs \<Rightarrow> asset_info option" where
  "info_on_disk env m i fs =
     (case file_at fs (asset_file m (info_name i)) of
        None \<Rightarrow> None
      | Some b \<Rightarrow> result_ok (md_info_from_json env b))"

lemma asset_place_read_info:
  assumes "asset_place ops m i fs"
  shows "read_asset_info env ops m fs = (info_on_disk env m i fs, fs)"
proof -
  have p: "plain_name (info_name i)" and f: "faultless fs"
    using assms by (simp_all add: asset_place_def)
  have "\<not> is_dir fs (fs_key fs (asset_file m (info_name i)))"
    using assms p by (auto simp: is_dir_def asset_file_key asset_place_def)
  then show ?thesis
    using f by (auto simp: read_asset_info_def asset_place_info_path [OF assms] fs_exists_def
        fs_read_faultless info_on_disk_def split: option.splits)
qed

text \<open>Both files are gone after a deletion.\<close>

definition without_files :: "'a asset_manager \<Rightarrow> string list \<Rightarrow> fs \<Rightarrow> fs" where
  "without_files m names fs =
     fold (\<lambda>n fs. fs\<lparr>fs_files := hm_remove (fs_key fs (asset_file m n)) (fs_files fs)\<rparr>) names fs"

lemma asset_place_delete:
  assumes "asset_place ops m i fs" "plain_name (ai_file info)"
  shows "delete_asset_and_info ops info m fs = without_files m [info_name i, ai_file info] fs"
  using assms
  by (simp add: delete_asset_and_info_def asset_place_info_path [OF assms(1)]
      asset_place_paths [OF assms] asset_place_def
      fs_remove_file_faultless without_files_def)

lemma file_at_without_files:
  "\<forall>n' \<in> set ns. plain_name n' \<Longrightarrow> plain_name n \<Longrightarrow>
   file_at (without_files m ns fs) (asset_file m n) =
     (if n \<in> set ns then None else file_at fs (asset_file m n))"
proof (induction ns arbitrary: fs)
  case (Cons a ns)
  then show ?case
    by (auto simp: without_files_def)
qed (simp add: without_files_def)

lemma asset_place_without_files [simp]:
  "asset_place ops m i (without_files m' ns fs) = asset_place ops m i fs"
  by (induction ns arbitrary: fs) (simp_all add: without_files_def)

text \<open>Writing data and info.\<close>

lemma asset_place_write_both:
  assumes "asset_place ops m i fs" "plain_name (ai_file info)" "md_info_to_json env info = Inr b"
  shows "write_info_and_asset env ops m info d fs =
     (Inr (), fs_put (asset_file m (info_name i)) b (fs_put (asset_file m (ai_file info)) d fs))"
proof -
  have p: "plain_name (info_name i)" using assms(1) by (simp add: asset_place_def)
  show ?thesis
    using assms(3)
    by (simp add: write_info_and_asset_def asset_place_info_path [OF assms(1)]
        asset_place_paths [OF assms(1,2)] p
        write_asset_def write_asset_info_def asset_place_write [OF assms(1,2)]
        asset_place_write [of ops m i "fs_put (asset_file m (ai_file info)) d fs", OF _ p] assms(1))
qed

section \<open>The contract of an asset\<close>

text \<open>
  What the manager relies on: comparing, checking and downloading keep the ID, and what
  has just been downloaded compares as up to date.
\<close>

locale asset =
  fixes ops :: "'a asset_ops"
  assumes up_to_date_id: "op_is_up_to_date ops info a = (r, a') \<Longrightarrow> op_asset_id ops a' = op_asset_id ops a"
    and removed_id: "op_was_removed ops a = (rem, a') \<Longrightarrow> op_asset_id ops a' = op_asset_id ops a"
    and download_id: "op_download ops a = (d, a') \<Longrightarrow> op_asset_id ops a' = op_asset_id ops a"
    and download_fresh: "op_download ops a = (Inr dl, a') \<Longrightarrow>
      ai_upstream_url info = dl_upstream_url dl \<Longrightarrow> op_is_up_to_date ops info a' = (Inr True, a')"
begin

lemma place_asset:
  "op_asset_id ops a = op_asset_id ops (am_asset m) \<Longrightarrow>
   asset_place ops (m\<lparr>am_asset := a\<rparr>) i fs = asset_place ops m i fs"
  by (simp add: asset_place_def get_download_dir_absolute_def get_download_dir_relative_def)

lemma file_asset [simp]: "asset_file (m\<lparr>am_asset := a\<rparr>) = asset_file m"
  by (rule ext) (simp add: asset_file_def get_download_dir_absolute_def get_download_dir_relative_def)

lemma disk_asset [simp]: "info_on_disk env (m\<lparr>am_asset := a\<rparr>) = info_on_disk env m"
  by (rule ext, rule ext) (simp add: info_on_disk_def)

text \<open>An info file whose data is up to date, or cannot be compared, is served as it is.\<close>

lemma download_cached:
  assumes "asset_place ops m i fs" "info_on_disk env m i fs = Some j" "plain_name (ai_file j)"
    and "op_is_up_to_date ops j (am_asset m) = (r, a)" "r \<noteq> Inr False"
  shows "manager_download env ops m fs =
    (Inr (render_path (path_join (am_asset_dir m) (parse_path (ai_file j)))), m\<lparr>am_asset := a\<rparr>, fs)"
proof -
  have "asset_place ops (m\<lparr>am_asset := a\<rparr>) i fs"
    using assms(1) up_to_date_id [OF assms(4)] place_asset by simp
  from asset_place_paths(2) [OF this assms(3)]
  have "asset_path_result ops (ai_file j) (m\<lparr>am_asset := a\<rparr>) =
      Inr (render_path (path_join (am_asset_dir m) (parse_path (ai_file j))))"
    by simp
  then show ?thesis
    using assms(4,5)
    by (cases r) (auto simp: manager_download_def has_been_downloaded_before_def
        asset_place_read_info [OF assms(1)] assms(2) is_up_to_date_def)
qed

text \<open>An asset that was removed from the server is deleted here.\<close>

lemma download_removed:
  assumes "asset_place ops m i fs" "info_on_disk env m i fs = Some j" "plain_name (ai_file j)"
    and "op_is_up_to_date ops j (am_asset m) = (Inr False, a)" "op_was_removed ops a = (True, a')"
  shows "manager_download env ops m fs =
    (Inl MediaRemoved, m\<lparr>am_asset := a'\<rparr>, without_files m [info_name i, ai_file j] fs)"
proof -
  have "asset_place ops (m\<lparr>am_asset := a'\<rparr>) i fs"
    using assms(1) up_to_date_id [OF assms(4)] removed_id [OF assms(5)] place_asset by simp
  from asset_place_delete [OF this assms(3)] assms(4,5) show ?thesis
    by (simp add: manager_download_def has_been_downloaded_before_def
        asset_place_read_info [OF assms(1)] assms(2) is_up_to_date_def without_files_def)
qed

text \<open>A download replaces the files and is served from then on.\<close>

lemma download_asset_stored:
  fixes d :: download and i :: string and env :: media_env
  defines "n \<equiv> data_name i (dl_file_extension d)"
  defines "info \<equiv> \<lparr>ai_file = n, ai_download_ts = md_now env, ai_upstream_url = dl_upstream_url d\<rparr>"
  assumes "asset_place ops m i fs" "op_download ops (am_asset m) = (Inr d, a)"
    and "plain_extension (dl_file_extension d)"
    and "md_info_to_json env info = Inr b" "md_info_from_json env b = Inr info"
    and "\<forall>j. info_on_disk env m i fs = Some j \<longrightarrow> plain_name (ai_file j) \<and> ai_file j \<noteq> info_name i"
    and "download_asset env ops m fs = (r, m', fs')"
  shows "r = Inr (render_path (path_join (am_asset_dir m) (parse_path n))) \<and>
    m' = m\<lparr>am_asset := a\<rparr> \<and> asset_place ops m' i fs' \<and>
    file_at fs' (asset_file m n) = Some (dl_data d) \<and> info_on_disk env m i fs' = Some info \<and>
    (\<forall>j. info_on_disk env m i fs = Some j \<longrightarrow> ai_file j \<noteq> n \<longrightarrow>
       file_at fs' (asset_file m (ai_file j)) = None)"
proof -
  let ?m = "m\<lparr>am_asset := a\<rparr>"
  define fs0 where "fs0 = (case info_on_disk env m i fs of None \<Rightarrow> fs
    | Some j \<Rightarrow> without_files m [info_name i, ai_file j] fs)"
  have p: "plain_name n" "plain_name i" "plain_name (info_name i)"
    using assms(3,5) by (simp_all add: n_def asset_place_def)
  have place: "asset_place ops ?m i fs"
    using assms(3) download_id [OF assms(4)] place_asset by simp
  then have place0: "asset_place ops ?m i fs0" by (simp add: fs0_def split: option.splits)
  have del: "(case info_on_disk env m i fs of None \<Rightarrow> fs | Some j \<Rightarrow> delete_asset_and_info ops j ?m fs)
      = fs0"
    using asset_place_delete [OF place] assms(8)
    by (auto simp: fs0_def without_files_def split: option.splits)
  have name: "ai_file info = n" by (simp add: info_def)
  have w: "write_info_and_asset env ops ?m info (dl_data d) fs0 = (Inr (),
      fs_put (asset_file m (info_name i)) b (fs_put (asset_file m n) (dl_data d) fs0))"
    using asset_place_write_both [OF place0 _ assms(6)] p(1) name by simp
  have path: "asset_path_result ops n ?m = Inr (render_path (path_join (am_asset_dir m) (parse_path n)))"
    using asset_place_paths(2) [OF place p(1)] by simp
  have e: "r = Inr (render_path (path_join (am_asset_dir m) (parse_path n)))" "m' = ?m"
    "fs' = fs_put (asset_file m (info_name i)) b (fs_put (asset_file m n) (dl_data d) fs0)"
    using assms(9) w path
    by (auto simp: download_asset_def assms(4) asset_place_read_info [OF place] del
        asset_place_info_path(2) [OF place0] asset_place_info_path(2) [OF place]
        n_def [symmetric] info_def [symmetric] Let_def)
  have neq: "info_name i \<noteq> n" by (simp add: n_def)
  have "file_at fs' (asset_file m (ai_file j)) = None"
    if j: "info_on_disk env m i fs = Some j" "ai_file j \<noteq> n" for j
  proof -
    from assms(8) j(1) have pj: "plain_name (ai_file j)" "ai_file j \<noteq> info_name i" by auto
    with p have "file_at fs0 (asset_file m (ai_file j)) = None"
      by (simp add: fs0_def j(1) file_at_without_files)
    with e(3) pj j(2) p show ?thesis by simp
  qed
  moreover have "info_on_disk env m i fs' = Some info"
    using e(3) p assms(7) by (simp add: info_on_disk_def)
  ultimately show ?thesis
    using e neq p place0 by simp
qed

text \<open>A fresh download is the next answer, and nothing is written again.\<close>

lemma download_then_cached:
  assumes "asset_place ops m i fs" "op_download ops (am_asset m) = (Inr d, a)"
    and "plain_extension (dl_file_extension d)"
    and "md_info_to_json env \<lparr>ai_file = data_name i (dl_file_extension d),
       ai_download_ts = md_now env, ai_upstream_url = dl_upstream_url d\<rparr> = Inr b"
    and "md_info_from_json env b = Inr \<lparr>ai_file = data_name i (dl_file_extension d),
       ai_download_ts = md_now env, ai_upstream_url = dl_upstream_url d\<rparr>"
    and "\<forall>j. info_on_disk env m i fs = Some j \<longrightarrow> plain_name (ai_file j) \<and> ai_file j \<noteq> info_name i"
    and "download_asset env ops m fs = (r, m', fs')"
  shows "manager_download env ops m' fs' = (r, m', fs')"
proof -
  note s = download_asset_stored [OF assms]
  have p: "plain_name (data_name i (dl_file_extension d))"
    using assms(1,3) by (simp add: asset_place_def)
  have m': "m' = m\<lparr>am_asset := a\<rparr>" and place: "asset_place ops m' i fs'"
    using s by blast+
  have disk: "info_on_disk env m' i fs' = Some \<lparr>ai_file = data_name i (dl_file_extension d),
       ai_download_ts = md_now env, ai_upstream_url = dl_upstream_url d\<rparr>"
    using s m' by simp
  have u: "op_is_up_to_date ops \<lparr>ai_file = data_name i (dl_file_extension d),
       ai_download_ts = md_now env, ai_upstream_url = dl_upstream_url d\<rparr> (am_asset m') = (Inr True, a)"
    using download_fresh [OF assms(2)] m' by simp
  have "m'\<lparr>am_asset := a\<rparr> = m'" using m' by simp
  with download_cached [OF place disk _ u] p s show ?thesis by (simp add: m')
qed

end

section \<open>The assets meet the contract\<close>

lemma get_avatar_uri_id:
  "get_avatar_uri a = (r, a') \<Longrightarrow> ua_user_id a' = ua_user_id a \<and>
     (case r of Inr uri \<Rightarrow> ua_avatar_uri a' = Some uri \<and> get_avatar_uri a' = (Inr uri, a') | Inl _ \<Rightarrow> True)"
  by (auto simp: get_avatar_uri_def next_avatar_answer_def split: option.splits list.splits sum.splits)

interpretation room_avatar: asset "room_avatar_ops env" for env
  by unfold_locales
    (auto simp: room_avatar_ops_def room_avatar_is_up_to_date_def room_avatar_download_def
      split: option.splits sum.splits)

interpretation room_attachment: asset "room_attachment_ops env" for env
  by unfold_locales (auto simp: room_attachment_ops_def)

interpretation media_event: asset "media_event_ops env" for env
  by unfold_locales
    (auto simp: media_event_ops_def media_event_is_up_to_date_def media_event_download_def
      get_upstream_url_def split: option.splits sum.splits)

interpretation user_avatar: asset "user_avatar_ops env" for env
proof unfold_locales
  fix info :: asset_info and a r a'
  show "op_is_up_to_date (user_avatar_ops env) info a = (r, a') \<Longrightarrow>
    op_asset_id (user_avatar_ops env) a' = op_asset_id (user_avatar_ops env) a"
    by (auto simp: user_avatar_ops_def user_avatar_is_up_to_date_def
        split: prod.splits sum.splits option.splits dest: get_avatar_uri_id)
next
  fix a r a'
  show "op_was_removed (user_avatar_ops env) a = (r, a') \<Longrightarrow>
    op_asset_id (user_avatar_ops env) a' = op_asset_id (user_avatar_ops env) a"
    by (auto simp: user_avatar_ops_def user_avatar_was_removed_def
        split: prod.splits sum.splits dest: get_avatar_uri_id)
next
  fix a d a'
  show "op_download (user_avatar_ops env) a = (d, a') \<Longrightarrow>
    op_asset_id (user_avatar_ops env) a' = op_asset_id (user_avatar_ops env) a"
    by (auto simp: user_avatar_ops_def user_avatar_download_def
        split: prod.splits sum.splits option.splits dest: get_avatar_uri_id)
next
  fix a dl a' and info :: asset_info
  assume "op_download (user_avatar_ops env) a = (Inr dl, a')" and i: "ai_upstream_url info = dl_upstream_url dl"
  then obtain uri where "get_avatar_uri a = (Inr (Some uri), a')" "dl_upstream_url dl = uri"
    by (auto simp: user_avatar_ops_def user_avatar_download_def
        split: prod.splits sum.splits option.splits)
  with get_avatar_uri_id [of a "Inr (Some uri)" a'] i
  show "op_is_up_to_date (user_avatar_ops env) info a' = (Inr True, a')"
    by (simp add: user_avatar_ops_def user_avatar_is_up_to_date_def)
qed

section \<open>Properties\<close>

text \<open>The info the manager writes for a download, and a JSON codec that reads it back.\<close>

definition download_info :: "media_env \<Rightarrow> string \<Rightarrow> string option \<Rightarrow> string \<Rightarrow> asset_info" where
  "download_info env i ext url =
     \<lparr>ai_file = data_name i ext, ai_download_ts = md_now env, ai_upstream_url = url\<rparr>"

definition info_codec_ok :: "media_env \<Rightarrow> asset_info \<Rightarrow> bool" where
  "info_codec_ok env info \<longleftrightarrow>
     (\<exists>b. md_info_to_json env info = Inr b \<and> md_info_from_json env b = Inr info)"

definition room_avatar_manager :: "media_manager \<Rightarrow> room_avatar_asset \<Rightarrow> room_avatar_asset asset_manager" where
  "room_avatar_manager mm a = asset_manager_new (mm_data_root_dir mm) (mm_room_avatars_dir mm) a"

definition avatar_path :: "path \<Rightarrow> string \<Rightarrow> string" where
  "avatar_path dir n = render_path (path_join dir (parse_path n))"

definition good_info :: "string \<Rightarrow> asset_info \<Rightarrow> bool" where
  "good_info i j \<longleftrightarrow> plain_name (ai_file j) \<and> ai_file j \<noteq> info_name i"

lemma room_avatar_manager_fields [simp]:
  "am_asset (room_avatar_manager mm a) = a" "am_asset_dir (room_avatar_manager mm a) = mm_room_avatars_dir mm"
  "(room_avatar_manager mm a)\<lparr>am_asset := b\<rparr> = room_avatar_manager mm b"
  by (simp_all add: room_avatar_manager_def asset_manager_new_def)

lemma get_room_avatar_path_download:
  "manager_download env (room_avatar_ops env) (room_avatar_manager mm a) fs = (r, m', fs') \<Longrightarrow>
   get_room_avatar_path env mm a fs = (result_ok r, fs')"
  by (simp add: get_room_avatar_path_def room_avatar_manager_def)

lemma room_avatar_ops_simps:
  "op_asset_id (room_avatar_ops env) a = Inr (ra_id a)"
  "op_is_up_to_date (room_avatar_ops env) j a = room_avatar_is_up_to_date j a"
  "op_was_removed (room_avatar_ops env) a = (ra_avatar_url a = None, a)"
  "op_download (room_avatar_ops env) a = room_avatar_download env a"
  "op_upload (room_avatar_ops env) src a fs = room_avatar_upload env src a fs"
  by (simp_all add: room_avatar_ops_def)

lemmas room_avatar_simps = room_avatar_ops_simps room_avatar_is_up_to_date_def
  room_avatar_download_def determine_file_extension_from_data_def download_mxc_def

lemma room_avatar_not_cached:
  assumes "asset_place (room_avatar_ops env) (room_avatar_manager mm a) (ra_id a) fs"
    and "ra_avatar_url a = Some url"
    and "\<And>j. info_on_disk env (room_avatar_manager mm a) (ra_id a) fs = Some j \<Longrightarrow> ai_upstream_url j \<noteq> url"
  shows "manager_download env (room_avatar_ops env) (room_avatar_manager mm a) fs =
    download_asset env (room_avatar_ops env) (room_avatar_manager mm a) fs"
  using assms(2,3)
  by (auto simp: manager_download_def has_been_downloaded_before_def is_up_to_date_def
      asset_place_read_info [OF assms(1)] room_avatar_simps split: option.splits)

text \<open>The four outcomes for the avatar of a room.\<close>

lemma room_avatar_gone:
  assumes m_def: "m = room_avatar_manager mm a"
    and place: "asset_place (room_avatar_ops env) m (ra_id a) fs"
    and old: "\<And>j. info_on_disk env m (ra_id a) fs = Some j \<Longrightarrow> good_info (ra_id a) j"
    and run: "get_room_avatar_path env mm a fs = (r, fs')" and url: "ra_avatar_url a = None"
  shows "r = None \<and> (\<forall>j. info_on_disk env m (ra_id a) fs = Some j \<longrightarrow>
    file_at fs' (asset_file m (info_name (ra_id a))) = None \<and> file_at fs' (asset_file m (ai_file j)) = None)"
proof (cases "info_on_disk env m (ra_id a) fs")
  case (Some j)
  have p: "plain_name (info_name (ra_id a))" "plain_name (ai_file j)"
    using old [OF Some] place by (simp_all add: good_info_def asset_place_def)
  from room_avatar.download_removed [OF place Some p(2), of a a] url
  have "manager_download env (room_avatar_ops env) m fs =
      (Inl MediaRemoved, m, without_files m [info_name (ra_id a), ai_file j] fs)"
    by (simp add: room_avatar_simps m_def)
  from get_room_avatar_path_download [OF this [unfolded m_def]] run Some p show ?thesis
    by (simp add: m_def file_at_without_files)
next
  case None
  with url have "manager_download env (room_avatar_ops env) m fs = (Inl MediaNotFound, m, fs)"
    by (simp add: manager_download_def has_been_downloaded_before_def download_asset_def
        asset_place_read_info [OF place [unfolded m_def]] room_avatar_simps m_def)
  from get_room_avatar_path_download [OF this [unfolded m_def]] run None show ?thesis by simp
qed

lemma room_avatar_current:
  assumes m_def: "m = room_avatar_manager mm a"
    and place: "asset_place (room_avatar_ops env) m (ra_id a) fs"
    and j: "info_on_disk env m (ra_id a) fs = Some j" "good_info (ra_id a) j"
    and url: "ra_avatar_url a = Some (ai_upstream_url j)"
  shows "get_room_avatar_path env mm a fs = (Some (avatar_path (mm_room_avatars_dir mm) (ai_file j)), fs)"
proof -
  have "op_is_up_to_date (room_avatar_ops env) j (am_asset m) = (Inr True, a)"
    using url by (simp add: room_avatar_simps m_def)
  from room_avatar.download_cached [OF place j(1) _ this] j(2)
  have "manager_download env (room_avatar_ops env) m fs =
      (Inr (avatar_path (mm_room_avatars_dir mm) (ai_file j)), m, fs)"
    by (simp add: good_info_def avatar_path_def m_def)
  from get_room_avatar_path_download [OF this [unfolded m_def]] show ?thesis by simp
qed

lemma room_avatar_unreachable:
  assumes m_def: "m = room_avatar_manager mm a"
    and eq: "manager_download env (room_avatar_ops env) m fs = download_asset env (room_avatar_ops env) m fs"
    and url: "ra_avatar_url a = Some url" "ra_content a url = Inl e"
  shows "get_room_avatar_path env mm a fs = (None, fs)"
proof -
  have "download_asset env (room_avatar_ops env) m fs = (Inl (MediaMatrixError e), m, fs)"
    using url by (simp add: download_asset_def room_avatar_simps m_def)
  from get_room_avatar_path_download [OF this [folded eq, unfolded m_def]] show ?thesis by simp
qed

lemma room_avatar_downloaded:
  assumes m_def: "m = room_avatar_manager mm a"
    and place: "asset_place (room_avatar_ops env) m (ra_id a) fs"
    and old: "\<And>j. info_on_disk env m (ra_id a) fs = Some j \<Longrightarrow> good_info (ra_id a) j"
    and new: "plain_extension (md_infer env c)" "info_codec_ok env (download_info env (ra_id a) (md_infer env c) url)"
    and run: "get_room_avatar_path env mm a fs = (r, fs')"
    and eq: "manager_download env (room_avatar_ops env) m fs = download_asset env (room_avatar_ops env) m fs"
    and url: "ra_avatar_url a = Some url" "ra_content a url = Inr c"
    and n_def: "n = data_name (ra_id a) (md_infer env c)"
  shows "r = Some (avatar_path (mm_room_avatars_dir mm) n) \<and> file_at fs' (asset_file m n) = Some c \<and>
    info_on_disk env m (ra_id a) fs' = Some (download_info env (ra_id a) (md_infer env c) url) \<and>
    (\<forall>j. info_on_disk env m (ra_id a) fs = Some j \<longrightarrow> ai_file j \<noteq> n \<longrightarrow>
       file_at fs' (asset_file m (ai_file j)) = None)"
proof -
  let ?d = "\<lparr>dl_data = c, dl_file_extension = md_infer env c, dl_upstream_url = url\<rparr>"
  obtain b where b: "md_info_to_json env (download_info env (ra_id a) (md_infer env c) url) = Inr b"
    "md_info_from_json env b = Inr (download_info env (ra_id a) (md_infer env c) url)"
    using new by (auto simp: info_codec_ok_def)
  have d: "op_download (room_avatar_ops env) (am_asset m) = (Inr ?d, a)"
    using url by (simp add: room_avatar_simps m_def)
  obtain r1 m1 where run1: "download_asset env (room_avatar_ops env) m fs = (r1, m1, fs')"
    and r: "r = result_ok r1"
    using run eq by (auto simp: get_room_avatar_path_def room_avatar_manager_def m_def split: prod.splits)
  from room_avatar.download_asset_stored [OF place d, where env = env and b = b and r = r1 and m' = m1 and fs' = fs']
    run1 b new old r
  show ?thesis by (auto simp: download_info_def good_info_def avatar_path_def m_def n_def)
qed

text \<open>
  Claim C26: The stored avatar of a room follows the server, when the ID of the room is one component of a
  path (an ID with a slash is excluded), the directory of the avatars exists without subdirectories, the
  operations on files succeed, an info file that can be read names as its data file one path component
  other than its own, and fetched data gets an extension without a slash and an info that
  can be written and read back.  Then, after asking for the avatar: without an avatar there is no path and
  both files of an earlier one are gone.  With the avatar of the info file, its path is answered
  and nothing changes.  With another avatar that can be fetched, its data is on disk under the answered
  path, the info file names it, and the data file of the earlier avatar is gone.  If it
  cannot be fetched, nothing changes.
\<close>

theorem room_avatar_follows_server:
  assumes m_def: "m = room_avatar_manager mm a"
    and place: "asset_place (room_avatar_ops env) m (ra_id a) fs"
    and old: "\<And>j. info_on_disk env m (ra_id a) fs = Some j \<Longrightarrow> good_info (ra_id a) j"
    and new: "\<And>url c. ra_content a url = Inr c \<Longrightarrow> plain_extension (md_infer env c) \<and>
      info_codec_ok env (download_info env (ra_id a) (md_infer env c) url)"
    and run: "get_room_avatar_path env mm a fs = (r, fs')"
  shows "case ra_avatar_url a of
      None \<Rightarrow> r = None \<and>
        (\<forall>j. info_on_disk env m (ra_id a) fs = Some j \<longrightarrow>
           file_at fs' (asset_file m (info_name (ra_id a))) = None \<and>
           file_at fs' (asset_file m (ai_file j)) = None)
    | Some url \<Rightarrow>
        (if \<exists>j. info_on_disk env m (ra_id a) fs = Some j \<and> ai_upstream_url j = url
         then \<exists>j. info_on_disk env m (ra_id a) fs = Some j \<and> fs' = fs \<and>
                r = Some (avatar_path (mm_room_avatars_dir mm) (ai_file j))
         else (case ra_content a url of
             Inl _ \<Rightarrow> r = None \<and> fs' = fs
           | Inr c \<Rightarrow>
               (let n = data_name (ra_id a) (md_infer env c)
                in r = Some (avatar_path (mm_room_avatars_dir mm) n) \<and>
                   file_at fs' (asset_file m n) = Some c \<and>
                   info_on_disk env m (ra_id a) fs' =
                     Some (download_info env (ra_id a) (md_infer env c) url) \<and>
                   (\<forall>j. info_on_disk env m (ra_id a) fs = Some j \<longrightarrow> ai_file j \<noteq> n \<longrightarrow>
                      file_at fs' (asset_file m (ai_file j)) = None))))"
proof (cases "ra_avatar_url a")
  case None
  with room_avatar_gone [OF m_def place old run] show ?thesis by simp
next
  case (Some url)
  show ?thesis
  proof (cases "\<exists>j. info_on_disk env m (ra_id a) fs = Some j \<and> ai_upstream_url j = url")
    case True
    with room_avatar_current [OF m_def place] old run Some show ?thesis by fastforce
  next
    case False
    then have eq: "manager_download env (room_avatar_ops env) m fs =
        download_asset env (room_avatar_ops env) m fs"
      using room_avatar_not_cached [OF place [unfolded m_def] Some] by (auto simp: m_def)
    show ?thesis
    proof (cases "ra_content a url")
      case (Inl e)
      with room_avatar_unreachable [OF m_def eq Some Inl] run Some False show ?thesis by auto
    next
      case (Inr c)
      with room_avatar_downloaded [OF m_def place old _ _ run eq Some Inr refl] new [OF Inr] Some False
      show ?thesis by (auto simp: Let_def)
    qed
  qed
qed

text \<open>A room with an avatar, an empty directory for it, and one that held another avatar.\<close>

definition example_env :: "asset_info \<Rightarrow> media_env" where
  "example_env i = \<lparr>md_infer = (\<lambda>_. Some ''png''), md_mime_from_ext = (\<lambda>_. None),
     md_info_to_json = (\<lambda>_. Inr [1]), md_info_from_json = (\<lambda>_. Inr i), md_now = 5\<rparr>"

definition example_media :: media_manager where
  "example_media = \<lparr>mm_data_root_dir = \<lparr>path_abs = True, path_comps = [''d'']\<rparr>,
     mm_room_avatars_dir = \<lparr>path_abs = False, path_comps = [''rooms'']\<rparr>,
     mm_user_avatars_dir = \<lparr>path_abs = False, path_comps = [''users'']\<rparr>,
     mm_attachments_dir = \<lparr>path_abs = False, path_comps = [''files'']\<rparr>\<rparr>"

definition example_fs :: "(string list, bytes) hmap \<Rightarrow> fs" where
  "example_fs files = \<lparr>fs_cwd = [], fs_files = files,
     fs_dirs = [[], [''d''], [''d'', ''rooms''], [''d'', ''users''], [''d'', ''files''],
                [''d'', ''files'', ''!r'']],
     fs_outcomes = []\<rparr>"

definition example_room_avatar :: room_avatar_asset where
  "example_room_avatar = \<lparr>ra_id = ''!r'', ra_avatar_url = Some ''u'',
     ra_content = (\<lambda>u. if u = ''u'' then Inr [9] else Inl SdkAuthenticationRequired),
     ra_upload = (\<lambda>_ _. Inr ''v''), ra_set_avatar_url = (\<lambda>_. Inr ())\<rparr>"

definition example_info :: "string \<Rightarrow> string \<Rightarrow> asset_info" where
  "example_info file url = \<lparr>ai_file = file, ai_download_ts = 5, ai_upstream_url = url\<rparr>"

lemmas example_media_defs = example_env_def example_media_def example_fs_def example_info_def
  asset_place_def get_download_dir_absolute_def get_download_dir_relative_def path_join_def
  fs_key_def is_dir_def faultless_def plain_name_def slash_def room_avatar_ops_simps
  info_on_disk_def file_at_def asset_file_def parse_path_def info_name_def data_name_def
  download_info_def info_codec_ok_def plain_extension_def

lemma room_avatar_follows_server_witness:
  "\<exists>fs'. get_room_avatar_path (example_env (example_info ''!r.png'' ''u'')) example_media
     example_room_avatar (example_fs []) = (Some ''rooms/!r.png'', fs')"
proof -
  let ?env = "example_env (example_info ''!r.png'' ''u'')"
  let ?m = "room_avatar_manager example_media example_room_avatar"
  let ?i = "ra_id example_room_avatar"
  obtain r fs' where run: "get_room_avatar_path ?env example_media example_room_avatar (example_fs []) =
      (r, fs')" by force
  have m: "am_data_root_dir ?m = mm_data_root_dir example_media" "am_asset_dir ?m = mm_room_avatars_dir example_media"
    "am_asset ?m = example_room_avatar"
    by (simp_all add: room_avatar_manager_def asset_manager_new_def)
  have place: "asset_place (room_avatar_ops ?env) ?m ?i (example_fs [])"
    using m by (simp add: example_media_defs example_room_avatar_def)
  have none: "info_on_disk ?env ?m ?i (example_fs []) = None"
    by (simp add: example_fs_def info_on_disk_def file_at_def)
  have new: "plain_extension (md_infer ?env c) \<and>
      info_codec_ok ?env (download_info ?env ?i (md_infer ?env c) url)"
    if "ra_content example_room_avatar url = Inr c" for url c
    using that by (auto simp: example_media_defs example_room_avatar_def split: if_splits)
  have u: "ra_avatar_url example_room_avatar = Some ''u''" "ra_content example_room_avatar ''u'' = Inr [9]"
    by (simp_all add: example_room_avatar_def)
  have "r = Some (avatar_path (mm_room_avatars_dir example_media) (data_name ?i (md_infer ?env [9])))"
    using room_avatar_follows_server [OF refl place _ new run] none u by (simp add: Let_def)
  then have "r = Some ''rooms/!r.png''"
    by (simp add: avatar_path_def example_media_defs example_room_avatar_def render_path_def)
  with run show ?thesis by blast
qed

lemma dir_ready_asset_put:
  assumes "dir_ready (get_download_dir_absolute m) fs" "plain_name n"
  shows "dir_ready (get_download_dir_absolute m) (fs_put (asset_file m n) d fs)"
proof -
  have long: "length k \<le> length xs" if "k \<in> set (prefixes_of xs)" for k xs :: "string list"
    using that by (induction xs arbitrary: k) auto
  have "fs_key fs (get_download_dir_absolute m) @ [n]
      \<notin> set (prefixes_of (fs_key fs (get_download_dir_absolute m)))"
    using long by fastforce
  with assms(1) show ?thesis
    by (auto simp: dir_ready_def) (auto simp: fs_put_def asset_file_key [OF assms(2)])
qed

text \<open>The manager of the media of an event.\<close>

definition media_event_manager ::
  "media_manager \<Rightarrow> string \<Rightarrow> media_event_asset \<Rightarrow> media_event_asset asset_manager" where
  "media_event_manager mm rid a =
     asset_manager_new (mm_data_root_dir mm) (path_join (mm_attachments_dir mm) (parse_path rid)) a"

lemma media_event_manager_simps [simp]:
  "am_asset (media_event_manager mm rid a) = a"
  "am_asset_dir (media_event_manager mm rid a) = path_join (mm_attachments_dir mm) (parse_path rid)"
  "(media_event_manager mm rid a)\<lparr>am_asset := b\<rparr> = media_event_manager mm rid b"
  "get_download_dir_absolute (media_event_manager mm rid a) =
     path_join (mm_data_root_dir mm) (path_join (mm_attachments_dir mm) (parse_path rid))"
  by (simp_all add: media_event_manager_def asset_manager_new_def get_download_dir_absolute_def
      get_download_dir_relative_def)

lemma media_event_ops_simps:
  "op_asset_id (media_event_ops env) a = Inr (me_asset_id a)"
  "op_is_up_to_date (media_event_ops env) j a = media_event_is_up_to_date j a"
  "op_download (media_event_ops env) a = media_event_download env a"
  by (simp_all add: media_event_ops_def)

lemma download_from_ready:
  assumes "faultless fs"
    and "dir_ready (get_download_dir_absolute (media_event_manager mm rid a)) fs"
  shows "download_from_media_event_content env mm rid (me_asset_id a) (me_source a) (me_file a)
      (me_file_name a) fs =
    (case manager_download env (media_event_ops env) (media_event_manager mm rid a) fs of
       (r, m, fs) \<Rightarrow> (r, fs))"
proof -
  have "init_dir_relative mm (path_join (mm_attachments_dir mm) (parse_path rid)) fs = fs"
    using assms by (simp add: init_dir_relative_def fs_create_dir_all_ready)
  then show ?thesis
    by (cases a) (simp add: download_from_media_event_content_def media_event_manager_def Let_def)
qed

text \<open>
  The media of an event is downloaded once.  The first request stores the bytes the
  server sent under the answered path, named after the event and the file's extension;
  every later request for the same source answers the same path from disk, whatever the
  server would answer then, and changes no file.
\<close>

theorem media_event_downloaded_once:
  assumes m_def: "m = media_event_manager mm rid
      \<lparr>me_asset_id = event_id, me_source = Some url, me_file = Inr (Some data), me_file_name = file_name\<rparr>"
    and place: "asset_place (media_event_ops env) m event_id fs"
    and ready: "dir_ready (get_download_dir_absolute m) fs"
    and fresh: "info_on_disk env m event_id fs = None"
    and file_ext: "ext = (case file_name of
        Some n \<Rightarrow> determine_file_extension_with_path env data (parse_path n)
      | None \<Rightarrow> determine_file_extension_from_data env data)" "plain_extension ext"
    and codec: "info_codec_ok env (download_info env event_id ext url)"
    and run: "download_from_media_event_content env mm rid event_id (Some url) (Inr (Some data))
      file_name fs = (r, fs1)"
  shows "r = Inr (avatar_path (path_join (mm_attachments_dir mm) (parse_path rid)) (data_name event_id ext))
    \<and> file_at fs1 (asset_file m (data_name event_id ext)) = Some data
    \<and> download_from_media_event_content env mm rid event_id (Some url) answer file_name' fs1 = (r, fs1)"
proof -
  let ?a = "\<lparr>me_asset_id = event_id, me_source = Some url, me_file = Inr (Some data),
    me_file_name = file_name\<rparr>"
  let ?a2 = "\<lparr>me_asset_id = event_id, me_source = Some url, me_file = answer,
    me_file_name = file_name'\<rparr>"
  let ?d = "\<lparr>dl_data = data, dl_file_extension = ext, dl_upstream_url = url\<rparr>"
  let ?info = "download_info env event_id ext url"
  let ?n = "data_name event_id ext"
  obtain b where b: "md_info_to_json env ?info = Inr b" "md_info_from_json env b = Inr ?info"
    using codec by (auto simp: info_codec_ok_def)
  have f: "faultless fs" and i: "plain_name event_id" using place by (simp_all add: asset_place_def)
  have d: "op_download (media_event_ops env) (am_asset m) = (Inr ?d, ?a)"
    using file_ext(1) by (simp add: m_def media_event_ops_simps media_event_download_def get_upstream_url_def)
  have first: "manager_download env (media_event_ops env) m fs = download_asset env (media_event_ops env) m fs"
    using fresh by (simp add: manager_download_def has_been_downloaded_before_def
        asset_place_read_info [OF place])
  obtain m1 where r1: "download_asset env (media_event_ops env) m fs = (r, m1, fs1)"
    using run first download_from_ready [OF f, of mm rid ?a env] ready
    by (auto simp: m_def split: prod.splits)
  have s: "r = Inr (avatar_path (path_join (mm_attachments_dir mm) (parse_path rid)) ?n)"
    "m1 = m" "asset_place (media_event_ops env) m1 event_id fs1"
    "file_at fs1 (asset_file m ?n) = Some data" "info_on_disk env m event_id fs1 = Some ?info"
    using media_event.download_asset_stored [OF place d, where env = env and b = b and r = r and
        m' = m1 and fs' = fs1] b r1 fresh file_ext(2)
    by (auto simp: download_info_def avatar_path_def m_def)
  have fs1: "fs1 = fs_put (asset_file m (info_name event_id)) b (fs_put (asset_file m ?n) data fs)"
    using r1 fresh asset_place_write_both [OF place, of ?info env b data] b(1) i file_ext(2) d
    by (auto simp: download_asset_def m_def asset_place_read_info [OF place [unfolded m_def]]
        asset_place_info_path(2) [OF place [unfolded m_def]] download_info_def Let_def
        split: prod.splits sum.splits)
  have "dir_ready (get_download_dir_absolute m) fs1"
    unfolding fs1 by (intro dir_ready_asset_put ready) (use i file_ext(2) in simp_all)
  then have ready1: "dir_ready (get_download_dir_absolute (media_event_manager mm rid ?a2)) fs1"
    by (simp add: m_def)
  have place1: "asset_place (media_event_ops env) (media_event_manager mm rid ?a2) event_id fs1"
    using s(2,3) by (simp add: asset_place_def m_def media_event_ops_simps)
  have same: "info_on_disk env (media_event_manager mm rid ?a2) = info_on_disk env m"
    by (rule ext, rule ext) (simp add: info_on_disk_def asset_file_def m_def)
  have "op_is_up_to_date (media_event_ops env) ?info ?a2 = (Inr True, ?a2)"
    by (simp add: media_event_ops_simps media_event_is_up_to_date_def get_upstream_url_def download_info_def)
  with media_event.download_cached [OF place1, of env ?info "Inr True" ?a2] s(5) i file_ext(2)
  have "manager_download env (media_event_ops env) (media_event_manager mm rid ?a2) fs1 =
      (r, media_event_manager mm rid ?a2, fs1)"
    by (simp add: same s(1) avatar_path_def download_info_def)
  with download_from_ready [OF _ ready1, of env] s place1 show ?thesis
    by (simp add: asset_place_def)
qed

lemma media_event_downloaded_once_witness:
  "\<exists>fs1. download_from_media_event_content (example_env (example_info ''e.png'' ''u'')) example_media
     ''!r'' ''e'' (Some ''u'') (Inr (Some [9])) None (example_fs []) = (Inr ''files/!r/e.png'', fs1) \<and>
   download_from_media_event_content (example_env (example_info ''e.png'' ''u'')) example_media
     ''!r'' ''e'' (Some ''u'') (Inr None) None fs1 = (Inr ''files/!r/e.png'', fs1)"
proof -
  let ?env = "example_env (example_info ''e.png'' ''u'')"
  let ?m = "media_event_manager example_media ''!r'' \<lparr>me_asset_id = ''e'', me_source = Some ''u'',
      me_file = Inr (Some [9]), me_file_name = None\<rparr>"
  obtain r fs1 where run: "download_from_media_event_content ?env example_media ''!r'' ''e'' (Some ''u'')
      (Inr (Some [9])) None (example_fs []) = (r, fs1)" by force
  have place: "asset_place (media_event_ops ?env) ?m ''e'' (example_fs [])"
    by (simp add: asset_place_def media_event_ops_simps plain_name_def slash_def faultless_def)
      (simp add: example_media_def example_fs_def fs_key_def path_join_def parse_path_def slash_def
        is_dir_def)
  have ready: "dir_ready (get_download_dir_absolute ?m) (example_fs [])"
    by (simp add: dir_ready_def)
      (simp add: example_media_def example_fs_def fs_key_def path_join_def parse_path_def slash_def)
  have fresh: "info_on_disk ?env ?m ''e'' (example_fs []) = None"
    by (simp add: example_fs_def info_on_disk_def file_at_def)
  have ext: "Some ''png'' = (case None of
        Some n \<Rightarrow> determine_file_extension_with_path ?env [9] (parse_path n)
      | None \<Rightarrow> determine_file_extension_from_data ?env [9])"
    by (simp add: determine_file_extension_from_data_def example_env_def)
  have plain: "plain_extension (Some ''png'')" and
    codec: "info_codec_ok ?env (download_info ?env ''e'' (Some ''png'') ''u'')"
    by (simp_all add: example_media_defs)
  have path: "avatar_path (path_join (mm_attachments_dir example_media) (parse_path ''!r''))
      (data_name ''e'' (Some ''png'')) = ''files/!r/e.png''"
    by (simp add: avatar_path_def example_media_def render_path_def path_join_def parse_path_def
        slash_def data_name_def)
  note once = media_event_downloaded_once [OF refl place ready fresh ext plain codec run,
      of "Inr None" None, unfolded path]
  from once run show ?thesis by blast
qed

text \<open>
  Claim C30: Uploading as new avatar the file that is stored as the current one (the path that
  asking for the avatar answers) sets it on the server, deletes it here as the old
  version, and then fails: the error is that the source does not exist, and neither the
  data nor the info file is left.
\<close>

theorem reupload_loses_stored_avatar:
  assumes m_def: "m = room_avatar_manager mm a"
    and place: "asset_place (room_avatar_ops env) m (ra_id a) fs"
    and disk: "info_on_disk env m (ra_id a) fs = Some j" "good_info (ra_id a) j"
    and data: "file_at fs (asset_file m (ai_file j)) = Some data"
    and server: "\<And>mime. ra_upload a mime data = Inr uri" "ra_set_avatar_url a uri = Inr ()"
    and run: "upload_room_avatar env mm a
      (path_join (mm_room_avatars_dir mm) (parse_path (ai_file j))) fs = (r, fs')"
  shows "r = Inl (MediaIo not_found) \<and> file_at fs' (asset_file m (ai_file j)) = None \<and>
    file_at fs' (asset_file m (info_name (ra_id a))) = None"
proof -
  let ?src = "path_join (mm_data_root_dir mm)
    (path_join (mm_room_avatars_dir mm) (parse_path (ai_file j)))"
  let ?fs = "without_files m [info_name (ra_id a), ai_file j] fs"
  have p: "plain_name (ai_file j)" "plain_name (info_name (ra_id a))"
    using disk(2) place by (simp_all add: good_info_def asset_place_def)
  have src: "?src = asset_file m (ai_file j)"
    using p(1) by (simp add: asset_file_def m_def get_download_dir_absolute_def
        get_download_dir_relative_def room_avatar_manager_def asset_manager_new_def
        parse_path_plain path_join_def)
  have f: "faultless fs" using place by (simp add: asset_place_def)
  obtain ext mime where e: "determine_file_extension_and_mime env data ?src = (ext, mime)" by force
  have up: "room_avatar_upload env ?src a fs = (Inr \<lparr>ul_file_extension = ext, ul_upstream_url = uri\<rparr>, a, fs)"
    using data server e by (simp add: room_avatar_upload_def fs_read_faultless [OF f] src)
  have gone: "file_at ?fs (asset_file m (ai_file j)) = None"
    "file_at ?fs (asset_file m (info_name (ra_id a))) = None"
    using p by (simp_all add: file_at_without_files)
  have place': "asset_place (room_avatar_ops env) m (ra_id a) ?fs" using place by simp
  have ren: "fs_rename ?src q ?fs = (Inl not_found, ?fs)" for q
    using place' gone(1) by (simp add: fs_rename_def src asset_place_def)
  have root: "am_data_root_dir m = mm_data_root_dir mm" "asset_manager_new (mm_data_root_dir mm)
      (mm_room_avatars_dir mm) a = m" "am_asset m = a" "m\<lparr>am_asset := a\<rparr> = m"
    by (simp_all add: m_def room_avatar_manager_def asset_manager_new_def)
  have "\<exists>q. get_asset_path_absolute (room_avatar_ops env) (data_name (ra_id a) ext) m = Inr q"
    by (simp add: get_asset_path_absolute_def asset_place_info_path(1) [OF place'])
  then have "manager_upload env (room_avatar_ops env)
      (path_join (mm_room_avatars_dir mm) (parse_path (ai_file j))) m fs =
    (Inl (MediaIo not_found), m, ?fs)"
    using up ren
    by (auto simp: manager_upload_def root room_avatar_ops_simps asset_place_read_info [OF place] disk(1)
        asset_place_delete [OF place p(1)] asset_place_info_path [OF place'] Let_def)
  with run gone show ?thesis by (simp add: upload_room_avatar_def root)
qed

lemma reupload_loses_stored_avatar_witness:
  "fst (upload_room_avatar (example_env (example_info ''!r.png'' ''u'')) example_media example_room_avatar
     \<lparr>path_abs = False, path_comps = [''rooms'', ''!r.png'']\<rparr>
     (example_fs [([''d'', ''rooms'', ''!r.png''], [9]), ([''d'', ''rooms'', ''!r_info.json''], [1])]))
   = Inl (MediaIo not_found)"
proof -
  let ?env = "example_env (example_info ''!r.png'' ''u'')"
  let ?fs = "example_fs [([''d'', ''rooms'', ''!r.png''], [9]), ([''d'', ''rooms'', ''!r_info.json''], [1])]"
  let ?m = "room_avatar_manager example_media example_room_avatar"
  let ?i = "ra_id example_room_avatar" and ?j = "example_info ''!r.png'' ''u''"
  have m: "am_data_root_dir ?m = mm_data_root_dir example_media" "am_asset_dir ?m = mm_room_avatars_dir example_media"
    "am_asset ?m = example_room_avatar"
    by (simp_all add: room_avatar_manager_def asset_manager_new_def)
  have place: "asset_place (room_avatar_ops ?env) ?m ?i ?fs"
    using m by (simp add: example_media_defs example_room_avatar_def)
  have disk: "info_on_disk ?env ?m ?i ?fs = Some ?j" "good_info ?i ?j"
    "file_at ?fs (asset_file ?m (ai_file ?j)) = Some [9]"
    using m by (simp_all add: example_media_defs example_room_avatar_def good_info_def)
  have server: "ra_upload example_room_avatar mime [9] = Inr ''v''"
    "ra_set_avatar_url example_room_avatar ''v'' = Inr ()" for mime
    by (simp_all add: example_room_avatar_def)
  have src: "path_join (mm_room_avatars_dir example_media) (parse_path (ai_file ?j)) =
      \<lparr>path_abs = False, path_comps = [''rooms'', ''!r.png'']\<rparr>"
    by (simp add: example_media_defs)
  obtain r fs' where run: "upload_room_avatar ?env example_media example_room_avatar
      (path_join (mm_room_avatars_dir example_media) (parse_path (ai_file ?j))) ?fs = (r, fs')"
    by (cases "upload_room_avatar ?env example_media example_room_avatar
      (path_join (mm_room_avatars_dir example_media) (parse_path (ai_file ?j))) ?fs")
  from reupload_loses_stored_avatar [OF refl place disk server run] run show ?thesis
    by (simp add: src)
qed

text \<open>The manager of a user's avatar.\<close>

definition user_avatar_manager ::
  "media_manager \<Rightarrow> user_avatar_asset \<Rightarrow> user_avatar_asset asset_manager" where
  "user_avatar_manager mm a = asset_manager_new (mm_data_root_dir mm) (mm_user_avatars_dir mm) a"

lemma user_avatar_ops_simps:
  "op_asset_id (user_avatar_ops env) a = Inr (ua_user_id a)"
  "op_is_up_to_date (user_avatar_ops env) j a = user_avatar_is_up_to_date j a"
  "op_download (user_avatar_ops env) a = user_avatar_download env a"
  by (simp_all add: user_avatar_ops_def)

text \<open>
  While the server cannot be asked for a user's avatar URI, a downloaded avatar is
  served from disk and kept.
\<close>

theorem user_avatar_served_offline:
  assumes "asset_place (user_avatar_ops env) m user_id fs"
    and "m = user_avatar_manager mm (user_avatar_new user_id [Inl e, Inl e'] content)"
    and "info_on_disk env m user_id fs = Some j" "plain_name (ai_file j)"
  shows "get_user_avatar_path env mm user_id [Inl e, Inl e'] content fs =
    (Some (avatar_path (mm_user_avatars_dir mm) (ai_file j)), fs)"
proof -
  let ?a = "user_avatar_new user_id [Inl e, Inl e'] content"
  have a: "am_asset m = ?a" "am_asset_dir m = mm_user_avatars_dir mm"
    using assms(2) by (simp_all add: user_avatar_manager_def asset_manager_new_def)
  have "\<exists>a'. op_is_up_to_date (user_avatar_ops env) j (am_asset m) = (Inl UnableToGetAvatarUri, a')"
    by (simp add: a user_avatar_ops_simps user_avatar_is_up_to_date_def get_avatar_uri_def
        user_avatar_new_def next_avatar_answer_def)
  then obtain a' where "op_is_up_to_date (user_avatar_ops env) j (am_asset m) =
      (Inl UnableToGetAvatarUri, a')" by blast
  from user_avatar.download_cached [OF assms(1,3,4) this] a(2) show ?thesis
    using assms(2) by (simp add: get_user_avatar_path_def user_avatar_manager_def avatar_path_def)
qed

lemma user_avatar_served_offline_witness:
  "get_user_avatar_path (example_env (example_info ''@u.png'' ''u'')) example_media ''@u''
     [Inl Network, Inl Network] (\<lambda>_. Inr []) (example_fs [([''d'', ''users'', ''@u_info.json''], [1])])
   = (Some ''users/@u.png'', example_fs [([''d'', ''users'', ''@u_info.json''], [1])])"
proof -
  let ?env = "example_env (example_info ''@u.png'' ''u'')"
  let ?fs = "example_fs [([''d'', ''users'', ''@u_info.json''], [1])]"
  let ?a = "user_avatar_new ''@u'' [Inl Network, Inl Network] (\<lambda>_. Inr [])"
  let ?m = "user_avatar_manager example_media ?a"
  have m: "am_data_root_dir ?m = mm_data_root_dir example_media" "am_asset_dir ?m = mm_user_avatars_dir example_media"
    "ua_user_id (am_asset ?m) = ''@u''"
    by (simp_all add: user_avatar_manager_def asset_manager_new_def user_avatar_new_def
        next_avatar_answer_def)
  have place: "asset_place (user_avatar_ops ?env) ?m ''@u'' ?fs"
    using m by (simp add: example_media_defs user_avatar_ops_simps)
  have disk: "info_on_disk ?env ?m ''@u'' ?fs = Some (example_info ''@u.png'' ''u'')"
    "plain_name (ai_file (example_info ''@u.png'' ''u''))"
    using m by (simp_all add: example_media_defs)
  have path: "avatar_path (mm_user_avatars_dir example_media) (ai_file (example_info ''@u.png'' ''u'')) =
      ''users/@u.png''"
    by (simp add: avatar_path_def example_media_defs render_path_def)
  from user_avatar_served_offline [OF place refl disk] path show ?thesis by simp
qed

text \<open>An ID with a slash is two path components.\<close>

lemma split_path_append:
  "slash \<notin> set s \<Longrightarrow> split_path acc (s @ slash # t) = (rev acc @ s) # split_path [] t"
  by (induction acc s rule: split_path.induct) auto

lemma parse_path_two:
  "plain_name a \<Longrightarrow> plain_name b \<Longrightarrow>
   parse_path (a @ slash # b) = \<lparr>path_abs = False, path_comps = [a, b]\<rparr>"
  by (cases a; cases b)
    (auto simp: plain_name_def parse_path_def split_path_append split_path_no_slash)

lemma slash_names:
  "info_name (a @ slash # b) = a @ slash # info_name b"
  "data_name (a @ slash # b) e = a @ slash # data_name b e"
  by (simp_all add: info_name_def data_name_def split: option.splits)

text \<open>
  The avatar of a user whose ID contains a slash: where its files would be, and what happens when
  they are read and written.
\<close>

lemma resolve_plain_comps: "''..'' \<notin> set xs \<Longrightarrow> resolve_comps base xs = base @ xs"
  by (induction base xs rule: resolve_comps.induct) auto

lemma fs_key_below:
  "''..'' \<notin> set xs \<Longrightarrow> fs_key fs (P\<lparr>path_comps := path_comps P @ xs\<rparr>) = fs_key fs P @ xs"
  by (simp add: fs_key_def resolve_comps_append resolve_plain_comps)

lemma plain_names_below:
  "plain_name a \<Longrightarrow> a \<noteq> ''..''" "plain_name b \<Longrightarrow> info_name b \<noteq> ''..''"
  "plain_name b \<Longrightarrow> plain_extension e \<Longrightarrow> data_name b e \<noteq> ''..''"
  using plain_info_name [of b] plain_data_name [of b e] by (auto simp: plain_name_def)

lemma user_avatar_new_id: "ua_user_id (user_avatar_new i uris content) = i"
  by (simp add: user_avatar_new_def next_avatar_answer_def Let_def split: list.split)

lemma slash_avatar_info_path:
  assumes "plain_name a" "plain_name b"
    and m_def: "m = user_avatar_manager mm (user_avatar_new (a @ slash # b) uris content)"
    and P_def: "P = path_join (mm_data_root_dir mm) (mm_user_avatars_dir mm)"
  shows "get_info_path_absolute (user_avatar_ops env) m = Inr (P\<lparr>path_comps := path_comps P @ [a, info_name b]\<rparr>)"
    and "plain_extension e \<Longrightarrow> get_asset_path_absolute (user_avatar_ops env) (data_name (a @ slash # b) e) m =
      Inr (P\<lparr>path_comps := path_comps P @ [a, a, data_name b e]\<rparr>)"
proof -
  have base: "get_download_dir_absolute m = P"
    by (simp add: user_avatar_manager_def asset_manager_new_def get_download_dir_absolute_def
        get_download_dir_relative_def P_def m_def)
  have "path_join P (parse_path (info_name (a @ slash # b))) = P\<lparr>path_comps := path_comps P @ [a, info_name b]\<rparr>"
    using assms(1,2) by (simp add: slash_names parse_path_two path_join_def)
  moreover have "ua_user_id (am_asset m) = a @ slash # b"
    by (simp add: m_def user_avatar_manager_def asset_manager_new_def user_avatar_new_id)
  ultimately show info: "get_info_path_absolute (user_avatar_ops env) m =
      Inr (P\<lparr>path_comps := path_comps P @ [a, info_name b]\<rparr>)"
    by (simp add: get_info_path_absolute_def get_info_file_name_def user_avatar_ops_simps base info_name_def)
  show "get_asset_path_absolute (user_avatar_ops env) (data_name (a @ slash # b) e) m =
      Inr (P\<lparr>path_comps := path_comps P @ [a, a, data_name b e]\<rparr>)" if "plain_extension e"
    using assms(1,2) that plain_names_below [OF assms(1)] plain_names_below(2,3) [of b]
    by (simp add: get_asset_path_absolute_def info path_set_file_name_def path_file_name_def slash_names
        parse_path_two path_join_def butlast_append)
qed

lemma slash_avatar_not_written:
  assumes "plain_name a" "plain_name b" "faultless fs" "plain_extension e"
    and "m = user_avatar_manager mm (user_avatar_new (a @ slash # b) uris content)"
    and "\<not> is_dir fs (fs_key fs (path_join (mm_data_root_dir mm) (mm_user_avatars_dir mm)) @ [a, a])"
  shows "\<exists>x. write_info_and_asset env (user_avatar_ops env) m \<lparr>ai_file = data_name (a @ slash # b) e,
    ai_download_ts = t, ai_upstream_url = url\<rparr> d fs = (Inl (MediaIo x), fs)"
  using assms(3,6) plain_names_below(1) [OF assms(1)] plain_names_below(3) [OF assms(2,4)]
  by (auto simp: write_info_and_asset_def slash_avatar_info_path [OF assms(1,2,5) refl] assms(4) write_asset_def
      fs_write_def fs_key_below butlast_append)

lemma slash_avatar_download:
  assumes "a' = user_avatar_new i [Inr (Some uri)] content" "\<And>c. plain_extension (md_infer env c)"
  obtains r where "op_download (user_avatar_ops env) a' = (r, a')"
    "\<And>d. r = Inr d \<Longrightarrow> plain_extension (dl_file_extension d)"
proof -
  have a': "get_avatar_uri a' = (Inr (Some uri), a')" "ua_content a' = content"
    by (simp_all add: user_avatar_new_def next_avatar_answer_def get_avatar_uri_def assms(1))
  have "\<exists>r. op_download (user_avatar_ops env) a' = (r, a') \<and> (\<forall>d. r = Inr d \<longrightarrow> plain_extension (dl_file_extension d))"
    using a' assms(2) by (cases "download_mxc content uri")
      (auto simp: user_avatar_ops_simps user_avatar_download_def determine_file_extension_from_data_def)
  then show ?thesis using that by blast
qed

text \<open>
  The avatar of a user whose ID contains a slash, which the grammar of user IDs
  allows, is never stored: the path of its data file repeats the directory part of the ID,
  the write fails, and asking for the avatar gives nothing, whatever the server delivers.
\<close>

theorem avatar_of_slash_id_never_stored:
  assumes "plain_name a" "plain_name b" "faultless fs"
    and dir: "k = fs_key fs (path_join (mm_data_root_dir mm) (mm_user_avatars_dir mm))"
    and empty: "hm_get (fs_files fs) (k @ [a, info_name b]) = None"
      "\<not> is_dir fs (k @ [a, info_name b])" "\<not> is_dir fs (k @ [a, a])"
    and ext: "\<And>c. plain_extension (md_infer env c)"
  shows "get_user_avatar_path env mm (a @ slash # b) [Inr (Some uri)] content fs = (None, fs)"
proof -
  let ?a = "user_avatar_new (a @ slash # b) [Inr (Some uri)] content"
  let ?m = "user_avatar_manager mm ?a" and ?ops = "user_avatar_ops env"
  have same: "am_asset ?m = ?a" "?m\<lparr>am_asset := ?a\<rparr> = ?m"
    by (simp_all add: user_avatar_manager_def asset_manager_new_def)
  have read: "read_asset_info env ?ops ?m fs = (None, fs)"
    using assms(3) empty(1,2) plain_names_below [OF assms(1)] plain_names_below(2) [OF assms(2)]
    by (simp add: read_asset_info_def slash_avatar_info_path [OF assms(1,2) refl refl] fs_exists_def file_at_def
        fs_key_below dir)
  have name: "get_asset_file_name ?ops e ?m = Inr (data_name (a @ slash # b) e)" for e
    by (simp add: get_asset_file_name_def user_avatar_ops_simps data_name_def user_avatar_new_id same
        split: option.splits)
  obtain r where dl: "op_download ?ops ?a = (r, ?a)"
    and r: "\<And>d. r = Inr d \<Longrightarrow> plain_extension (dl_file_extension d)"
    using slash_avatar_download [OF refl ext] by blast
  have "\<exists>e. manager_download env ?ops ?m fs = (Inl e, ?m, fs)"
  proof (cases r)
    case (Inl e)
    with dl show ?thesis
      by (simp add: manager_download_def has_been_downloaded_before_def read download_asset_def same)
  next
    case (Inr d)
    obtain x where "write_info_and_asset env ?ops ?m \<lparr>ai_file = data_name (a @ slash # b) (dl_file_extension d),
        ai_download_ts = md_now env, ai_upstream_url = dl_upstream_url d\<rparr> (dl_data d) fs = (Inl (MediaIo x), fs)"
      using slash_avatar_not_written [OF assms(1-3) r [OF Inr] refl] empty(3) dir by blast
    with Inr dl show ?thesis
      by (auto simp: manager_download_def has_been_downloaded_before_def read download_asset_def same name Let_def)
  qed
  then show ?thesis by (auto simp: get_user_avatar_path_def user_avatar_manager_def)
qed

lemma avatar_of_slash_id_never_stored_witness:
  "get_user_avatar_path (example_env (example_info ''x'' ''u'')) example_media ''@a/b:x''
     [Inr (Some ''u'')] (\<lambda>_. Inr [9]) (example_fs []) = (None, example_fs [])"
proof -
  have s: "''@a'' @ slash # ''b:x'' = ''@a/b:x''" by (simp add: slash_def)
  have "get_user_avatar_path (example_env (example_info ''x'' ''u'')) example_media
      (''@a'' @ slash # ''b:x'') [Inr (Some ''u'')] (\<lambda>_. Inr [9]) (example_fs []) = (None, example_fs [])"
    by (rule avatar_of_slash_id_never_stored [OF _ _ _ refl])
      (simp_all add: example_media_defs)
  then show ?thesis by (simp only: s)
qed

end
