(* ===== verification/Messages.thy ===== *)
theory Messages
  imports Polls Media
begin

text \<open>
  messages.rs: turning a message event into the API's message, and building the events
  that the application sends.  Attached files go through the media manager, so the
  conversion runs on the file system.  What is sent is recorded as the request handed to
  the SDK; rendering Markdown, fetching the event that is replied to and sending are the
  parameter \<open>room_sdk\<close>.
\<close>

section \<open>Received messages\<close>

text \<open>The media side of a conversion: the manager and what the server answers per file.\<close>

record message_env =
  mv_media :: media_env
  mv_manager :: media_manager
  mv_get_file :: "media_content \<Rightarrow> sdk_error + bytes option"

definition download_file ::
  "message_env \<Rightarrow> string \<Rightarrow> string \<Rightarrow> media_content \<Rightarrow> fs \<Rightarrow> content option \<times> fs" where
  "download_file env rid event_id f fs =
     (let file_name = (case mc_filename f of Some n \<Rightarrow> n | None \<Rightarrow> mc_body f)
      in case download_from_media_event_content (mv_media env) (mv_manager env) rid event_id
                (mc_source f) (mv_get_file env f) (Some file_name) fs of
           (Inr path, fs) \<Rightarrow> (Some (CFile path (Some file_name)), fs)
         | (Inl _, fs) \<Rightarrow> (None, fs))"

definition convert_location :: "string \<Rightarrow> string option \<Rightarrow> content option" where
  "convert_location geo_uri location =
     Some (CText (case location of Some uri \<Rightarrow> uri | None \<Rightarrow> geo_uri))"

fun generate_message_content ::
  "message_env \<Rightarrow> string \<Rightarrow> string \<Rightarrow> message_type \<Rightarrow> fs \<Rightarrow> content option \<times> fs" where
  "generate_message_content env rid event_id (MtAudio f) fs = download_file env rid event_id f fs"
| "generate_message_content env rid event_id (MtEmote body) fs = (Some (CText body), fs)"
| "generate_message_content env rid event_id (MtFile f) fs = download_file env rid event_id f fs"
| "generate_message_content env rid event_id (MtImage f) fs = download_file env rid event_id f fs"
| "generate_message_content env rid event_id (MtLocation geo_uri location) fs =
     (convert_location geo_uri location, fs)"
| "generate_message_content env rid event_id (MtNotice body) fs = (Some (CText body), fs)"
| "generate_message_content env rid event_id (MtServerNotice body) fs = (Some (CText body), fs)"
| "generate_message_content env rid event_id (MtText body) fs = (Some (CText body), fs)"
| "generate_message_content env rid event_id (MtVideo f) fs = download_file env rid event_id f fs"
| "generate_message_content env rid event_id MtOther fs = (None, fs)"

definition matrix_mentions_to_proto_mentions :: "mentions option \<Rightarrow> string list" where
  "matrix_mentions_to_proto_mentions ms = (case ms of None \<Rightarrow> [] | Some m \<Rightarrow> mn_user_ids m)"

definition get_related_message_id :: "room_message_content \<Rightarrow> string option" where
  "get_related_message_id c = (case rmc_relates_to c of Some (RelReply i) \<Rightarrow> Some i | _ \<Rightarrow> None)"

definition get_thread_id :: "room_message_content \<Rightarrow> string option" where
  "get_thread_id c = (case rmc_relates_to c of Some (RelThread i) \<Rightarrow> Some i | _ \<Rightarrow> None)"

text \<open>\<open>rid\<close> is the room the message is read from; \<open>c\<close> is the content of the event.\<close>

definition message_from_event ::
  "message_env \<Rightarrow> string \<Rightarrow> full_event \<Rightarrow> room_message_content \<Rightarrow> fs \<Rightarrow> message \<times> fs" where
  "message_from_event env rid event c fs =
     (let mentioned_user_ids = matrix_mentions_to_proto_mentions (rmc_mentions c);
          room_mentioned = (case rmc_mentions c of None \<Rightarrow> False | Some m \<Rightarrow> mn_room m);
          (content, fs) = generate_message_content env rid (ev_id event) (rmc_msgtype c) fs
      in (\<lparr>m_id = ev_id event, m_room_id = ev_room_id event, m_sender_id = ev_sender event,
           m_timestamp = ev_ts event, m_content = content,
           m_related_id = get_related_message_id c, m_is_encrypted = False, m_reactions = [],
           m_mentions = mentioned_user_ids, m_room_mentioned = room_mentioned,
           m_thread_id = get_thread_id c, m_edited = False\<rparr>, fs))"

definition sender_id_from_timeline_event :: "parsers \<Rightarrow> timeline_event \<Rightarrow> error + string" where
  "sender_id_from_timeline_event p event =
     (case te_kind event of
        PlainText raw \<Rightarrow>
          (case parse_sync p raw of
             None \<Rightarrow> Inl (InternalError ''Error deserializing related message'')
           | Some e \<Rightarrow> Inr (ev_sender e))
      | Decrypted raw \<Rightarrow>
          (case parse_full p raw of
             None \<Rightarrow> Inl (InternalError ''Error deserializing related message'')
           | Some e \<Rightarrow> Inr (ev_sender e))
      | UnableToDecrypt _ _ \<Rightarrow>
          Inl (InternalError ''Related event is not plaintext or decrypted''))"

section \<open>Sent messages\<close>

text \<open>
  The content of a message to send, and the event handed to the SDK: a text with its
  relation, or a new poll.  \<open>ReplyTo\<close> and \<open>InThread\<close> hold the arguments of
  \<open>make_reply_to\<close> and \<open>make_for_thread\<close>.
\<close>

datatype send_content =
  SendText string
| SendFile string "string option"
| SendPoll "poll"

record thread_m =
  th_event_id :: string
  th_in_reply_to :: "string option"

record custom_reply_metadata =
  rm_event_id :: string
  rm_sender_id :: string
  rm_thread :: "thread_m option"

datatype out_relation =
  NoRelation
| ReplyTo custom_reply_metadata
| InThread custom_reply_metadata bool

record out_text =
  ot_body :: string
  ot_formatted :: "string option"
  ot_relation :: out_relation
  ot_mentions :: "mentions option"

datatype out_event = OutText out_text | OutPoll string poll_start

record room_sdk =
  sdk_room_id :: string
  sdk_markdown :: "string \<Rightarrow> string option"
  sdk_event :: "string \<Rightarrow> sdk_error + timeline_event"
  sdk_send :: "out_event \<Rightarrow> sdk_error + string"
  sdk_send_attachment :: "sent_attachment \<Rightarrow> sdk_error + string"
  sdk_poll_answers_ok :: "(string \<times> string) list \<Rightarrow> bool"

definition proto_mentions_to_matrix_mentions :: "string list \<Rightarrow> bool \<Rightarrow> error + mentions" where
  "proto_mentions_to_matrix_mentions mentioned_user_ids room_mentioned =
     Inr \<lparr>mn_user_ids = mentioned_user_ids, mn_room = room_mentioned\<rparr>"

definition get_event_sender_id :: "parsers \<Rightarrow> room_sdk \<Rightarrow> string \<Rightarrow> error + string" where
  "get_event_sender_id p sdk event_id =
     (case sdk_event sdk event_id of
        Inl _ \<Rightarrow> Inl MessageNotFound
      | Inr event \<Rightarrow> sender_id_from_timeline_event p event)"

record message_builder =
  mb_content :: send_content
  mb_related :: "string option"
  mb_mentioned :: "string list"
  mb_room_mentioned :: bool
  mb_thread :: "string option"

definition message_builder_new :: "send_content \<Rightarrow> message_builder" where
  "message_builder_new c =
     \<lparr>mb_content = c, mb_related = None, mb_mentioned = [], mb_room_mentioned = False,
      mb_thread = None\<rparr>"

definition get_main_reply_metadata ::
  "parsers \<Rightarrow> room_sdk \<Rightarrow> string \<Rightarrow> error + custom_reply_metadata" where
  "get_main_reply_metadata p sdk related =
     (case get_event_sender_id p sdk related of
        Inl e \<Rightarrow> Inl e
      | Inr s \<Rightarrow> Inr \<lparr>rm_event_id = related, rm_sender_id = s, rm_thread = None\<rparr>)"

definition get_thread_reply_metadata ::
  "parsers \<Rightarrow> room_sdk \<Rightarrow> message_builder \<Rightarrow> string \<Rightarrow> error + custom_reply_metadata" where
  "get_thread_reply_metadata p sdk b thread_id =
     (let related = (case mb_related b of Some r \<Rightarrow> r | None \<Rightarrow> thread_id)
      in case get_event_sender_id p sdk related of
           Inl e \<Rightarrow> Inl e
         | Inr s \<Rightarrow>
             Inr \<lparr>rm_event_id = related, rm_sender_id = s,
                  rm_thread = Some \<lparr>th_event_id = thread_id, th_in_reply_to = mb_related b\<rparr>\<rparr>)"

definition add_thread_metadata ::
  "parsers \<Rightarrow> room_sdk \<Rightarrow> message_builder \<Rightarrow> out_text \<Rightarrow> string \<Rightarrow> error + out_text" where
  "add_thread_metadata p sdk b event thread_id =
     (case get_thread_reply_metadata p sdk b thread_id of
        Inl e \<Rightarrow> Inl e
      | Inr md \<Rightarrow> Inr (event\<lparr>ot_relation := InThread md (mb_related b \<noteq> None)\<rparr>))"

definition add_reply_metadata ::
  "parsers \<Rightarrow> room_sdk \<Rightarrow> out_text \<Rightarrow> string \<Rightarrow> error + out_text" where
  "add_reply_metadata p sdk event related =
     (case get_main_reply_metadata p sdk related of
        Inl e \<Rightarrow> Inl e
      | Inr md \<Rightarrow> Inr (event\<lparr>ot_relation := ReplyTo md\<rparr>))"

text \<open>
  The event of a text message; a message without Markdown gets its body as HTML.
\<close>

definition text_event :: "parsers \<Rightarrow> room_sdk \<Rightarrow> message_builder \<Rightarrow> string \<Rightarrow> error + out_text" where
  "text_event p sdk b body =
     (let event = \<lparr>ot_body = body,
                   ot_formatted = (case sdk_markdown sdk body of Some h \<Rightarrow> Some h | None \<Rightarrow> Some body),
                   ot_relation = NoRelation, ot_mentions = None\<rparr>;
          related = (case mb_thread b of
              Some thread_id \<Rightarrow> add_thread_metadata p sdk b event thread_id
            | None \<Rightarrow>
                (case mb_related b of
                   Some r \<Rightarrow> add_reply_metadata p sdk event r
                 | None \<Rightarrow> Inr event))
      in case related of
           Inl e \<Rightarrow> Inl e
         | Inr event \<Rightarrow>
             if mb_mentioned b \<noteq> [] \<or> mb_room_mentioned b then
               (case proto_mentions_to_matrix_mentions (mb_mentioned b) (mb_room_mentioned b) of
                  Inl e \<Rightarrow> Inl e
                | Inr ms \<Rightarrow> Inr (event\<lparr>ot_mentions := Some ms\<rparr>))
             else Inr event)"

definition send_event :: "room_sdk \<Rightarrow> out_event \<Rightarrow> error + string" where
  "send_event sdk e = (case sdk_send sdk e of Inl err \<Rightarrow> Inl (MatrixSdkError err) | Inr i \<Rightarrow> Inr i)"

definition send_text :: "parsers \<Rightarrow> room_sdk \<Rightarrow> message_builder \<Rightarrow> string \<Rightarrow> error + string" where
  "send_text p sdk b body =
     (case text_event p sdk b body of
        Inl e \<Rightarrow> Inl e
      | Inr event \<Rightarrow> send_event sdk (OutText event))"

definition send_file ::
  "message_env \<Rightarrow> room_sdk \<Rightarrow> message_builder \<Rightarrow> string \<Rightarrow> string option \<Rightarrow> fs \<Rightarrow>
   (error + string) \<times> fs" where
  "send_file env sdk b file_path file_name fs =
     (case send_room_attachment (mv_media env) (mv_manager env) (sdk_room_id sdk)
             (sdk_send_attachment sdk) (parse_path file_path) file_name (mb_related b) fs of
        (Inl e, _, fs) \<Rightarrow> (Inl (MediaError e), fs)
      | (Inr i, _, fs) \<Rightarrow> (Inr i, fs))"

definition poll_event :: "room_sdk \<Rightarrow> poll \<Rightarrow> error + poll_start" where
  "poll_event sdk c =
     (case poll_kind c of
        None \<Rightarrow> Inl InvalidPollType
      | Some t \<Rightarrow>
          (let answers = map poll_option_into_matrix (poll_options c)
           in if \<not> sdk_poll_answers_ok sdk answers then Inl InvalidPollOptions
              else Inr \<lparr>ps_question = poll_question c, ps_kind = poll_type_into_matrix t,
                        ps_max_selections = ucast (poll_max_selections c),
                        ps_answers = answers\<rparr>))"

definition send_poll :: "room_sdk \<Rightarrow> poll \<Rightarrow> error + string" where
  "send_poll sdk c =
     (case poll_event sdk c of
        Inl e \<Rightarrow> Inl e
      | Inr ps \<Rightarrow> send_event sdk (OutPoll (poll_question c) ps))"

definition send_message ::
  "message_env \<Rightarrow> parsers \<Rightarrow> room_sdk \<Rightarrow> message_builder \<Rightarrow> fs \<Rightarrow> (error + string) \<times> fs" where
  "send_message env p sdk b fs =
     (case mb_content b of
        SendText c \<Rightarrow> (send_text p sdk b c, fs)
      | SendFile file_path file_name \<Rightarrow> send_file env sdk b file_path file_name fs
      | SendPoll c \<Rightarrow> (send_poll sdk c, fs))"

section \<open>Properties\<close>

lemma saturating_u32_ucast [simp]: "saturating_u32 (ucast x) = x"
proof -
  have "unat x < 2 ^ LENGTH(32)" by (rule unsigned_less)
  then have "unat (ucast x :: u64) = unat x"
    by (simp add: unsigned_ucast_eq take_bit_nat_eq_self)
  with \<open>unat x < 2 ^ LENGTH(32)\<close> have "unat (saturating_u32 (ucast x)) = unat x"
    by (simp add: unat_saturating_u32)
  then show ?thesis by (simp only: unsigned_word_eqI)
qed

text \<open>
  A poll that is sent arrives as it was composed: assembling the sent start event
  gives the poll with its question, kind, options and number of selections, not completed
  and without votes.
\<close>

theorem sent_poll_is_assembled:
  assumes "poll_event sdk c = Inr ps"
  shows "assemble_poll_start ps = Inr (c\<lparr>poll_completed := False,
    poll_options := map (\<lambda>o'. o'\<lparr>po_voted := []\<rparr>) (poll_options c)\<rparr>)"
  using assms
  by (cases c) (auto simp: poll_event_def assemble_poll_start_def poll_option_roundtrip Let_def
      split: option.splits if_splits)

definition example_sdk :: room_sdk where
  "example_sdk = \<lparr>sdk_room_id = ''!r'', sdk_markdown = (\<lambda>_. None),
     sdk_event = (\<lambda>_. Inr \<lparr>te_kind = PlainText ''x'', te_event_id = None, te_sender = None,
        te_timestamp = None\<rparr>),
     sdk_send = (\<lambda>_. Inr ''e''), sdk_send_attachment = (\<lambda>_. Inr ''f''),
     sdk_poll_answers_ok = (\<lambda>as. length as \<le> 20)\<rparr>"

definition example_poll :: poll where
  "example_poll = \<lparr>poll_kind = Some Disclosed, poll_completed = False, poll_max_selections = 1,
     poll_question = ''Q'', poll_options = [\<lparr>po_id = ''a'', po_text = ''A'', po_voted = []\<rparr>]\<rparr>"

lemma sent_poll_is_assembled_witness:
  "\<exists>ps. poll_event example_sdk example_poll = Inr ps \<and> assemble_poll_start ps = Inr example_poll"
proof -
  obtain ps where ps: "poll_event example_sdk example_poll = Inr ps"
    by (simp add: poll_event_def example_sdk_def example_poll_def Let_def)
  from sent_poll_is_assembled [OF this] ps show ?thesis by (simp add: example_poll_def)
qed

end
