(* ===== verification/MemoryCache.thy ===== *)
theory MemoryCache
  imports Messages Notifications
begin

text \<open>
  memory_cache.rs: the in-memory cache of a room.  Relations (reactions, replacements,
  redactions, poll events) are stashed under the message they refer to; when the original
  message arrives, it is built with what has been stashed.  The state of one room is the
  record \<open>cached_room\<close>, with the locks of the code; a step of the code runs on
  \<open>room_state\<close>, the room with the file system (attachments are downloaded while messages
  are converted) and the log of the events sent to the application.

  The hash maps are lists of entries in their iteration order, so \<open>apply_reactions\<close> and
  the choice among replacements of one timestamp depend on it, as in the code.
\<close>

section \<open>Cached messages\<close>

record cached_replacement =
  rp_timestamp :: u64
  rp_new_content :: content

record cached_reaction =
  rx_user_id :: string
  rx_emoji :: string

text \<open>An original event with the content the cache keeps of it.\<close>

record 'c original_event =
  oe_event_id :: string
  oe_sender :: string
  oe_ts :: u64
  oe_content :: 'c

record cached_message =
  cm_original :: "message option"
  cm_reactions :: "(string, cached_reaction) hmap"
  cm_replacements :: "(string, cached_replacement) hmap"
  cm_redaction :: "redaction_content option"
  cm_poll_replacements :: "(string, poll_start_content original_event) hmap"
  cm_poll_responses :: "(string, poll_response_content original_event) hmap"
  cm_poll_ends :: "(string, string original_event) hmap"

definition default_cached_message :: cached_message where
  "default_cached_message =
     \<lparr>cm_original = None, cm_reactions = [], cm_replacements = [], cm_redaction = None,
      cm_poll_replacements = [], cm_poll_responses = [], cm_poll_ends = []\<rparr>"

definition reaction_of :: "message \<Rightarrow> cached_reaction \<Rightarrow> reaction" where
  "reaction_of msg r =
     \<lparr>r_message_id = m_id msg, r_room_id = m_room_id msg, r_reaction = rx_emoji r,
      r_user_id = Some (rx_user_id r)\<rparr>"

definition apply_reactions :: "cached_message \<Rightarrow> message \<Rightarrow> message" where
  "apply_reactions cm msg =
     msg\<lparr>m_reactions := m_reactions msg @ map (reaction_of msg) (hm_values (cm_reactions cm))\<rparr>"

definition apply_replacements :: "cached_message \<Rightarrow> message \<Rightarrow> message" where
  "apply_replacements cm msg =
     (let replacements = sort_key rp_timestamp (hm_values (cm_replacements cm))
      in if replacements = [] then msg
         else msg\<lparr>m_content := Some (rp_new_content (last replacements)), m_edited := True\<rparr>)"

definition build_other :: "cached_message \<Rightarrow> message \<Rightarrow> message" where
  "build_other cm original = apply_replacements cm (apply_reactions cm original)"

definition build_removed :: "cached_message \<Rightarrow> message \<Rightarrow> message" where
  "build_removed cm original =
     (case (m_content original, cm_redaction cm) of
        (Some (CRemoved _), Some redaction) \<Rightarrow>
          original\<lparr>m_content := Some (CRemoved (rc_reason redaction))\<rparr>
      | _ \<Rightarrow> original)"

text \<open>A failing replacement is logged; what it has written stays.\<close>

definition apply_poll_replacements :: "cached_message \<Rightarrow> poll \<Rightarrow> poll" where
  "apply_poll_replacements cm content =
     (let replacements = sort_key oe_ts (hm_values (cm_poll_replacements cm))
      in if replacements = [] then content
         else snd (replace_content content (poll_start_of (oe_content (last replacements)))))"

fun add_responses :: "poll_response_content original_event list \<Rightarrow> poll \<Rightarrow> poll" where
  "add_responses [] content = content"
| "add_responses (event # events) content =
     add_responses events (add_answer content (oe_sender event) (pr_answers (oe_content event)))"

definition apply_poll_responses :: "cached_message \<Rightarrow> poll \<Rightarrow> poll" where
  "apply_poll_responses cm content =
     add_responses (sort_key oe_ts (hm_values (cm_poll_responses cm))) content"

definition apply_poll_ends :: "cached_message \<Rightarrow> poll \<Rightarrow> poll" where
  "apply_poll_ends cm content =
     (if cm_poll_ends cm \<noteq> [] then content\<lparr>poll_completed := True\<rparr> else content)"

definition build_poll :: "cached_message \<Rightarrow> message \<Rightarrow> message" where
  "build_poll cm original =
     apply_reactions cm
       (case m_content original of
          Some (CPoll c) \<Rightarrow>
            original\<lparr>m_content := Some (CPoll (apply_poll_ends cm (apply_poll_responses cm
               (apply_poll_replacements cm c))))\<rparr>
        | _ \<Rightarrow> original)"

definition build_from_original :: "message \<Rightarrow> cached_message \<Rightarrow> message \<times> cached_message" where
  "build_from_original original cm =
     (let cm = cm\<lparr>cm_original := Some original\<rparr>
      in (case m_content original of
            Some (CRemoved _) \<Rightarrow> build_removed cm original
          | Some (CPoll _) \<Rightarrow> build_poll cm original
          | _ \<Rightarrow> build_other cm original, cm))"

section \<open>Cached rooms\<close>

record cached_encrypted_event =
  cx_event :: raw
  cx_session_id :: "string option"

record reaction_metadata =
  rm_reaction_id :: string
  rm_user_id :: string
  rm_emoji :: string
  rm_message_id :: string
  rm_room_id :: string

definition reaction_metadata_new ::
  "cached_reaction \<Rightarrow> string \<Rightarrow> string \<Rightarrow> string \<Rightarrow> reaction_metadata" where
  "reaction_metadata_new cached reaction_id message_id rid =
     \<lparr>rm_reaction_id = reaction_id, rm_user_id = rx_user_id cached, rm_emoji = rx_emoji cached,
      rm_message_id = message_id, rm_room_id = rid\<rparr>"

datatype cached_room_action =
  MessageAction message
| ReactionAction reaction_metadata

record cached_room =
  cr_room_id :: string
  cr_messages :: "(string, cached_message) hmap mutex"
  cr_encrypted_events :: "(string, cached_encrypted_event) hmap mutex"
  cr_reaction_id_to_message :: "(string, string) hmap mutex"
  cr_read_markers :: "(string, u64) hmap mutex"
  cr_marked_as_read_ts :: "u128 option mutex"

definition cached_room_new :: "string \<Rightarrow> cached_room" where
  "cached_room_new rid =
     \<lparr>cr_room_id = rid, cr_messages = new_mutex [], cr_encrypted_events = new_mutex [],
      cr_reaction_id_to_message = new_mutex [], cr_read_markers = new_mutex [],
      cr_marked_as_read_ts = new_mutex None\<rparr>"

text \<open>\<open>entry(k).or_default()\<close> and a write through the reference it gives.\<close>

definition hm_entry :: "'k \<Rightarrow> 'v \<Rightarrow> ('v \<Rightarrow> 'v) \<Rightarrow> ('k, 'v) hmap \<Rightarrow> ('k, 'v) hmap" where
  "hm_entry k d f m = hm_insert k (f (case hm_get m k of None \<Rightarrow> d | Some v \<Rightarrow> v)) m"

definition update_message ::
  "string \<Rightarrow> (cached_message \<Rightarrow> cached_message) \<Rightarrow> cached_room \<Rightarrow>
   (memory_cache_error + unit) \<times> cached_room" where
  "update_message message_id f room =
     (case lock (cr_messages room) of
        Inl _ \<Rightarrow> (Inl CachePoisoned, room)
      | Inr ms \<Rightarrow>
          (Inr (), room\<lparr>cr_messages :=
             put_guard (cr_messages room) (hm_entry message_id default_cached_message f ms)\<rparr>))"

definition cache_replacement ::
  "string \<Rightarrow> string \<Rightarrow> cached_replacement \<Rightarrow> cached_room \<Rightarrow>
   (memory_cache_error + unit) \<times> cached_room" where
  "cache_replacement original_id replacement_id replacement =
     update_message original_id
       (\<lambda>m. m\<lparr>cm_replacements := hm_insert replacement_id replacement (cm_replacements m)\<rparr>)"

definition cache_redaction ::
  "redaction_content \<Rightarrow> string \<Rightarrow> cached_room \<Rightarrow> (memory_cache_error + unit) \<times> cached_room" where
  "cache_redaction redaction redacted_id =
     update_message redacted_id (\<lambda>m. m\<lparr>cm_redaction := Some redaction\<rparr>)"

text \<open>Both locks are taken; the message keeps the reaction when the second one fails.\<close>

definition cache_reaction ::
  "string \<Rightarrow> string \<Rightarrow> cached_reaction \<Rightarrow> cached_room \<Rightarrow>
   (memory_cache_error + unit) \<times> cached_room" where
  "cache_reaction message_id reaction_id reaction room =
     and_then
       (update_message message_id
          (\<lambda>m. m\<lparr>cm_reactions := hm_insert reaction_id reaction (cm_reactions m)\<rparr>) room)
       (\<lambda>_ room.
          case lock (cr_reaction_id_to_message room) of
            Inl _ \<Rightarrow> (Inl CachePoisoned, room)
          | Inr index \<Rightarrow>
              (Inr (), room\<lparr>cr_reaction_id_to_message :=
                 put_guard (cr_reaction_id_to_message room) (hm_insert reaction_id message_id index)\<rparr>))"

definition cache_poll_replacement_event ::
  "string \<Rightarrow> poll_start_content original_event \<Rightarrow> cached_room \<Rightarrow>
   (memory_cache_error + unit) \<times> cached_room" where
  "cache_poll_replacement_event message_id event =
     update_message message_id
       (\<lambda>m. m\<lparr>cm_poll_replacements := hm_insert (oe_event_id event) event (cm_poll_replacements m)\<rparr>)"

definition cache_poll_response_event ::
  "string \<Rightarrow> poll_response_content original_event \<Rightarrow> cached_room \<Rightarrow>
   (memory_cache_error + unit) \<times> cached_room" where
  "cache_poll_response_event message_id event =
     update_message message_id
       (\<lambda>m. m\<lparr>cm_poll_responses := hm_insert (oe_event_id event) event (cm_poll_responses m)\<rparr>)"

definition cache_poll_end_event ::
  "string \<Rightarrow> string original_event \<Rightarrow> cached_room \<Rightarrow> (memory_cache_error + unit) \<times> cached_room" where
  "cache_poll_end_event message_id event =
     update_message message_id
       (\<lambda>m. m\<lparr>cm_poll_ends := hm_insert (oe_event_id event) event (cm_poll_ends m)\<rparr>)"

definition reaction_id_to_message_id ::
  "string \<Rightarrow> cached_room \<Rightarrow> memory_cache_error + string option" where
  "reaction_id_to_message_id reaction_id room =
     (case lock (cr_reaction_id_to_message room) of
        Inl _ \<Rightarrow> Inl CachePoisoned
      | Inr index \<Rightarrow> Inr (hm_get index reaction_id))"

definition cleanup_reaction ::
  "string \<Rightarrow> cached_room \<Rightarrow> (memory_cache_error + unit) \<times> cached_room" where
  "cleanup_reaction reaction_id room =
     (case lock (cr_reaction_id_to_message room) of
        Inl _ \<Rightarrow> (Inl CachePoisoned, room)
      | Inr index \<Rightarrow>
          (Inr (), room\<lparr>cr_reaction_id_to_message :=
             put_guard (cr_reaction_id_to_message room) (hm_remove reaction_id index)\<rparr>))"

fun cleanup_reactions ::
  "(string \<times> cached_reaction) list \<Rightarrow> cached_room \<Rightarrow> (memory_cache_error + unit) \<times> cached_room" where
  "cleanup_reactions [] room = (Inr (), room)"
| "cleanup_reactions (r # rs) room =
     and_then (cleanup_reaction (fst r) room) (\<lambda>_ room. cleanup_reactions rs room)"

definition put_message ::
  "string \<Rightarrow> cached_message \<Rightarrow> (string, cached_message) hmap \<Rightarrow> cached_room \<Rightarrow> cached_room" where
  "put_message message_id m ms room =
     room\<lparr>cr_messages := put_guard (cr_messages room) (hm_insert message_id m ms)\<rparr>"

definition remove_reaction_by_id ::
  "string \<Rightarrow> cached_room \<Rightarrow> (memory_cache_error + reaction_metadata option) \<times> cached_room" where
  "remove_reaction_by_id reaction_id room =
     (case reaction_id_to_message_id reaction_id room of
        Inl e \<Rightarrow> (Inl e, room)
      | Inr None \<Rightarrow> (Inr None, room)
      | Inr (Some message_id) \<Rightarrow>
          (case lock (cr_messages room) of
             Inl _ \<Rightarrow> (Inl CachePoisoned, room)
           | Inr ms \<Rightarrow>
               (case hm_get ms message_id of
                  None \<Rightarrow> (Inr None, room)
                | Some message \<Rightarrow>
                    (case hm_get (cm_reactions message) reaction_id of
                       None \<Rightarrow> (Inr None, room)
                     | Some removed \<Rightarrow>
                         and_then
                           (cleanup_reaction reaction_id
                              (put_message message_id
                                 (message\<lparr>cm_reactions := hm_remove reaction_id (cm_reactions message)\<rparr>)
                                 ms room))
                           (\<lambda>_ room. (Inr (Some (reaction_metadata_new removed reaction_id message_id
                                          (cr_room_id room))), room))))))"

definition by_user_and_emoji :: "string \<Rightarrow> string \<Rightarrow> string \<times> cached_reaction \<Rightarrow> bool" where
  "by_user_and_emoji user_id emoji r \<longleftrightarrow> rx_user_id (snd r) = user_id \<and> rx_emoji (snd r) = emoji"

definition remove_reaction_by_emoji ::
  "string \<Rightarrow> string \<Rightarrow> string \<Rightarrow> cached_room \<Rightarrow>
   (memory_cache_error + reaction_metadata option) \<times> cached_room" where
  "remove_reaction_by_emoji message_id user_id emoji room =
     (case lock (cr_messages room) of
        Inl _ \<Rightarrow> (Inl CachePoisoned, room)
      | Inr ms \<Rightarrow>
          (case hm_get ms message_id of
             None \<Rightarrow> (Inr None, room)
           | Some message \<Rightarrow>
               (let sel = by_user_and_emoji user_id emoji;
                    removed = filter sel (cm_reactions message);
                    kept = filter (\<lambda>r. \<not> sel r) (cm_reactions message)
                in and_then
                     (cleanup_reactions removed
                        (put_message message_id (message\<lparr>cm_reactions := kept\<rparr>) ms room))
                     (\<lambda>_ room. case removed of
                         [] \<Rightarrow> (Inr None, room)
                       | (reaction_id, r) # _ \<Rightarrow>
                           (Inr (Some (reaction_metadata_new r reaction_id message_id
                              (cr_room_id room))), room)))))"

definition cache_and_build_message ::
  "message \<Rightarrow> cached_room \<Rightarrow> (memory_cache_error + message) \<times> cached_room" where
  "cache_and_build_message original room =
     (case lock (cr_messages room) of
        Inl _ \<Rightarrow> (Inl CachePoisoned, room)
      | Inr ms \<Rightarrow>
          (let cm = (case hm_get ms (m_id original) of
                 None \<Rightarrow> default_cached_message | Some cm \<Rightarrow> cm);
               (msg, cm) = build_from_original original cm
           in (Inr msg, put_message (m_id original) cm ms room)))"

definition assemble_message ::
  "message \<Rightarrow> cached_room \<Rightarrow> (memory_cache_error + message) \<times> cached_room" where
  "assemble_message original room = cache_and_build_message original room"

definition cache_encrypted_event ::
  "string \<Rightarrow> cached_encrypted_event \<Rightarrow> cached_room \<Rightarrow> (memory_cache_error + unit) \<times> cached_room" where
  "cache_encrypted_event event_id event room =
     (case lock (cr_encrypted_events room) of
        Inl _ \<Rightarrow> (Inl CachePoisoned, room)
      | Inr es \<Rightarrow>
          (Inr (), room\<lparr>cr_encrypted_events :=
             put_guard (cr_encrypted_events room) (hm_insert event_id event es)\<rparr>))"

definition remove_encrypted_event ::
  "string \<Rightarrow> cached_room \<Rightarrow> (memory_cache_error + unit) \<times> cached_room" where
  "remove_encrypted_event event_id room =
     (case lock (cr_encrypted_events room) of
        Inl _ \<Rightarrow> (Inl CachePoisoned, room)
      | Inr es \<Rightarrow>
          (Inr (), room\<lparr>cr_encrypted_events :=
             put_guard (cr_encrypted_events room) (hm_remove event_id es)\<rparr>))"

definition has_events_to_decrypt :: "cached_room \<Rightarrow> memory_cache_error + bool" where
  "has_events_to_decrypt room =
     (case lock (cr_encrypted_events room) of
        Inl _ \<Rightarrow> Inl CachePoisoned | Inr es \<Rightarrow> Inr (es \<noteq> []))"

definition get_events_for_redecryption ::
  "string list option \<Rightarrow> cached_room \<Rightarrow> memory_cache_error + cached_encrypted_event list" where
  "get_events_for_redecryption events room =
     (case lock (cr_encrypted_events room) of
        Inl _ \<Rightarrow> Inl CachePoisoned
      | Inr es \<Rightarrow>
          Inr (case events of
                 Some ids \<Rightarrow> map snd (filter (\<lambda>(key, _). key \<in> set ids) es)
               | None \<Rightarrow> hm_values es))"

section \<open>Read markers\<close>

definition cache_read_marker ::
  "string \<Rightarrow> u64 \<Rightarrow> cached_room \<Rightarrow> (memory_cache_error + bool) \<times> cached_room" where
  "cache_read_marker user_id timestamp room =
     (case lock (cr_read_markers room) of
        Inl _ \<Rightarrow> (Inl CachePoisoned, room)
      | Inr ms \<Rightarrow>
          if (case hm_get ms user_id of Some old \<Rightarrow> timestamp \<le> old | None \<Rightarrow> False)
          then (Inr False, room)
          else (Inr True, room\<lparr>cr_read_markers :=
                  put_guard (cr_read_markers room) (hm_insert user_id timestamp ms)\<rparr>))"

fun cache_read_markers ::
  "(string, u64) hmap \<Rightarrow> cached_room \<Rightarrow> (memory_cache_error + unit) \<times> cached_room" where
  "cache_read_markers [] room = (Inr (), room)"
| "cache_read_markers ((user_id, timestamp) # ms) room =
     and_then (cache_read_marker user_id timestamp room) (\<lambda>_ room. cache_read_markers ms room)"

section \<open>Processing events\<close>

text \<open>
  What a room asks the SDK for: the parsers, the conversion of messages, the users with a
  read receipt on an event (main thread or unthreaded), and the decryption of an event.
\<close>

record room_env =
  en_parsers :: parsers
  en_messages :: message_env
  en_receipts :: "bool \<Rightarrow> string \<Rightarrow> sdk_error + string list"
  en_decrypt :: "raw \<Rightarrow> sdk_error + timeline_event"

record room_state =
  st_room :: cached_room
  st_fs :: fs
  st_log :: "response list"

definition on_room ::
  "(cached_room \<Rightarrow> ('e + 'a) \<times> cached_room) \<Rightarrow> room_state \<Rightarrow> ('e + 'a) \<times> room_state" where
  "on_room f st = (case f (st_room st) of (r, room) \<Rightarrow> (r, st\<lparr>st_room := room\<rparr>))"

definition send_to_app :: "response \<Rightarrow> room_state \<Rightarrow> room_state" where
  "send_to_app e st = st\<lparr>st_log := st_log st @ [e]\<rparr>"

fun receipts_map :: "u64 \<Rightarrow> string list \<Rightarrow> (string, u64) hmap \<Rightarrow> (string, u64) hmap" where
  "receipts_map ts [] result = result"
| "receipts_map ts (user_id # us) result = receipts_map ts us (hm_insert user_id ts result)"

definition load_event_receipts ::
  "room_env \<Rightarrow> full_event \<Rightarrow> bool \<Rightarrow> memory_cache_error + (string, u64) hmap" where
  "load_event_receipts env event main =
     (case en_receipts env main (ev_id event) of
        Inl e \<Rightarrow> Inl (McMatrixError e)
      | Inr users \<Rightarrow> Inr (receipts_map (ev_ts event) users []))"

definition unwrap_or_default_map :: "'e + ('k, 'v) hmap \<Rightarrow> ('k, 'v) hmap" where
  "unwrap_or_default_map r = (case r of Inl _ \<Rightarrow> [] | Inr m \<Rightarrow> m)"

definition load_event_read_markers :: "room_env \<Rightarrow> full_event \<Rightarrow> (string, u64) hmap" where
  "load_event_read_markers env event =
     (let main = unwrap_or_default_map (load_event_receipts env event True);
          unthreaded = unwrap_or_default_map (load_event_receipts env event False);
          main = merge_hash_map_max main unthreaded
      in merge_hash_map_max [(ev_sender event, ev_ts event)] main)"

definition load_and_cache_event_read_markers ::
  "room_env \<Rightarrow> full_event \<Rightarrow> room_state \<Rightarrow> (memory_cache_error + unit) \<times> room_state" where
  "load_and_cache_event_read_markers env event st =
     (let read_markers = load_event_read_markers env event
      in if read_markers \<noteq> [] then on_room (cache_read_markers read_markers) st
         else (Inr (), st))"

text \<open>A handler of an event: the action it gives, if any, and the new state.\<close>

type_synonym handler_result = "(memory_cache_error + cached_room_action option) \<times> room_state"

definition message_action :: "message \<Rightarrow> room_state \<Rightarrow> handler_result" where
  "message_action msg st =
     and_then (on_room (assemble_message msg) st) (\<lambda>m st. (Inr (Some (MessageAction m)), st))"

definition no_action :: "(memory_cache_error + unit) \<times> room_state \<Rightarrow> handler_result" where
  "no_action r = and_then r (\<lambda>_ st. (Inr None, st))"

definition removed_message :: "full_event \<Rightarrow> message" where
  "removed_message e =
     default_message\<lparr>m_room_id := ev_room_id e, m_id := ev_id e, m_sender_id := ev_sender e,
       m_timestamp := ev_ts e, m_is_encrypted := False, m_content := Some (CRemoved None)\<rparr>"

definition process_original_room_message ::
  "room_env \<Rightarrow> full_event \<Rightarrow> room_message_content \<Rightarrow> room_state \<Rightarrow> handler_result" where
  "process_original_room_message env e c st =
     (case rmc_relates_to c of
        Some (RelReplacement original_id new) \<Rightarrow>
          (case generate_message_content (en_messages env) (cr_room_id (st_room st)) original_id
                  (nc_msgtype new) (st_fs st) of
             (None, fs) \<Rightarrow> (Inr None, st\<lparr>st_fs := fs\<rparr>)
           | (Some new_content, fs) \<Rightarrow>
               no_action (on_room (cache_replacement original_id (ev_id e)
                  \<lparr>rp_timestamp = ev_ts e, rp_new_content = new_content\<rparr>) (st\<lparr>st_fs := fs\<rparr>)))
      | _ \<Rightarrow>
          (case message_from_event (en_messages env) (cr_room_id (st_room st)) e c (st_fs st) of
             (msg, fs) \<Rightarrow> message_action msg (st\<lparr>st_fs := fs\<rparr>)))"

definition process_redacted_room_message :: "full_event \<Rightarrow> room_state \<Rightarrow> handler_result" where
  "process_redacted_room_message e st = message_action (removed_message e) st"

definition process_room_message ::
  "room_env \<Rightarrow> full_event \<Rightarrow> room_message_content event_content \<Rightarrow> room_state \<Rightarrow> handler_result" where
  "process_room_message env e c st =
     (case c of
        Original original \<Rightarrow> process_original_room_message env e original st
      | RedactedContent \<Rightarrow> process_redacted_room_message e st)"

definition process_room_redaction ::
  "redaction_content event_content \<Rightarrow> room_state \<Rightarrow> handler_result" where
  "process_room_redaction c st =
     (case c of
        RedactedContent \<Rightarrow> (Inr None, st)
      | Original original \<Rightarrow>
          (case rc_redacts original of
             None \<Rightarrow> (Inr None, st)
           | Some redacted_id \<Rightarrow> no_action (on_room (cache_redaction original redacted_id) st)))"

definition process_room_encrypted ::
  "full_event \<Rightarrow> unit event_content \<Rightarrow> room_state \<Rightarrow> handler_result" where
  "process_room_encrypted e c st =
     (case c of
        Original _ \<Rightarrow> (Inr None, st)
      | RedactedContent \<Rightarrow> message_action (removed_message e) st)"

definition process_new_unstable_poll_start ::
  "full_event \<Rightarrow> poll_start \<Rightarrow> room_state \<Rightarrow> handler_result" where
  "process_new_unstable_poll_start e block st =
     (case assemble_poll_start block of
        Inl _ \<Rightarrow> (Inl UnableToAssembleMessage, st)
      | Inr original \<Rightarrow>
          message_action
            (default_message\<lparr>m_id := ev_id e, m_room_id := ev_room_id e, m_sender_id := ev_sender e,
               m_content := Some (CPoll original), m_is_encrypted := False,
               m_timestamp := ev_ts e\<rparr>) st)"

definition original_of :: "full_event \<Rightarrow> 'c \<Rightarrow> 'c original_event" where
  "original_of e c =
     \<lparr>oe_event_id = ev_id e, oe_sender = ev_sender e, oe_ts = ev_ts e, oe_content = c\<rparr>"

definition process_unstable_poll_start ::
  "full_event \<Rightarrow> poll_start_content event_content \<Rightarrow> room_state \<Rightarrow> handler_result" where
  "process_unstable_poll_start e c st =
     (case c of
        RedactedContent \<Rightarrow> (Inr None, st)
      | Original original \<Rightarrow>
          (case original of
             PsNew block \<Rightarrow> process_new_unstable_poll_start e block st
           | PsReplacement message_id _ _ \<Rightarrow>
               no_action (on_room
                 (cache_poll_replacement_event message_id (original_of e original)) st)
           | PsOther _ \<Rightarrow> (Inr None, st)))"

definition process_unstable_poll_response ::
  "full_event \<Rightarrow> poll_response_content event_content \<Rightarrow> room_state \<Rightarrow> handler_result" where
  "process_unstable_poll_response e c st =
     (case c of
        RedactedContent \<Rightarrow> (Inr None, st)
      | Original original \<Rightarrow>
          no_action (on_room
            (cache_poll_response_event (pr_poll_id original) (original_of e original)) st))"

definition process_unstable_poll_end ::
  "full_event \<Rightarrow> string event_content \<Rightarrow> room_state \<Rightarrow> handler_result" where
  "process_unstable_poll_end e c st =
     (case c of
        RedactedContent \<Rightarrow> (Inr None, st)
      | Original poll_id \<Rightarrow>
          no_action (on_room (cache_poll_end_event poll_id (original_of e poll_id)) st))"

definition process_reaction_event ::
  "full_event \<Rightarrow> annotation event_content \<Rightarrow> room_state \<Rightarrow> handler_result" where
  "process_reaction_event e c st =
     (case c of
        RedactedContent \<Rightarrow> (Inr None, st)
      | Original original \<Rightarrow>
          (let reaction = \<lparr>rx_user_id = ev_sender e, rx_emoji = an_key original\<rparr>;
               message_id = an_event_id original
           in and_then (on_room (cache_reaction message_id (ev_id e) reaction) st)
                (\<lambda>_ st. (Inr (Some (ReactionAction (reaction_metadata_new reaction (ev_id e)
                   message_id (cr_room_id (st_room st))))), st))))"

definition process_room_member_event ::
  "full_event \<Rightarrow> member_content event_content \<Rightarrow> room_state \<Rightarrow> handler_result" where
  "process_room_member_event e c st =
     (case c of
        RedactedContent \<Rightarrow> (Inr None, st)
      | Original original \<Rightarrow>
          (case membership_change_try_into_chat (mb_change original) of
             Inl _ \<Rightarrow> (Inr None, st)
           | Inr change \<Rightarrow>
               message_action
                 (default_message\<lparr>m_room_id := cr_room_id (st_room st), m_id := ev_id e,
                    m_sender_id := ev_sender e, m_timestamp := ev_ts e,
                    m_content := Some (CMembership change (mb_state_key original))\<rparr>) st))"

definition process_any_state_event ::
  "full_event \<Rightarrow> state_event \<Rightarrow> room_state \<Rightarrow> handler_result" where
  "process_any_state_event e s st =
     (case s of
        RoomMember c \<Rightarrow> process_room_member_event e c st
      | StateOther \<Rightarrow> (Inr None, st))"

definition process_any_message_like_event ::
  "room_env \<Rightarrow> full_event \<Rightarrow> message_like \<Rightarrow> room_state \<Rightarrow> handler_result" where
  "process_any_message_like_event env e m st =
     (case m of
        RoomMessage c \<Rightarrow> process_room_message env e c st
      | RoomRedaction c \<Rightarrow> process_room_redaction c st
      | RoomEncrypted c \<Rightarrow> process_room_encrypted e c st
      | UnstablePollStart c \<Rightarrow> process_unstable_poll_start e c st
      | UnstablePollResponse c \<Rightarrow> process_unstable_poll_response e c st
      | UnstablePollEnd c \<Rightarrow> process_unstable_poll_end e c st
      | ReactionEvent c \<Rightarrow> process_reaction_event e c st
      | MessageLikeOther \<Rightarrow> (Inr None, st))"

definition process_any_timeline_event ::
  "room_env \<Rightarrow> full_event \<Rightarrow> room_state \<Rightarrow> handler_result" where
  "process_any_timeline_event env e st =
     and_then (load_and_cache_event_read_markers env e st)
       (\<lambda>_ st. case ev_body e of
          MessageLike m \<Rightarrow> process_any_message_like_event env e m st
        | State s \<Rightarrow> process_any_state_event e s st)"

definition process_decrypted_event :: "room_env \<Rightarrow> raw \<Rightarrow> room_state \<Rightarrow> handler_result" where
  "process_decrypted_event env event st =
     (case parse_full (en_parsers env) event of
        None \<Rightarrow> (Inr None, st)
      | Some e \<Rightarrow>
          and_then (on_room (remove_encrypted_event (ev_id e)) st)
            (\<lambda>_. process_any_timeline_event env e))"

definition process_unable_to_decrypt_event ::
  "room_env \<Rightarrow> raw \<Rightarrow> string option \<Rightarrow> room_state \<Rightarrow> handler_result" where
  "process_unable_to_decrypt_event env event session_id st =
     (case parse_sync (en_parsers env) event of
        None \<Rightarrow> (Inr None, st)
      | Some e \<Rightarrow>
          (case parse_encrypted (en_parsers env) event of
             None \<Rightarrow> (Inr None, st)
           | Some encrypted_raw \<Rightarrow>
               (let message = default_message\<lparr>m_id := ev_id e,
                      m_room_id := cr_room_id (st_room st), m_timestamp := ev_ts e,
                      m_sender_id := ev_sender e, m_is_encrypted := True\<rparr>
                in and_then
                     (on_room (cache_encrypted_event (ev_id e)
                        \<lparr>cx_event = encrypted_raw, cx_session_id = session_id\<rparr>) st)
                     (\<lambda>_ st. (Inr (Some (MessageAction message)), st)))))"

definition process_plain_text_event :: "room_env \<Rightarrow> raw \<Rightarrow> room_state \<Rightarrow> handler_result" where
  "process_plain_text_event env event st =
     (case parse_sync (en_parsers env) event of
        None \<Rightarrow> (Inr None, st)
      | Some e \<Rightarrow> process_any_timeline_event env (into_full_event e (cr_room_id (st_room st))) st)"

definition process_timeline_event ::
  "room_env \<Rightarrow> timeline_event \<Rightarrow> room_state \<Rightarrow> handler_result" where
  "process_timeline_event env event st =
     (case te_kind event of
        Decrypted ev \<Rightarrow> process_decrypted_event env ev st
      | UnableToDecrypt ev session_id \<Rightarrow> process_unable_to_decrypt_event env ev session_id st
      | PlainText ev \<Rightarrow> process_plain_text_event env ev st)"

section \<open>Retrying decryption\<close>

definition redact_encrypted_message :: "string \<Rightarrow> room_state \<Rightarrow> room_state" where
  "redact_encrypted_message message_id st =
     send_to_app (MessageRemoveEvent (cr_room_id (st_room st)) message_id) st"

definition process_successful_redecrypted_message :: "message \<Rightarrow> room_state \<Rightarrow> room_state" where
  "process_successful_redecrypted_message message st =
     (case m_content message of
        None \<Rightarrow> redact_encrypted_message (m_id message) st
      | Some content \<Rightarrow>
          send_to_app (MessageChangeEvent (m_room_id message) (m_id message)
            [McContent content, McEncrypted False]) st)"

definition process_successful_redecrypted_reaction ::
  "reaction_metadata \<Rightarrow> room_state \<Rightarrow> room_state" where
  "process_successful_redecrypted_reaction md st =
     send_to_app (ReactionCreatedEvent
         \<lparr>r_message_id = rm_message_id md, r_room_id = rm_room_id md, r_reaction = rm_emoji md,
          r_user_id = Some (rm_user_id md)\<rparr>)
       (redact_encrypted_message (rm_reaction_id md) st)"

fun process_successful_redecryption :: "cached_room_action \<Rightarrow> room_state \<Rightarrow> room_state" where
  "process_successful_redecryption (MessageAction m) st = process_successful_redecrypted_message m st"
| "process_successful_redecryption (ReactionAction r) st = process_successful_redecrypted_reaction r st"

definition retry_cached_encrypted_event ::
  "room_env \<Rightarrow> cached_encrypted_event \<Rightarrow> room_state \<Rightarrow> (memory_cache_error + unit) \<times> room_state" where
  "retry_cached_encrypted_event env cached st =
     (case en_decrypt env (cx_event cached) of
        Inl _ \<Rightarrow> (Inr (), st)
      | Inr event \<Rightarrow>
          (case te_kind event of
             UnableToDecrypt _ _ \<Rightarrow> (Inr (), st)
           | _ \<Rightarrow>
               (case te_event_id event of
                  None \<Rightarrow> (Inr (), st)
                | Some event_id \<Rightarrow>
                    and_then (process_timeline_event env event st)
                      (\<lambda>action st. (Inr (), case action of
                          Some a \<Rightarrow> process_successful_redecryption a st
                        | None \<Rightarrow> redact_encrypted_message event_id st)))))"

fun retry_events ::
  "room_env \<Rightarrow> cached_encrypted_event list \<Rightarrow> room_state \<Rightarrow>
   (memory_cache_error + unit) \<times> room_state" where
  "retry_events env [] st = (Inr (), st)"
| "retry_events env (e # es) st =
     and_then (retry_cached_encrypted_event env e st) (\<lambda>_. retry_events env es)"

definition retry_decryption ::
  "room_env \<Rightarrow> string list option \<Rightarrow> room_state \<Rightarrow> (memory_cache_error + unit) \<times> room_state" where
  "retry_decryption env events st =
     (case get_events_for_redecryption events (st_room st) of
        Inl e \<Rightarrow> (Inl e, st)
      | Inr es \<Rightarrow> retry_events env es st)"

section \<open>Fetching messages\<close>

text \<open>
  \<open>limit as f64 * 1.5 * 0.2\<close>, rounded down, within the bounds of a chunk.  The products are
  exact or just above the decimal value, a multiple of one tenth, so rounding down gives
  the floor of \<open>limit * 3 / 10\<close>.
\<close>

definition chunk_size_min :: nat where
  "chunk_size_min = 10"

definition chunk_size_max :: nat where
  "chunk_size_max = 100"

definition calc_chunk_size :: "u32 \<Rightarrow> nat" where
  "calc_chunk_size limit = max chunk_size_min (min chunk_size_max (unat limit * 3 div 10))"

text \<open>
  The loaders: a chunk of events is requested from a token (backwards), and the server's
  answer names the token of the next chunk, or none at the end.  The threaded loader keeps
  its token inside the SDK.  The requests of one fetch are answered in turn by a list of
  answers, an answer being an error, already as the error of the cache, or a chunk.
\<close>

datatype chunk_loader = Unthreaded "string option" | Threaded string

record chunk_answer =
  ca_chunk :: "timeline_event list"
  ca_end :: "string option"

definition loader_fetch ::
  "memory_cache_error + chunk_answer \<Rightarrow> chunk_loader \<Rightarrow>
   (memory_cache_error + timeline_event list \<times> bool) \<times> chunk_loader" where
  "loader_fetch answer loader =
     (case answer of
        Inl e \<Rightarrow> (Inl e, loader)
      | Inr a \<Rightarrow>
          (Inr (ca_chunk a, ca_end a = None),
           case loader of Unthreaded _ \<Rightarrow> Unthreaded (ca_end a) | Threaded t \<Rightarrow> Threaded t))"

text \<open>
  The fetcher with the channel it sends to: \<open>mf_sent\<close> is what has been sent, and
  \<open>mf_accepts\<close> how many more values are accepted before the receiver drops (no bound for
  a receiver that stays).
\<close>

record messages_fetcher =
  mf_loader :: chunk_loader
  mf_sent :: "(memory_cache_error + message) list"
  mf_accepts :: "nat option"
  mf_message_limit :: u32
  mf_chunk_size :: nat
  mf_retrieved_messages :: u32
  mf_send_read_markers :: bool
  mf_current_read_markers :: "(string, u64) hmap"

definition messages_fetcher_new :: "nat option \<Rightarrow> u32 \<Rightarrow> chunk_loader \<Rightarrow> messages_fetcher" where
  "messages_fetcher_new accepts limit loader =
     \<lparr>mf_loader = loader, mf_sent = [], mf_accepts = accepts, mf_message_limit = limit,
      mf_chunk_size = calc_chunk_size limit, mf_retrieved_messages = 0,
      mf_send_read_markers = False, mf_current_read_markers = []\<rparr>"

definition fetcher_unthreaded :: "nat option \<Rightarrow> u32 \<Rightarrow> string option \<Rightarrow> messages_fetcher" where
  "fetcher_unthreaded accepts limit from_token =
     messages_fetcher_new accepts limit (Unthreaded from_token)"

definition fetcher_threaded :: "nat option \<Rightarrow> u32 \<Rightarrow> string \<Rightarrow> messages_fetcher" where
  "fetcher_threaded accepts limit thread_id = messages_fetcher_new accepts limit (Threaded thread_id)"

definition channel_send ::
  "memory_cache_error + message \<Rightarrow> messages_fetcher \<Rightarrow> (unit + unit) \<times> messages_fetcher" where
  "channel_send v f =
     (case mf_accepts f of
        Some 0 \<Rightarrow> (Inl (), f)
      | Some (Suc n) \<Rightarrow> (Inr (), f\<lparr>mf_sent := mf_sent f @ [v], mf_accepts := Some n\<rparr>)
      | None \<Rightarrow> (Inr (), f\<lparr>mf_sent := mf_sent f @ [v]\<rparr>))"

definition send_finished_message ::
  "message \<Rightarrow> messages_fetcher \<Rightarrow> (memory_cache_error + unit) \<times> messages_fetcher" where
  "send_finished_message message f =
     (case channel_send (Inr message) f of
        (Inl _, f) \<Rightarrow> (Inl MessageReceiverDropped, f)
      | (Inr _, f) \<Rightarrow> (Inr (), f\<lparr>mf_retrieved_messages := mf_retrieved_messages f + 1\<rparr>))"

definition get_room_read_markers :: "cached_room \<Rightarrow> memory_cache_error + (string, u64) hmap" where
  "get_room_read_markers room =
     (case lock (cr_read_markers room) of Inl _ \<Rightarrow> Inl CachePoisoned | Inr m \<Rightarrow> Inr m)"

text \<open>Maps are compared as maps, not as lists of entries.\<close>

definition update_read_markers ::
  "messages_fetcher \<Rightarrow> room_state \<Rightarrow> messages_fetcher \<times> room_state" where
  "update_read_markers f st =
     (case get_room_read_markers (st_room st) of
        Inl _ \<Rightarrow> (f, st)
      | Inr read_markers \<Rightarrow>
          if \<not> hm_equiv read_markers (mf_current_read_markers f)
          then (f\<lparr>mf_current_read_markers := read_markers\<rparr>,
                send_to_app (RoomChangeEvent (cr_room_id (st_room st)) [ChReadMarker read_markers]) st)
          else (f, st))"

fun process_event_chunk ::
  "room_env \<Rightarrow> timeline_event list \<Rightarrow> messages_fetcher \<Rightarrow> room_state \<Rightarrow>
   (memory_cache_error + unit) \<times> messages_fetcher \<times> room_state" where
  "process_event_chunk env [] f st = (Inr (), f, st)"
| "process_event_chunk env (event # events) f st =
     (case process_timeline_event env event st of
        (Inl e, st) \<Rightarrow> (Inl e, f, st)
      | (Inr action, st) \<Rightarrow>
          (case (case action of
                   Some (MessageAction message) \<Rightarrow> send_finished_message message f
                 | _ \<Rightarrow> (Inr (), f)) of
             (Inl e, f) \<Rightarrow> (Inl e, f, st)
           | (Inr _, f) \<Rightarrow>
               (let (f, st) = (if mf_send_read_markers f then update_read_markers f st else (f, st))
                in if mf_retrieved_messages f = mf_message_limit f then (Inr (), f, st)
                   else process_event_chunk env events f st)))"

text \<open>
  The loop over the chunks.  The server decides whether it ends, so the loop runs on the
  list of the server's answers and gives none when it would wait for a further one.
\<close>

fun fetch_until_completion ::
  "room_env \<Rightarrow> (memory_cache_error + chunk_answer) list \<Rightarrow> messages_fetcher \<Rightarrow> room_state \<Rightarrow>
   ((memory_cache_error + unit) \<times> messages_fetcher \<times> room_state) option" where
  "fetch_until_completion env [] f st =
     (if mf_retrieved_messages f < mf_message_limit f then None else Some (Inr (), f, st))"
| "fetch_until_completion env (answer # answers) f st =
     (if \<not> mf_retrieved_messages f < mf_message_limit f then Some (Inr (), f, st)
      else (case loader_fetch answer (mf_loader f) of
              (Inl e, loader) \<Rightarrow> Some (Inl e, f\<lparr>mf_loader := loader\<rparr>, st)
            | (Inr (chunk, reached_end), loader) \<Rightarrow>
                (case process_event_chunk env chunk (f\<lparr>mf_loader := loader\<rparr>) st of
                   (Inl e, f, st) \<Rightarrow> Some (Inl e, f, st)
                 | (Inr _, f, st) \<Rightarrow>
                     if reached_end then Some (Inr (), f, st)
                     else fetch_until_completion env answers f st)))"

definition fetcher_run ::
  "room_env \<Rightarrow> (memory_cache_error + chunk_answer) list \<Rightarrow> messages_fetcher \<Rightarrow> room_state \<Rightarrow>
   (messages_fetcher \<times> room_state) option" where
  "fetcher_run env answers f st =
     (if mf_message_limit f = 0 then Some (f, st)
      else (let f = (if mf_send_read_markers f
                     then (case get_room_read_markers (st_room st) of
                             Inr m \<Rightarrow> f\<lparr>mf_current_read_markers := m\<rparr>
                           | Inl _ \<Rightarrow> f)
                     else f)
            in case fetch_until_completion env answers f st of
                 None \<Rightarrow> None
               | Some (Inl e, f, st) \<Rightarrow> Some (snd (channel_send (Inl e) f), st)
               | Some (Inr _, f, st) \<Rightarrow> Some (f, st)))"

text \<open>The fetch of one message: the relations are cached first, then the event is built.\<close>

fun process_relations ::
  "room_env \<Rightarrow> timeline_event list \<Rightarrow> room_state \<Rightarrow> (memory_cache_error + unit) \<times> room_state" where
  "process_relations env [] st = (Inr (), st)"
| "process_relations env (r # rs) st =
     and_then (process_timeline_event env r st) (\<lambda>_. process_relations env rs)"

definition message_fetcher_run ::
  "room_env \<Rightarrow> sdk_error + timeline_event \<times> timeline_event list \<Rightarrow> room_state \<Rightarrow>
   (memory_cache_error + message) \<times> room_state" where
  "message_fetcher_run env fetched st =
     (case fetched of
        Inl e \<Rightarrow> (Inl (McMatrixError e), st)
      | Inr (event, relations) \<Rightarrow>
          and_then (process_relations env relations st) (\<lambda>_ st.
            and_then (process_timeline_event env event st) (\<lambda>action st.
              case action of
                Some (MessageAction message) \<Rightarrow> (Inr message, st)
              | _ \<Rightarrow> (Inl UnableToAssembleMessage, st))))"

section \<open>The cache\<close>

text \<open>
  The rooms of the cache.  A room is shared by reference in the code; here it is looked
  up, changed and put back under its ID.
\<close>

record memory_cache =
  mc_settings :: settings_slot
  mc_rooms :: "(string, cached_room) hmap mutex"

definition memory_cache_new :: memory_cache where
  "memory_cache_new = \<lparr>mc_settings = new_mutex None, mc_rooms = new_mutex []\<rparr>"

definition get_room :: "string \<Rightarrow> memory_cache \<Rightarrow> memory_cache_error + cached_room option" where
  "get_room rid mc =
     (case lock (mc_rooms mc) of Inl _ \<Rightarrow> Inl CachePoisoned | Inr rooms \<Rightarrow> Inr (hm_get rooms rid))"

definition get_or_create_room ::
  "string \<Rightarrow> memory_cache \<Rightarrow> (memory_cache_error + cached_room) \<times> memory_cache" where
  "get_or_create_room rid mc =
     (case lock (mc_rooms mc) of
        Inl _ \<Rightarrow> (Inl CachePoisoned, mc)
      | Inr rooms \<Rightarrow>
          (case hm_get rooms rid of
             Some room \<Rightarrow> (Inr room, mc)
           | None \<Rightarrow>
               (let room = cached_room_new rid
                in (Inr room, mc\<lparr>mc_rooms := put_guard (mc_rooms mc) (hm_insert rid room rooms)\<rparr>))))"

definition put_room :: "cached_room \<Rightarrow> memory_cache \<Rightarrow> memory_cache" where
  "put_room room mc =
     mc\<lparr>mc_rooms := put_guard (mc_rooms mc)
        (hm_insert (cr_room_id room) room (mtx_data (mc_rooms mc)))\<rparr>"

text \<open>Running an operation of a room on the cache.\<close>

definition in_room ::
  "(cached_room \<Rightarrow> (memory_cache_error + 'a) \<times> cached_room) \<Rightarrow> string \<Rightarrow> memory_cache \<Rightarrow>
   (memory_cache_error + 'a) \<times> memory_cache" where
  "in_room f rid mc =
     and_then (get_or_create_room rid mc)
       (\<lambda>room mc. case f room of (r, room) \<Rightarrow> (r, put_room room mc))"

definition in_known_room ::
  "'a \<Rightarrow> (cached_room \<Rightarrow> (memory_cache_error + 'a) \<times> cached_room) \<Rightarrow> string \<Rightarrow> memory_cache \<Rightarrow>
   (memory_cache_error + 'a) \<times> memory_cache" where
  "in_known_room d f rid mc =
     (case get_room rid mc of
        Inl e \<Rightarrow> (Inl e, mc)
      | Inr None \<Rightarrow> (Inr d, mc)
      | Inr (Some room) \<Rightarrow> (case f room of (r, room) \<Rightarrow> (r, put_room room mc)))"

definition mc_set_read_marker ::
  "string \<Rightarrow> string \<Rightarrow> u64 \<Rightarrow> memory_cache \<Rightarrow> (memory_cache_error + bool) \<times> memory_cache" where
  "mc_set_read_marker rid user_id read_marker = in_room (cache_read_marker user_id read_marker) rid"

definition set_marked_ts ::
  "u128 option \<Rightarrow> cached_room \<Rightarrow> (memory_cache_error + unit) \<times> cached_room" where
  "set_marked_ts ts room =
     (case lock (cr_marked_as_read_ts room) of
        Inl _ \<Rightarrow> (Inl CachePoisoned, room)
      | Inr _ \<Rightarrow> (Inr (), room\<lparr>cr_marked_as_read_ts := put_guard (cr_marked_as_read_ts room) ts\<rparr>))"

definition mc_mark_room_as_read ::
  "string \<Rightarrow> u128 \<Rightarrow> memory_cache \<Rightarrow> (memory_cache_error + unit) \<times> memory_cache" where
  "mc_mark_room_as_read rid ts = in_room (set_marked_ts (Some ts)) rid"

definition mc_mark_room_as_unread ::
  "string \<Rightarrow> memory_cache \<Rightarrow> (memory_cache_error + unit) \<times> memory_cache" where
  "mc_mark_room_as_unread rid = in_known_room () (set_marked_ts None) rid"

definition mc_room_mark_as_read_ts :: "string \<Rightarrow> memory_cache \<Rightarrow> memory_cache_error + u128 option" where
  "mc_room_mark_as_read_ts rid mc =
     (case get_room rid mc of
        Inl e \<Rightarrow> Inl e
      | Inr None \<Rightarrow> Inr None
      | Inr (Some room) \<Rightarrow>
          (case lock (cr_marked_as_read_ts room) of Inl _ \<Rightarrow> Inl CachePoisoned | Inr ts \<Rightarrow> Inr ts))"

definition mc_cache_reaction ::
  "string \<Rightarrow> sync_event \<Rightarrow> annotation \<Rightarrow> memory_cache \<Rightarrow>
   (memory_cache_error + unit) \<times> memory_cache" where
  "mc_cache_reaction rid e a =
     in_room (cache_reaction (an_event_id a) (ev_id e)
       \<lparr>rx_user_id = ev_sender e, rx_emoji = an_key a\<rparr>) rid"

definition mc_remove_reaction_by_id ::
  "string \<Rightarrow> string \<Rightarrow> memory_cache \<Rightarrow>
   (memory_cache_error + reaction_metadata option) \<times> memory_cache" where
  "mc_remove_reaction_by_id rid reaction_id = in_known_room None (remove_reaction_by_id reaction_id) rid"

definition mc_remove_reaction_by_emoji ::
  "string \<Rightarrow> string \<Rightarrow> string \<Rightarrow> string \<Rightarrow> memory_cache \<Rightarrow>
   (memory_cache_error + reaction_metadata option) \<times> memory_cache" where
  "mc_remove_reaction_by_emoji rid message_id user_id emoji =
     in_known_room None (remove_reaction_by_emoji message_id user_id emoji) rid"

definition is_known_room :: "string \<Rightarrow> memory_cache \<Rightarrow> memory_cache_error + bool" where
  "is_known_room rid mc =
     (case get_room rid mc of Inl e \<Rightarrow> Inl e | Inr r \<Rightarrow> Inr (r \<noteq> None))"

text \<open>Where a fetch of messages begins, and with what.\<close>

record query_options =
  qo_limit :: u32
  qo_from_message_id :: "string option"
  qo_thread_id :: "string option"
  qo_send_read_markers :: bool

definition resolve_event_for_pagination ::
  "(string \<Rightarrow> sdk_error + string option) \<Rightarrow> string \<Rightarrow> memory_cache_error + string option" where
  "resolve_event_for_pagination event_with_context event_id =
     (case event_with_context event_id of Inl e \<Rightarrow> Inl (McMatrixError e) | Inr t \<Rightarrow> Inr t)"

text \<open>
  \<open>fetch_messages\<close> answers at once with the channel; the fetcher that it starts is the
  result here.
\<close>

definition mc_fetch_messages ::
  "(string \<Rightarrow> sdk_error + string option) \<Rightarrow> nat option \<Rightarrow> string \<Rightarrow> query_options \<Rightarrow> memory_cache \<Rightarrow>
   (memory_cache_error + messages_fetcher) \<times> memory_cache" where
  "mc_fetch_messages event_with_context accepts rid options mc =
     (case (case qo_from_message_id options of
              Some message_id \<Rightarrow> resolve_event_for_pagination event_with_context message_id
            | None \<Rightarrow> Inr None) of
        Inl e \<Rightarrow> (Inl e, mc)
      | Inr from_token \<Rightarrow>
          and_then (get_or_create_room rid mc) (\<lambda>_ mc.
            (let f = (case qo_thread_id options of
                   Some thread_id \<Rightarrow> fetcher_threaded accepts (qo_limit options) thread_id
                 | None \<Rightarrow> fetcher_unthreaded accepts (qo_limit options) from_token)
             in (Inr (if qo_send_read_markers options then f\<lparr>mf_send_read_markers := True\<rparr> else f), mc))))"

text \<open>
  The rooms whose decryption is retried; each is retried by a task of its own.
\<close>

definition mc_retry_encrypted_events :: "string \<Rightarrow> memory_cache \<Rightarrow> memory_cache_error + string list" where
  "mc_retry_encrypted_events rid mc =
     (case get_room rid mc of
        Inl e \<Rightarrow> Inl e
      | Inr None \<Rightarrow> Inr []
      | Inr (Some _) \<Rightarrow> Inr [rid])"

fun rooms_to_retry ::
  "(string \<times> cached_room) list \<Rightarrow> (memory_cache_error + unit) \<times> string list" where
  "rooms_to_retry [] = (Inr (), [])"
| "rooms_to_retry ((rid, room) # rooms) =
     (case has_events_to_decrypt room of
        Inl e \<Rightarrow> (Inl e, [])
      | Inr False \<Rightarrow> rooms_to_retry rooms
      | Inr True \<Rightarrow> (case rooms_to_retry rooms of (r, spawned) \<Rightarrow> (r, rid # spawned)))"

definition mc_retry_all_encrypted_events ::
  "memory_cache \<Rightarrow> (memory_cache_error + unit) \<times> string list" where
  "mc_retry_all_encrypted_events mc =
     (case lock (mc_rooms mc) of
        Inl _ \<Rightarrow> (Inl CachePoisoned, [])
      | Inr rooms \<Rightarrow> rooms_to_retry rooms)"

section \<open>What processing an event can do to a room\<close>

text \<open>
  Every handler changes the room only by the primitive operations of the cache, in some
  order.  A relation between rooms that is reflexive, transitive and kept by those is kept
  by the processing of any event; \<open>ok\<close> restricts the reactions that may be cached.
\<close>

locale room_relation =
  fixes R :: "cached_room \<Rightarrow> cached_room \<Rightarrow> bool"
    and ok :: "string \<Rightarrow> string \<Rightarrow> bool"
  assumes R_refl: "R room room"
    and R_trans: "R room room' \<Longrightarrow> R room' room'' \<Longrightarrow> R room room''"
    and R_stash: "(\<And>m. cm_reactions (f m) = cm_reactions m) \<Longrightarrow> R room (snd (update_message mid f room))"
    and R_build: "R room (snd (assemble_message msg room))"
    and R_reaction: "ok mid rid \<Longrightarrow> R room (snd (cache_reaction mid rid rx room))"
    and R_cache_encrypted: "R room (snd (cache_encrypted_event eid ee room))"
    and R_remove_encrypted: "R room (snd (remove_encrypted_event eid room))"
    and R_marker: "R room (snd (cache_read_marker u ts room))"
begin

definition step :: "(room_state \<Rightarrow> 'r \<times> room_state) \<Rightarrow> bool" where
  "step h \<longleftrightarrow> (\<forall>st. R (st_room st) (st_room (snd (h st))))"

lemma step_on_room: "(\<And>room. R room (snd (f room))) \<Longrightarrow> step (on_room f)"
  by (auto simp: step_def on_room_def split: prod.splits) (metis snd_conv)

lemma step_return: "step (\<lambda>st. (f st, st))"
  by (simp add: step_def R_refl)

lemma step_and_then:
  assumes "step h" "\<And>x. step (k x)"
  shows "step (\<lambda>st. and_then (h st) k)"
  unfolding step_def
proof
  fix st
  obtain r st' where h: "h st = (r, st')" by (cases "h st")
  then have "R (st_room st) (st_room st')" using assms(1) by (metis step_def snd_conv)
  then show "R (st_room st) (st_room (snd (and_then (h st) k)))"
    using assms(2) R_trans by (cases r) (auto simp: h step_def)
qed

lemma stepD: "step h \<Longrightarrow> R (st_room st) (st_room (snd (h st)))"
  by (simp add: step_def)

lemma step_no_action: "step h \<Longrightarrow> step (\<lambda>st. no_action (h st))"
  unfolding no_action_def by (intro step_and_then step_return)

lemma step_message_action: "step (message_action msg)"
  unfolding message_action_def by (intro step_and_then step_on_room step_return R_build)

lemma R_markers: "R room (snd (cache_read_markers ms room))"
proof (induction ms arbitrary: room)
  case (Cons kv ms)
  obtain u t where kv: "kv = (u, t)" by (cases kv)
  obtain r room' where m: "cache_read_marker u t room = (r, room')"
    by (cases "cache_read_marker u t room")
  then have "R room room'" using R_marker [of room u t] by simp
  with Cons.IH [of room'] R_trans show ?case by (cases r) (auto simp: kv m)
qed (simp add: R_refl)

lemma step_load_markers: "step (load_and_cache_event_read_markers env e)"
  using step_on_room [of "cache_read_markers (load_event_read_markers env e)"] R_markers
  by (auto simp: step_def load_and_cache_event_read_markers_def Let_def R_refl)

lemma step_fs: "R (st_room st) (st_room (snd (h (st\<lparr>st_fs := fs\<rparr>))))" if "step h"
  using stepD [OF that, of "st\<lparr>st_fs := fs\<rparr>"] by simp

lemma step_replacement: "step (on_room (cache_replacement i j x))"
  unfolding cache_replacement_def by (intro step_on_room R_stash) simp

lemma step_original_room_message: "step (process_original_room_message env e c)"
proof -
  have "R (st_room st) (st_room (snd (process_original_room_message env e c st)))" for st
    using step_fs [OF step_message_action]
      step_fs [OF step_no_action [OF step_replacement]]
    by (auto simp: process_original_room_message_def R_refl
        split: option.splits relation.splits prod.splits)
  then show ?thesis by (simp add: step_def)
qed

lemma step_room_message: "step (process_room_message env e c)"
  using step_original_room_message step_message_action
  by (cases c) (simp_all add: step_def process_room_message_def process_redacted_room_message_def)

lemma step_redaction: "step (process_room_redaction c)"
proof -
  have "step (on_room (cache_redaction x i))" for x i
    unfolding cache_redaction_def by (intro step_on_room R_stash) simp
  from step_no_action [OF this] show ?thesis
    by (auto simp: step_def process_room_redaction_def R_refl split: event_content.splits option.splits)
qed

lemma step_encrypted: "step (process_room_encrypted e c)"
  using step_message_action
  by (cases c) (simp_all add: step_def process_room_encrypted_def R_refl)

lemma step_poll_start: "step (process_unstable_poll_start e c)"
proof -
  have "step (on_room (cache_poll_replacement_event i ev))" for i ev
    unfolding cache_poll_replacement_event_def by (intro step_on_room R_stash) simp
  from step_no_action [OF this] show ?thesis
    using step_message_action
    by (auto simp: step_def process_unstable_poll_start_def process_new_unstable_poll_start_def R_refl
        split: event_content.splits poll_start_content.splits sum.splits)
qed

lemma step_poll_response: "step (process_unstable_poll_response e c)"
proof -
  have "step (on_room (cache_poll_response_event i ev))" for i ev
    unfolding cache_poll_response_event_def by (intro step_on_room R_stash) simp
  from step_no_action [OF this] show ?thesis
    by (auto simp: step_def process_unstable_poll_response_def R_refl split: event_content.splits)
qed

lemma step_poll_end: "step (process_unstable_poll_end e c)"
proof -
  have "step (on_room (cache_poll_end_event i ev))" for i ev
    unfolding cache_poll_end_event_def by (intro step_on_room R_stash) simp
  from step_no_action [OF this] show ?thesis
    by (auto simp: step_def process_unstable_poll_end_def R_refl split: event_content.splits)
qed

fun body_ok :: "string \<Rightarrow> event_body \<Rightarrow> bool" where
  "body_ok i (MessageLike (ReactionEvent (Original a))) = ok (an_event_id a) i"
| "body_ok i _ = True"

definition event_ok :: "full_event \<Rightarrow> bool" where
  "event_ok e = body_ok (ev_id e) (ev_body e)"

lemma step_reaction:
  assumes "\<And>a. c = Original a \<Longrightarrow> ok (an_event_id a) (ev_id e)"
  shows "step (process_reaction_event e c)"
proof (cases c)
  case (Original a)
  have "step (on_room (cache_reaction (an_event_id a) (ev_id e) rx))" for rx
    using assms [OF Original] R_reaction by (intro step_on_room)
  then have "step (\<lambda>st. and_then (on_room (cache_reaction (an_event_id a) (ev_id e) rx) st)
      (\<lambda>_ st. (g st, st)))" for rx and g :: "room_state \<Rightarrow> memory_cache_error + cached_room_action option"
    by (intro step_and_then step_return)
  with Original show ?thesis
    by (simp add: process_reaction_event_def [abs_def] Let_def step_def R_refl)
next
  case RedactedContent
  then show ?thesis by (simp add: step_def process_reaction_event_def R_refl)
qed

lemma step_state: "step (process_any_state_event e s)"
  using step_message_action
  by (auto simp: step_def process_any_state_event_def process_room_member_event_def R_refl
      split: state_event.splits event_content.splits sum.splits)

lemma step_message_like:
  assumes "ev_body e = MessageLike m" "event_ok e"
  shows "step (process_any_message_like_event env e m)"
proof -
  have "step (process_reaction_event e c)" if "m = ReactionEvent c" for c
    using assms that by (intro step_reaction) (simp add: event_ok_def)
  with step_room_message step_redaction step_encrypted step_poll_start step_poll_response step_poll_end
  show ?thesis
    by (cases m) (simp_all add: process_any_message_like_event_def [abs_def] step_return)
qed

lemma step_any_timeline_event:
  assumes "event_ok e"
  shows "step (process_any_timeline_event env e)"
proof -
  have "step (\<lambda>st. case ev_body e of
      MessageLike m \<Rightarrow> process_any_message_like_event env e m st
    | State s \<Rightarrow> process_any_state_event e s st)"
    using step_message_like [OF _ assms] step_state by (cases "ev_body e") simp_all
  then show ?thesis
    unfolding process_any_timeline_event_def [abs_def]
    by (intro step_and_then step_load_markers)
qed

text \<open>The event is parsed from its raw form, with the room's ID when it is plain text.\<close>

definition timeline_ok :: "room_env \<Rightarrow> string \<Rightarrow> timeline_event \<Rightarrow> bool" where
  "timeline_ok env rid event \<longleftrightarrow> (case te_kind event of
     Decrypted raw \<Rightarrow> (case parse_full (en_parsers env) raw of None \<Rightarrow> True | Some e \<Rightarrow> event_ok e)
   | PlainText raw \<Rightarrow>
       (case parse_sync (en_parsers env) raw of
          None \<Rightarrow> True | Some e \<Rightarrow> event_ok (into_full_event e rid))
   | UnableToDecrypt _ _ \<Rightarrow> True)"

lemma event_ok_room [simp]: "event_ok (into_full_event e rid) = body_ok (ev_id e) (ev_body e)"
  by (simp add: event_ok_def into_full_event_def)

lemma timeline_ok_room: "timeline_ok env rid event \<Longrightarrow> timeline_ok env rid' event"
  unfolding timeline_ok_def by (cases "te_kind event") (simp_all split: option.splits)

lemma process_timeline_event_R:
  assumes "timeline_ok env rid event"
  shows "R (st_room st) (st_room (snd (process_timeline_event env event st)))"
proof (cases "te_kind event")
  case (Decrypted raw)
  have "step (\<lambda>st. and_then (on_room (remove_encrypted_event (ev_id e)) st)
      (\<lambda>_. process_any_timeline_event env e))" if "parse_full (en_parsers env) raw = Some e" for e
    using assms Decrypted that
    by (intro step_and_then step_on_room R_remove_encrypted step_any_timeline_event)
      (simp add: timeline_ok_def)
  with Decrypted show ?thesis
    by (auto simp: process_timeline_event_def process_decrypted_event_def R_refl step_def
        split: option.splits)
next
  case (UnableToDecrypt raw sid)
  have "step (\<lambda>st. and_then (on_room (cache_encrypted_event i x) st) (\<lambda>_ st. (y, st)))" for i x y
    by (intro step_and_then step_on_room R_cache_encrypted step_return)
  with UnableToDecrypt show ?thesis
    by (auto simp: process_timeline_event_def process_unable_to_decrypt_event_def R_refl step_def Let_def
        split: option.splits)
next
  case (PlainText raw)
  have "step (process_any_timeline_event env (into_full_event e (cr_room_id (st_room st))))"
    if "parse_sync (en_parsers env) raw = Some e" for e
    using assms PlainText that
    by (intro step_any_timeline_event) (simp add: timeline_ok_def)
  with PlainText show ?thesis
    by (auto simp: process_timeline_event_def process_plain_text_event_def R_refl step_def
        split: option.splits)
qed

lemma process_event_chunk_R:
  "\<forall>e \<in> set events. timeline_ok env rid e \<Longrightarrow>
   process_event_chunk env events f st = (r, f', st') \<Longrightarrow> R (st_room st) (st_room st')"
proof (induction events arbitrary: f st)
  case (Cons event events)
  obtain r1 st1 where p: "process_timeline_event env event st = (r1, st1)"
    by (cases "process_timeline_event env event st")
  have R1: "R (st_room st) (st_room st1)"
    using process_timeline_event_R [of env rid event st] Cons.prems(1) p by simp
  have u: "st_room (snd (update_read_markers g st1)) = st_room st1" for g
    by (simp add: update_read_markers_def send_to_app_def split: sum.splits)
  have u': "update_read_markers g st1 = (f2, st2) \<Longrightarrow> st_room st2 = st_room st1" for g f2 st2
    using u [of g] by simp
  have rest: "R (st_room st) (st_room st')"
    if "process_event_chunk env events g s = (r, f', st')" "st_room s = st_room st1" for g s
    using Cons.IH [OF _ that(1)] Cons.prems(1) that(2) R1 R_trans by force
  show ?case
    using Cons.prems(2) R1
    by (auto simp: p Let_def dest!: u' dest: rest
        split: sum.splits option.splits cached_room_action.splits prod.splits if_splits)
qed (simp add: R_refl)

end

end
