(* ===== verification/Refinement.thy ===== *)
theory Refinement
  imports Main
begin

text \<open>
  The contract between a component and its specification: every operation keeps the
  component's invariant and changes what the component stands for, \<open>abs\<close>, as the abstract
  operation does.  Sequences of operations follow.
\<close>

locale data_refinement =
  fixes inv :: "'s \<Rightarrow> bool"
    and abs :: "'s \<Rightarrow> 'a"
    and op :: "'o \<Rightarrow> 's \<Rightarrow> 's"
    and spec :: "'o \<Rightarrow> 'a \<Rightarrow> 'a"
  assumes op_inv: "inv s \<Longrightarrow> inv (op x s)"
    and op_abs: "inv s \<Longrightarrow> abs (op x s) = spec x (abs s)"
begin

lemma run_inv: "inv s \<Longrightarrow> inv (fold op xs s)"
  by (induction xs arbitrary: s) (simp_all add: op_inv)

lemma run_abs: "inv s \<Longrightarrow> abs (fold op xs s) = fold spec xs (abs s)"
  by (induction xs arbitrary: s) (simp_all add: op_inv op_abs)

text \<open>The order of two operations matters only as far as it does in the specification.\<close>

lemma run_swap:
  "inv s \<Longrightarrow> spec x (spec y (abs s)) = spec y (spec x (abs s)) \<Longrightarrow>
   abs (op x (op y s)) = abs (op y (op x s))"
  by (simp add: op_inv op_abs)

lemma run_idem:
  "inv s \<Longrightarrow> spec x (spec x (abs s)) = spec x (abs s) \<Longrightarrow> abs (op x (op x s)) = abs (op x s)"
  by (simp add: op_inv op_abs)

text \<open>A relation on what the component stands for that every operation respects.\<close>

lemma run_mono:
  assumes "inv s" "\<And>a. le a a" "\<And>a b c. le a b \<Longrightarrow> le b c \<Longrightarrow> le a c" "\<And>x a. le a (spec x a)"
  shows "le (abs s) (abs (fold op xs s))"
  using assms(1)
proof (induction xs arbitrary: s)
  case Nil
  then show ?case by (simp add: assms(2))
next
  case (Cons x xs)
  have "le (abs s) (abs (op x s))" by (simp add: op_abs Cons.prems assms(4))
  moreover have "le (abs (op x s)) (abs (fold op xs (op x s)))"
    by (rule Cons.IH) (rule op_inv [OF Cons.prems])
  ultimately show ?case using assms(3) by simp
qed

end

end
