(* ===== verification/CacheProperties.thy ===== *)
theory CacheProperties
  imports MemoryCache Refinement
begin

text \<open>
  What the cache of a room keeps: the index of reactions agrees with the messages, read
  markers only advance, a built message shows the latest replacement and all reactions,
  and a fetch sends no more messages than were asked for.
\<close>

section \<open>Access to a room\<close>

definition message_at :: "cached_room \<Rightarrow> string \<Rightarrow> cached_message" where
  "message_at room mid =
     (case hm_get (mtx_data (cr_messages room)) mid of None \<Rightarrow> default_cached_message | Some m \<Rightarrow> m)"

definition reaction_at :: "cached_room \<Rightarrow> string \<Rightarrow> string \<Rightarrow> cached_reaction option" where
  "reaction_at room mid rid = hm_get (cm_reactions (message_at room mid)) rid"

definition indexed :: "cached_room \<Rightarrow> string \<Rightarrow> string option" where
  "indexed room rid = hm_get (mtx_data (cr_reaction_id_to_message room)) rid"

definition marker :: "cached_room \<Rightarrow> string \<Rightarrow> u64 option" where
  "marker room u = hm_get (mtx_data (cr_read_markers room)) u"

definition unpoisoned :: "cached_room \<Rightarrow> bool" where
  "unpoisoned room \<longleftrightarrow> \<not> mtx_poisoned (cr_messages room) \<and> \<not> mtx_poisoned (cr_encrypted_events room)
     \<and> \<not> mtx_poisoned (cr_reaction_id_to_message room) \<and> \<not> mtx_poisoned (cr_read_markers room)"

lemma hm_get_entry [simp]:
  "hm_get (hm_entry k d f m) k' = (if k' = k then Some (f (case hm_get m k of None \<Rightarrow> d | Some v \<Rightarrow> v))
     else hm_get m k')"
  by (simp add: hm_entry_def)

text \<open>The effect of the primitive operations on a room whose locks are not poisoned.\<close>

lemma update_message_effect:
  assumes "unpoisoned room"
  obtains room' where "update_message mid f room = (Inr (), room')" "unpoisoned room'"
    "message_at room' = (message_at room)(mid := f (message_at room mid))"
    "indexed room' = indexed room" "marker room' = marker room" "cr_room_id room' = cr_room_id room"
    "cr_encrypted_events room' = cr_encrypted_events room"
  by (rule that [of "snd (update_message mid f room)"])
    (use assms in \<open>auto simp: update_message_def unpoisoned_def lock_ok message_at_def indexed_def
      marker_def fun_eq_iff\<close>)

lemma put_message_effect:
  "message_at (put_message mid m (mtx_data (cr_messages room)) room) = (message_at room)(mid := m)"
  "unpoisoned (put_message mid m ms room) = unpoisoned room"
  "indexed (put_message mid m ms room) = indexed room"
  "marker (put_message mid m ms room) = marker room"
  "cr_room_id (put_message mid m ms room) = cr_room_id room"
  by (auto simp: put_message_def message_at_def unpoisoned_def indexed_def marker_def fun_eq_iff)

lemma cache_reaction_effect:
  assumes "unpoisoned room"
  obtains room' where "cache_reaction mid rid rx room = (Inr (), room')" "unpoisoned room'"
    "message_at room' = (message_at room)(mid := (message_at room mid)
       \<lparr>cm_reactions := hm_insert rid rx (cm_reactions (message_at room mid))\<rparr>)"
    "indexed room' = (indexed room)(rid := Some mid)" "marker room' = marker room"
    "cr_room_id room' = cr_room_id room"
proof -
  obtain room1 where r1: "update_message mid
      (\<lambda>m. m\<lparr>cm_reactions := hm_insert rid rx (cm_reactions m)\<rparr>) room = (Inr (), room1)"
    "unpoisoned room1" "message_at room1 = (message_at room)(mid := (message_at room mid)
       \<lparr>cm_reactions := hm_insert rid rx (cm_reactions (message_at room mid))\<rparr>)"
    "indexed room1 = indexed room" "marker room1 = marker room" "cr_room_id room1 = cr_room_id room"
    by (rule update_message_effect [OF assms])
  let ?room = "room1\<lparr>cr_reaction_id_to_message := put_guard (cr_reaction_id_to_message room1)
      (hm_insert rid mid (mtx_data (cr_reaction_id_to_message room1)))\<rparr>"
  show ?thesis
    by (rule that [of ?room])
      (use r1 in \<open>auto simp: cache_reaction_def unpoisoned_def lock_ok message_at_def indexed_def
        marker_def fun_eq_iff\<close>)
qed

lemma cleanup_reaction_effect:
  assumes "unpoisoned room"
  obtains room' where "cleanup_reaction rid room = (Inr (), room')" "unpoisoned room'"
    "message_at room' = message_at room" "indexed room' = (indexed room)(rid := None)"
    "cr_room_id room' = cr_room_id room"
  by (rule that [of "snd (cleanup_reaction rid room)"])
    (use assms in \<open>auto simp: cleanup_reaction_def unpoisoned_def lock_ok message_at_def indexed_def
      fun_eq_iff\<close>)

lemma cleanup_reactions_effect:
  assumes "unpoisoned room"
  obtains room' where "cleanup_reactions rs room = (Inr (), room')" "unpoisoned room'"
    "message_at room' = message_at room"
    "indexed room' = (\<lambda>rid. if rid \<in> fst ` set rs then None else indexed room rid)"
    "cr_room_id room' = cr_room_id room"
  using assms
proof (induction rs arbitrary: room thesis)
  case Nil
  then show ?case by simp
next
  case (Cons r rs)
  obtain room1 where 1: "cleanup_reaction (fst r) room = (Inr (), room1)" "unpoisoned room1"
    "message_at room1 = message_at room" "indexed room1 = (indexed room)(fst r := None)"
    "cr_room_id room1 = cr_room_id room"
    by (rule cleanup_reaction_effect [OF Cons.prems(2)])
  obtain room2 where 2: "cleanup_reactions rs room1 = (Inr (), room2)" "unpoisoned room2"
    "message_at room2 = message_at room1"
    "indexed room2 = (\<lambda>rid. if rid \<in> fst ` set rs then None else indexed room1 rid)"
    "cr_room_id room2 = cr_room_id room1"
    by (rule Cons.IH [OF _ 1(2)])
  show ?case
    by (rule Cons.prems(1) [of room2]) (use 1 2 in \<open>auto simp: fun_eq_iff\<close>)
qed

lemma assemble_message_effect:
  assumes "unpoisoned room"
  obtains room' msg where "assemble_message original room = (Inr msg, room')" "unpoisoned room'"
    "message_at room' = (message_at room)(m_id original :=
       (message_at room (m_id original))\<lparr>cm_original := Some original\<rparr>)"
    "msg = fst (build_from_original original (message_at room (m_id original)))"
    "indexed room' = indexed room" "marker room' = marker room" "cr_room_id room' = cr_room_id room"
  by (rule that [of "fst (build_from_original original (message_at room (m_id original)))"
        "put_message (m_id original) ((message_at room (m_id original))\<lparr>cm_original := Some original\<rparr>)
          (mtx_data (cr_messages room)) room"])
    (use assms in \<open>auto simp: assemble_message_def cache_and_build_message_def unpoisoned_def lock_ok
      message_at_def build_from_original_def put_message_def indexed_def marker_def Let_def fun_eq_iff
      split: option.splits\<close>)

lemma encrypted_events_effect:
  "unpoisoned room \<Longrightarrow> unpoisoned (snd (cache_encrypted_event i e room)) \<and>
     message_at (snd (cache_encrypted_event i e room)) = message_at room \<and>
     indexed (snd (cache_encrypted_event i e room)) = indexed room"
  "unpoisoned room \<Longrightarrow> unpoisoned (snd (remove_encrypted_event i room)) \<and>
     message_at (snd (remove_encrypted_event i room)) = message_at room \<and>
     indexed (snd (remove_encrypted_event i room)) = indexed room"
  by (auto simp: cache_encrypted_event_def remove_encrypted_event_def unpoisoned_def lock_ok
      message_at_def indexed_def fun_eq_iff)

lemma cache_read_marker_effect:
  "unpoisoned room \<Longrightarrow> unpoisoned (snd (cache_read_marker u t room)) \<and>
     message_at (snd (cache_read_marker u t room)) = message_at room \<and>
     indexed (snd (cache_read_marker u t room)) = indexed room"
  by (auto simp: cache_read_marker_def unpoisoned_def lock_ok message_at_def indexed_def fun_eq_iff)

section \<open>Reactions\<close>

text \<open>
  The ID of a reaction belongs to one message, \<open>target\<close> (event IDs are unique).  The index
  then names, for exactly the cached reactions, the message that holds them.
\<close>

definition reaction_inv :: "(string \<Rightarrow> string) \<Rightarrow> cached_room \<Rightarrow> bool" where
  "reaction_inv target room \<longleftrightarrow> unpoisoned room \<and>
     (\<forall>mid. hm_wf (cm_reactions (message_at room mid))) \<and>
     (\<forall>mid rid. reaction_at room mid rid \<noteq> None \<longrightarrow> mid = target rid) \<and>
     (\<forall>rid. indexed room rid = (if reaction_at room (target rid) rid = None then None
        else Some (target rid)))"

definition look :: "(string \<Rightarrow> string) \<Rightarrow> cached_room \<Rightarrow> string \<Rightarrow> cached_reaction option" where
  "look target room rid = reaction_at room (target rid) rid"

lemma reaction_inv_cong:
  "reaction_inv target room \<Longrightarrow> unpoisoned room' \<Longrightarrow>
   (\<And>mid. cm_reactions (message_at room' mid) = cm_reactions (message_at room mid)) \<Longrightarrow>
   indexed room' = indexed room \<Longrightarrow>
   reaction_inv target room' \<and> look target room' = look target room"
  by (simp add: reaction_inv_def look_def reaction_at_def fun_eq_iff)

lemma reaction_invD:
  assumes "reaction_inv target room"
  shows "unpoisoned room" "hm_wf (cm_reactions (message_at room mid))"
    "reaction_at room mid rid \<noteq> None \<Longrightarrow> mid = target rid"
    "indexed room rid =
       (if reaction_at room (target rid) rid = None then None else Some (target rid))"
  using assms unfolding reaction_inv_def by blast+

lemma reaction_invI:
  assumes "unpoisoned room" "\<And>mid. hm_wf (cm_reactions (message_at room mid))"
    "\<And>mid rid. reaction_at room mid rid \<noteq> None \<Longrightarrow> mid = target rid"
    "\<And>rid. indexed room rid =
       (if reaction_at room (target rid) rid = None then None else Some (target rid))"
  shows "reaction_inv target room"
  using assms unfolding reaction_inv_def by blast

text \<open>A room that differs from one with the invariant in the reactions looked up.\<close>

lemma reaction_inv_update:
  assumes inv: "reaction_inv target room" and "unpoisoned room'"
    and wf: "\<And>mid. hm_wf (cm_reactions (message_at room' mid))"
    and at: "\<And>mid rid. reaction_at room' mid rid = (if mid = target rid then v rid else None)"
    and idx: "\<And>rid. indexed room' rid = (if v rid = None then None else Some (target rid))"
  shows "reaction_inv target room' \<and> look target room' = v"
proof
  show "reaction_inv target room'"
  proof (rule reaction_invI)
    show "unpoisoned room'" by fact
    show "hm_wf (cm_reactions (message_at room' mid))" for mid by (rule wf)
    show "mid = target rid" if "reaction_at room' mid rid \<noteq> None" for mid rid
      using that at [of mid rid] by (simp split: if_splits)
    show "indexed room' rid =
       (if reaction_at room' (target rid) rid = None then None else Some (target rid))" for rid
      using at [of "target rid" rid] idx [of rid] by simp
  qed
  show "look target room' = v" by (simp add: look_def at fun_eq_iff)
qed

lemma reaction_at_look:
  "reaction_inv target room \<Longrightarrow>
   reaction_at room mid rid = (if mid = target rid then look target room rid else None)"
  using reaction_invD(3) [of target room mid rid]
  by (cases "reaction_at room mid rid") (auto simp: look_def)

lemma indexed_look:
  "reaction_inv target room \<Longrightarrow>
   indexed room rid = (if look target room rid = None then None else Some (target rid))"
  using reaction_invD(4) [of target room rid] by (simp add: look_def)

lemma cache_reaction_refines:
  assumes "reaction_inv target room"
  shows "\<exists>room'. cache_reaction (target rid) rid rx room = (Inr (), room') \<and>
    reaction_inv target room' \<and> look target room' = (look target room)(rid := Some rx)"
proof -
  obtain room' where r: "cache_reaction (target rid) rid rx room = (Inr (), room')" "unpoisoned room'"
    "message_at room' = (message_at room)(target rid := (message_at room (target rid))
       \<lparr>cm_reactions := hm_insert rid rx (cm_reactions (message_at room (target rid)))\<rparr>)"
    "indexed room' = (indexed room)(rid := Some (target rid))"
    by (rule cache_reaction_effect [OF reaction_invD(1) [OF assms]])
  have at: "reaction_at room' mid i = (if mid = target rid \<and> i = rid then Some rx else reaction_at room mid i)"
    for mid i by (simp add: reaction_at_def r(3))
  have "reaction_inv target room' \<and> look target room' = (look target room)(rid := Some rx)"
  proof (rule reaction_inv_update [OF assms r(2)])
    show "hm_wf (cm_reactions (message_at room' mid))" for mid
      using reaction_invD(2) [OF assms] by (simp add: r(3))
    show "reaction_at room' mid i = (if mid = target i then ((look target room)(rid := Some rx)) i else None)"
      for mid i by (simp add: at reaction_at_look [OF assms])
    show "indexed room' i =
       (if ((look target room)(rid := Some rx)) i = None then None else Some (target i))" for i
      by (simp add: r(4) indexed_look [OF assms])
  qed
  with r(1) show ?thesis by blast
qed

text \<open>A cached reaction is in the map of its message.\<close>

lemma look_SomeD:
  assumes "look target room rid = Some rx"
  obtains m where "hm_get (mtx_data (cr_messages room)) (target rid) = Some m"
    "message_at room (target rid) = m" "hm_get (cm_reactions m) rid = Some rx"
  using assms by (auto simp: look_def reaction_at_def message_at_def default_cached_message_def
      split: option.splits)

lemma remove_reaction_by_id_refines:
  assumes "reaction_inv target room"
  shows "\<exists>room'. remove_reaction_by_id rid room =
      (Inr (map_option (\<lambda>rx. reaction_metadata_new rx rid (target rid) (cr_room_id room))
        (look target room rid)), room') \<and>
    reaction_inv target room' \<and> look target room' = (look target room)(rid := None)"
proof (cases "look target room rid")
  case None
  have "remove_reaction_by_id rid room = (Inr None, room)"
    using indexed_look [OF assms, of rid] None reaction_invD(1) [OF assms]
    by (simp add: remove_reaction_by_id_def reaction_id_to_message_id_def unpoisoned_def
        lock_ok indexed_def)
  with None assms show ?thesis by (auto simp: fun_eq_iff)
next
  case (Some rx)
  obtain m where m: "hm_get (mtx_data (cr_messages room)) (target rid) = Some m"
    "message_at room (target rid) = m" "hm_get (cm_reactions m) rid = Some rx"
    by (rule look_SomeD [OF Some])
  note u = reaction_invD(1) [OF assms]
  let ?room1 = "put_message (target rid) (m\<lparr>cm_reactions := hm_remove rid (cm_reactions m)\<rparr>)
      (mtx_data (cr_messages room)) room"
  have idx: "indexed room rid = Some (target rid)" using indexed_look [OF assms, of rid] Some by simp
  have "unpoisoned ?room1" using u by (simp add: put_message_effect)
  then obtain room' where r: "cleanup_reaction rid ?room1 = (Inr (), room')" "unpoisoned room'"
    "message_at room' = message_at ?room1" "indexed room' = (indexed ?room1)(rid := None)"
    "cr_room_id room' = cr_room_id ?room1"
    by (rule cleanup_reaction_effect)
  have at: "reaction_at room' mid i = (if mid = target rid \<and> i = rid then None else reaction_at room mid i)"
    for mid i by (simp add: reaction_at_def r(3) put_message_effect m(2))
  have "reaction_inv target room' \<and> look target room' = (look target room)(rid := None)"
  proof (rule reaction_inv_update [OF assms r(2)])
    show "hm_wf (cm_reactions (message_at room' mid))" for mid
      using reaction_invD(2) [OF assms, of mid] by (auto simp: r(3) put_message_effect m(2))
    show "reaction_at room' mid i = (if mid = target i then ((look target room)(rid := None)) i else None)"
      for mid i by (simp add: at reaction_at_look [OF assms])
    show "indexed room' i =
       (if ((look target room)(rid := None)) i = None then None else Some (target i))" for i
      by (simp add: r(4) indexed_look [OF assms] put_message_effect)
  qed
  moreover have "remove_reaction_by_id rid room =
      (Inr (Some (reaction_metadata_new rx rid (target rid) (cr_room_id room))), room')"
    using u idx m r(1,5)
    by (simp add: remove_reaction_by_id_def reaction_id_to_message_id_def unpoisoned_def lock_ok
        indexed_def put_message_effect)
  ultimately show ?thesis using Some by auto
qed

text \<open>Removing the reactions of a user with an emoji from a message.\<close>

definition remove_matching ::
  "(string \<Rightarrow> string) \<Rightarrow> string \<Rightarrow> string \<Rightarrow> string \<Rightarrow> (string \<Rightarrow> cached_reaction option) \<Rightarrow>
   string \<Rightarrow> cached_reaction option" where
  "remove_matching target mid user_id emoji m = (\<lambda>rid. case m rid of
     None \<Rightarrow> None
   | Some rx \<Rightarrow> if target rid = mid \<and> by_user_and_emoji user_id emoji (rid, rx) then None else Some rx)"

definition first_matching ::
  "string \<Rightarrow> string \<Rightarrow> string \<Rightarrow> cached_room \<Rightarrow> reaction_metadata option" where
  "first_matching mid user_id emoji room =
     (case filter (by_user_and_emoji user_id emoji) (cm_reactions (message_at room mid)) of
        [] \<Rightarrow> None
      | (rid, rx) # _ \<Rightarrow> Some (reaction_metadata_new rx rid mid (cr_room_id room)))"

lemma hm_get_filter_not:
  "hm_wf m \<Longrightarrow> hm_get (filter (\<lambda>x. \<not> P x) m) k =
     (case hm_get m k of None \<Rightarrow> None | Some v \<Rightarrow> if P (k, v) then None else Some v)"
  by (simp add: hm_get_filter split: option.splits)

lemma keys_of_filter:
  "hm_wf m \<Longrightarrow> k \<in> fst ` set (filter P m) \<longleftrightarrow> (\<exists>v. hm_get m k = Some v \<and> P (k, v))"
  by (force simp: hm_get_mem)

lemma remove_by_emoji_unknown:
  assumes "reaction_inv target room" "hm_get (mtx_data (cr_messages room)) mid = None"
  shows "remove_reaction_by_emoji mid user_id emoji room = (Inr (first_matching mid user_id emoji room), room) \<and>
    remove_matching target mid user_id emoji (look target room) = look target room"
proof -
  have no: "cm_reactions (message_at room mid) = []"
    using assms(2) by (simp add: message_at_def default_cached_message_def)
  then have "look target room rid = None" if "target rid = mid" for rid
    using that by (simp add: look_def reaction_at_def)
  then have "remove_matching target mid user_id emoji (look target room) = look target room"
    by (auto simp: remove_matching_def fun_eq_iff split: option.splits)
  with no show ?thesis
    using assms(2) reaction_invD(1) [OF assms(1)]
    by (simp add: remove_reaction_by_emoji_def unpoisoned_def lock_ok first_matching_def)
qed

lemma remove_by_emoji_reaction_at:
  assumes inv: "reaction_inv target room" and at: "message_at room mid = m"
    and room': "message_at room' = (message_at room)
      (mid := m\<lparr>cm_reactions := filter (\<lambda>r. \<not> by_user_and_emoji user_id emoji r) (cm_reactions m)\<rparr>)"
  shows "reaction_at room' i rid =
    (if i = target rid then remove_matching target mid user_id emoji (look target room) rid else None)"
proof (cases "i = mid")
  case True
  have wf: "hm_wf (cm_reactions m)" using reaction_invD(2) [OF inv, of mid] at by simp
  have "hm_get (cm_reactions m) rid = (if mid = target rid then look target room rid else None)"
    using reaction_at_look [OF inv, of mid rid] by (simp add: reaction_at_def at)
  with True room' show ?thesis
    by (simp add: reaction_at_def hm_get_filter_not [OF wf] remove_matching_def split: option.splits)
next
  case False
  then have "reaction_at room' i rid = reaction_at room i rid" by (simp add: reaction_at_def room')
  with False show ?thesis
    by (simp add: reaction_at_look [OF inv] remove_matching_def split: option.splits)
qed

lemma remove_reaction_by_emoji_refines:
  assumes "reaction_inv target room"
  shows "\<exists>room'. remove_reaction_by_emoji mid user_id emoji room =
      (Inr (first_matching mid user_id emoji room), room') \<and>
    reaction_inv target room' \<and> look target room' = remove_matching target mid user_id emoji (look target room)"
proof (cases "hm_get (mtx_data (cr_messages room)) mid")
  case None
  with remove_by_emoji_unknown [OF assms None] assms show ?thesis by simp
next
  case (Some m)
  let ?sel = "by_user_and_emoji user_id emoji"
  let ?removed = "filter ?sel (cm_reactions m)"
  let ?room1 = "put_message mid (m\<lparr>cm_reactions := filter (\<lambda>r. \<not> ?sel r) (cm_reactions m)\<rparr>)
      (mtx_data (cr_messages room)) room"
  note u = reaction_invD(1) [OF assms]
  from Some have at: "message_at room mid = m" by (simp add: message_at_def)
  then have wf: "hm_wf (cm_reactions m)" using reaction_invD(2) [OF assms, of mid] by simp
  have get: "hm_get (cm_reactions m) rid = (if mid = target rid then look target room rid else None)" for rid
    using reaction_at_look [OF assms, of mid rid] by (simp add: reaction_at_def at)
  have "unpoisoned ?room1" using u by (simp add: put_message_effect)
  then obtain room' where r: "cleanup_reactions ?removed ?room1 = (Inr (), room')" "unpoisoned room'"
    "message_at room' = message_at ?room1"
    "indexed room' = (\<lambda>rid. if rid \<in> fst ` set ?removed then None else indexed ?room1 rid)"
    "cr_room_id room' = cr_room_id ?room1"
    by (rule cleanup_reactions_effect)
  then have room': "message_at room' = (message_at room)
      (mid := m\<lparr>cm_reactions := filter (\<lambda>r. \<not> ?sel r) (cm_reactions m)\<rparr>)"
    by (auto simp: put_message_effect fun_eq_iff)
  have "reaction_inv target room' \<and>
    look target room' = remove_matching target mid user_id emoji (look target room)"
  proof (rule reaction_inv_update [OF assms r(2)])
    show "hm_wf (cm_reactions (message_at room' i))" for i
      using reaction_invD(2) [OF assms, of i] wf by (simp add: room')
    show "indexed room' rid =
       (if remove_matching target mid user_id emoji (look target room) rid = None then None
        else Some (target rid))" for rid
      unfolding r(4) keys_of_filter [OF wf] get
      by (simp add: put_message_effect indexed_look [OF assms] remove_matching_def split: option.splits)
  qed (rule remove_by_emoji_reaction_at [OF assms at room'])
  moreover have "remove_reaction_by_emoji mid user_id emoji room =
      (Inr (first_matching mid user_id emoji room), room')"
    using u Some r(1,5) at
    by (simp add: remove_reaction_by_emoji_def unpoisoned_def lock_ok Let_def first_matching_def
        put_message_effect split: list.split)
  ultimately show ?thesis by blast
qed

text \<open>Sequences of the operations on reactions, and what they describe.\<close>

datatype reaction_op =
  CacheReaction string cached_reaction
| RemoveById string
| RemoveByEmoji string string string

fun reaction_step :: "(string \<Rightarrow> string) \<Rightarrow> reaction_op \<Rightarrow> cached_room \<Rightarrow> cached_room" where
  "reaction_step target (CacheReaction rid rx) room = snd (cache_reaction (target rid) rid rx room)"
| "reaction_step target (RemoveById rid) room = snd (remove_reaction_by_id rid room)"
| "reaction_step target (RemoveByEmoji mid user_id emoji) room =
     snd (remove_reaction_by_emoji mid user_id emoji room)"

fun reaction_spec ::
  "(string \<Rightarrow> string) \<Rightarrow> reaction_op \<Rightarrow> (string \<Rightarrow> cached_reaction option) \<Rightarrow>
   string \<Rightarrow> cached_reaction option" where
  "reaction_spec target (CacheReaction rid rx) m = m(rid := Some rx)"
| "reaction_spec target (RemoveById rid) m = m(rid := None)"
| "reaction_spec target (RemoveByEmoji mid user_id emoji) m = remove_matching target mid user_id emoji m"

interpretation reactions: data_refinement "reaction_inv target" "look target" "reaction_step target"
  "reaction_spec target" for target
proof
  fix room x
  assume i: "reaction_inv target room"
  show "reaction_inv target (reaction_step target x room)"
    using cache_reaction_refines [OF i] remove_reaction_by_id_refines [OF i]
      remove_reaction_by_emoji_refines [OF i] by (cases x) (metis reaction_step.simps snd_conv)+
  show "look target (reaction_step target x room) = reaction_spec target x (look target room)"
    using cache_reaction_refines [OF i] remove_reaction_by_id_refines [OF i]
      remove_reaction_by_emoji_refines [OF i]
    by (cases x) (metis reaction_step.simps reaction_spec.simps snd_conv)+
qed

lemma message_at_new [simp]: "message_at (cached_room_new rid) mid = default_cached_message"
  by (simp add: message_at_def cached_room_new_def)

lemma reaction_inv_new: "reaction_inv target (cached_room_new rid)"
  by (rule reaction_invI)
    (simp_all add: unpoisoned_def cached_room_new_def reaction_at_def message_at_def indexed_def
      default_cached_message_def)

lemma look_new: "look target (cached_room_new rid) = (\<lambda>_. None)"
  by (simp add: look_def reaction_at_def default_cached_message_def fun_eq_iff)

text \<open>
  Claim C1: A room whose reactions have been cached and removed in any order, by their ID or
  by user and emoji, holds exactly the reactions that the sequence describes, the index names
  the right message for each of them and for no other ID, and a removal by ID answers with the
  reaction that it removes, on the message it was on.
\<close>

theorem reactions_follow_history:
  assumes m_def: "m = fold (reaction_spec target) ops (\<lambda>_. None)"
    and room_def: "room = fold (reaction_step target) ops (cached_room_new rid)"
  shows "reaction_at room mid i = (if mid = target i then m i else None) \<and>
    reaction_id_to_message_id i room = Inr (if m i = None then None else Some (target i)) \<and>
    fst (remove_reaction_by_id i room) =
      Inr (map_option (\<lambda>rx. reaction_metadata_new rx i (target i) (cr_room_id room)) (m i))"
proof -
  have inv: "reaction_inv target room"
    unfolding room_def by (rule reactions.run_inv [OF reaction_inv_new])
  have look: "look target room = m"
    unfolding room_def m_def by (simp add: reactions.run_abs [OF reaction_inv_new] look_new)
  have "reaction_id_to_message_id i room = Inr (if m i = None then None else Some (target i))"
    using indexed_look [OF inv, of i] reaction_invD(1) [OF inv] look
    by (simp add: reaction_id_to_message_id_def unpoisoned_def lock_ok indexed_def)
  with reaction_at_look [OF inv, of mid i] remove_reaction_by_id_refines [OF inv, of i] look
  show ?thesis by auto
qed

theorem reactions_follow_history_witness:
  "let ops = [CacheReaction ''$r1'' \<lparr>rx_user_id = ''@a:x'', rx_emoji = ''+1''\<rparr>,
              CacheReaction ''$r2'' \<lparr>rx_user_id = ''@b:x'', rx_emoji = ''+1''\<rparr>,
              RemoveByEmoji ''$m'' ''@a:x'' ''+1''];
       room = fold (reaction_step (\<lambda>_. ''$m'')) ops (cached_room_new ''!room'')
   in reaction_id_to_message_id ''$r2'' room = Inr (Some ''$m'') \<and>
      reaction_id_to_message_id ''$r1'' room = Inr None"
  unfolding Let_def
  using reactions_follow_history [of _ "\<lambda>_. ''$m''", OF refl refl]
  by (simp add: remove_matching_def by_user_and_emoji_def del: fold.simps)
    (simp add: remove_matching_def by_user_and_emoji_def)

section \<open>What every event keeps\<close>

definition marker_le :: "u64 option \<Rightarrow> u64 option \<Rightarrow> bool" where
  "marker_le a b = (case a of None \<Rightarrow> True | Some x \<Rightarrow> (case b of None \<Rightarrow> False | Some y \<Rightarrow> x \<le> y))"

lemma marker_le_refl [simp]: "marker_le a a"
  by (simp add: marker_le_def split: option.split)

lemma marker_le_trans: "marker_le a b \<Longrightarrow> marker_le b c \<Longrightarrow> marker_le a c"
  by (auto simp: marker_le_def split: option.splits)

text \<open>Only the operation on read markers touches them.\<close>

lemma marker_kept:
  "marker (snd (update_message mid f room)) = marker room"
  "marker (snd (assemble_message msg room)) = marker room"
  "marker (snd (cache_reaction mid rid rx room)) = marker room"
  "marker (snd (cache_encrypted_event eid ee room)) = marker room"
  "marker (snd (remove_encrypted_event eid room)) = marker room"
  by (auto simp: update_message_def assemble_message_def cache_and_build_message_def put_message_def
      cache_reaction_def cache_encrypted_event_def remove_encrypted_event_def marker_def fun_eq_iff
      and_then_def Let_def split: sum.split prod.split)

lemma marker_cache_read_marker:
  "marker_le (marker room v) (marker (snd (cache_read_marker u ts room)) v)"
  by (auto simp: cache_read_marker_def marker_def marker_le_def not_le split: sum.split option.split)

interpretation markers: room_relation
  "\<lambda>room room'. \<forall>u. marker_le (marker room u) (marker room' u)" "\<lambda>_ _. True"
  by unfold_locales (auto simp: marker_kept marker_cache_read_marker intro: marker_le_trans)

text \<open>
  The reactions: a room keeps its invariant and its ID, and loses no reaction, as long as
  every event that caches a reaction names the target of the reaction.
\<close>

definition keeps_reactions :: "(string \<Rightarrow> string) \<Rightarrow> cached_room \<Rightarrow> cached_room \<Rightarrow> bool" where
  "keeps_reactions target room room' \<longleftrightarrow> cr_room_id room' = cr_room_id room \<and>
     (reaction_inv target room \<longrightarrow> reaction_inv target room' \<and>
        (\<forall>rid. look target room rid \<noteq> None \<longrightarrow> look target room' rid \<noteq> None))"

lemma keeps_reactions_same:
  "cr_room_id room' = cr_room_id room \<Longrightarrow>
   (unpoisoned room \<Longrightarrow> unpoisoned room' \<and>
     (\<forall>mid. cm_reactions (message_at room' mid) = cm_reactions (message_at room mid)) \<and>
     indexed room' = indexed room) \<Longrightarrow> keeps_reactions target room room'"
  unfolding keeps_reactions_def
  using reaction_inv_cong [of target room room'] reaction_invD(1) [of target room] by auto

lemma room_id_kept:
  "cr_room_id (snd (update_message mid f room)) = cr_room_id room"
  "cr_room_id (snd (assemble_message msg room)) = cr_room_id room"
  "cr_room_id (snd (cache_reaction mid rid rx room)) = cr_room_id room"
  "cr_room_id (snd (cache_encrypted_event eid ee room)) = cr_room_id room"
  "cr_room_id (snd (remove_encrypted_event eid room)) = cr_room_id room"
  "cr_room_id (snd (cache_read_marker u ts room)) = cr_room_id room"
  by (auto simp: update_message_def assemble_message_def cache_and_build_message_def put_message_def
      cache_reaction_def cache_encrypted_event_def remove_encrypted_event_def cache_read_marker_def
      and_then_def Let_def split: sum.split prod.split option.split)

lemma stash_keeps_reactions:
  assumes "\<And>m. cm_reactions (f m) = cm_reactions m"
  shows "keeps_reactions target room (snd (update_message mid f room))"
proof (rule keeps_reactions_same [OF room_id_kept(1)])
  assume u: "unpoisoned room"
  show "unpoisoned (snd (update_message mid f room)) \<and>
     (\<forall>i. cm_reactions (message_at (snd (update_message mid f room)) i) = cm_reactions (message_at room i)) \<and>
     indexed (snd (update_message mid f room)) = indexed room"
    by (rule update_message_effect [OF u, of mid f]) (simp add: assms)
qed

lemma build_keeps_reactions: "keeps_reactions target room (snd (assemble_message msg room))"
proof (rule keeps_reactions_same [OF room_id_kept(2)])
  assume u: "unpoisoned room"
  show "unpoisoned (snd (assemble_message msg room)) \<and>
     (\<forall>i. cm_reactions (message_at (snd (assemble_message msg room)) i) = cm_reactions (message_at room i)) \<and>
     indexed (snd (assemble_message msg room)) = indexed room"
    by (rule assemble_message_effect [OF u, of msg]) simp
qed

lemma reaction_keeps_reactions:
  "mid = target rid \<Longrightarrow> keeps_reactions target room (snd (cache_reaction mid rid rx room))"
  unfolding keeps_reactions_def using cache_reaction_refines [of target room rid rx] room_id_kept(3) [of mid rid rx room]
  by auto

lemma others_keep_reactions:
  "keeps_reactions target room (snd (cache_encrypted_event eid ee room))"
  "keeps_reactions target room (snd (remove_encrypted_event eid room))"
  "keeps_reactions target room (snd (cache_read_marker u ts room))"
  by (rule keeps_reactions_same [OF room_id_kept(4)];
      simp add: encrypted_events_effect)
    (rule keeps_reactions_same [OF room_id_kept(5)], simp add: encrypted_events_effect,
     rule keeps_reactions_same [OF room_id_kept(6)], simp add: cache_read_marker_effect)

interpretation index: room_relation "keeps_reactions target" "\<lambda>mid rid. mid = target rid" for target
proof
  show "keeps_reactions target room room" for room by (simp add: keeps_reactions_def)
  show "keeps_reactions target room room' \<Longrightarrow> keeps_reactions target room' room'' \<Longrightarrow>
    keeps_reactions target room room''" for room room' room'' by (auto simp: keeps_reactions_def)
qed (rule stash_keeps_reactions build_keeps_reactions reaction_keeps_reactions others_keep_reactions; assumption?)+

section \<open>Read markers\<close>

lemma markers_timeline_ok [simp]: "markers.timeline_ok env rid e"
proof -
  have "markers.body_ok i b" for i b
    by (cases "(i, b)" rule: markers.body_ok.cases) simp_all
  then show ?thesis
    by (auto simp: markers.timeline_ok_def markers.event_ok_def split: timeline_kind.split option.split)
qed

text \<open>
  Claim C24: Processing a chunk of a room's timeline never moves a read marker back, whatever
  the events are, whatever the server answers about receipts, and also when the processing
  stops with an error.
\<close>

theorem read_markers_never_go_back:
  assumes "process_event_chunk env events f st = (r, f', st')"
    and "hm_get (mtx_data (cr_read_markers (st_room st))) user_id = Some old"
  shows "\<exists>new. hm_get (mtx_data (cr_read_markers (st_room st'))) user_id = Some new \<and> old \<le> new"
proof -
  have "marker_le (marker (st_room st) user_id) (marker (st_room st') user_id)"
    using markers.process_event_chunk_R [OF _ assms(1)] by simp
  with assms(2) show ?thesis by (simp add: marker_def marker_le_def split: option.splits)
qed

theorem read_markers_never_go_back_witness:
  "\<forall>env. \<exists>new. hm_get (mtx_data (cr_read_markers (st_room (snd (snd (process_event_chunk
       (env\<lparr>en_parsers := example_parsers\<rparr>) [example_timeline ''p'' ''@a:x'' 1]
       (messages_fetcher_new None 20 (Unthreaded None))
       \<lparr>st_room = snd (cache_read_marker ''@b:x'' 7 (cached_room_new ''!r'')),
        st_fs = \<lparr>fs_cwd = [], fs_files = [], fs_dirs = [], fs_outcomes = []\<rparr>, st_log = []\<rparr>)))))) ''@b:x'' = Some new
     \<and> 7 \<le> new"
proof
  fix env :: room_env
  let ?st = "\<lparr>st_room = snd (cache_read_marker ''@b:x'' 7 (cached_room_new ''!r'')),
        st_fs = \<lparr>fs_cwd = [], fs_files = [], fs_dirs = [], fs_outcomes = []\<rparr>, st_log = []\<rparr>"
  obtain r f st where p: "process_event_chunk (env\<lparr>en_parsers := example_parsers\<rparr>)
      [example_timeline ''p'' ''@a:x'' 1] (messages_fetcher_new None 20 (Unthreaded None)) ?st = (r, f, st)"
    by (metis surj_pair)
  have "hm_get (mtx_data (cr_read_markers (st_room ?st))) ''@b:x'' = Some 7"
    by (simp add: cache_read_marker_def cached_room_new_def lock_ok)
  from read_markers_never_go_back [OF p this] p
  show "\<exists>new. hm_get (mtx_data (cr_read_markers (st_room (snd (snd (process_event_chunk
       (env\<lparr>en_parsers := example_parsers\<rparr>) [example_timeline ''p'' ''@a:x'' 1]
       (messages_fetcher_new None 20 (Unthreaded None)) ?st)))))) ''@b:x'' = Some new \<and> 7 \<le> new"
    by simp
qed

definition marker_spec :: "string \<times> u64 \<Rightarrow> (string \<Rightarrow> u64 option) \<Rightarrow> string \<Rightarrow> u64 option" where
  "marker_spec = (\<lambda>(user_id, ts) m.
     m(user_id := Some (case m user_id of None \<Rightarrow> ts | Some old \<Rightarrow> max ts old)))"

definition marker_step :: "string \<times> u64 \<Rightarrow> cached_room \<Rightarrow> cached_room" where
  "marker_step = (\<lambda>(user_id, ts) room. snd (cache_read_marker user_id ts room))"

interpretation receipts: data_refinement unpoisoned marker marker_step marker_spec
proof
  fix room :: cached_room and x :: "string \<times> u64"
  assume u: "unpoisoned room"
  obtain user ts where x: "x = (user, ts)" by (cases x)
  show "unpoisoned (marker_step x room)"
    using cache_read_marker_effect [OF u] by (simp add: marker_step_def x)
  show "marker (marker_step x room) = marker_spec x (marker room)"
    using u by (auto simp: marker_step_def marker_spec_def x cache_read_marker_def unpoisoned_def lock_ok
        marker_def fun_eq_iff max_def split: option.split)
qed

lemma marker_spec_commute: "marker_spec x \<circ> marker_spec y = marker_spec y \<circ> marker_spec x"
  by (cases x; cases y) (auto simp: marker_spec_def fun_eq_iff max.left_commute max.commute split: option.split)

text \<open>
  The read markers of a room do not depend on the order in which receipts arrive:
  any two orders of the same receipts leave the same markers, and a receipt that arrives once
  more changes none of them.
\<close>

theorem receipts_order_independent:
  assumes "unpoisoned room" and "mset xs = mset ys"
  shows "marker (fold marker_step xs room) = marker (fold marker_step ys room) \<and>
    (x \<in> set xs \<longrightarrow> marker (marker_step x (fold marker_step xs room)) = marker (fold marker_step xs room))"
proof
  have eq: "fold marker_spec xs m = fold marker_spec ys m" for m
    by (rule fold_permuted_eq [where P = "\<lambda>_. True", OF assms(2)])
      (use marker_spec_commute in \<open>auto simp: fun_eq_iff\<close>)
  then show "marker (fold marker_step xs room) = marker (fold marker_step ys room)"
    by (simp add: receipts.run_abs [OF assms(1)])
  have idem: "marker_spec x (marker_spec x m) = marker_spec x m" for x :: "string \<times> u64" and m
    by (cases x) (auto simp: marker_spec_def fun_eq_iff split: option.split)
  have absorb: "x \<in> set zs \<Longrightarrow> marker_spec x (fold marker_spec zs m) = fold marker_spec zs m"
    for x :: "string \<times> u64" and zs m
  proof (induction zs arbitrary: m rule: rev_induct)
    case (snoc z zs)
    have "marker_spec x (marker_spec z n) = marker_spec z (marker_spec x n)" for n
      using marker_spec_commute [of x z] by (simp add: o_def fun_eq_iff)
    with snoc show ?case using idem [of z] by (cases "x = z") auto
  qed simp
  show "x \<in> set xs \<longrightarrow> marker (marker_step x (fold marker_step xs room)) = marker (fold marker_step xs room)"
    using receipts.op_abs [OF receipts.run_inv [OF assms(1)], of x xs] absorb [of x xs]
    by (simp add: receipts.run_abs [OF assms(1)])
qed

lemma unpoisoned_new [simp]: "unpoisoned (cached_room_new rid)"
  by (simp add: unpoisoned_def cached_room_new_def)

theorem receipts_order_independent_witness:
  "marker (fold marker_step [(''@a:x'', 3), (''@a:x'', 5)] (cached_room_new ''!r'')) =
   marker (fold marker_step [(''@a:x'', 5), (''@a:x'', 3)] (cached_room_new ''!r''))"
  using receipts_order_independent [of "cached_room_new ''!r''"
      "[(''@a:x'', 3), (''@a:x'', 5)]" "[(''@a:x'', 5), (''@a:x'', 3)]"] by simp

section \<open>What a message shows\<close>

lemma build_other_effect:
  "m_reactions (build_other cm original) =
     m_reactions original @ map (reaction_of original) (hm_values (cm_reactions cm))"
  "m_edited (build_other cm original) = (m_edited original \<or> cm_replacements cm \<noteq> [])"
  "cm_replacements cm = [] \<Longrightarrow> m_content (build_other cm original) = m_content original"
  by (auto simp: build_other_def apply_replacements_def apply_reactions_def Let_def hm_values_def
      simp flip: length_0_conv [of "sort_key _ _"])

lemma build_other_content:
  assumes "cm_replacements cm \<noteq> []"
  obtains rid r where "(rid, r) \<in> set (cm_replacements cm)"
    "m_content (build_other cm original) = Some (rp_new_content r)"
    "\<forall>(i, r') \<in> set (cm_replacements cm). rp_timestamp r' \<le> rp_timestamp r"
proof -
  let ?l = "last (sort_key rp_timestamp (hm_values (cm_replacements cm)))"
  have ne: "hm_values (cm_replacements cm) \<noteq> []" using assms by (simp add: hm_values_def)
  from last_sort_key [OF ne, of rp_timestamp]
  have l: "?l \<in> snd ` set (cm_replacements cm)"
    "\<forall>(i, r') \<in> set (cm_replacements cm). rp_timestamp r' \<le> rp_timestamp ?l"
    by (auto simp: hm_values_def)
  then obtain rid where "(rid, ?l) \<in> set (cm_replacements cm)" by force
  moreover note l(2)
  moreover have "m_content (build_other cm original) = Some (rp_new_content ?l)"
    using ne by (simp add: build_other_def apply_replacements_def apply_reactions_def Let_def
      flip: length_0_conv [of "sort_key _ _"])
  ultimately show ?thesis using that by blast
qed

text \<open>
  Claim C17: A message that is neither removed nor a poll shows, when it is built in a room,
  the content of a replacement with the latest timestamp (its own content when there is none),
  is marked as edited exactly when there is a replacement, and shows exactly the reactions
  cached for it besides its own; building it changes no relation of any message.
\<close>

theorem built_message_shows_latest:
  assumes "unpoisoned room" and "m_content original = Some c" and "\<not> m_edited original"
    and "\<And>r. c \<noteq> CRemoved r" and "\<And>p. c \<noteq> CPoll p"
    and cm_def: "cm = message_at room (m_id original)"
  shows "\<exists>msg room'. assemble_message original room = (Inr msg, room') \<and>
    (m_edited msg \<longleftrightarrow> cm_replacements cm \<noteq> []) \<and>
    (case m_content msg of None \<Rightarrow> False | Some shown \<Rightarrow>
       if cm_replacements cm = [] then shown = c
       else \<exists>(i, r) \<in> set (cm_replacements cm). shown = rp_new_content r \<and>
         (\<forall>(j, r') \<in> set (cm_replacements cm). rp_timestamp r' \<le> rp_timestamp r)) \<and>
    set (m_reactions msg) = set (m_reactions original) \<union>
      (reaction_of original \<circ> snd) ` set (cm_reactions cm) \<and>
    message_at room' = (message_at room)(m_id original := cm\<lparr>cm_original := Some original\<rparr>) \<and>
    indexed room' = indexed room"
proof -
  obtain room' msg where r: "assemble_message original room = (Inr msg, room')"
    "message_at room' = (message_at room)(m_id original :=
       (message_at room (m_id original))\<lparr>cm_original := Some original\<rparr>)"
    "msg = fst (build_from_original original (message_at room (m_id original)))"
    "indexed room' = indexed room"
    by (rule assemble_message_effect [OF assms(1), of original])
  let ?cm = "cm\<lparr>cm_original := Some original\<rparr>"
  have msg: "msg = build_other ?cm original"
    using assms(2,4,5) by (cases c) (auto simp: r(3) build_from_original_def cm_def Let_def)
  note e = build_other_effect [of ?cm original]
  have rx: "set (m_reactions msg) = set (m_reactions original) \<union>
      (reaction_of original \<circ> snd) ` set (cm_reactions cm)"
    by (simp add: msg e(1) hm_values_def image_comp)
  have ed: "m_edited msg \<longleftrightarrow> cm_replacements cm \<noteq> []" using assms(3) by (simp add: msg e(2))
  have "case m_content msg of None \<Rightarrow> False | Some shown \<Rightarrow>
       if cm_replacements cm = [] then shown = c
       else \<exists>(i, r) \<in> set (cm_replacements cm). shown = rp_new_content r \<and>
         (\<forall>(j, r') \<in> set (cm_replacements cm). rp_timestamp r' \<le> rp_timestamp r)"
  proof (cases "cm_replacements cm = []")
    case True
    then show ?thesis using e(3) assms(2) by (simp add: msg)
  next
    case False
    then have "cm_replacements ?cm \<noteq> []" by simp
    then obtain i r where "(i, r) \<in> set (cm_replacements ?cm)"
      "m_content (build_other ?cm original) = Some (rp_new_content r)"
      "\<forall>(j, r') \<in> set (cm_replacements ?cm). rp_timestamp r' \<le> rp_timestamp r"
      by (rule build_other_content)
    with False show ?thesis by (auto simp: msg)
  qed
  with r(1,2,4) ed rx show ?thesis by (auto simp: cm_def)
qed

theorem built_message_shows_latest_witness:
  "\<exists>msg room'. assemble_message
       (default_message\<lparr>m_id := ''$m'', m_content := Some (CText ''a'')\<rparr>)
       (snd (cache_replacement ''$m'' ''$r''
          \<lparr>rp_timestamp = 3, rp_new_content = CText ''b''\<rparr> (cached_room_new ''!r'')))
     = (Inr msg, room') \<and> m_edited msg \<and> m_content msg = Some (CText ''b'')"
proof -
  let ?room = "snd (cache_replacement ''$m'' ''$r''
      \<lparr>rp_timestamp = 3, rp_new_content = CText ''b''\<rparr> (cached_room_new ''!r''))"
  let ?msg = "default_message\<lparr>m_id := ''$m'', m_content := Some (CText ''a'')\<rparr>"
  have "unpoisoned ?room" "cm_replacements (message_at ?room ''$m'') =
      [(''$r'', \<lparr>rp_timestamp = 3, rp_new_content = CText ''b''\<rparr>)]"
    by (simp_all add: cache_replacement_def update_message_def unpoisoned_def lock_ok message_at_def
        cached_room_new_def hm_entry_def default_cached_message_def hm_insert_def)
  with built_message_shows_latest [of ?room ?msg "CText ''a''", OF _ _ _ _ _ refl] show ?thesis
    by (auto simp: default_message_def split: option.splits)
qed

section \<open>What a poll shows\<close>

definition response_pair ::
  "poll_response_content original_event \<Rightarrow> string \<times> string list" where
  "response_pair e = (oe_sender e, pr_answers (oe_content e))"

lemma add_responses_answers: "add_responses es c = add_answers c (map response_pair es)"
  by (induction es arbitrary: c) (simp_all add: response_pair_def)

lemma accepted_options_answers [simp]: "accepted_options (add_answers c rs) as = accepted_options c as"
  by (induction c rs rule: add_answers.induct) simp_all

lemma accepted_options_completed [simp]:
  "accepted_options (c\<lparr>poll_completed := b\<rparr>) as = accepted_options c as"
  "votes_of (c\<lparr>poll_completed := b\<rparr>) = votes_of c"
  by (simp_all add: accepted_options_def has_option_def votes_of_def voters_def fun_eq_iff)

lemma voters_fresh: "\<forall>p \<in> set (poll_options c). po_voted p = [] \<Longrightarrow> votes_of c u = {}"
  by (auto simp: votes_of_def voters_def find_Some_iff split: option.splits)

lemma replace_content_no_votes: "votes_of (snd (replace_content c b)) u = {}"
  by (rule voters_fresh)
    (auto simp: replace_content_def Let_def poll_answer_into_chat_def split: sum.splits)

text \<open>
  A poll that is built from the cache shows the latest of the replacements, and for
  every user the existing options that the user's last response names, up to the number of
  selections allowed, in whatever order responses and replacements were made; it is completed
  exactly when an end of the poll is cached.
\<close>

theorem built_poll_shows_votes:
  assumes "m_content original = Some (CPoll c0)" and "assemble_poll_start b = Inr c0"
    and rs_def: "rs = map response_pair (sort_key oe_ts (hm_values (cm_poll_responses cm)))"
  shows "\<exists>c. m_content (build_poll cm original) = Some (CPoll c) \<and>
    votes_of c u = (case map_of (rev rs) u of None \<Rightarrow> {} | Some as \<Rightarrow> accepted_options c as) \<and>
    card (votes_of c u) \<le> unat (poll_max_selections c) \<and>
    (poll_completed c \<longleftrightarrow> cm_poll_ends cm \<noteq> [])"
proof -
  let ?c1 = "apply_poll_replacements cm c0"
  note f = assemble_poll_start_fields [OF assms(2)]
  have v1: "votes_of ?c1 u = {}" for u
    using replace_content_no_votes f [of u] by (simp add: apply_poll_replacements_def Let_def)
  have d1: "\<not> poll_completed ?c1"
    using f by (auto simp: apply_poll_replacements_def Let_def replace_content_def split: sum.splits)
  let ?c = "apply_poll_ends cm (apply_poll_responses cm ?c1)"
  have v: "votes_of ?c u = (case map_of (rev rs) u of None \<Rightarrow> {} | Some as \<Rightarrow> accepted_options ?c as)"
    by (simp add: apply_poll_ends_def apply_poll_responses_def add_responses_answers
        votes_of_add_answers v1 flip: rs_def split: option.split)
  then have "card (votes_of ?c u) \<le> unat (poll_max_selections ?c)"
    using card_accepted_options [of ?c] by (simp split: option.splits)
  moreover have "poll_completed ?c \<longleftrightarrow> cm_poll_ends cm \<noteq> []"
    using d1 by (simp add: apply_poll_ends_def apply_poll_responses_def add_responses_answers)
  moreover have "m_content (build_poll cm original) = Some (CPoll ?c)"
    using assms(1) by (simp add: build_poll_def apply_reactions_def)
  ultimately show ?thesis using v by blast
qed

theorem built_poll_shows_votes_witness:
  "\<exists>c0 c. assemble_poll_start example_poll_start = Inr c0 \<and>
     m_content (build_poll (default_cached_message\<lparr>cm_poll_responses :=
         [(''$1'', \<lparr>oe_event_id = ''$1'', oe_sender = ''u'', oe_ts = 1,
            oe_content = \<lparr>pr_poll_id = ''p'', pr_answers = [''a'']\<rparr>\<rparr>)]\<rparr>)
       (default_message\<lparr>m_content := Some (CPoll c0)\<rparr>)) = Some (CPoll c) \<and>
     votes_of c ''u'' = accepted_options c [''a'']"
proof -
  let ?cm = "default_cached_message\<lparr>cm_poll_responses :=
         [(''$1'', \<lparr>oe_event_id = ''$1'', oe_sender = ''u'', oe_ts = 1,
            oe_content = \<lparr>pr_poll_id = ''p'', pr_answers = [''a'']\<rparr>\<rparr>)]\<rparr>"
  obtain c0 where c0: "assemble_poll_start example_poll_start = Inr c0"
    by (simp add: assemble_poll_start_def example_poll_start_def)
  have "m_content (default_message\<lparr>m_content := Some (CPoll c0)\<rparr>) = Some (CPoll c0)" by simp
  from built_poll_shows_votes [OF this c0 refl, of ?cm "''u''"] c0 show ?thesis
    by (auto simp: hm_values_def response_pair_def)
qed

text \<open>
  A vote cast before the poll was edited is shown differently by the two ways to
  assemble a poll: the live update (\<open>assemble_poll\<close>) replays the relations in order, so
  the edit drops the vote, while the history (\<open>build_poll\<close>) applies all responses after
  the edit and counts it.
\<close>

theorem vote_before_edit_live_and_history_differ:
  assumes start: "deserialize_poll_start_content p room event = Inr start"
      "assemble_poll_start (poll_start_of start) = Inr c0"
    and response: "response_of p room resp = Some (u, as)"
    and edit: "te_sender edit = Some owner" "deserialize_poll_start_content p room edit = Inr new"
      "poll_kind_try_into_chat (ps_kind (poll_start_of new)) = Inr kind"
    and order: "te_timestamp resp < te_timestamp edit"
    and cached: "cm_poll_replacements cm = [(i, er)]" "poll_start_of (oe_content er) = poll_start_of new"
      "cm_poll_responses cm = [(j, rr)]" "response_pair rr = (u, as)"
    and original: "m_content original = Some (CPoll c0)"
  shows "\<exists>live history. assemble_poll p room (Inr (event, [resp, edit])) = Inr live \<and>
    m_content (build_poll cm original) = Some (CPoll history) \<and>
    map po_id (poll_options live) = map po_id (poll_options history) \<and>
    votes_of live u = {} \<and>
    votes_of history u = {opt \<in> set (take (unat (poll_max_selections history)) as). has_option history opt}"
proof -
  have sorted: "sort_key te_timestamp [resp, edit] = [resp, edit]"
    using order by simp
  let ?new = "poll_start_of new"
  let ?live = "snd (replace_content (add_answer c0 u as) ?new)"
  have ok: "fst (replace_content c ?new) = Inr ()" for c
    using edit(3) by (simp add: replace_content_def Let_def)
  then have r: "replace_content c ?new = (Inr (), snd (replace_content c ?new))" for c
    by (metis prod.collapse)
  have "apply_relation p room (add_answer c0 u as) edit = Inr ?live"
    using edit(1,2) r [of "add_answer c0 u as"] by (cases "replace_content (add_answer c0 u as) ?new") (simp add: apply_relation_def)
  then have live: "assemble_poll p room (Inr (event, [resp, edit])) = Inr ?live"
    by (simp only: assemble_poll_def sum.case prod.case start sorted apply_relations.simps
        apply_relation_response [OF response])
  obtain c where c: "m_content (build_poll cm original) = Some (CPoll c)"
    "c = apply_poll_ends cm (add_answer (snd (replace_content c0 ?new)) u as)"
    using original cached
    by (simp add: build_poll_def apply_reactions_def apply_poll_responses_def apply_poll_replacements_def
        hm_values_def response_pair_def)
  have v: "votes_of c u = accepted_options c as"
    by (simp add: c(2) apply_poll_ends_def votes_of_add_answer_fun)
  have ids: "map po_id (add_votes s bs opts) = map po_id opts" for s bs opts
    by (induction bs arbitrary: opts) (simp_all add: map_update_first_same)
  have "map po_id (poll_options ?live) = map po_id (poll_options c)"
    by (simp add: c(2) apply_poll_ends_def add_answer_def Let_def ids clear_user_answers_def o_def)
      (simp add: replace_content_def Let_def split: sum.split)
  with live c(1) v show ?thesis
    using replace_content_no_votes by (auto simp: accepted_options_def)
qed

theorem vote_before_edit_live_and_history_differ_witness:
  "\<exists>live history cm original.
    assemble_poll example_parsers ''r'' (Inr (example_timeline ''start'' ''o'' 0,
       [example_timeline ''a'' ''u'' 1, example_timeline ''start'' ''o'' 2])) = Inr live \<and>
    m_content (build_poll cm original) = Some (CPoll history) \<and>
    votes_of live ''u'' = {} \<and> votes_of history ''u'' = {''a''}"
proof -
  let ?resp = "\<lparr>oe_event_id = ''$1'', oe_sender = ''u'', oe_ts = 1,
      oe_content = \<lparr>pr_poll_id = ''p'', pr_answers = [''a'']\<rparr>\<rparr>"
  let ?edit = "\<lparr>oe_event_id = ''$2'', oe_sender = ''o'', oe_ts = 2,
      oe_content = PsNew example_poll_start\<rparr>"
  let ?cm = "default_cached_message\<lparr>cm_poll_responses := [(''$1'', ?resp)],
      cm_poll_replacements := [(''$2'', ?edit)]\<rparr>"
  obtain c0 where c0: "assemble_poll_start example_poll_start = Inr c0"
    by (simp add: assemble_poll_start_def example_poll_start_def)
  let ?original = "default_message\<lparr>m_content := Some (CPoll c0)\<rparr>"
  have ps: "poll_start_of (PsNew example_poll_start) = example_poll_start" by simp
  obtain live history where h: "assemble_poll example_parsers ''r'' (Inr (example_timeline ''start'' ''o'' 0,
       [example_timeline ''a'' ''u'' 1, example_timeline ''start'' ''o'' 2])) = Inr live"
    "m_content (build_poll ?cm ?original) = Some (CPoll history)" "votes_of live ''u'' = {}"
    "votes_of history ''u'' =
       {opt \<in> set (take (unat (poll_max_selections history)) [''a'']). has_option history opt}"
    using vote_before_edit_live_and_history_differ [of example_parsers "''r''"
        "example_timeline ''start'' ''o'' 0" "PsNew example_poll_start" c0
        "example_timeline ''a'' ''u'' 1" "''u''" "[''a'']" "example_timeline ''start'' ''o'' 2" "''o''"
        "PsNew example_poll_start" _ ?cm "''$2''" ?edit "''$1''" ?resp ?original] c0
    by (auto simp: poll_example_defs response_pair_def)
  let ?c = "\<lparr>poll_kind = Some Disclosed, poll_completed = False, poll_max_selections = 1,
      poll_question = ''Q'', poll_options =
        [\<lparr>po_id = ''a'', po_text = ''A'', po_voted = []\<rparr>, \<lparr>po_id = ''b'', po_text = ''B'', po_voted = []\<rparr>]\<rparr>"
  have history: "history = add_answer ?c ''u'' [''a'']"
    using h(2) c0
    by (auto simp: build_poll_def apply_reactions_def apply_poll_responses_def apply_poll_replacements_def
        apply_poll_ends_def hm_values_def replace_content_def assemble_poll_start_def example_poll_start_def
        default_cached_message_def saturating_u32_def poll_answer_into_chat_def)
  have "has_option ?c ''a''" by (simp add: has_option_def)
  then have "votes_of history ''u'' = {''a''}" unfolding h(4) by (auto simp: history)
  with h(1-3) show ?thesis by blast
qed

section \<open>Fetching messages\<close>

definition fetch_inv :: "messages_fetcher \<Rightarrow> bool" where
  "fetch_inv f \<longleftrightarrow> (\<exists>msgs. mf_sent f = map Inr msgs \<and> length msgs = unat (mf_retrieved_messages f)) \<and>
     mf_retrieved_messages f \<le> mf_message_limit f"

lemma fetch_inv_cong:
  "mf_sent f' = mf_sent f \<Longrightarrow> mf_retrieved_messages f' = mf_retrieved_messages f \<Longrightarrow>
   mf_message_limit f' = mf_message_limit f \<Longrightarrow> fetch_inv f' = fetch_inv f"
  by (simp add: fetch_inv_def)

lemma unat_plus_one_less:
  fixes x y :: u32
  assumes "x < y"
  shows "unat (x + 1) = unat x + 1 \<and> x + 1 \<le> y"
proof -
  have "unat y < 2 ^ LENGTH(32)" by (rule unsigned_less)
  with assms have "unat x + 1 < 2 ^ 32" by (simp add: word_less_nat_alt)
  then have "unat (x + 1) = unat x + 1" by (simp add: unat_word_ariths)
  with assms show ?thesis by (simp add: word_le_nat_alt word_less_nat_alt)
qed

lemma channel_send_sent:
  assumes "channel_send v f = (Inr (), f')"
  shows "mf_sent f' = mf_sent f @ [v]" "mf_retrieved_messages f' = mf_retrieved_messages f"
    "mf_message_limit f' = mf_message_limit f" "mf_send_read_markers f' = mf_send_read_markers f"
  using assms by (auto simp: channel_send_def split: option.splits nat.splits)

lemma channel_send_dropped: "channel_send v f = (Inl (), f') \<Longrightarrow> f' = f"
  by (auto simp: channel_send_def split: option.splits nat.splits)

lemma send_finished_message_inv:
  assumes "fetch_inv f" "mf_retrieved_messages f < mf_message_limit f"
    "send_finished_message m f = (r, f')"
  shows "fetch_inv f' \<and> mf_message_limit f' = mf_message_limit f"
proof (cases "channel_send (Inr m) f")
  case (Pair r1 f1)
  show ?thesis
  proof (cases r1)
    case Inl
    then show ?thesis
      using Pair assms channel_send_dropped [of "Inr m" f f1] by (auto simp: send_finished_message_def)
  next
    case (Inr u)
    then have s: "channel_send (Inr m) f = (Inr (), f1)" using Pair by simp
    obtain msgs where "mf_sent f = map Inr msgs" "length msgs = unat (mf_retrieved_messages f)"
      using assms(1) by (auto simp: fetch_inv_def)
    then have "\<exists>msgs. mf_sent f1 = map Inr msgs \<and> length msgs = unat (mf_retrieved_messages f) + 1"
      by (intro exI [of _ "msgs @ [m]"]) (simp add: channel_send_sent(1) [OF s])
    then show ?thesis
      using assms(2,3) unat_plus_one_less [OF assms(2)] channel_send_sent [OF s]
      by (auto simp: send_finished_message_def s fetch_inv_def)
  qed
qed

lemma update_read_markers_inv:
  "update_read_markers f st = (f', st') \<Longrightarrow> fetch_inv f' = fetch_inv f \<and>
     mf_retrieved_messages f' = mf_retrieved_messages f \<and> mf_message_limit f' = mf_message_limit f"
  by (auto simp: update_read_markers_def fetch_inv_def split: sum.splits if_splits)

lemma process_event_chunk_inv:
  "fetch_inv f \<Longrightarrow> mf_retrieved_messages f < mf_message_limit f \<Longrightarrow>
   process_event_chunk env events f st = (r, f', st') \<Longrightarrow>
   fetch_inv f' \<and> mf_message_limit f' = mf_message_limit f"
proof (induction events arbitrary: f st)
  case (Cons event events)
  obtain r1 st1 where p: "process_timeline_event env event st = (r1, st1)"
    by (cases "process_timeline_event env event st")
  show ?case
  proof (cases r1)
    case Inl
    then show ?thesis using Cons.prems p by auto
  next
    case (Inr action)
    obtain r2 f2 where s: "(case action of
        Some (MessageAction message) \<Rightarrow> send_finished_message message f | _ \<Rightarrow> (Inr (), f)) = (r2, f2)"
      by (metis surj_pair)
    have f2: "fetch_inv f2 \<and> mf_message_limit f2 = mf_message_limit f"
      using s send_finished_message_inv [OF Cons.prems(1,2)] Cons.prems(1)
      by (auto split: option.splits cached_room_action.splits)
    show ?thesis
    proof (cases r2)
      case Inl
      then show ?thesis using Cons.prems(3) p Inr s f2 by auto
    next
      case (Inr u)
      obtain f3 st3 where u: "(if mf_send_read_markers f2 then update_read_markers f2 st1 else (f2, st1)) = (f3, st3)"
        by (metis surj_pair)
      have f3: "fetch_inv f3 \<and> mf_message_limit f3 = mf_message_limit f"
        using u f2 update_read_markers_inv [of f2 st1 f3 st3] by (auto split: if_splits)
      have "(if mf_retrieved_messages f3 = mf_message_limit f3 then (Inr (), f3, st3)
             else process_event_chunk env events f3 st3) = (r, f', st')"
        using Cons.prems(3) p \<open>r1 = Inr action\<close> s Inr u by simp
      moreover have "mf_retrieved_messages f3 < mf_message_limit f3"
        if "mf_retrieved_messages f3 \<noteq> mf_message_limit f3"
        using that f3 by (auto simp: fetch_inv_def intro: order.not_eq_order_implies_strict)
      ultimately show ?thesis using f3 Cons.IH [of f3 st3] by (auto split: if_splits)
    qed
  qed
qed simp

lemma fetch_until_completion_inv:
  "fetch_inv f \<Longrightarrow> fetch_until_completion env answers f st = Some (r, f', st') \<Longrightarrow>
   fetch_inv f' \<and> mf_message_limit f' = mf_message_limit f"
proof (induction answers arbitrary: f st)
  case (Cons answer answers)
  have loader: "fetch_inv (f\<lparr>mf_loader := l\<rparr>)" for l
    using Cons.prems(1) by (simp add: fetch_inv_def)
  show ?case
  proof (cases "mf_retrieved_messages f < mf_message_limit f")
    case False
    then show ?thesis using Cons.prems by auto
  next
    case lt: True
    show ?thesis
    proof (cases answer)
      case Inl
      then show ?thesis using Cons.prems lt loader by (auto simp: loader_fetch_def)
    next
      case (Inr a)
      let ?l = "case mf_loader f of Unthreaded _ \<Rightarrow> Unthreaded (ca_end a) | Threaded t \<Rightarrow> Threaded t"
      obtain r1 f1 st1 where c: "process_event_chunk env (ca_chunk a) (f\<lparr>mf_loader := ?l\<rparr>) st = (r1, f1, st1)"
        by (metis surj_pair)
      have f1: "fetch_inv f1 \<and> mf_message_limit f1 = mf_message_limit f"
        using process_event_chunk_inv [OF loader _ c] lt by simp
      show ?thesis
        using Cons.prems(2) Cons.IH [of f1 st1] f1 lt c
        by (auto simp: Inr loader_fetch_def split: sum.splits if_splits)
    qed
  qed
qed (auto split: if_splits)

lemma fetch_until_completion_ends:
  "\<exists>a \<in> set answers. case a of Inl _ \<Rightarrow> True | Inr c \<Rightarrow> ca_end c = None \<Longrightarrow>
   fetch_until_completion env answers f st \<noteq> None"
proof (induction answers arbitrary: f st)
  case (Cons answer answers)
  show ?case
  proof (cases answer)
    case Inl
    then show ?thesis by (auto simp: loader_fetch_def)
  next
    case (Inr a)
    obtain r1 f1 st1 where c: "process_event_chunk env (ca_chunk a) (f\<lparr>mf_loader :=
        case mf_loader f of Unthreaded _ \<Rightarrow> Unthreaded (ca_end a) | Threaded t \<Rightarrow> Threaded t\<rparr>) st = (r1, f1, st1)"
      by (metis surj_pair)
    show ?thesis
      using Cons.IH [of f1 st1] Cons.prems c by (auto simp: Inr loader_fetch_def split: sum.splits)
  qed
qed simp

lemma error_sent_once:
  assumes "mf_sent f = map Inr msgs"
  shows "\<exists>errors. mf_sent (snd (channel_send (Inl e) f)) = map Inr msgs @ map Inl errors \<and> length errors \<le> 1"
proof -
  obtain q f' where s: "channel_send (Inl e) f = (q, f')" by (metis surj_pair)
  show ?thesis
  proof (cases q)
    case Inl
    then show ?thesis using channel_send_dropped [of "Inl e" f f'] s assms by (intro exI [of _ "[]"]) simp
  next
    case Inr
    then show ?thesis using channel_send_sent(1) [of "Inl e" f f'] s assms by (intro exI [of _ "[e]"]) simp
  qed
qed

text \<open>
  Claim C14: A fetch of messages, once the server has answered with the end of the timeline
  or an error, is finished; the application has then received at most as many messages as
  it asked for, and at most one error, after all messages; nothing is fetched or sent for a
  limit of zero.
\<close>

theorem fetch_sends_at_most_limit:
  assumes "\<exists>a \<in> set answers. case a of Inl _ \<Rightarrow> True | Inr c \<Rightarrow> ca_end c = None"
  shows "\<exists>f st' msgs errors.
    fetcher_run env answers (messages_fetcher_new accepts limit loader\<lparr>mf_send_read_markers := b\<rparr>) st = Some (f, st') \<and>
    mf_sent f = map Inr msgs @ map Inl errors \<and> length msgs \<le> unat limit \<and> length errors \<le> 1 \<and>
    (limit = 0 \<longrightarrow> mf_sent f = [] \<and> st' = st)"
proof (cases "limit = 0")
  case True
  then show ?thesis
    by (intro exI [of _ "messages_fetcher_new accepts limit loader\<lparr>mf_send_read_markers := b\<rparr>"]
        exI [of _ st] exI [of _ "[]"])
      (simp add: fetcher_run_def messages_fetcher_new_def)
next
  case False
  define f where "f = messages_fetcher_new accepts limit loader\<lparr>mf_send_read_markers := b\<rparr>"
  define f0 where "f0 = (if mf_send_read_markers f then (case get_room_read_markers (st_room st) of
      Inr m \<Rightarrow> f\<lparr>mf_current_read_markers := m\<rparr> | Inl _ \<Rightarrow> f) else f)"
  have lim: "mf_message_limit f = limit" and "fetch_inv f"
    by (simp_all add: f_def fetch_inv_def messages_fetcher_new_def)
  then have inv0: "fetch_inv f0 \<and> mf_message_limit f0 = limit"
    by (simp add: f0_def fetch_inv_def split: sum.split)
  obtain r f1 st1 where run: "fetch_until_completion env answers f0 st = Some (r, f1, st1)"
    using fetch_until_completion_ends [OF assms, of env f0 st] by auto
  have f1: "fetch_inv f1 \<and> mf_message_limit f1 = limit"
    using fetch_until_completion_inv [OF _ run] inv0 by simp
  then obtain msgs where msgs: "mf_sent f1 = map Inr msgs" "length msgs \<le> unat limit"
    by (auto simp: fetch_inv_def word_le_nat_alt)
  have start: "fetcher_run env answers f st = (case r of
      Inl e \<Rightarrow> Some (snd (channel_send (Inl e) f1), st1) | Inr _ \<Rightarrow> Some (f1, st1))"
    unfolding fetcher_run_def Let_def lim f0_def [symmetric] using False run by (simp split: sum.split)
  show ?thesis
  proof (cases r)
    case (Inl e)
    obtain errors where "mf_sent (snd (channel_send (Inl e) f1)) = map Inr msgs @ map Inl errors" "length errors \<le> 1"
      using error_sent_once [OF msgs(1)] by blast
    with Inl start msgs(2) False show ?thesis
      by (intro exI [of _ "snd (channel_send (Inl e) f1)"] exI [of _ st1] exI [of _ msgs] exI [of _ errors])
        (simp add: f_def)
  next
    case (Inr u)
    with start msgs False show ?thesis
      by (intro exI [of _ f1] exI [of _ st1] exI [of _ msgs] exI [of _ "[]"]) (simp add: f_def)
  qed
qed

theorem fetch_sends_at_most_limit_witness:
  "\<forall>env st. \<exists>f st'. fetcher_run env [Inr \<lparr>ca_chunk = [], ca_end = None\<rparr>]
      (messages_fetcher_new None 20 (Unthreaded None)\<lparr>mf_send_read_markers := False\<rparr>) st = Some (f, st')"
proof (intro allI)
  fix env st
  have "\<exists>a \<in> set [Inr \<lparr>ca_chunk = [], ca_end = None\<rparr> :: memory_cache_error + chunk_answer].
      case a of Inl _ \<Rightarrow> True | Inr c \<Rightarrow> ca_end c = None" by simp
  from fetch_sends_at_most_limit [OF this, of env False None 20 "Unthreaded None" st]
  show "\<exists>f st'. fetcher_run env [Inr \<lparr>ca_chunk = [], ca_end = None\<rparr>]
      (messages_fetcher_new None 20 (Unthreaded None)\<lparr>mf_send_read_markers := False\<rparr>) st = Some (f, st')"
    by blast
qed

text \<open>
  The size of a requested chunk is three tenths of the number of messages asked for,
  within the bounds of 10 and 100 events, for every limit of 32 bits.
\<close>

theorem calc_chunk_size_bounds:
  "chunk_size_min \<le> calc_chunk_size limit \<and> calc_chunk_size limit \<le> chunk_size_max \<and>
   (34 \<le> unat limit \<and> unat limit < 334 \<longrightarrow>
      10 * calc_chunk_size limit \<le> 3 * unat limit \<and> 3 * unat limit < 10 * calc_chunk_size limit + 10)"
proof -
  have c: "calc_chunk_size limit = max 10 (min 100 (unat limit * 3 div 10))"
    by (simp add: calc_chunk_size_def chunk_size_min_def chunk_size_max_def)
  show ?thesis unfolding c by (simp add: chunk_size_min_def chunk_size_max_def) linarith
qed

theorem calc_chunk_size_bounds_witness: "10 * calc_chunk_size 50 \<le> 3 * unat (50 :: u32)"
  using calc_chunk_size_bounds [of 50] by simp

section \<open>Which events fail\<close>

text \<open>An operation on an unpoisoned room that succeeds, and leaves it unpoisoned.\<close>

definition safe :: "(room_state \<Rightarrow> ('e + 'a) \<times> room_state) \<Rightarrow> bool" where
  "safe h \<longleftrightarrow> (\<forall>st. unpoisoned (st_room st) \<longrightarrow>
     (\<exists>r st'. h st = (Inr r, st') \<and> unpoisoned (st_room st')))"

lemma safe_and_then: "safe h \<Longrightarrow> (\<And>x. safe (k x)) \<Longrightarrow> safe (\<lambda>st. and_then (h st) k)"
  unfolding safe_def by (metis and_then_Inr)

lemma safe_return: "safe (\<lambda>st. (Inr (f st), st))"
  by (simp add: safe_def)

lemma safe_on_room:
  assumes "\<And>room. unpoisoned room \<Longrightarrow> \<exists>r room'. f room = (Inr r, room') \<and> unpoisoned room'"
  shows "safe (on_room f)"
  unfolding safe_def on_room_def using assms by fastforce

lemma safe_update_message: "safe (on_room (update_message mid f))"
  by (rule safe_on_room, rule update_message_effect [of _ mid f]) auto

lemma safe_cache_reaction: "safe (on_room (cache_reaction mid rid rx))"
  by (rule safe_on_room, rule cache_reaction_effect [of _ mid rid rx]) auto

lemma safe_encrypted:
  "safe (on_room (cache_encrypted_event i e))" "safe (on_room (remove_encrypted_event i))"
  by (rule safe_on_room, auto simp: cache_encrypted_event_def remove_encrypted_event_def unpoisoned_def lock_ok)+

lemma safe_message_action: "safe (message_action msg)"
proof -
  have "safe (on_room (assemble_message msg))"
    by (rule safe_on_room, rule assemble_message_effect [of _ msg]) auto
  then show ?thesis unfolding message_action_def [abs_def] by (intro safe_and_then safe_return)
qed

lemma safe_no_action: "safe h \<Longrightarrow> safe (\<lambda>st. no_action (h st))"
  unfolding no_action_def by (intro safe_and_then safe_return)

lemma safe_stash: "safe (\<lambda>st. no_action (on_room (update_message mid f) st))"
  by (intro safe_no_action safe_update_message)

lemma safeD: "safe h \<Longrightarrow> unpoisoned (st_room st) \<Longrightarrow> \<exists>r st'. h st = (Inr r, st') \<and> unpoisoned (st_room st')"
  by (simp add: safe_def)

lemma safe_fs:
  "safe h \<Longrightarrow> unpoisoned (st_room st) \<Longrightarrow>
   \<exists>r st'. h (st\<lparr>st_fs := fs\<rparr>) = (Inr r, st') \<and> unpoisoned (st_room st')"
  by (rule safeD) simp_all

lemma safe_markers: "safe (load_and_cache_event_read_markers env e)"
proof -
  have m: "\<exists>r room'. cache_read_markers ms room = (Inr r, room') \<and> unpoisoned room'"
    if "unpoisoned room" for ms room
    using that
  proof (induction ms room rule: cache_read_markers.induct)
    case (2 u ts ms room)
    have "\<exists>b room'. cache_read_marker u ts room = (Inr b, room') \<and> unpoisoned room'"
      using "2.prems" by (auto simp: cache_read_marker_def unpoisoned_def lock_ok split: option.splits)
    with 2 show ?case by auto
  qed simp
  have "safe (on_room (cache_read_markers ms))" for ms by (rule safe_on_room) (rule m)
  then show ?thesis by (auto simp: safe_def load_and_cache_event_read_markers_def Let_def)
qed

text \<open>The start of a poll whose kind the application does not know.\<close>

definition unknown_poll :: "full_event \<Rightarrow> bool" where
  "unknown_poll e \<longleftrightarrow> (case ev_body e of
     MessageLike (UnstablePollStart (Original (PsNew block))) \<Rightarrow>
       (case poll_kind_try_into_chat (ps_kind block) of Inl _ \<Rightarrow> True | Inr _ \<Rightarrow> False)
   | _ \<Rightarrow> False)"

lemma safe_room_message: "safe (process_room_message env e c)"
proof -
  have "\<exists>r st'. process_original_room_message env e x st = (Inr r, st') \<and> unpoisoned (st_room st')"
    if "unpoisoned (st_room st)" for x st
    using safe_fs [OF safe_message_action that] safe_fs [OF safe_stash that] that
    by (auto simp: process_original_room_message_def cache_replacement_def
        split: option.splits relation.splits prod.splits)
  then show ?thesis
    using safe_message_action
    by (cases c) (auto simp: safe_def process_room_message_def process_redacted_room_message_def)
qed

lemma safe_reaction: "safe (process_reaction_event e c)"
proof (cases c)
  case (Original a)
  have "safe (\<lambda>st. and_then (on_room (cache_reaction (an_event_id a) (ev_id e) rx) st)
      (\<lambda>_ st. (Inr (g st), st)))" for rx and g :: "room_state \<Rightarrow> cached_room_action option"
    by (intro safe_and_then safe_return safe_cache_reaction)
  with Original show ?thesis by (simp add: process_reaction_event_def [abs_def] Let_def)
qed (simp add: process_reaction_event_def safe_def)

lemma safe_redaction: "safe (process_room_redaction c)"
  using safe_stash by (auto simp: safe_def process_room_redaction_def cache_redaction_def
      split: event_content.splits option.splits)

lemma safe_room_encrypted: "safe (process_room_encrypted e c)"
  using safe_message_action by (cases c) (auto simp: safe_def process_room_encrypted_def)

lemma safe_poll_response: "safe (process_unstable_poll_response e c)"
  using safe_stash by (cases c) (auto simp: safe_def process_unstable_poll_response_def cache_poll_response_event_def)

lemma safe_poll_end: "safe (process_unstable_poll_end e c)"
  using safe_stash by (cases c) (auto simp: safe_def process_unstable_poll_end_def cache_poll_end_event_def)

lemma safe_state: "safe (process_any_state_event e s)"
  using safe_message_action
  by (auto simp: safe_def process_any_state_event_def process_room_member_event_def
      split: state_event.splits event_content.splits sum.splits)

lemma safe_poll_start:
  assumes "ev_body e = MessageLike (UnstablePollStart c)" "\<not> unknown_poll e"
  shows "safe (process_unstable_poll_start e c)"
proof -
  have "\<exists>r st'. process_new_unstable_poll_start e block st = (Inr r, st') \<and> unpoisoned (st_room st')"
    if "c = Original (PsNew block)" "unpoisoned (st_room st)" for block st
    using assms that safeD [OF safe_message_action that(2)]
    by (auto simp: process_new_unstable_poll_start_def unknown_poll_def assemble_poll_start_def
        split: sum.splits)
  then show ?thesis
    using safe_stash
    by (auto simp: safe_def process_unstable_poll_start_def cache_poll_replacement_event_def
        split: event_content.splits poll_start_content.splits)
qed

lemma unknown_poll_fails:
  assumes "unknown_poll e"
  shows "\<exists>m. ev_body e = MessageLike m \<and>
    process_any_message_like_event env e m st = (Inl UnableToAssembleMessage, st)"
  using assms
  by (auto simp: unknown_poll_def process_any_message_like_event_def process_unstable_poll_start_def
      process_new_unstable_poll_start_def assemble_poll_start_def
      split: event_body.splits message_like.splits event_content.splits poll_start_content.splits sum.splits)

lemma safe_body:
  assumes "\<not> unknown_poll e"
  shows "safe (\<lambda>st. case ev_body e of
      MessageLike m \<Rightarrow> process_any_message_like_event env e m st
    | State s \<Rightarrow> process_any_state_event e s st)"
proof (cases "ev_body e")
  case (MessageLike m)
  show ?thesis
    using safe_room_message safe_redaction safe_room_encrypted safe_poll_response safe_poll_end
      safe_reaction safe_poll_start [OF _ assms] MessageLike
    by (cases m) (simp_all add: process_any_message_like_event_def [abs_def] safe_return)
next
  case (State s)
  then show ?thesis using safe_state by simp
qed

lemma process_any_timeline_event_outcome:
  assumes "unpoisoned (st_room st)"
  shows "\<exists>r st'. process_any_timeline_event env e st = (r, st') \<and> unpoisoned (st_room st') \<and>
    (if unknown_poll e then r = Inl UnableToAssembleMessage else \<exists>a. r = Inr a)"
proof -
  obtain u st1 where m: "load_and_cache_event_read_markers env e st = (Inr u, st1)" "unpoisoned (st_room st1)"
    using safeD [OF safe_markers assms] by blast
  show ?thesis
  proof (cases "unknown_poll e")
    case True
    then show ?thesis using unknown_poll_fails [OF True, of env st1] m by (auto simp: process_any_timeline_event_def)
  next
    case False
    then show ?thesis using safeD [OF safe_body [OF False, of env] m(2)] m(1)
      by (auto simp: process_any_timeline_event_def)
  qed
qed

definition parsed_event :: "room_env \<Rightarrow> string \<Rightarrow> timeline_event \<Rightarrow> full_event option" where
  "parsed_event env rid event = (case te_kind event of
     Decrypted raw \<Rightarrow> parse_full (en_parsers env) raw
   | PlainText raw \<Rightarrow> map_option (\<lambda>e. into_full_event e rid) (parse_sync (en_parsers env) raw)
   | UnableToDecrypt _ _ \<Rightarrow> None)"

lemma process_timeline_event_outcome:
  assumes "unpoisoned (st_room st)"
  shows "\<exists>r st'. process_timeline_event env event st = (r, st') \<and> unpoisoned (st_room st') \<and>
    (case parsed_event env (cr_room_id (st_room st)) event of
       Some e \<Rightarrow> if unknown_poll e then r = Inl UnableToAssembleMessage else \<exists>a. r = Inr a
     | None \<Rightarrow> \<exists>a. r = Inr a)"
proof (cases "te_kind event")
  case (Decrypted raw)
  show ?thesis
  proof (cases "parse_full (en_parsers env) raw")
    case (Some e)
    obtain u st1 where "on_room (remove_encrypted_event (ev_id e)) st = (Inr u, st1)" "unpoisoned (st_room st1)"
      using safeD [OF safe_encrypted(2) assms] by blast
    with process_any_timeline_event_outcome [of st1 env e] show ?thesis
      by (auto simp: process_timeline_event_def process_decrypted_event_def parsed_event_def Decrypted Some)
  qed (simp add: process_timeline_event_def process_decrypted_event_def parsed_event_def Decrypted assms)
next
  case (UnableToDecrypt raw sid)
  have "\<exists>a st1. process_unable_to_decrypt_event env raw sid st = (Inr a, st1) \<and> unpoisoned (st_room st1)"
  proof -
    have "safe (\<lambda>st. and_then (on_room (cache_encrypted_event i x) st) (\<lambda>_ st. (Inr y, st)))" for i x y
      by (intro safe_and_then safe_encrypted safe_return)
    note this [THEN safeD, OF assms]
    then show ?thesis
      by (auto simp: process_unable_to_decrypt_event_def Let_def assms split: option.split)
  qed
  then show ?thesis by (auto simp: process_timeline_event_def parsed_event_def UnableToDecrypt)
next
  case (PlainText raw)
  then show ?thesis
    using process_any_timeline_event_outcome [OF assms, of env] assms
    by (cases "parse_sync (en_parsers env) raw")
      (simp_all add: process_timeline_event_def process_plain_text_event_def parsed_event_def)
qed

text \<open>
  Processing an event in a room whose locks are usable fails exactly for the start of
  a new poll of an unknown kind, leaves the locks usable in every case, and such an event stops
  the fetch it is part of: no later event of the chunk is processed and no message of it sent.
\<close>

theorem only_unknown_poll_fails:
  assumes "unpoisoned (st_room st)"
  shows "(fst (process_timeline_event env event st) = Inl err \<longleftrightarrow>
      err = UnableToAssembleMessage \<and>
      (\<exists>e. parsed_event env (cr_room_id (st_room st)) event = Some e \<and> unknown_poll e)) \<and>
    unpoisoned (st_room (snd (process_timeline_event env event st))) \<and>
    (fst (process_timeline_event env event st) = Inl err \<longrightarrow>
      process_event_chunk env (event # later) f st =
        (Inl err, f, snd (process_timeline_event env event st)))"
proof -
  obtain r st' where p: "process_timeline_event env event st = (r, st')" and u: "unpoisoned (st_room st')"
    and r: "case parsed_event env (cr_room_id (st_room st)) event of
       Some e \<Rightarrow> if unknown_poll e then r = Inl UnableToAssembleMessage else \<exists>a. r = Inr a
     | None \<Rightarrow> \<exists>a. r = Inr a"
    using process_timeline_event_outcome [OF assms] by blast
  have "r = Inl err \<longleftrightarrow> err = UnableToAssembleMessage \<and>
      (\<exists>e. parsed_event env (cr_room_id (st_room st)) event = Some e \<and> unknown_poll e)"
    using r by (cases "parsed_event env (cr_room_id (st_room st)) event") (auto split: if_splits)
  with p u show ?thesis by (cases r) auto
qed

text \<open>A room that receives the start of a poll of a custom kind, and an environment for it.\<close>

definition custom_poll :: sync_event where
  "custom_poll = \<lparr>ev_id = ''$p'', ev_sender = ''@a:x'', ev_ts = 1,
     ev_body = MessageLike (UnstablePollStart (Original (PsNew
       (example_poll_start\<lparr>ps_kind := PkOther\<rparr>))))\<rparr>"

definition example_room_state :: room_state where
  "example_room_state =
     \<lparr>st_room = cached_room_new ''!r'',
      st_fs = \<lparr>fs_cwd = [], fs_files = [], fs_dirs = [], fs_outcomes = []\<rparr>, st_log = []\<rparr>"

theorem only_unknown_poll_fails_witness:
  "\<forall>env. fst (process_timeline_event
       (env\<lparr>en_parsers := example_parsers\<lparr>parse_sync := \<lambda>_. Some custom_poll\<rparr>\<rparr>)
       (example_timeline ''p'' ''@a:x'' 1) example_room_state) = Inl UnableToAssembleMessage"
proof
  fix env :: room_env
  have "unpoisoned (st_room example_room_state)" by (simp add: example_room_state_def)
  from only_unknown_poll_fails [OF this] show "fst (process_timeline_event
       (env\<lparr>en_parsers := example_parsers\<lparr>parse_sync := \<lambda>_. Some custom_poll\<rparr>\<rparr>)
       (example_timeline ''p'' ''@a:x'' 1) example_room_state) = Inl UnableToAssembleMessage"
    by (simp add: parsed_event_def example_timeline_def unknown_poll_def custom_poll_def into_full_event_def)
qed

section \<open>The index under any events\<close>

text \<open>A reaction event names the message that its ID belongs to.\<close>

definition names_target :: "(string \<Rightarrow> string) \<Rightarrow> full_event \<Rightarrow> bool" where
  "names_target target e \<longleftrightarrow> (case ev_body e of
     MessageLike (ReactionEvent (Original a)) \<Rightarrow> an_event_id a = target (ev_id e)
   | _ \<Rightarrow> True)"

lemma index_event_ok: "index.event_ok target e = names_target target e"
  by (cases "(ev_id e, ev_body e)" rule: index.body_ok.cases)
    (simp_all add: index.event_ok_def names_target_def)

lemma index_timeline_ok:
  "(\<And>e. parsed_event env rid event = Some e \<Longrightarrow> names_target target e) \<Longrightarrow>
   index.timeline_ok target env rid event"
  by (auto simp: index.timeline_ok_def parsed_event_def index_event_ok
      split: timeline_kind.splits option.splits simp del: index.event_ok_room)

text \<open>
  Whatever chunk of events is processed, with success or not, the index of reactions
  keeps naming the right message for exactly the cached reactions, and no cached reaction is
  lost, as long as the reaction events agree on which message a reaction belongs to.
\<close>

theorem chunk_keeps_reaction_index:
  assumes "reaction_inv target (st_room st)"
    and "\<And>event e. event \<in> set events \<Longrightarrow>
      parsed_event env (cr_room_id (st_room st)) event = Some e \<Longrightarrow> names_target target e"
    and "process_event_chunk env events f st = (r, f', st')"
  shows "reaction_inv target (st_room st') \<and>
    (\<forall>rid. reaction_at (st_room st) (target rid) rid \<noteq> None \<longrightarrow>
       reaction_at (st_room st') (target rid) rid \<noteq> None \<and>
       reaction_id_to_message_id rid (st_room st') = Inr (Some (target rid)))"
proof -
  have "\<forall>event \<in> set events. index.timeline_ok target env (cr_room_id (st_room st)) event"
    by (intro ballI index_timeline_ok assms(2))
  from index.process_event_chunk_R [OF this assms(3)] assms(1)
  have k: "reaction_inv target (st_room st')"
    "\<And>rid. look target (st_room st) rid \<noteq> None \<Longrightarrow> look target (st_room st') rid \<noteq> None"
    by (auto simp: keeps_reactions_def)
  have "reaction_id_to_message_id rid (st_room st') = Inr (Some (target rid))"
    if "look target (st_room st') rid \<noteq> None" for rid
    using indexed_look [OF k(1), of rid] reaction_invD(1) [OF k(1)] that
    by (simp add: reaction_id_to_message_id_def unpoisoned_def lock_ok indexed_def)
  with k show ?thesis by (auto simp: look_def)
qed

definition example_reaction :: sync_event where
  "example_reaction = \<lparr>ev_id = ''$r'', ev_sender = ''@a:x'', ev_ts = 1,
     ev_body = MessageLike (ReactionEvent (Original \<lparr>an_event_id = ''$m'', an_key = ''+1''\<rparr>))\<rparr>"

theorem chunk_keeps_reaction_index_witness:
  "\<forall>env. reaction_inv (\<lambda>_. ''$m'') (st_room (snd (snd (process_event_chunk
       (env\<lparr>en_parsers := example_parsers\<lparr>parse_sync := \<lambda>_. Some example_reaction\<rparr>\<rparr>)
       [example_timeline ''p'' ''@a:x'' 1] (messages_fetcher_new None 20 (Unthreaded None))
       example_room_state))))"
proof
  fix env :: room_env
  let ?env = "env\<lparr>en_parsers := example_parsers\<lparr>parse_sync := \<lambda>_. Some example_reaction\<rparr>\<rparr>"
  let ?events = "[example_timeline ''p'' ''@a:x'' 1]"
  have inv: "reaction_inv (\<lambda>_. ''$m'') (st_room example_room_state)"
    by (simp add: example_room_state_def reaction_inv_new)
  have names: "names_target (\<lambda>_. ''$m'') e"
    if "event \<in> set ?events" "parsed_event ?env (cr_room_id (st_room example_room_state)) event = Some e"
    for event e
    using that by (auto simp: parsed_event_def example_timeline_def names_target_def example_reaction_def
      into_full_event_def)
  obtain r f st where p: "process_event_chunk ?env ?events (messages_fetcher_new None 20 (Unthreaded None))
      example_room_state = (r, f, st)" by (metis surj_pair)
  from chunk_keeps_reaction_index [OF inv names p] p
  show "reaction_inv (\<lambda>_. ''$m'') (st_room (snd (snd (process_event_chunk ?env ?events
       (messages_fetcher_new None 20 (Unthreaded None)) example_room_state))))" by simp
qed

section \<open>The order of the hash maps\<close>

lemma sort_key_mset_eq:
  fixes f :: "'a \<Rightarrow> 'b::linorder"
  assumes "mset xs = mset ys" "distinct (map f xs)"
  shows "sort_key f xs = sort_key f ys"
proof -
  have "sort (map f xs) = sort (map f ys)"
    by (rule properties_for_sort) (simp_all add: assms(1) mset_map)
  moreover have "map f (sort_key f zs) = sort (map f zs)" for zs
    by (rule properties_for_sort [symmetric]) (simp_all add: mset_map)
  ultimately have "map f (sort_key f xs) = map f (sort_key f ys)" by simp
  moreover have "set xs = set ys" using assms(1) by (rule mset_eq_setD)
  ultimately show ?thesis
    using assms(2) by (intro map_inj_on [of f]) (simp_all add: distinct_map)
qed

lemma hm_equiv_sorted_values:
  fixes f :: "'a \<Rightarrow> 'b::linorder" and m :: "(string, 'a) hmap"
  assumes "hm_equiv m n" "distinct (map f (hm_values m))"
  shows "sort_key f (hm_values m) = sort_key f (hm_values n)"
  using hm_equiv_mset [OF assms(1)] by (intro sort_key_mset_eq assms(2)) (simp add: hm_values_def mset_map)

lemma hm_equiv_empty: "hm_equiv m n \<Longrightarrow> m = [] \<longleftrightarrow> n = []"
  using hm_equiv_mset by fastforce

text \<open>
  Two states of a message in the cache that hold the same relations, in hash maps that may be
  iterated in different orders; and the timestamps that order the relations of a message.
\<close>

definition same_relations :: "cached_message \<Rightarrow> cached_message \<Rightarrow> bool" where
  "same_relations a b \<longleftrightarrow>
     cm_redaction a = cm_redaction b \<and>
     hm_equiv (cm_reactions a) (cm_reactions b) \<and>
     hm_equiv (cm_replacements a) (cm_replacements b) \<and>
     hm_equiv (cm_poll_replacements a) (cm_poll_replacements b) \<and>
     hm_equiv (cm_poll_responses a) (cm_poll_responses b) \<and>
     hm_equiv (cm_poll_ends a) (cm_poll_ends b)"

definition ordered_relations :: "cached_message \<Rightarrow> bool" where
  "ordered_relations a \<longleftrightarrow>
     distinct (map rp_timestamp (hm_values (cm_replacements a))) \<and>
     distinct (map oe_ts (hm_values (cm_poll_replacements a))) \<and>
     distinct (map oe_ts (hm_values (cm_poll_responses a)))"

lemma apply_reactions_order:
  assumes "hm_equiv (cm_reactions a) (cm_reactions b)"
  shows "apply_reactions b msg = (apply_reactions a msg)\<lparr>m_reactions := m_reactions (apply_reactions b msg)\<rparr> \<and>
    mset (m_reactions (apply_reactions a msg)) = mset (m_reactions (apply_reactions b msg))"
  using hm_equiv_mset [OF assms] by (simp add: apply_reactions_def hm_values_def mset_map)

lemma poll_content_order:
  assumes "same_relations a b" "ordered_relations a"
  shows "apply_poll_ends a (apply_poll_responses a (apply_poll_replacements a c)) =
    apply_poll_ends b (apply_poll_responses b (apply_poll_replacements b c))"
proof -
  have "apply_poll_replacements a = apply_poll_replacements b"
    using assms hm_equiv_sorted_values [of "cm_poll_replacements a" "cm_poll_replacements b" oe_ts]
    by (simp add: apply_poll_replacements_def same_relations_def ordered_relations_def fun_eq_iff)
  moreover have "apply_poll_responses a = apply_poll_responses b"
    using assms hm_equiv_sorted_values [of "cm_poll_responses a" "cm_poll_responses b" oe_ts]
    by (simp add: apply_poll_responses_def same_relations_def ordered_relations_def fun_eq_iff)
  moreover have "apply_poll_ends a = apply_poll_ends b"
    using assms(1) hm_equiv_empty [of "cm_poll_ends a" "cm_poll_ends b"]
    by (simp add: apply_poll_ends_def same_relations_def fun_eq_iff)
  ultimately show ?thesis by simp
qed

lemma build_other_order:
  assumes "same_relations a b" "ordered_relations a"
  shows "build_other b original =
      (build_other a original)\<lparr>m_reactions := m_reactions (build_other b original)\<rparr> \<and>
    mset (m_reactions (build_other a original)) = mset (m_reactions (build_other b original))"
proof -
  have "sort_key rp_timestamp (hm_values (cm_replacements a)) = sort_key rp_timestamp (hm_values (cm_replacements b))"
    using assms by (intro hm_equiv_sorted_values) (simp_all add: same_relations_def ordered_relations_def)
  with apply_reactions_order [of a b original] assms(1) show ?thesis
    by (simp add: same_relations_def build_other_def apply_replacements_def apply_reactions_def Let_def)
qed

text \<open>
  Claim C31: What a message shows, be it an ordinary one, a poll or a removed one, does not
  depend on the order in which the hash maps of the cache are iterated, as long as no two edits of the
  message, no two edits of the poll and no two responses to the poll have the same timestamp: two caches
  that hold the same relations give messages that are equal but for the order of the reactions.
\<close>

theorem built_message_ignores_hash_order:
  assumes "same_relations a b" and "ordered_relations a"
    and "msg = fst (build_from_original original a)" and "msg' = fst (build_from_original original b)"
  shows "msg' = msg\<lparr>m_reactions := m_reactions msg'\<rparr> \<and> mset (m_reactions msg) = mset (m_reactions msg')"
proof -
  let ?a = "a\<lparr>cm_original := Some original\<rparr>" and ?b = "b\<lparr>cm_original := Some original\<rparr>"
  have r: "same_relations ?a ?b" "ordered_relations ?a"
    using assms(1,2) by (simp_all add: same_relations_def ordered_relations_def)
  have poll: "build_poll ?b original = (build_poll ?a original)\<lparr>m_reactions := m_reactions (build_poll ?b original)\<rparr> \<and>
      mset (m_reactions (build_poll ?a original)) = mset (m_reactions (build_poll ?b original))"
    if "m_content original = Some (CPoll c)" for c
    using apply_reactions_order [of ?a ?b] r(1)
    by (simp add: build_poll_def that poll_content_order [OF r] same_relations_def)
  have removed: "build_removed ?a original = build_removed ?b original"
    using r(1) by (simp add: build_removed_def same_relations_def split: option.split content.split)
  show ?thesis
    unfolding assms(3,4) build_from_original_def Let_def fst_conv
    using poll removed build_other_order [OF r, of original]
    by (cases "m_content original"; simp; rename_tac c; case_tac c; simp)
qed

text \<open>A text with two edits, and a poll with two responses of one user, each in both orders.\<close>

theorem built_message_ignores_hash_order_witness:
  "let x = \<lparr>rp_timestamp = 1, rp_new_content = CText ''x''\<rparr>;
       y = \<lparr>rp_timestamp = 2, rp_new_content = CText ''y''\<rparr>;
       r = \<lparr>oe_event_id = ''$1'', oe_sender = ''u'', oe_ts = 1, oe_content = \<lparr>pr_poll_id = ''p'', pr_answers = [''a'']\<rparr>\<rparr>;
       s = \<lparr>oe_event_id = ''$2'', oe_sender = ''u'', oe_ts = 2, oe_content = \<lparr>pr_poll_id = ''p'', pr_answers = [''b'']\<rparr>\<rparr>
   in m_content (fst (build_from_original default_message
          (default_cached_message\<lparr>cm_replacements := [(''2'', y), (''1'', x)]\<rparr>))) = Some (CText ''y'') \<and>
      m_content (fst (build_from_original default_message
          (default_cached_message\<lparr>cm_replacements := [(''1'', x), (''2'', y)]\<rparr>))) = Some (CText ''y'') \<and>
      (\<forall>c. m_content (fst (build_from_original (default_message\<lparr>m_content := Some (CPoll c)\<rparr>)
          (default_cached_message\<lparr>cm_poll_responses := [(''2'', s), (''1'', r)]\<rparr>))) =
        m_content (fst (build_from_original (default_message\<lparr>m_content := Some (CPoll c)\<rparr>)
          (default_cached_message\<lparr>cm_poll_responses := [(''1'', r), (''2'', s)]\<rparr>))))"
proof -
  have content: "m_content (fst (build_from_original original b)) = m_content (fst (build_from_original original a))"
    if "same_relations a b" "ordered_relations a" for a b original
    using arg_cong [OF built_message_ignores_hash_order [OF that refl refl, THEN conjunct1], of m_content]
    by simp
  define x where "x = \<lparr>rp_timestamp = (1::u64), rp_new_content = CText ''x''\<rparr>"
  define y where "y = \<lparr>rp_timestamp = (2::u64), rp_new_content = CText ''y''\<rparr>"
  define r where "r = \<lparr>oe_event_id = ''$1'', oe_sender = ''u'', oe_ts = (1::u64),
    oe_content = \<lparr>pr_poll_id = ''p'', pr_answers = [''a'']\<rparr>\<rparr>"
  define s where "s = \<lparr>oe_event_id = ''$2'', oe_sender = ''u'', oe_ts = (2::u64),
    oe_content = \<lparr>pr_poll_id = ''p'', pr_answers = [''b'']\<rparr>\<rparr>"
  let ?texts = "\<lambda>es. default_cached_message\<lparr>cm_replacements := es\<rparr>"
  let ?votes = "\<lambda>es. default_cached_message\<lparr>cm_poll_responses := es\<rparr>"
  have swap: "hm_equiv [(''1'', p), (''2'', q)] [(''2'', q), (''1'', p)]" for p q :: 'x
    by (auto simp: hm_equiv_def fun_eq_iff)
  have nil: "hm_equiv [] []" by (simp add: hm_equiv_def)
  have "same_relations (?texts [(''1'', x), (''2'', y)]) (?texts [(''2'', y), (''1'', x)])"
    "ordered_relations (?texts [(''1'', x), (''2'', y)])"
    by (simp_all add: same_relations_def ordered_relations_def default_cached_message_def hm_values_def swap nil x_def y_def)
  note texts = content [OF this, of default_message]
  have "same_relations (?votes [(''1'', r), (''2'', s)]) (?votes [(''2'', s), (''1'', r)])"
    "ordered_relations (?votes [(''1'', r), (''2'', s)])"
    by (simp_all add: same_relations_def ordered_relations_def default_cached_message_def hm_values_def swap nil r_def s_def)
  note votes = content [OF this]
  have "m_content (fst (build_from_original default_message (?texts [(''1'', x), (''2'', y)]))) = Some (CText ''y'')"
    by (simp add: build_from_original_def default_message_def default_cached_message_def build_other_def
        apply_replacements_def apply_reactions_def hm_values_def Let_def x_def y_def)
  with texts votes show ?thesis by (simp add: Let_def x_def y_def r_def s_def)
qed

end
