(* ===== verification/TidyRooms.thy ===== *)
theory TidyRooms
  imports CacheProperties
begin

text \<open>
  What every cached room keeps whatever the server sends: its locks are usable and its index of
  reactions names no reaction that is not there.  Unlike the invariant of \<open>CacheProperties\<close> this
  needs nothing of the IDs, so it holds along every run of the client.  The first section lifts a
  relation between rooms from the processing of one event to retries and to both fetchers.
\<close>

section \<open>Retries and fetches\<close>

context room_relation
begin

lemma step_timeline_event:
  "(\<And>rid. timeline_ok env rid event) \<Longrightarrow> step (process_timeline_event env event)"
  unfolding step_def using process_timeline_event_R by blast

lemma step_same_room: "(\<And>st. st_room (g st) = st_room st) \<Longrightarrow> step (\<lambda>st. (r, g st))"
  by (simp add: step_def R_refl)

lemma step_retry_event:
  assumes "\<And>event rid. timeline_ok env rid event"
  shows "step (retry_cached_encrypted_event env c)"
proof -
  have "step (\<lambda>st. and_then (process_timeline_event env event st)
      (\<lambda>action st. (Inr () :: memory_cache_error + unit, case action of
          Some a \<Rightarrow> process_successful_redecryption a st | None \<Rightarrow> redact_encrypted_message i st)))" for event i
  proof (intro step_and_then step_timeline_event assms step_same_room)
    fix action st
    have sent: "st_room (redact_encrypted_message i st) = st_room st" for i st
      by (simp add: redact_encrypted_message_def send_to_app_def)
    have "st_room (process_successful_redecryption a st) = st_room st" for a
      by (cases a) (simp_all add: process_successful_redecrypted_message_def sent
          process_successful_redecrypted_reaction_def send_to_app_def split: option.split)
    with sent show "st_room (case action of Some a \<Rightarrow> process_successful_redecryption a st
        | None \<Rightarrow> redact_encrypted_message i st) = st_room st"
      by (simp split: option.split)
  qed
  then show ?thesis
    by (auto simp: step_def retry_cached_encrypted_event_def R_refl
        split: sum.split timeline_kind.split option.split)
qed

lemma step_retry_decryption:
  assumes "\<And>event rid. timeline_ok env rid event"
  shows "step (retry_decryption env events)"
proof -
  have "step (retry_events env es)" for es
  proof (induction es)
    case Nil
    then show ?case by (simp add: step_same_room)
  next
    case (Cons e es)
    have "step (\<lambda>st. and_then (retry_cached_encrypted_event env e st) (\<lambda>_. retry_events env es))"
      by (intro step_and_then step_retry_event assms Cons.IH)
    then show ?case by (simp add: step_def)
  qed
  then show ?thesis by (auto simp: step_def retry_decryption_def R_refl split: sum.split)
qed

lemma step_message_fetcher:
  assumes "\<And>event rid. timeline_ok env rid event"
  shows "step (message_fetcher_run env fetched)"
proof (cases fetched)
  case (Inl e)
  then show ?thesis by (simp add: message_fetcher_run_def [abs_def] step_same_room)
next
  case (Inr q)
  obtain event relations where q: "q = (event, relations)" by (cases q)
  have rel: "step (process_relations env rs)" for rs
  proof (induction rs)
    case (Cons r rs)
    have "step (\<lambda>st. and_then (process_timeline_event env r st) (\<lambda>_. process_relations env rs))"
      by (intro step_and_then step_timeline_event assms Cons.IH)
    then show ?case by (simp add: step_def)
  qed (simp add: step_same_room)
  have "step (\<lambda>st. case action of Some (MessageAction message) \<Rightarrow> (Inr message, st)
      | _ \<Rightarrow> (Inl UnableToAssembleMessage, st))" for action
    by (auto simp: step_def R_refl split: option.split cached_room_action.split)
  then have "step (\<lambda>st. and_then (process_relations env relations st) (\<lambda>_ st.
      and_then (process_timeline_event env event st) (\<lambda>action st.
        case action of Some (MessageAction message) \<Rightarrow> (Inr message, st)
        | _ \<Rightarrow> (Inl UnableToAssembleMessage, st))))"
    by (intro step_and_then rel step_timeline_event assms)
  then show ?thesis by (simp add: message_fetcher_run_def [abs_def] Inr q)
qed

lemma fetch_until_completion_R:
  assumes "\<And>event rid. timeline_ok env rid event"
  shows "fetch_until_completion env answers f st = Some (r, f', st') \<Longrightarrow> R (st_room st) (st_room st')"
proof (induction answers arbitrary: f st)
  case Nil
  then show ?case by (auto simp: R_refl split: if_splits)
next
  case (Cons answer answers)
  have chunk: "R (st_room st) (st_room st1)"
    if "process_event_chunk env es g st = (r1, f1, st1)" for es g r1 f1 st1
    by (rule process_event_chunk_R [OF _ that]) (simp add: assms)
  from Cons.prems show ?case
    by (auto simp: R_refl split: if_splits prod.splits sum.splits
        dest!: chunk dest: Cons.IH intro: R_trans)
qed

lemma fetcher_run_R:
  assumes "\<And>event rid. timeline_ok env rid event" "fetcher_run env answers f st = Some (f', st')"
  shows "R (st_room st) (st_room st')"
  using assms(2)
  by (auto simp: fetcher_run_def Let_def R_refl split: if_splits option.splits prod.splits sum.splits
      dest: fetch_until_completion_R [OF assms(1)])

end

section \<open>Tidy rooms\<close>

definition tidy_room :: "cached_room \<Rightarrow> bool" where
  "tidy_room room \<longleftrightarrow> unpoisoned room \<and> \<not> mtx_poisoned (cr_marked_as_read_ts room) \<and>
     (\<forall>mid. hm_wf (cm_reactions (message_at room mid))) \<and>
     (\<forall>rid mid. indexed room rid = Some mid \<longrightarrow> reaction_at room mid rid \<noteq> None)"

lemma tidy_roomI:
  assumes "tidy_room room" "unpoisoned room'" "cr_marked_as_read_ts room' = cr_marked_as_read_ts room"
    and "\<And>mid. hm_wf (cm_reactions (message_at room' mid))"
    and "\<And>rid mid. indexed room' rid = Some mid \<Longrightarrow> reaction_at room' mid rid \<noteq> None"
  shows "tidy_room room'"
  using assms by (simp add: tidy_room_def)

lemma tidy_same:
  assumes "tidy_room room" "unpoisoned room'" "cr_marked_as_read_ts room' = cr_marked_as_read_ts room"
    and "\<And>mid. cm_reactions (message_at room' mid) = cm_reactions (message_at room mid)" "indexed room' = indexed room"
  shows "tidy_room room'"
  using assms by (simp add: tidy_room_def reaction_at_def)

lemma marked_ts_kept:
  "cr_marked_as_read_ts (snd (update_message mid f room)) = cr_marked_as_read_ts room"
  "cr_marked_as_read_ts (snd (assemble_message msg room)) = cr_marked_as_read_ts room"
  "cr_marked_as_read_ts (snd (cache_reaction mid rid rx room)) = cr_marked_as_read_ts room"
  "cr_marked_as_read_ts (snd (cache_encrypted_event eid ee room)) = cr_marked_as_read_ts room"
  "cr_marked_as_read_ts (snd (remove_encrypted_event eid room)) = cr_marked_as_read_ts room"
  "cr_marked_as_read_ts (snd (cache_read_marker u ts room)) = cr_marked_as_read_ts room"
  "cr_marked_as_read_ts (snd (cleanup_reaction rid room)) = cr_marked_as_read_ts room"
  by (auto simp: update_message_def assemble_message_def cache_and_build_message_def put_message_def
      cache_reaction_def cache_encrypted_event_def remove_encrypted_event_def cache_read_marker_def
      cleanup_reaction_def and_then_def Let_def split: sum.split prod.split option.split)

lemma marked_ts_cleanup: "cr_marked_as_read_ts (snd (cleanup_reactions rs room)) = cr_marked_as_read_ts room"
proof (induction rs arbitrary: room)
  case (Cons r rs)
  then show ?case
    using marked_ts_kept(7) [of "fst r" room]
    by (cases "cleanup_reaction (fst r) room"; cases "fst (cleanup_reaction (fst r) room)") auto
qed simp

lemma tidy_unpoisoned: "tidy_room room \<Longrightarrow> unpoisoned room"
  by (simp add: tidy_room_def)

lemma tidy_cache_reaction: "tidy_room room \<Longrightarrow> tidy_room (snd (cache_reaction mid rid rx room))"
proof -
  assume t: "tidy_room room"
  obtain room' where r: "cache_reaction mid rid rx room = (Inr (), room')" "unpoisoned room'"
    "message_at room' = (message_at room)(mid := (message_at room mid)
       \<lparr>cm_reactions := hm_insert rid rx (cm_reactions (message_at room mid))\<rparr>)"
    "indexed room' = (indexed room)(rid := Some mid)"
    by (rule cache_reaction_effect [OF tidy_unpoisoned [OF t]])
  have "tidy_room room'"
    by (rule tidy_roomI [OF t r(2)])
      (use t marked_ts_kept(3) [of mid rid rx room] r in
        \<open>auto simp: tidy_room_def reaction_at_def split: if_splits\<close>)
  with r(1) show ?thesis by simp
qed

interpretation tidy: room_relation "\<lambda>room room'. tidy_room room \<longrightarrow> tidy_room room'" "\<lambda>_ _. True"
proof (unfold_locales, goal_cases)
  case (3 f room mid)
  show ?case
  proof
    assume t: "tidy_room room"
    show "tidy_room (snd (update_message mid f room))"
      by (rule update_message_effect [OF tidy_unpoisoned [OF t], of mid f], rule tidy_same [OF t])
        (use 3 marked_ts_kept(1) [of mid f room] in simp_all)
  qed
next
  case (4 room msg)
  show ?case
  proof
    assume t: "tidy_room room"
    show "tidy_room (snd (assemble_message msg room))"
      by (rule assemble_message_effect [OF tidy_unpoisoned [OF t], of msg], rule tidy_same [OF t])
        (use marked_ts_kept(2) [of msg room] in simp_all)
  qed
next
  case (5 mid rid room rx)
  show ?case by (simp add: tidy_cache_reaction)
next
  case (6 room eid ee)
  show ?case
    using encrypted_events_effect(1) [of room eid ee] tidy_unpoisoned [of room]
    by (auto intro: tidy_same simp: marked_ts_kept)
next
  case (7 room eid)
  show ?case
    using encrypted_events_effect(2) [of room eid] tidy_unpoisoned [of room]
    by (auto intro: tidy_same simp: marked_ts_kept)
next
  case (8 room u ts)
  show ?case
    using cache_read_marker_effect [of room u ts] tidy_unpoisoned [of room]
    by (auto intro: tidy_same simp: marked_ts_kept)
qed auto

lemma tidy_timeline_ok [simp]: "tidy.timeline_ok env rid e"
proof -
  have "tidy.body_ok i b" for i b
    by (cases "(i, b)" rule: tidy.body_ok.cases) simp_all
  then show ?thesis
    by (auto simp: tidy.timeline_ok_def tidy.event_ok_def split: timeline_kind.split option.split)
qed

lemma tidy_new: "tidy_room (cached_room_new rid)"
  by (simp add: tidy_room_def unpoisoned_def cached_room_new_def message_at_def indexed_def
      default_cached_message_def new_mutex_def)

lemma tidy_marked: "tidy_room room \<Longrightarrow> tidy_room (snd (set_marked_ts ts room))"
  by (auto simp: set_marked_ts_def tidy_room_def unpoisoned_def message_at_def indexed_def reaction_at_def
      split: sum.split option.split)

lemma tidy_remove_by_id: "tidy_room room \<Longrightarrow> tidy_room (snd (remove_reaction_by_id i room))"
proof -
  assume t: "tidy_room room"
  note u = tidy_unpoisoned [OF t]
  show ?thesis
  proof (cases "indexed room i")
    case None
    with u t show ?thesis
      by (simp add: remove_reaction_by_id_def reaction_id_to_message_id_def unpoisoned_def lock_ok indexed_def)
  next
    case (Some mid)
    then have "reaction_at room mid i \<noteq> None" using t by (simp add: tidy_room_def)
    then obtain m rx where m: "hm_get (mtx_data (cr_messages room)) mid = Some m" "message_at room mid = m"
      "hm_get (cm_reactions m) i = Some rx"
      by (auto simp: reaction_at_def message_at_def default_cached_message_def split: option.splits)
    let ?room1 = "put_message mid (m\<lparr>cm_reactions := hm_remove i (cm_reactions m)\<rparr>)
        (mtx_data (cr_messages room)) room"
    have "unpoisoned ?room1" using u by (simp add: put_message_effect)
    then obtain room' where r: "cleanup_reaction i ?room1 = (Inr (), room')" "unpoisoned room'"
      "message_at room' = message_at ?room1" "indexed room' = (indexed ?room1)(i := None)"
      by (rule cleanup_reaction_effect)
    have "cr_marked_as_read_ts room' = cr_marked_as_read_ts room"
      using marked_ts_kept(7) [of i ?room1] r(1) by (simp add: put_message_def)
    then have "tidy_room room'"
      by (rule tidy_roomI [OF t r(2)])
        (use t m r in \<open>auto simp: put_message_effect tidy_room_def reaction_at_def split: if_splits\<close>)
    with u Some m r(1) show ?thesis
      by (simp add: remove_reaction_by_id_def reaction_id_to_message_id_def unpoisoned_def lock_ok
          indexed_def put_message_effect)
  qed
qed

lemma tidy_remove_by_emoji:
  assumes t: "tidy_room room"
  shows "tidy_room (snd (remove_reaction_by_emoji mid user_id emoji room))"
proof (cases "hm_get (mtx_data (cr_messages room)) mid")
  case None
  with t tidy_unpoisoned [OF t] show ?thesis
    by (simp add: remove_reaction_by_emoji_def unpoisoned_def lock_ok)
next
  case (Some m)
  let ?sel = "by_user_and_emoji user_id emoji"
  let ?removed = "filter ?sel (cm_reactions m)"
  let ?room1 = "put_message mid (m\<lparr>cm_reactions := filter (\<lambda>r. \<not> ?sel r) (cm_reactions m)\<rparr>)
      (mtx_data (cr_messages room)) room"
  note u = tidy_unpoisoned [OF t]
  have at: "message_at room mid = m" using Some by (simp add: message_at_def)
  then have wf: "hm_wf (cm_reactions m)" using t by (auto simp: tidy_room_def)
  have "unpoisoned ?room1" using u by (simp add: put_message_effect)
  then obtain room' where r: "cleanup_reactions ?removed ?room1 = (Inr (), room')" "unpoisoned room'"
    "message_at room' = message_at ?room1"
    "indexed room' = (\<lambda>rid. if rid \<in> fst ` set ?removed then None else indexed ?room1 rid)"
    by (rule cleanup_reactions_effect)
  have "cr_marked_as_read_ts room' = cr_marked_as_read_ts room"
    using marked_ts_cleanup [of ?removed ?room1] r(1) by (simp add: put_message_def)
  then have "tidy_room room'"
  proof (rule tidy_roomI [OF t r(2)])
    show "hm_wf (cm_reactions (message_at room' i))" for i
      using t wf by (simp add: r(3) put_message_effect tidy_room_def)
    fix rid i
    assume "indexed room' rid = Some i"
    then have i: "\<not> (\<exists>v. hm_get (cm_reactions m) rid = Some v \<and> ?sel (rid, v))" "indexed room rid = Some i"
      unfolding r(4) keys_of_filter [OF wf] by (simp_all add: put_message_effect split: if_splits)
    then have "reaction_at room i rid \<noteq> None" using t by (simp add: tidy_room_def)
    with i(1) show "reaction_at room' i rid \<noteq> None"
      by (auto simp: reaction_at_def r(3) put_message_effect at hm_get_filter_not [OF wf] split: option.splits)
  qed
  moreover have "snd (remove_reaction_by_emoji mid user_id emoji room) = room'"
    using u Some r(1)
    by (simp add: remove_reaction_by_emoji_def unpoisoned_def lock_ok Let_def split: list.split)
  ultimately show ?thesis by simp
qed

section \<open>The rooms of the cache\<close>

definition tidy_rooms :: "memory_cache \<Rightarrow> bool" where
  "tidy_rooms mc \<longleftrightarrow> (\<forall>rid room. hm_get (mtx_data (mc_rooms mc)) rid = Some room \<longrightarrow> tidy_room room)"

lemma tidy_rooms_new [simp]: "tidy_rooms memory_cache_new"
  by (simp add: tidy_rooms_def memory_cache_new_def new_mutex_def)

lemma tidy_rooms_put: "tidy_rooms mc \<Longrightarrow> tidy_room room \<Longrightarrow> tidy_rooms (put_room room mc)"
  by (simp add: tidy_rooms_def put_room_def put_guard_def)

lemma tidy_rooms_get: "tidy_rooms mc \<Longrightarrow> get_room rid mc = Inr (Some room) \<Longrightarrow> tidy_room room"
  by (auto simp: tidy_rooms_def get_room_def lock_def split: if_splits)

lemma tidy_rooms_create:
  assumes "tidy_rooms mc"
  shows "tidy_rooms (snd (get_or_create_room rid mc))"
    and "get_or_create_room rid mc = (Inr room, mc') \<Longrightarrow> tidy_room room"
  using assms tidy_new [of rid]
  by (auto simp: tidy_rooms_def get_or_create_room_def Let_def lock_def put_guard_def split: option.splits if_splits)

lemma tidy_rooms_in_room:
  assumes "\<And>room. tidy_room room \<Longrightarrow> tidy_room (snd (f room))" "tidy_rooms mc"
  shows "tidy_rooms (snd (in_room f rid mc))"
proof -
  obtain r mc' where g: "get_or_create_room rid mc = (r, mc')" by (cases "get_or_create_room rid mc")
  have "tidy_rooms mc'" using tidy_rooms_create(1) [OF assms(2), of rid] g by simp
  moreover have "tidy_room room" if "r = Inr room" for room
    using tidy_rooms_create(2) [OF assms(2), of rid room mc'] g that by simp
  ultimately show ?thesis
    using assms(1) g by (cases r) (auto simp: in_room_def case_prod_beta intro: tidy_rooms_put)
qed

lemma tidy_rooms_in_known_room:
  assumes "\<And>room. tidy_room room \<Longrightarrow> tidy_room (snd (f room))" "tidy_rooms mc"
  shows "tidy_rooms (snd (in_known_room d f rid mc))"
  using assms tidy_rooms_get [OF assms(2)]
  by (auto simp: in_known_room_def case_prod_beta intro: tidy_rooms_put split: sum.split option.split)

lemma tidy_operations:
  "tidy_rooms mc \<Longrightarrow> tidy_rooms (snd (mc_set_read_marker rid u ts mc))"
  "tidy_rooms mc \<Longrightarrow> tidy_rooms (snd (mc_cache_reaction rid e a mc))"
  "tidy_rooms mc \<Longrightarrow> tidy_rooms (snd (mc_remove_reaction_by_id rid i mc))"
  "tidy_rooms mc \<Longrightarrow> tidy_rooms (snd (mc_remove_reaction_by_emoji rid m u em mc))"
  "tidy_rooms mc \<Longrightarrow> tidy_rooms (snd (mc_mark_room_as_read rid t mc))"
  "tidy_rooms mc \<Longrightarrow> tidy_rooms (snd (mc_mark_room_as_unread rid mc))"
  using tidy.R_marker [rule_format]
  by (simp_all add: mc_set_read_marker_def mc_cache_reaction_def mc_remove_reaction_by_id_def
      mc_remove_reaction_by_emoji_def mc_mark_room_as_read_def mc_mark_room_as_unread_def
      tidy_rooms_in_room tidy_rooms_in_known_room tidy_cache_reaction tidy_remove_by_id tidy_remove_by_emoji tidy_marked)

text \<open>The operations that run on a room and put it back.\<close>

lemma tidy_runs:
  "tidy_room (st_room st) \<Longrightarrow> tidy_room (st_room (snd (retry_decryption env events st)))"
  "tidy_room (st_room st) \<Longrightarrow> tidy_room (st_room (snd (message_fetcher_run env fetched st)))"
  "tidy_room (st_room st) \<Longrightarrow> fetcher_run env answers f st = Some (f', st') \<Longrightarrow> tidy_room (st_room st')"
  using tidy.step_retry_decryption [of env events] tidy.step_message_fetcher [of env fetched]
    tidy.fetcher_run_R [of env answers f st f' st']
  by (simp_all add: tidy.step_def)

end
