(* ===== verification/Redecryption.thy ===== *)
theory Redecryption
  imports CacheProperties
begin

text \<open>
  Events that could not be decrypted: the cache keeps them and the application shows a placeholder
  for each, until a retry decrypts them.  What processing a decrypted event tells the application,
  what a retry makes of the events it selects, and how it ends when one of them fails.
\<close>

section \<open>What an event is processed to\<close>

text \<open>The application hears nothing and the events that wait for a key stay.\<close>

definition unnoticed :: "room_state \<Rightarrow> room_state \<Rightarrow> bool" where
  "unnoticed st st' \<longleftrightarrow> st_log st' = st_log st \<and> cr_encrypted_events (st_room st') = cr_encrypted_events (st_room st)"

lemma unnoticed_refl [simp]: "unnoticed st st"
  by (simp add: unnoticed_def)

lemma unnoticed_trans: "unnoticed st st' \<Longrightarrow> unnoticed st' st'' \<Longrightarrow> unnoticed st st''"
  by (simp add: unnoticed_def)

lemma unnoticed_fs [simp]: "unnoticed (st\<lparr>st_fs := fs\<rparr>) st' = unnoticed st st'" "unnoticed st (st'\<lparr>st_fs := fs\<rparr>) = unnoticed st st'"
  by (simp_all add: unnoticed_def)

lemma unnoticed_on_room:
  "cr_encrypted_events (snd (f (st_room st))) = cr_encrypted_events (st_room st) \<Longrightarrow> unnoticed st (snd (on_room f st))"
  by (cases "f (st_room st)") (simp add: unnoticed_def on_room_def)

lemma encrypted_kept:
  "cr_encrypted_events (snd (update_message mid f room)) = cr_encrypted_events room"
  "cr_encrypted_events (snd (assemble_message msg room)) = cr_encrypted_events room"
  "cr_encrypted_events (snd (cache_reaction mid rid rx room)) = cr_encrypted_events room"
  "cr_encrypted_events (snd (cache_read_marker u ts room)) = cr_encrypted_events room"
  by (auto simp: update_message_def assemble_message_def cache_and_build_message_def put_message_def
      cache_reaction_def cache_read_marker_def and_then_def Let_def split: sum.split prod.split option.split)

lemma encrypted_kept_markers: "cr_encrypted_events (snd (cache_read_markers ms room)) = cr_encrypted_events room"
proof (induction ms room rule: cache_read_markers.induct)
  case (2 u ts ms room)
  then show ?case
    using encrypted_kept(4) [of u ts room]
    by (cases "cache_read_marker u ts room"; cases "fst (cache_read_marker u ts room)") auto
qed simp

fun subject :: "cached_room_action \<Rightarrow> string" where
  "subject (MessageAction m) = m_id m"
| "subject (ReactionAction r) = rm_reaction_id r"

text \<open>A handler that does nothing else, and whose action, if any, is about the event itself.\<close>

definition concerns :: "string \<Rightarrow> (room_state \<Rightarrow> handler_result) \<Rightarrow> bool" where
  "concerns i h \<longleftrightarrow> (\<forall>st. unnoticed st (snd (h st)) \<and> (\<forall>a. fst (h st) = Inr (Some a) \<longrightarrow> subject a = i))"

lemma concernsD:
  "concerns i h \<Longrightarrow> h st = (r, st') \<Longrightarrow> unnoticed st st'"
  "concerns i h \<Longrightarrow> h st = (Inr (Some a), st') \<Longrightarrow> subject a = i"
  by (metis concerns_def fst_conv snd_conv)+

lemma concerns_nothing: "concerns i (\<lambda>st. (Inr None, st))" "concerns i (\<lambda>st. (Inl e, st))"
  by (simp_all add: concerns_def)

lemma assembled_id: "assemble_message msg room = (Inr m, room') \<Longrightarrow> m_id m = m_id msg"
proof -
  have "m_id (build_other cm msg) = m_id msg" "m_id (build_removed cm msg) = m_id msg"
    "m_id (build_poll cm msg) = m_id msg" for cm
    by (auto simp: build_other_def build_removed_def build_poll_def apply_replacements_def
        apply_reactions_def Let_def split: option.split content.split)
  then show "assemble_message msg room = (Inr m, room') \<Longrightarrow> m_id m = m_id msg"
    by (auto simp: assemble_message_def cache_and_build_message_def build_from_original_def Let_def
        split: sum.splits option.splits content.splits)
qed

lemma concerns_message_action:
  assumes "m_id msg = i"
  shows "concerns i (message_action msg)"
proof -
  have "unnoticed st (snd (message_action msg st)) \<and>
      (\<forall>a. fst (message_action msg st) = Inr (Some a) \<longrightarrow> subject a = i)" for st
    using unnoticed_on_room [of "assemble_message msg" st] encrypted_kept(2) [of msg "st_room st"]
      assembled_id [of msg "st_room st"] assms
    by (cases "assemble_message msg (st_room st)"; cases "fst (assemble_message msg (st_room st))")
      (auto simp: message_action_def on_room_def)
  then show ?thesis by (simp add: concerns_def)
qed

lemma concerns_stash: "concerns i (\<lambda>st. no_action (on_room (update_message mid f) st))"
proof -
  have "unnoticed st (snd (no_action (on_room (update_message mid f) st))) \<and>
      (\<forall>a. fst (no_action (on_room (update_message mid f) st)) \<noteq> Inr (Some a))" for st
    using unnoticed_on_room [of "update_message mid f" st] encrypted_kept(1) [of mid f "st_room st"]
    by (cases "update_message mid f (st_room st)"; cases "fst (update_message mid f (st_room st))")
      (auto simp: no_action_def on_room_def)
  then show ?thesis by (simp add: concerns_def)
qed

lemma concerns_fs: "concerns i h \<Longrightarrow> unnoticed st (snd (h (st\<lparr>st_fs := fs\<rparr>))) \<and>
    (\<forall>a. fst (h (st\<lparr>st_fs := fs\<rparr>)) = Inr (Some a) \<longrightarrow> subject a = i)"
  by (metis concerns_def unnoticed_fs(1))

lemma concerns_room_message: "concerns (ev_id e) (process_room_message env e c)"
proof (cases c)
  case RedactedContent
  then show ?thesis
    using concerns_message_action [of "removed_message e"]
    by (simp add: process_room_message_def [abs_def] process_redacted_room_message_def removed_message_def)
next
  case (Original x)
  have "unnoticed st (snd (process_original_room_message env e x st)) \<and>
      (\<forall>a. fst (process_original_room_message env e x st) = Inr (Some a) \<longrightarrow> subject a = ev_id e)" for st
    using concerns_fs [OF concerns_message_action] concerns_fs [OF concerns_stash]
    by (auto simp: process_original_room_message_def cache_replacement_def message_from_event_def Let_def
        split: option.splits relation.splits prod.splits)
  with Original show ?thesis by (simp add: concerns_def process_room_message_def)
qed

lemma concerns_reaction: "concerns (ev_id e) (process_reaction_event e c)"
proof -
  have "concerns (ev_id e) (process_reaction_event e (Original a))" for a
    unfolding concerns_def
  proof
    fix st
    let ?f = "cache_reaction (an_event_id a) (ev_id e) \<lparr>rx_user_id = ev_sender e, rx_emoji = an_key a\<rparr>"
    show "unnoticed st (snd (process_reaction_event e (Original a) st)) \<and>
        (\<forall>x. fst (process_reaction_event e (Original a) st) = Inr (Some x) \<longrightarrow> subject x = ev_id e)"
      using unnoticed_on_room [of ?f st] encrypted_kept(3) [of "an_event_id a" "ev_id e"
          "\<lparr>rx_user_id = ev_sender e, rx_emoji = an_key a\<rparr>" "st_room st"]
      by (cases "?f (st_room st)"; cases "fst (?f (st_room st))")
        (auto simp: process_reaction_event_def Let_def on_room_def reaction_metadata_new_def)
  qed
  then show ?thesis by (cases c) (simp_all add: process_reaction_event_def [abs_def] concerns_nothing)
qed

lemma concerns_message_like: "concerns (ev_id e) (process_any_message_like_event env e m)"
proof -
  note stash = concerns_stash [unfolded concerns_def, rule_format]
  have "concerns (ev_id e) (process_room_redaction c)" for c
    using stash by (auto simp: concerns_def process_room_redaction_def cache_redaction_def
        split: event_content.splits option.splits)
  moreover have "concerns (ev_id e) (process_unstable_poll_response e c)" for c
    using stash by (cases c) (auto simp: concerns_def process_unstable_poll_response_def cache_poll_response_event_def)
  moreover have "concerns (ev_id e) (process_unstable_poll_end e c)" for c
    using stash by (cases c) (auto simp: concerns_def process_unstable_poll_end_def cache_poll_end_event_def)
  moreover have "concerns (ev_id e) (process_room_encrypted e c)" for c
    by (cases c) (simp_all add: process_room_encrypted_def [abs_def] concerns_nothing concerns_message_action
        removed_message_def)
  moreover have "concerns (ev_id e) (process_new_unstable_poll_start e block)" for block
    by (cases "assemble_poll_start block")
      (simp_all add: process_new_unstable_poll_start_def [abs_def] concerns_nothing concerns_message_action)
  then have "concerns (ev_id e) (process_unstable_poll_start e c)" for c
    by (cases c; cases "case c of Original x \<Rightarrow> x")
      (simp_all add: process_unstable_poll_start_def [abs_def] cache_poll_replacement_event_def
        concerns_stash concerns_nothing)
  ultimately show ?thesis
    using concerns_room_message concerns_reaction concerns_nothing
    by (cases m) (simp_all add: process_any_message_like_event_def [abs_def])
qed

lemma concerns_state: "concerns (ev_id e) (process_any_state_event e s)"
proof -
  have "concerns (ev_id e) (process_room_member_event e (Original c))" for c
    unfolding concerns_def process_room_member_event_def
    by (auto simp: concerns_message_action [unfolded concerns_def, rule_format] split: sum.split)
  then show ?thesis
    by (cases s; cases "case s of RoomMember c \<Rightarrow> c")
      (simp_all add: process_any_state_event_def [abs_def] process_room_member_event_def [abs_def] concerns_nothing)
qed

lemma concerns_any_timeline_event: "concerns (ev_id e) (process_any_timeline_event env e)"
proof -
  have markers: "unnoticed st (snd (load_and_cache_event_read_markers env e st))" for st
    by (simp add: load_and_cache_event_read_markers_def Let_def unnoticed_on_room encrypted_kept_markers)
  have body: "concerns (ev_id e) (\<lambda>st. case ev_body e of
      MessageLike m \<Rightarrow> process_any_message_like_event env e m st | State s \<Rightarrow> process_any_state_event e s st)"
    using concerns_message_like concerns_state by (cases "ev_body e") simp_all
  show ?thesis
    unfolding concerns_def
  proof
    fix st
    obtain r st1 where m: "load_and_cache_event_read_markers env e st = (r, st1)"
      by (cases "load_and_cache_event_read_markers env e st")
    with markers have "unnoticed st st1" by (metis snd_conv)
    with m body show "unnoticed st (snd (process_any_timeline_event env e st)) \<and>
        (\<forall>a. fst (process_any_timeline_event env e st) = Inr (Some a) \<longrightarrow> subject a = ev_id e)"
      by (cases r) (auto simp: process_any_timeline_event_def concerns_def intro: unnoticed_trans)
  qed
qed

section \<open>Retries\<close>

text \<open>The events of a room that wait for a key, and those among them that a retry selects.\<close>

definition waiting :: "room_state \<Rightarrow> (string, cached_encrypted_event) hmap" where
  "waiting st = mtx_data (cr_encrypted_events (st_room st))"

definition selects :: "string list option \<Rightarrow> string \<Rightarrow> bool" where
  "selects ids i \<longleftrightarrow> (case ids of None \<Rightarrow> True | Some is \<Rightarrow> i \<in> set is)"

text \<open>An event the SDK still cannot decrypt, and the event it decrypts to, with its ID.\<close>

definition still_encrypted :: "room_env \<Rightarrow> cached_encrypted_event \<Rightarrow> bool" where
  "still_encrypted env cx \<longleftrightarrow> (case en_decrypt env (cx_event cx) of
     Inl _ \<Rightarrow> True
   | Inr te \<Rightarrow> (case te_kind te of UnableToDecrypt _ _ \<Rightarrow> True | _ \<Rightarrow> False))"

definition decrypts_to :: "room_env \<Rightarrow> string \<Rightarrow> cached_encrypted_event \<Rightarrow> full_event \<Rightarrow> bool" where
  "decrypts_to env i cx e \<longleftrightarrow> (case en_decrypt env (cx_event cx) of
     Inl _ \<Rightarrow> False
   | Inr te \<Rightarrow> (case te_kind te of
       Decrypted raw \<Rightarrow> parse_full (en_parsers env) raw = Some e \<and> te_event_id te = Some i \<and> ev_id e = i
     | _ \<Rightarrow> False))"

text \<open>
  What the SDK promises of a decrypted event: it is well formed and has the ID of the encrypted
  one.
\<close>

definition decrypts_in_place :: "room_env \<Rightarrow> string \<times> cached_encrypted_event \<Rightarrow> bool" where
  "decrypts_in_place env q \<longleftrightarrow> still_encrypted env (snd q) \<or> (\<exists>e. decrypts_to env (fst q) (snd q) e)"

text \<open>
  The event decrypts to the start of a poll of a kind that the application does not know.  The retry
  ends there; \<open>tried\<close> are the events up to and including the first such.
\<close>

definition decrypts_to_unknown_poll :: "room_env \<Rightarrow> string \<times> cached_encrypted_event \<Rightarrow> bool" where
  "decrypts_to_unknown_poll env q \<longleftrightarrow> (\<exists>e. decrypts_to env (fst q) (snd q) e \<and> unknown_poll e)"

fun tried ::
  "room_env \<Rightarrow> (string, cached_encrypted_event) hmap \<Rightarrow> (string, cached_encrypted_event) hmap" where
  "tried env [] = []"
| "tried env (q # es) = q # (if decrypts_to_unknown_poll env q then [] else tried env es)"

lemma decrypts_to_unique: "decrypts_to env i cx e \<Longrightarrow> decrypts_to env i cx e' \<Longrightarrow> e' = e"
  by (auto simp: decrypts_to_def split: sum.splits timeline_kind.splits)

lemma decrypts_to_open: "decrypts_to env i cx e \<Longrightarrow> \<not> still_encrypted env cx"
  by (auto simp: decrypts_to_def still_encrypted_def split: sum.splits timeline_kind.splits)

lemma tried_subset: "set (tried env es) \<subseteq> set es"
  by (induction es) auto

lemma tried_all: "\<not> list_ex (decrypts_to_unknown_poll env) es \<Longrightarrow> tried env es = es"
  by (induction es) auto

text \<open>The messages whose placeholder a response to the application replaces or removes.\<close>

fun placeholder :: "response \<Rightarrow> string list" where
  "placeholder (MessageChangeEvent _ i _) = [i]"
| "placeholder (MessageRemoveEvent _ i) = [i]"
| "placeholder _ = []"

definition placeholders :: "response list \<Rightarrow> string list" where
  "placeholders log = concat (map placeholder log)"

lemma placeholders_simps [simp]:
  "placeholders [] = []" "placeholders (r # rs) = placeholder r @ placeholders rs"
  "placeholders (rs @ rs') = placeholders rs @ placeholders rs'"
  by (simp_all add: placeholders_def)

lemma waiting_unnoticed: "unnoticed st st' \<Longrightarrow> waiting st' = waiting st"
  by (simp add: unnoticed_def waiting_def)

lemma waiting_send [simp]: "waiting (send_to_app r st) = waiting st" "st_room (send_to_app r st) = st_room st"
  by (simp_all add: waiting_def send_to_app_def)

lemma remove_waiting:
  assumes "unpoisoned (st_room st)"
  obtains st' where "on_room (remove_encrypted_event i) st = (Inr (), st')" "unpoisoned (st_room st')"
    "waiting st' = hm_remove i (waiting st)" "st_log st' = st_log st"
  by (rule that [of "snd (on_room (remove_encrypted_event i) st)"])
    (use assms in \<open>auto simp: on_room_def remove_encrypted_event_def unpoisoned_def lock_ok waiting_def\<close>)

lemma retry_still_encrypted: "still_encrypted env cx \<Longrightarrow> retry_cached_encrypted_event env cx st = (Inr (), st)"
  by (auto simp: still_encrypted_def retry_cached_encrypted_event_def split: sum.splits timeline_kind.splits)

text \<open>A successful action replaces or removes the placeholder of its subject.\<close>

lemma process_redecryption_placeholder:
  "\<exists>new. process_successful_redecryption a st = st\<lparr>st_log := st_log st @ new\<rparr> \<and> placeholders new = [subject a]"
  "\<exists>new. redact_encrypted_message i st = st\<lparr>st_log := st_log st @ new\<rparr> \<and> placeholders new = [i]"
  by (cases a; auto simp: process_successful_redecrypted_message_def redact_encrypted_message_def send_to_app_def
      process_successful_redecrypted_reaction_def split: option.split intro!: exI)
    (auto simp: redact_encrypted_message_def send_to_app_def)

lemma retry_decrypted:
  assumes "unpoisoned (st_room st)" "decrypts_to env i cx e"
  obtains st1 where "unpoisoned (st_room st1)"
    "waiting st1 = hm_remove i (waiting st)" "st_log st1 = st_log st"
    "retry_cached_encrypted_event env cx st = and_then (process_any_timeline_event env e st1) (\<lambda>action st. (Inr (), case action of
        Some a \<Rightarrow> process_successful_redecryption a st | None \<Rightarrow> redact_encrypted_message i st))"
proof -
  obtain st1 where st1: "on_room (remove_encrypted_event i) st = (Inr (), st1)" "unpoisoned (st_room st1)"
    "waiting st1 = hm_remove i (waiting st)" "st_log st1 = st_log st"
    by (rule remove_waiting [OF assms(1)])
  moreover have "retry_cached_encrypted_event env cx st = and_then (process_any_timeline_event env e st1)
      (\<lambda>action st. (Inr (), case action of
        Some a \<Rightarrow> process_successful_redecryption a st | None \<Rightarrow> redact_encrypted_message i st))"
    using assms(2) st1
    by (auto simp: decrypts_to_def retry_cached_encrypted_event_def process_timeline_event_def
        process_decrypted_event_def split: sum.splits timeline_kind.splits)
  ultimately show ?thesis using that by blast
qed

lemma retry_one:
  assumes "unpoisoned (st_room st)" "decrypts_to env i cx e" "\<not> unknown_poll e"
  obtains st' new where "retry_cached_encrypted_event env cx st = (Inr (), st')" "unpoisoned (st_room st')"
    "waiting st' = hm_remove i (waiting st)" "st_log st' = st_log st @ new" "placeholders new = [i]"
proof -
  have i: "ev_id e = i" using assms(2) by (auto simp: decrypts_to_def split: sum.splits timeline_kind.splits)
  obtain st1 where st1: "unpoisoned (st_room st1)"
    "waiting st1 = hm_remove i (waiting st)" "st_log st1 = st_log st"
    "retry_cached_encrypted_event env cx st = and_then (process_any_timeline_event env e st1) (\<lambda>action st. (Inr (), case action of
        Some a \<Rightarrow> process_successful_redecryption a st | None \<Rightarrow> redact_encrypted_message i st))"
    by (rule retry_decrypted [OF assms(1,2)])
  from process_any_timeline_event_outcome [OF st1(1), of env e] assms(3)
  obtain action st2 where st2: "process_any_timeline_event env e st1 = (Inr action, st2)" "unpoisoned (st_room st2)"
    by auto
  note c = concerns_any_timeline_event [of e env]
  have q: "unnoticed st1 st2" and s: "action = Some a \<Longrightarrow> subject a = i" for a
    using concernsD [OF c] st2(1) i by blast+
  let ?st = "case action of Some a \<Rightarrow> process_successful_redecryption a st2 | None \<Rightarrow> redact_encrypted_message i st2"
  have "\<exists>new. ?st = st2\<lparr>st_log := st_log st2 @ new\<rparr> \<and> placeholders new = [i]"
    using process_redecryption_placeholder(1) [of _ st2] process_redecryption_placeholder(2) [of i st2] s
    by (cases action) auto
  then obtain new where new: "?st = st2\<lparr>st_log := st_log st2 @ new\<rparr>" "placeholders new = [i]" by blast
  show ?thesis
    by (rule that [of "st2\<lparr>st_log := st_log st2 @ new\<rparr>" new])
      (use st1 st2 new waiting_unnoticed [OF q] q in \<open>simp_all add: waiting_def unnoticed_def\<close>)
qed

text \<open>An event that decrypts to the start of a poll of an unknown kind is forgotten, and the retry fails.\<close>

lemma retry_unknown_poll:
  assumes "unpoisoned (st_room st)" "decrypts_to env i cx e" "unknown_poll e"
  obtains st' where "retry_cached_encrypted_event env cx st = (Inl UnableToAssembleMessage, st')"
    "unpoisoned (st_room st')" "waiting st' = hm_remove i (waiting st)" "st_log st' = st_log st"
proof -
  obtain st1 where st1: "unpoisoned (st_room st1)" "waiting st1 = hm_remove i (waiting st)" "st_log st1 = st_log st"
    "retry_cached_encrypted_event env cx st = and_then (process_any_timeline_event env e st1)
      (\<lambda>action st. (Inr (), case action of
        Some a \<Rightarrow> process_successful_redecryption a st | None \<Rightarrow> redact_encrypted_message i st))"
    by (rule retry_decrypted [OF assms(1,2)])
  from process_any_timeline_event_outcome [OF st1(1), of env e] assms(3) obtain st2 where
    st2: "process_any_timeline_event env e st1 = (Inl UnableToAssembleMessage, st2)" "unpoisoned (st_room st2)" by auto
  from concernsD(1) [OF concerns_any_timeline_event st2(1)] have "unnoticed st1 st2" .
  with st1 st2 that show ?thesis by (simp add: waiting_def unnoticed_def)
qed

definition opened :: "room_env \<Rightarrow> (string, cached_encrypted_event) hmap \<Rightarrow> string list" where
  "opened env es = map fst (filter (\<lambda>(_, cx). \<not> still_encrypted env cx) es)"

lemma opened_simps [simp]:
  "opened env [] = []"
  "opened env ((i, cx) # es) = (if still_encrypted env cx then opened env es else i # opened env es)"
  by (simp_all add: opened_def)

lemma hm_remove_filter: "hm_remove i m = filter (\<lambda>q. fst q \<noteq> i) m"
  by (auto simp: hm_remove_def AList.delete_eq intro: filter_cong)

lemma retry_events_placeholders:
  assumes "unpoisoned (st_room st)" "list_all (decrypts_in_place env) es"
  shows "\<exists>st' new. retry_events env (map snd es) st =
      (if list_ex (decrypts_to_unknown_poll env) es then Inl UnableToAssembleMessage else Inr (), st') \<and>
    unpoisoned (st_room st') \<and>
    waiting st' = filter (\<lambda>q. fst q \<notin> set (opened env (tried env es))) (waiting st) \<and>
    st_log st' = st_log st @ new \<and>
    placeholders new = opened env (filter (\<lambda>q. \<not> decrypts_to_unknown_poll env q) (tried env es))"
  using assms
proof (induction es arbitrary: st)
  case (Cons q es)
  obtain i cx where q: "q = (i, cx)" by (cases q)
  show ?case
  proof (cases "still_encrypted env cx")
    case True
    then have "\<not> decrypts_to_unknown_poll env q"
      by (auto simp: q decrypts_to_unknown_poll_def dest: decrypts_to_open)
    with True Cons.IH [OF Cons.prems(1)] Cons.prems(2) q show ?thesis by (simp add: retry_still_encrypted)
  next
    case False
    with Cons.prems(2) q obtain e where e: "decrypts_to env i cx e"
      by (auto simp: decrypts_in_place_def)
    show ?thesis
    proof (cases "unknown_poll e")
      case True
      then have b: "decrypts_to_unknown_poll env q" using e q by (auto simp: decrypts_to_unknown_poll_def)
      obtain st' where st': "retry_cached_encrypted_event env cx st = (Inl UnableToAssembleMessage, st')"
        "unpoisoned (st_room st')" "waiting st' = hm_remove i (waiting st)" "st_log st' = st_log st"
        by (rule retry_unknown_poll [OF Cons.prems(1) e True])
      have "retry_events env (map snd (q # es)) st = (Inl UnableToAssembleMessage, st')"
        by (simp add: q st'(1))
      moreover have "tried env (q # es) = [q]" "opened env [q] = [i]"
        using b q \<open>\<not> still_encrypted env cx\<close> by simp_all
      ultimately show ?thesis using st'(2-4) b
        by (intro exI [of _ st'] exI [of _ "[]"]) (simp add: hm_remove_filter)
    next
      case known: False
      then have b: "\<not> decrypts_to_unknown_poll env q"
        unfolding decrypts_to_unknown_poll_def q fst_conv snd_conv using decrypts_to_unique [OF e] by metis
      obtain st1 new where st1: "retry_cached_encrypted_event env cx st = (Inr (), st1)" "unpoisoned (st_room st1)"
        "waiting st1 = hm_remove i (waiting st)" "st_log st1 = st_log st @ new" "placeholders new = [i]"
        by (rule retry_one [OF Cons.prems(1) e known])
      obtain st' new' where st': "retry_events env (map snd es) st1 =
          (if list_ex (decrypts_to_unknown_poll env) es then Inl UnableToAssembleMessage else Inr (), st')"
        "unpoisoned (st_room st')" "waiting st' = filter (\<lambda>q. fst q \<notin> set (opened env (tried env es))) (waiting st1)"
        "st_log st' = st_log st1 @ new'"
        "placeholders new' = opened env (filter (\<lambda>q. \<not> decrypts_to_unknown_poll env q) (tried env es))"
        using Cons.IH [OF st1(2)] Cons.prems(2) by auto
      have tried: "tried env (q # es) = q # tried env es" "list_ex (decrypts_to_unknown_poll env) (q # es) =
          list_ex (decrypts_to_unknown_poll env) es" using b by simp_all
      have run: "retry_events env (map snd (q # es)) st =
          (if list_ex (decrypts_to_unknown_poll env) es then Inl UnableToAssembleMessage else Inr (), st')"
        by (simp add: q st1(1) st'(1))
      have left: "waiting st' = filter (\<lambda>p. fst p \<notin> set (opened env (q # tried env es))) (waiting st)"
        unfolding st'(3) st1(3) hm_remove_filter filter_filter
        using \<open>\<not> still_encrypted env cx\<close> by (simp add: q)
      have told: "st_log st' = st_log st @ new @ new'" "placeholders (new @ new') =
          opened env (filter (\<lambda>q. \<not> decrypts_to_unknown_poll env q) (q # tried env es))"
        using st'(4,5) st1(4,5) b \<open>\<not> still_encrypted env cx\<close> by (simp_all add: q)
      show ?thesis unfolding tried run left
        using st'(2) told by (intro exI [of _ st'] exI [of _ "new @ new'"]) (simp add: left)
    qed
  qed
qed simp

definition selected :: "string list option \<Rightarrow> (string, cached_encrypted_event) hmap \<Rightarrow> (string, cached_encrypted_event) hmap" where
  "selected ids es = filter (\<lambda>q. selects ids (fst q)) es"

lemma events_for_redecryption:
  "unpoisoned (st_room st) \<Longrightarrow> get_events_for_redecryption ids (st_room st) = Inr (map snd (selected ids (waiting st)))"
  by (auto simp: get_events_for_redecryption_def unpoisoned_def lock_ok selected_def selects_def waiting_def
      hm_values_def case_prod_unfold split: option.split)

lemma retry_events_still_encrypted:
  "list_all (\<lambda>(_, cx). still_encrypted env cx) es \<Longrightarrow> retry_events env (map snd es) st = (Inr (), st)"
  by (induction es) (auto simp: retry_still_encrypted)

text \<open>A room with two events that wait; the key of the first has arrived, and it decrypts to an event with the given body.\<close>

definition key_arrived :: "event_body \<Rightarrow> room_env \<Rightarrow> room_env" where
  "key_arrived body env = env\<lparr>
     en_decrypt := \<lambda>raw. if raw = ''known'' then Inr \<lparr>te_kind = Decrypted ''clear'', te_event_id = Some ''$e'',
       te_sender = None, te_timestamp = None\<rparr> else Inl SdkAuthenticationRequired,
     en_parsers := example_parsers\<lparr>parse_full := \<lambda>_. Some (into_full_event \<lparr>ev_id = ''$e'', ev_sender = ''@a:x'',
       ev_ts = 1, ev_body = body\<rparr> ''!r'')\<rparr>\<rparr>"

definition stuck :: "string \<Rightarrow> cached_encrypted_event" where
  "stuck raw = \<lparr>cx_event = raw, cx_session_id = None\<rparr>"

definition waiting_room :: room_state where
  "waiting_room = example_room_state\<lparr>st_room := (cached_room_new ''!r'')\<lparr>cr_encrypted_events :=
     new_mutex [(''$e'', stuck ''known''), (''$f'', stuck ''unknown'')]\<rparr>\<rparr>"

lemma waiting_room_simps [simp]:
  "unpoisoned (st_room waiting_room)" "waiting waiting_room = [(''$e'', stuck ''known''), (''$f'', stuck ''unknown'')]"
  "st_log waiting_room = []"
  by (simp_all add: waiting_room_def waiting_def unpoisoned_def cached_room_new_def new_mutex_def example_room_state_def)

lemma key_arrived_simps [simp]:
  "still_encrypted (key_arrived body env) (stuck raw) \<longleftrightarrow> raw \<noteq> ''known''"
  "decrypts_to (key_arrived body env) i (stuck ''known'') e \<longleftrightarrow> i = ''$e'' \<and>
     e = into_full_event \<lparr>ev_id = ''$e'', ev_sender = ''@a:x'', ev_ts = 1, ev_body = body\<rparr> ''!r''"
  by (auto simp: still_encrypted_def decrypts_to_def key_arrived_def stuck_def into_full_event_def)



text \<open>
  Claim C20: When the first event of a retry decrypts to the start of a poll of a kind that the
  application does not know, the retry fails and leaves the events behind it for the next one; the
  event is no longer among those that wait, so no retry reaches it again, and the application,
  which has been told nothing, keeps its placeholder.
\<close>

theorem unknown_poll_keeps_placeholder:
  assumes "unpoisoned (st_room st)" and "waiting st = (i, cx) # es"
    and "decrypts_to env i cx e" and "unknown_poll e"
  shows "\<exists>st'. retry_decryption env None st = (Inl UnableToAssembleMessage, st') \<and>
    waiting st' = hm_remove i es \<and> st_log st' = st_log st"
proof -
  obtain st1 where "retry_cached_encrypted_event env cx st = (Inl UnableToAssembleMessage, st1)"
    "waiting st1 = hm_remove i (waiting st)" "st_log st1 = st_log st"
    by (rule retry_unknown_poll [OF assms(1,3,4)])
  with assms(2) show ?thesis
    by (auto simp: retry_decryption_def events_for_redecryption [OF assms(1)] selected_def selects_def hm_remove_filter)
qed

theorem unknown_poll_keeps_placeholder_witness:
  "\<forall>env. \<exists>st'. retry_decryption (key_arrived (ev_body custom_poll) env) None waiting_room =
     (Inl UnableToAssembleMessage, st') \<and> waiting st' = [(''$f'', stuck ''unknown'')] \<and> st_log st' = []"
proof
  fix env
  show "\<exists>st'. retry_decryption (key_arrived (ev_body custom_poll) env) None waiting_room =
     (Inl UnableToAssembleMessage, st') \<and> waiting st' = [(''$f'', stuck ''unknown'')] \<and> st_log st' = []"
    using unknown_poll_keeps_placeholder [OF waiting_room_simps(1,2), of "key_arrived (ev_body custom_poll) env"]
    by (simp add: unknown_poll_def into_full_event_def custom_poll_def hm_remove_def)
qed

end
