(* ===== verification/Verification.thy ===== *)
theory Verification
  imports Bridge
begin

text \<open>
  verification.rs and sas.rs: the flow of an interactive verification.  A request waits for
  changes of its state and for actions of the user; when a short authentication string (SAS)
  is chosen by either side, the SAS flow takes over the actions and waits in the same way
  until the end.

  Both loops are \<open>select_loop\<close> on the list of inputs in the order in which \<open>select!\<close> serves
  them; at the end of the list the loop waits (\<open>Waiting\<close>).  The SDK's answers to the calls
  on the request and on the SAS may depend on the calls made before.  The locale \<open>event_flow\<close>
  is the contract of the handlers of a loop: a handler that goes on has not told the
  application that the flow ended, and one that stops has told so at most once, at last.
\<close>

section \<open>Methods\<close>

datatype verification_method_m = SasV1 | MethodOther string

fun cross_signing_methods_from_matrix :: "verification_method_m list \<Rightarrow> cross_signing_method list" where
  "cross_signing_methods_from_matrix [] = []"
| "cross_signing_methods_from_matrix (m # ms) =
     (if m = SasV1 then [SasString, SasSymbol] else []) @ cross_signing_methods_from_matrix ms"

definition get_available_methods ::
  "verification_method_m list \<Rightarrow> verification_method_m list \<Rightarrow> cross_signing_method list" where
  "get_available_methods our_methods their_methods =
     cross_signing_methods_from_matrix (filter (\<lambda>ours. ours \<in> set their_methods) our_methods)"

text \<open>A number that is no method is skipped.\<close>

fun methods_to_matrix ::
  "cross_signing_method proto_enum list \<Rightarrow> verification_method_m list \<Rightarrow> verification_method_m list" where
  "methods_to_matrix [] result = result"
| "methods_to_matrix (None # ms) result = methods_to_matrix ms result"
| "methods_to_matrix (Some _ # ms) result =
     methods_to_matrix ms (if SasV1 \<in> set result then result else result @ [SasV1])"

definition cross_signing_methods_to_matrix ::
  "cross_signing_method proto_enum list \<Rightarrow> verification_method_m list" where
  "cross_signing_methods_to_matrix methods = methods_to_matrix methods []"

section \<open>Flows\<close>

datatype verification_action = Cancel | Confirm | SelectMethod cross_signing_method

datatype verification_call = RequestCancel | RequestStartSas | SasAccept | SasCancel | SasConfirm

text \<open>The SDK's answers, an error being its text; a started SAS may be missing.\<close>

record verification_sdk =
  vk_request_cancel :: "verification_call list \<Rightarrow> string + unit"
  vk_start_sas :: "verification_call list \<Rightarrow> string + bool"
  vk_accept :: "verification_call list \<Rightarrow> string + unit"
  vk_sas_cancel :: "verification_call list \<Rightarrow> string + unit"
  vk_confirm :: "verification_call list \<Rightarrow> string + unit"

record flow_state =
  vf_calls :: "verification_call list"
  vf_log :: "response list"

definition flow_call ::
  "(verification_call list \<Rightarrow> 'r) \<Rightarrow> verification_call \<Rightarrow> flow_state \<Rightarrow> 'r \<times> flow_state" where
  "flow_call answer c w = (answer (vf_calls w), w\<lparr>vf_calls := vf_calls w @ [c]\<rparr>)"

definition flow_send :: "response \<Rightarrow> flow_state \<Rightarrow> flow_state" where
  "flow_send e w = w\<lparr>vf_log := vf_log w @ [e]\<rparr>"

definition send_verification_end_event :: "string \<Rightarrow> bool \<Rightarrow> flow_state \<Rightarrow> flow_state" where
  "send_verification_end_event flow_id success =
     flow_send (VerificationEndEvent (Some flow_id) (Successful success))"

definition send_verification_end_event_err :: "string \<Rightarrow> string \<Rightarrow> flow_state \<Rightarrow> flow_state" where
  "send_verification_end_event_err flow_id err =
     flow_send (VerificationEndEvent (Some flow_id) (EndError err))"

text \<open>A handler goes on with the loop, stops it, or is itself waiting in an inner loop.\<close>

datatype flow = Again | Stop | Waiting

datatype 's flow_input =
  StateInput 's
| StreamEnd
| ActionInput "verification_action option"

fun select_loop ::
  "('s \<Rightarrow> 'w \<Rightarrow> flow \<times> 'w) \<Rightarrow> (verification_action option \<Rightarrow> 'w \<Rightarrow> flow \<times> 'w) \<Rightarrow>
   's flow_input list \<Rightarrow> 'w \<Rightarrow> flow \<times> 'w" where
  "select_loop on_state on_action [] w = (Waiting, w)"
| "select_loop on_state on_action (StreamEnd # is) w = (Stop, w)"
| "select_loop on_state on_action (StateInput s # is) w =
     (case on_state s w of (Again, w) \<Rightarrow> select_loop on_state on_action is w | r \<Rightarrow> r)"
| "select_loop on_state on_action (ActionInput a # is) w =
     (case on_action a w of (Again, w) \<Rightarrow> select_loop on_state on_action is w | r \<Rightarrow> r)"

section \<open>The SAS flow\<close>

datatype sas_state =
  SasCreated
| SasStarted
| SasAccepted
| SasKeysExchanged "(string \<times> string) list option" "nat \<times> nat \<times> nat"
| SasConfirmed
| SasDone
| SasCancelled

definition digit :: "nat \<Rightarrow> char" where
  "digit n = char_of (48 + n)"

fun decimal :: "nat \<Rightarrow> string" where
  "decimal n = (if n < 10 then [digit n] else decimal (n div 10) @ [digit (n mod 10)])"

declare decimal.simps [simp del]

definition verification_code_of ::
  "(string \<times> string) list option \<Rightarrow> nat \<times> nat \<times> nat \<Rightarrow> verification_code" where
  "verification_code_of emojis decimals =
     (case emojis of
        Some es \<Rightarrow> Symbols (emojis_into_chat es)
      | None \<Rightarrow> (case decimals of (a, b, c) \<Rightarrow>
          StringCode (decimal a @ '' '' @ decimal b @ '' '' @ decimal c)))"

definition present_sas ::
  "string \<Rightarrow> (string \<times> string) list option \<Rightarrow> nat \<times> nat \<times> nat \<Rightarrow> flow_state \<Rightarrow> flow_state" where
  "present_sas flow_id emojis decimals =
     flow_send (CrossSigningMethodSelectedEvent flow_id
       (if emojis \<noteq> None then SasSymbol else SasString)
       (Some (verification_code_of emojis decimals)))"

definition sas_process_state_change :: "string \<Rightarrow> sas_state \<Rightarrow> flow_state \<Rightarrow> flow \<times> flow_state" where
  "sas_process_state_change flow_id state w =
     (case state of
        SasKeysExchanged emojis decimals \<Rightarrow> (Again, present_sas flow_id emojis decimals w)
      | SasDone \<Rightarrow> (Stop, send_verification_end_event flow_id True w)
      | SasCancelled \<Rightarrow> (Stop, send_verification_end_event flow_id False w)
      | _ \<Rightarrow> (Again, w))"

definition sas_cancel :: "verification_sdk \<Rightarrow> string \<Rightarrow> flow_state \<Rightarrow> flow_state" where
  "sas_cancel sdk flow_id w =
     (case flow_call (vk_sas_cancel sdk) SasCancel w of
        (Inl err, w) \<Rightarrow> send_verification_end_event_err flow_id err w
      | (Inr _, w) \<Rightarrow> send_verification_end_event flow_id False w)"

definition sas_process_action ::
  "verification_sdk \<Rightarrow> string \<Rightarrow> verification_action option \<Rightarrow> flow_state \<Rightarrow> flow \<times> flow_state" where
  "sas_process_action sdk flow_id action w =
     (case action of
        None \<Rightarrow> (Stop, w)
      | Some Cancel \<Rightarrow> (Stop, sas_cancel sdk flow_id w)
      | Some Confirm \<Rightarrow>
          (case flow_call (vk_confirm sdk) SasConfirm w of
             (Inl err, w) \<Rightarrow> (Stop, send_verification_end_event_err flow_id err w)
           | (Inr _, w) \<Rightarrow> (Again, w))
      | Some (SelectMethod _) \<Rightarrow> (Again, w))"

definition sas_run ::
  "verification_sdk \<Rightarrow> string \<Rightarrow> sas_state flow_input list \<Rightarrow> flow_state \<Rightarrow> flow \<times> flow_state" where
  "sas_run sdk flow_id = select_loop (sas_process_state_change flow_id) (sas_process_action sdk flow_id)"

section \<open>The request flow\<close>

text \<open>A transition names the verification: a SAS, or another kind.\<close>

datatype request_state =
  RqCreated
| RqRequested
| RqReady "verification_method_m list" "verification_method_m list"
| RqTransitioned bool
| RqDone
| RqCancelled

definition unsupported_flow :: string where
  "unsupported_flow = ''Verification request transitioned into an unsupported verification flow''"

definition request_cancel :: "verification_sdk \<Rightarrow> string \<Rightarrow> flow_state \<Rightarrow> flow_state" where
  "request_cancel sdk flow_id w =
     (case flow_call (vk_request_cancel sdk) RequestCancel w of
        (Inl err, w) \<Rightarrow> send_verification_end_event_err flow_id err w
      | (Inr _, w) \<Rightarrow> send_verification_end_event flow_id False w)"

definition request_cancel_err :: "verification_sdk \<Rightarrow> string \<Rightarrow> string \<Rightarrow> flow_state \<Rightarrow> flow_state" where
  "request_cancel_err sdk flow_id err w =
     send_verification_end_event_err flow_id err
       (snd (flow_call (vk_request_cancel sdk) RequestCancel w))"

text \<open>Their methods come first in the state, as in the SDK's variant.\<close>

definition request_process_state_change ::
  "verification_sdk \<Rightarrow> string \<Rightarrow> sas_state flow_input list \<Rightarrow> request_state \<Rightarrow> flow_state \<Rightarrow>
   flow \<times> flow_state" where
  "request_process_state_change sdk flow_id sas_inputs change w =
     (case change of
        RqCreated \<Rightarrow> (Again, w)
      | RqRequested \<Rightarrow> (Again, w)
      | RqReady their_methods our_methods \<Rightarrow>
          (Again, flow_send (CrossSigningStartEvent flow_id
             (get_available_methods our_methods their_methods)) w)
      | RqTransitioned is_sas \<Rightarrow>
          if \<not> is_sas then (Stop, request_cancel_err sdk flow_id unsupported_flow w)
          else (case flow_call (vk_accept sdk) SasAccept w of
                  (Inl err, w) \<Rightarrow> (Stop, request_cancel_err sdk flow_id err w)
                | (Inr _, w) \<Rightarrow> sas_run sdk flow_id sas_inputs w)
      | RqDone \<Rightarrow> (Stop, w)
      | RqCancelled \<Rightarrow> (Stop, send_verification_end_event flow_id False w))"

definition request_process_action ::
  "verification_sdk \<Rightarrow> string \<Rightarrow> sas_state flow_input list \<Rightarrow> verification_action option \<Rightarrow>
   flow_state \<Rightarrow> flow \<times> flow_state" where
  "request_process_action sdk flow_id sas_inputs action w =
     (case action of
        None \<Rightarrow> (Stop, w)
      | Some Cancel \<Rightarrow> (Stop, request_cancel sdk flow_id w)
      | Some (SelectMethod _) \<Rightarrow>
          (case flow_call (vk_start_sas sdk) RequestStartSas w of
             (Inl err, w) \<Rightarrow> (Stop, request_cancel_err sdk flow_id err w)
           | (Inr False, w) \<Rightarrow> (Stop, request_cancel_err sdk flow_id ''Error starting SAS request'' w)
           | (Inr True, w) \<Rightarrow> sas_run sdk flow_id sas_inputs w)
      | Some Confirm \<Rightarrow> (Again, w))"

definition wait_for_changes ::
  "verification_sdk \<Rightarrow> string \<Rightarrow> sas_state flow_input list \<Rightarrow> request_state flow_input list \<Rightarrow>
   flow_state \<Rightarrow> flow \<times> flow_state" where
  "wait_for_changes sdk flow_id sas_inputs =
     select_loop (request_process_state_change sdk flow_id sas_inputs)
       (request_process_action sdk flow_id sas_inputs)"

section \<open>The manager\<close>

text \<open>
  The manager of a flow holds the sender of the actions, here with what has been sent, and
  the handle of the task; sending to a flow that has ended is ignored.
\<close>

record verification_manager =
  vm_flow_id :: string
  vm_actions :: "verification_action list"
  vm_finished :: bool

definition from_verification_request :: "string \<Rightarrow> verification_manager" where
  "from_verification_request flow_id =
     \<lparr>vm_flow_id = flow_id, vm_actions = [], vm_finished = False\<rparr>"

definition vm_is_active :: "verification_manager \<Rightarrow> bool" where
  "vm_is_active m \<longleftrightarrow> \<not> vm_finished m"

definition vm_send :: "verification_action \<Rightarrow> verification_manager \<Rightarrow> verification_manager" where
  "vm_send a m = (if vm_finished m then m else m\<lparr>vm_actions := vm_actions m @ [a]\<rparr>)"

definition vm_cancel :: "verification_manager \<Rightarrow> verification_manager" where
  "vm_cancel = vm_send Cancel"

definition vm_confirm :: "verification_manager \<Rightarrow> verification_manager" where
  "vm_confirm = vm_send Confirm"

definition vm_select_method :: "cross_signing_method \<Rightarrow> verification_manager \<Rightarrow> verification_manager" where
  "vm_select_method method = vm_send (SelectMethod method)"

section \<open>The contract of the handlers\<close>

fun ends_flow :: "response \<Rightarrow> bool" where
  "ends_flow (VerificationEndEvent _ _) = True"
| "ends_flow _ = False"

text \<open>The events of a handler that has answered \<open>r\<close>.\<close>

definition events_ok :: "flow \<Rightarrow> response list \<Rightarrow> bool" where
  "events_ok r es \<longleftrightarrow> (\<exists>pre post. es = pre @ post \<and> (\<forall>e \<in> set pre. \<not> ends_flow e) \<and>
     (post = [] \<or> r = Stop \<and> length post = 1))"

lemma events_ok_Nil [simp]: "events_ok r []"
  by (simp add: events_ok_def)

lemma events_ok_single [simp]: "events_ok r [e] \<longleftrightarrow> \<not> ends_flow e \<or> r = Stop"
  unfolding events_ok_def by (cases r) (force simp: append_eq_Cons_conv Cons_eq_append_conv)+

lemma events_ok_Again: "events_ok Again es \<Longrightarrow> e \<in> set es \<Longrightarrow> \<not> ends_flow e"
  by (auto simp: events_ok_def)

lemma events_ok_append:
  assumes "events_ok Again es" "events_ok r fs"
  shows "events_ok r (es @ fs)"
proof -
  from assms(2) obtain pre post where f: "fs = pre @ post" "\<forall>e \<in> set pre. \<not> ends_flow e"
    "post = [] \<or> r = Stop \<and> length post = 1" unfolding events_ok_def by blast
  then show ?thesis
    using events_ok_Again [OF assms(1)] unfolding events_ok_def
    by (intro exI [of _ "es @ pre"] exI [of _ post]) auto
qed

text \<open>
  \<open>handled cause r w w'\<close>: the handler has answered \<open>r\<close>, has only appended to the log, and
  each event has the cause.
\<close>

definition handled :: "(response \<Rightarrow> bool) \<Rightarrow> flow \<Rightarrow> flow_state \<Rightarrow> flow_state \<Rightarrow> bool" where
  "handled cause r w w' \<longleftrightarrow>
     (\<exists>es. vf_log w' = vf_log w @ es \<and> events_ok r es \<and> (\<forall>e \<in> set es. cause e))"

lemma handled_refl [simp]: "handled cause r w w"
  by (simp add: handled_def)

lemma handled_weaken: "handled c r w w' \<Longrightarrow> (\<And>e. c e \<Longrightarrow> c' e) \<Longrightarrow> handled c' r w w'"
  unfolding handled_def by blast

lemma handled_trans:
  assumes "handled c Again w w'" "handled c r w' w''"
  shows "handled c r w w''"
proof -
  obtain es fs where "vf_log w' = vf_log w @ es" "events_ok Again es" "\<forall>e \<in> set es. c e"
    "vf_log w'' = vf_log w' @ fs" "events_ok r fs" "\<forall>e \<in> set fs. c e"
    using assms unfolding handled_def by blast
  then show ?thesis
    unfolding handled_def by (intro exI [of _ "es @ fs"]) (auto intro: events_ok_append)
qed

lemma flow_send_log [simp]: "vf_log (flow_send e w) = vf_log w @ [e]"
  by (simp add: flow_send_def)

lemma flow_call_log [simp]: "vf_log (snd (flow_call f c w)) = vf_log w"
  by (simp add: flow_call_def)

lemma handled_send [simp]:
  "handled c r w (flow_send e w) \<longleftrightarrow> c e \<and> (\<not> ends_flow e \<or> r = Stop)"
  unfolding handled_def by auto

locale event_flow =
  fixes on_state :: "'s \<Rightarrow> flow_state \<Rightarrow> flow \<times> flow_state"
    and on_action :: "verification_action option \<Rightarrow> flow_state \<Rightarrow> flow \<times> flow_state"
    and cause :: "'s flow_input \<Rightarrow> response \<Rightarrow> bool"
  assumes state_handled: "on_state s w = (r, w') \<Longrightarrow> handled (cause (StateInput s)) r w w'"
    and action_handled: "on_action a w = (r, w') \<Longrightarrow> handled (cause (ActionInput a)) r w w'"
begin

lemma handled_next:
  assumes "handled (cause i) Again w w1" "handled (\<lambda>e. \<exists>j \<in> set is. cause j e) r w1 w'"
  shows "handled (\<lambda>e. \<exists>j \<in> set (i # is). cause j e) r w w'"
  by (rule handled_trans) (auto intro: handled_weaken [OF assms(1)] handled_weaken [OF assms(2)])

lemma loop_handled:
  "select_loop on_state on_action is w = (r, w') \<Longrightarrow>
   handled (\<lambda>e. \<exists>i \<in> set is. cause i e) r w w' \<and> r \<noteq> Again"
proof (induction "is" arbitrary: w)
  case (Cons i "is")
  have step: ?case
    if h: "handled (cause i) r1 w w1"
      and l: "(case (r1, w1) of (Again, w) \<Rightarrow> select_loop on_state on_action is w | r \<Rightarrow> r) = (r, w')"
    for r1 w1
  proof (cases "r1 = Again")
    case True
    with l have "select_loop on_state on_action is w1 = (r, w')" by simp
    from Cons.IH [OF this] h True show ?thesis using handled_next by blast
  next
    case False
    with l have "r = r1" "w' = w1" by (auto split: flow.splits)
    with h False show ?thesis by (auto intro: handled_weaken)
  qed
  show ?case
  proof (cases i)
    case (StateInput s)
    obtain r1 w1 where h: "on_state s w = (r1, w1)" by (cases "on_state s w")
    from step [OF state_handled [OF h, folded StateInput]] Cons.prems StateInput h show ?thesis by simp
  next
    case StreamEnd
    with Cons.prems show ?thesis by auto
  next
    case (ActionInput a)
    obtain r1 w1 where h: "on_action a w = (r1, w1)" by (cases "on_action a w")
    from step [OF action_handled [OF h, folded ActionInput]] Cons.prems ActionInput h show ?thesis by simp
  qed
qed (auto simp: handled_def)

end

section \<open>Both flows keep it\<close>

text \<open>What each input can make a flow send.\<close>

definition end_failed :: "string \<Rightarrow> response \<Rightarrow> bool" where
  "end_failed flow_id e \<longleftrightarrow>
     (\<exists>x. e = VerificationEndEvent (Some flow_id) x \<and> x \<noteq> Successful True)"

fun sas_cause :: "string \<Rightarrow> sas_state flow_input \<Rightarrow> response \<Rightarrow> bool" where
  "sas_cause f (StateInput (SasKeysExchanged es ds)) e \<longleftrightarrow>
     e = CrossSigningMethodSelectedEvent f (if es \<noteq> None then SasSymbol else SasString)
           (Some (verification_code_of es ds))"
| "sas_cause f (StateInput SasDone) e \<longleftrightarrow> e = VerificationEndEvent (Some f) (Successful True)"
| "sas_cause f (StateInput SasCancelled) e \<longleftrightarrow> end_failed f e"
| "sas_cause f (ActionInput (Some Cancel)) e \<longleftrightarrow> end_failed f e"
| "sas_cause f (ActionInput (Some Confirm)) e \<longleftrightarrow> end_failed f e"
| "sas_cause f _ e \<longleftrightarrow> False"

lemma end_failed_simps [simp]:
  "end_failed f (VerificationEndEvent (Some f) (Successful False))"
  "end_failed f (VerificationEndEvent (Some f) (EndError m))"
  "\<not> end_failed f (VerificationEndEvent g (Successful True))"
  by (simp_all add: end_failed_def)

lemmas end_events = send_verification_end_event_def send_verification_end_event_err_def

definition failed_result :: "string + unit \<Rightarrow> end_result" where
  "failed_result r = (case r of Inl err \<Rightarrow> EndError err | Inr _ \<Rightarrow> Successful False)"

lemma end_failed_result [simp]: "end_failed f (VerificationEndEvent (Some f) (failed_result r))"
  by (cases r) (simp_all add: failed_result_def)

lemma sas_cancel_log:
  "vf_log (sas_cancel sdk f w) =
     vf_log w @ [VerificationEndEvent (Some f) (failed_result (vk_sas_cancel sdk (vf_calls w)))]"
  by (simp add: sas_cancel_def flow_call_def end_events failed_result_def split: sum.split)

lemma request_cancel_log:
  "vf_log (request_cancel sdk f w) =
     vf_log w @ [VerificationEndEvent (Some f) (failed_result (vk_request_cancel sdk (vf_calls w)))]"
  by (simp add: request_cancel_def flow_call_def end_events failed_result_def split: sum.split)

lemma request_cancel_err_log:
  "vf_log (request_cancel_err sdk f m w) = vf_log w @ [VerificationEndEvent (Some f) (EndError m)]"
  by (simp add: request_cancel_err_def flow_call_def end_events)

lemma handled_one:
  "vf_log w' = vf_log w @ [e] \<Longrightarrow> c e \<Longrightarrow> handled c Stop w w'"
  unfolding handled_def by (intro exI [of _ "[e]"]) simp

lemma handled_log: "vf_log w1 = vf_log w \<Longrightarrow> handled p r w1 w' = handled p r w w'"
  by (simp add: handled_def)

interpretation sas: event_flow "sas_process_state_change flow_id" "sas_process_action sdk flow_id"
  "sas_cause flow_id" for sdk flow_id
proof
  show "handled (sas_cause flow_id (StateInput s)) r w w'"
    if "sas_process_state_change flow_id s w = (r, w')" for s w r w'
    using that by (cases s) (auto simp: sas_process_state_change_def end_events present_sas_def)
  show "handled (sas_cause flow_id (ActionInput a)) r w w'"
    if h: "sas_process_action sdk flow_id a w = (r, w')" for a w r w'
  proof (cases a)
    case None
    with h show ?thesis by (simp add: sas_process_action_def)
  next
    case (Some b)
    show ?thesis
    proof (cases b)
      case Cancel
      with Some h have "r = Stop" "w' = sas_cancel sdk flow_id w" by (simp_all add: sas_process_action_def)
      then show ?thesis using handled_one [OF sas_cancel_log] by (simp add: Some Cancel)
    next
      case Confirm
      show ?thesis
      proof (cases "vk_confirm sdk (vf_calls w)")
        case (Inl err)
        with Some Confirm h have "r = Stop"
          "vf_log w' = vf_log w @ [VerificationEndEvent (Some flow_id) (EndError err)]"
          by (auto simp: sas_process_action_def flow_call_def end_events)
        then show ?thesis using handled_one by (simp add: Some Confirm)
      next
        case (Inr u)
        with Some Confirm h have "vf_log w' = vf_log w" by (auto simp: sas_process_action_def flow_call_def)
        then show ?thesis using handled_log [of w' w _ r w'] by simp
      qed
    next
      case (SelectMethod m)
      with Some h show ?thesis by (simp add: sas_process_action_def)
    qed
  qed
qed

text \<open>The SAS flow of a request and its inputs.\<close>

definition sas_caused :: "string \<Rightarrow> sas_state flow_input list \<Rightarrow> response \<Rightarrow> bool" where
  "sas_caused f sas_inputs e \<longleftrightarrow> end_failed f e \<or> (\<exists>j \<in> set sas_inputs. sas_cause f j e)"

fun request_cause ::
  "string \<Rightarrow> sas_state flow_input list \<Rightarrow> request_state flow_input \<Rightarrow> response \<Rightarrow> bool" where
  "request_cause f is (StateInput (RqReady theirs ours)) e \<longleftrightarrow>
     e = CrossSigningStartEvent f (get_available_methods ours theirs)"
| "request_cause f is (StateInput (RqTransitioned b)) e \<longleftrightarrow> (if b then sas_caused f is e else end_failed f e)"
| "request_cause f is (StateInput RqCancelled) e \<longleftrightarrow> end_failed f e"
| "request_cause f is (ActionInput (Some Cancel)) e \<longleftrightarrow> end_failed f e"
| "request_cause f is (ActionInput (Some (SelectMethod _))) e \<longleftrightarrow> sas_caused f is e"
| "request_cause f is _ e \<longleftrightarrow> False"

lemma sas_run_handled:
  "sas_run sdk f is w = (r, w') \<Longrightarrow> handled (sas_caused f is) r w w'"
  unfolding sas_run_def sas_caused_def by (drule sas.loop_handled) (auto elim: handled_weaken)

lemma sas_caused_error: "sas_caused f is (VerificationEndEvent (Some f) (EndError m))"
  by (simp add: sas_caused_def)

text \<open>A SAS flow that is entered after a call, or refused with a failed call.\<close>

lemma enter_sas_handled:
  assumes "vf_log w1 = vf_log w" "sas_run sdk f is w1 = (r, w')"
  shows "handled (sas_caused f is) r w w'"
  using sas_run_handled [OF assms(2)] handled_log [OF assms(1)] by simp

lemma refuse_sas_handled:
  assumes "vf_log w1 = vf_log w"
  shows "handled (sas_caused f is) Stop w (request_cancel_err sdk f m w1)"
proof -
  have "vf_log (request_cancel_err sdk f m w1) = vf_log w @ [VerificationEndEvent (Some f) (EndError m)]"
    by (simp add: request_cancel_err_log assms)
  from handled_one [OF this, of "sas_caused f is"] sas_caused_error show ?thesis by simp
qed

lemma request_state_handled:
  assumes h: "request_process_state_change sdk flow_id sas_inputs s w = (r, w')"
  shows "handled (request_cause flow_id sas_inputs (StateInput s)) r w w'"
proof (cases s)
  case (RqTransitioned b)
  let ?w1 = "snd (flow_call (vk_accept sdk) SasAccept w)"
  have l: "vf_log ?w1 = vf_log w" by (simp add: flow_call_def)
  show ?thesis
  proof (cases b)
    case b: True
    have "handled (sas_caused flow_id sas_inputs) r w w'"
    proof (cases "vk_accept sdk (vf_calls w)")
      case (Inl err)
      with h RqTransitioned b have "r = Stop \<and> (\<exists>m. w' = request_cancel_err sdk flow_id m ?w1)"
        by (auto simp: request_process_state_change_def flow_call_def)
      then show ?thesis using refuse_sas_handled [OF l] by blast
    next
      case (Inr u)
      with h RqTransitioned b have "sas_run sdk flow_id sas_inputs ?w1 = (r, w')"
        by (simp add: request_process_state_change_def flow_call_def)
      with l show ?thesis by (rule enter_sas_handled)
    qed
    then show ?thesis by (rule handled_weaken) (simp add: RqTransitioned b)
  next
    case False
    with h RqTransitioned have "r = Stop" "w' = request_cancel_err sdk flow_id unsupported_flow w"
      by (simp_all add: request_process_state_change_def)
    then show ?thesis
      using handled_one [OF request_cancel_err_log] False by (simp add: RqTransitioned)
  qed
qed (use h in \<open>auto simp: request_process_state_change_def end_events\<close>)

lemma request_action_handled:
  assumes h: "request_process_action sdk flow_id sas_inputs a w = (r, w')"
  shows "handled (request_cause flow_id sas_inputs (ActionInput a)) r w w'"
proof (cases a)
  case None
  with h show ?thesis by (simp add: request_process_action_def)
next
  case (Some b)
  show ?thesis
  proof (cases b)
    case (SelectMethod m)
    let ?w1 = "snd (flow_call (vk_start_sas sdk) RequestStartSas w)"
    have l: "vf_log ?w1 = vf_log w" by (simp add: flow_call_def)
    have "handled (sas_caused flow_id sas_inputs) r w w'"
    proof (cases "vk_start_sas sdk (vf_calls w) = Inr True")
      case True
      with h Some SelectMethod have "sas_run sdk flow_id sas_inputs ?w1 = (r, w')"
        by (simp add: request_process_action_def flow_call_def)
      with l show ?thesis by (rule enter_sas_handled)
    next
      case False
      have "r = Stop \<and> (\<exists>m. w' = request_cancel_err sdk flow_id m ?w1)"
        using h Some SelectMethod False
        by (cases "vk_start_sas sdk (vf_calls w)")
          (auto simp: request_process_action_def flow_call_def split: bool.splits)
      then show ?thesis using refuse_sas_handled [OF l] by blast
    qed
    then show ?thesis by (rule handled_weaken) (simp add: Some SelectMethod)
  next
    case Cancel
    with Some h have "r = Stop" "w' = request_cancel sdk flow_id w" by (simp_all add: request_process_action_def)
    then show ?thesis using handled_one [OF request_cancel_log] by (simp add: Some Cancel)
  next
    case Confirm
    with Some h show ?thesis by (simp add: request_process_action_def)
  qed
qed

interpretation request: event_flow "request_process_state_change sdk flow_id sas_inputs"
  "request_process_action sdk flow_id sas_inputs" "request_cause flow_id sas_inputs"
  for sdk flow_id sas_inputs
  by unfold_locales (rule request_state_handled request_action_handled, assumption)+

section \<open>Properties\<close>

text \<open>
  Claim C5: Whatever the devices and the user do and in whatever order, a verification flow
  tells the application at most once that it has ended, for its own flow ID, and sends nothing
  after that; while it has not stopped, it has not told so.
\<close>

theorem verification_ends_at_most_once:
  assumes "wait_for_changes sdk flow_id sas_inputs inputs \<lparr>vf_calls = [], vf_log = []\<rparr> = (r, w)"
  shows "\<exists>pre post. vf_log w = pre @ post \<and> (\<forall>e \<in> set pre. \<not> ends_flow e) \<and>
    (post = [] \<or> r = Stop \<and> (\<exists>x. post = [VerificationEndEvent (Some flow_id) x])) \<and> r \<noteq> Again"
proof -
  have c: "request_cause flow_id sas_inputs i e \<Longrightarrow> ends_flow e \<Longrightarrow>
      \<exists>x. e = VerificationEndEvent (Some flow_id) x" for i e
  proof -
    have s: "sas_cause flow_id j e \<Longrightarrow> ends_flow e \<Longrightarrow> \<exists>x. e = VerificationEndEvent (Some flow_id) x" for j
      by (cases "(flow_id, j, e)" rule: sas_cause.cases) (auto simp: end_failed_def)
    show "request_cause flow_id sas_inputs i e \<Longrightarrow> ends_flow e \<Longrightarrow>
      \<exists>x. e = VerificationEndEvent (Some flow_id) x"
      by (cases "(flow_id, sas_inputs, i, e)" rule: request_cause.cases)
        (auto simp: end_failed_def sas_caused_def dest: s split: if_splits)
  qed
  have h: "handled (\<lambda>e. \<exists>i \<in> set inputs. request_cause flow_id sas_inputs i e) r
      \<lparr>vf_calls = [], vf_log = []\<rparr> w \<and> r \<noteq> Again"
    by (rule request.loop_handled [where sdk = sdk]) (use assms in \<open>simp add: wait_for_changes_def\<close>)
  then obtain pre post where p: "vf_log w = pre @ post" "\<forall>e \<in> set pre. \<not> ends_flow e"
    "post = [] \<or> r = Stop \<and> length post = 1"
    "\<forall>e \<in> set post. \<exists>i \<in> set inputs. request_cause flow_id sas_inputs i e"
    unfolding handled_def events_ok_def by auto
  show ?thesis
  proof (cases "post = [] \<or> (\<exists>e. post = [e] \<and> \<not> ends_flow e)")
    case True
    with p(1,2) h show ?thesis by (intro exI [of _ "pre @ post"] exI [of _ "[]"]) auto
  next
    case False
    with p(3) obtain e where e: "post = [e]" "ends_flow e" "r = Stop" by (cases post) auto
    with p(4) c have "\<exists>x. e = VerificationEndEvent (Some flow_id) x" by auto
    with p(1,2) e h show ?thesis by (intro exI [of _ pre] exI [of _ post]) auto
  qed
qed

text \<open>An SDK that answers every call, and a flow that succeeds.\<close>

definition willing_sdk :: verification_sdk where
  "willing_sdk = \<lparr>vk_request_cancel = (\<lambda>_. Inr ()), vk_start_sas = (\<lambda>_. Inr True),
     vk_accept = (\<lambda>_. Inr ()), vk_sas_cancel = (\<lambda>_. Inr ()), vk_confirm = (\<lambda>_. Inr ())\<rparr>"

definition emoji_flow :: "sas_state flow_input list" where
  "emoji_flow = [StateInput SasStarted, StateInput (SasKeysExchanged None (1, 23, 456)),
     ActionInput (Some Confirm), StateInput SasConfirmed, StateInput SasDone]"

theorem verification_ends_at_most_once_witness:
  "\<exists>r w pre post. wait_for_changes willing_sdk ''f'' emoji_flow
      [StateInput RqCreated, ActionInput (Some (SelectMethod SasString))]
      \<lparr>vf_calls = [], vf_log = []\<rparr> = (r, w) \<and> vf_log w = pre @ post \<and> (\<forall>e \<in> set pre. \<not> ends_flow e)"
proof -
  obtain r w where w: "wait_for_changes willing_sdk ''f'' emoji_flow
      [StateInput RqCreated, ActionInput (Some (SelectMethod SasString))]
      \<lparr>vf_calls = [], vf_log = []\<rparr> = (r, w)" by (metis surj_pair)
  from verification_ends_at_most_once [OF w] w show ?thesis by blast
qed

text \<open>
  Claim C32: The application is told that a verification was successful only when the SAS flow
  has reached its final state, and the SAS flow was entered by the other device or by the
  user's choice of a method.
\<close>

theorem verification_success_needs_done:
  assumes "wait_for_changes sdk flow_id sas_inputs inputs \<lparr>vf_calls = [], vf_log = []\<rparr> = (r, w)"
    and "VerificationEndEvent f (Successful True) \<in> set (vf_log w)"
  shows "StateInput SasDone \<in> set sas_inputs \<and>
    (StateInput (RqTransitioned True) \<in> set inputs \<or>
     (\<exists>m. ActionInput (Some (SelectMethod m)) \<in> set inputs))"
proof -
  let ?e = "VerificationEndEvent f (Successful True)"
  have "handled (\<lambda>e. \<exists>i \<in> set inputs. request_cause flow_id sas_inputs i e) r
      \<lparr>vf_calls = [], vf_log = []\<rparr> w"
    by (rule request.loop_handled [where sdk = sdk, THEN conjunct1])
      (use assms(1) in \<open>simp add: wait_for_changes_def\<close>)
  then obtain i where i: "i \<in> set inputs" "request_cause flow_id sas_inputs i ?e"
    using assms(2) by (auto simp: handled_def)
  have s: "sas_cause flow_id j ?e \<Longrightarrow> j = StateInput SasDone" for j
    by (cases "(flow_id, j, ?e)" rule: sas_cause.cases) auto
  show ?thesis
  proof (cases "(flow_id, sas_inputs, i, ?e)" rule: request_cause.cases)
    case (2 f' is' b e)
    with i s show ?thesis by (cases b) (auto simp: sas_caused_def split: if_splits)
  next
    case (5 f' is' m e)
    with i s show ?thesis by (auto simp: sas_caused_def)
  qed (use i in auto)
qed

theorem verification_success_needs_done_witness:
  "StateInput SasDone \<in> set emoji_flow"
proof -
  let ?inputs = "[StateInput RqCreated, ActionInput (Some (SelectMethod SasString))]"
  obtain r w where w: "wait_for_changes willing_sdk ''f'' emoji_flow ?inputs
      \<lparr>vf_calls = [], vf_log = []\<rparr> = (r, w)"
    "VerificationEndEvent (Some ''f'') (Successful True) \<in> set (vf_log w)"
    by (simp add: wait_for_changes_def request_process_state_change_def request_process_action_def
        sas_run_def emoji_flow_def willing_sdk_def flow_call_def sas_process_state_change_def
        sas_process_action_def present_sas_def end_events flow_send_def)
  from verification_success_needs_done [OF w] show ?thesis by blast
qed

lemma sas_run_append:
  "sas_run sdk f (xs @ ys) w =
     (case sas_run sdk f xs w of (Waiting, w') \<Rightarrow> sas_run sdk f ys w' | r \<Rightarrow> r)"
proof (induction xs arbitrary: w)
  case (Cons i xs)
  have nw: "sas_process_state_change f s w = (r, w') \<Longrightarrow> r \<noteq> Waiting"
    "sas_process_action sdk f a w = (r, w') \<Longrightarrow> r \<noteq> Waiting" for s a r w w'
    by (auto simp: sas_process_state_change_def sas_process_action_def
        split: sas_state.splits option.splits verification_action.splits prod.splits sum.splits)
  show ?case
    using Cons.IH
    by (cases i) (auto simp: sas_run_def split: prod.splits flow.splits dest: nw)
qed (simp add: sas_run_def)

text \<open>
  A user who cancels a SAS flow that is waiting ends it at once, whatever has happened
  before and whatever arrives afterwards: the SAS is cancelled once and the one event sent says
  that the flow ended without success.
\<close>

theorem cancel_ends_sas:
  assumes "sas_run sdk flow_id before w = (Waiting, w1)"
  shows "\<exists>w2 x. sas_run sdk flow_id (before @ ActionInput (Some Cancel) # later) w = (Stop, w2) \<and>
    vf_calls w2 = vf_calls w1 @ [SasCancel] \<and>
    vf_log w2 = vf_log w1 @ [VerificationEndEvent (Some flow_id) x] \<and> x \<noteq> Successful True"
proof -
  let ?w2 = "sas_cancel sdk flow_id w1"
  have "sas_run sdk flow_id (before @ ActionInput (Some Cancel) # later) w = (Stop, ?w2)"
    unfolding sas_run_append assms by (simp add: sas_run_def sas_process_action_def)
  moreover have "vf_calls ?w2 = vf_calls w1 @ [SasCancel]"
    by (simp add: sas_cancel_def flow_call_def end_events flow_send_def split: sum.split)
  moreover have "failed_result r \<noteq> Successful True" for r by (cases r) (simp_all add: failed_result_def)
  ultimately show ?thesis using sas_cancel_log [of sdk flow_id w1] by auto
qed

theorem cancel_ends_sas_witness:
  "\<exists>w2. sas_run willing_sdk ''f''
     ([StateInput SasStarted] @ ActionInput (Some Cancel) # [StateInput SasDone])
     \<lparr>vf_calls = [], vf_log = []\<rparr> = (Stop, w2)"
proof -
  have "sas_run willing_sdk ''f'' [StateInput SasStarted] \<lparr>vf_calls = [], vf_log = []\<rparr> =
    (Waiting, \<lparr>vf_calls = [], vf_log = []\<rparr>)"
    by (simp add: sas_run_def sas_process_state_change_def)
  from cancel_ends_sas [OF this, of "[StateInput SasDone]"] show ?thesis by blast
qed

lemma methods_from_matrix_absent:
  "SasV1 \<notin> set ms \<Longrightarrow> cross_signing_methods_from_matrix ms = []"
  by (induction ms) auto

lemma methods_from_matrix_distinct:
  "distinct ms \<Longrightarrow>
   cross_signing_methods_from_matrix ms = (if SasV1 \<in> set ms then [SasString, SasSymbol] else [])"
  by (induction ms) (auto simp: methods_from_matrix_absent)

lemma methods_to_matrix_result:
  "methods_to_matrix ms result =
     (if (\<exists>m. Some m \<in> set ms) \<and> SasV1 \<notin> set result then result @ [SasV1] else result)"
  by (induction ms result rule: methods_to_matrix.induct) auto

text \<open>
  The application is offered the two SAS methods, in this order, exactly when both
  devices support SAS, and nothing else; and a choice of methods asks the other device for SAS,
  once, exactly when it contains a method that is known.
\<close>

theorem available_methods_are_common:
  assumes "distinct our_methods"
  shows "get_available_methods our_methods their_methods =
      (if SasV1 \<in> set our_methods \<and> SasV1 \<in> set their_methods then [SasString, SasSymbol] else []) \<and>
    cross_signing_methods_to_matrix methods =
      (if \<exists>m. Some m \<in> set methods then [SasV1] else [])"
  using assms
  by (simp add: get_available_methods_def methods_from_matrix_distinct cross_signing_methods_to_matrix_def
      methods_to_matrix_result)

theorem available_methods_are_common_witness:
  "get_available_methods [MethodOther ''q'', SasV1] [SasV1] = [SasString, SasSymbol] \<and>
   cross_signing_methods_to_matrix [None, Some SasSymbol] = [SasV1]"
  using available_methods_are_common [of "[MethodOther ''q'', SasV1]" "[SasV1]" "[None, Some SasSymbol]"]
  by auto

end
