(* ===== verification/Session.thy ===== *)
theory Session
  imports ProtoCache MemoryCache
begin

text \<open>
  session.rs: the persisted session, and the process that keeps the client in sync.  One
  round of the background loop asks the server for the changes since the last sync token
  and processes the result: a connection error is waited out, a lost token is refreshed or
  ends the session, any other error ends the loop.

  The server's answers are given per round; a round's answer to the sync depends on the
  request, that is on the token and the presence it carries.  The waits are not modelled.
\<close>

section \<open>The session file\<close>

text \<open>\<open>'m\<close> is the SDK's \<open>MatrixSession\<close>, which the code only stores; its JSON is a parameter.\<close>

record 'm session =
  se_user_session :: 'm
  se_file :: path
  se_passphrase :: string

record 'm session_env =
  sv_crypto :: crypto_env
  sv_to_json :: "'m \<Rightarrow> bytes option"
  sv_from_json :: "bytes \<Rightarrow> 'm option"
  sv_displays :: displays
  sv_default_presence :: presence_state

definition session_new :: "'m option \<Rightarrow> path \<Rightarrow> string \<Rightarrow> error + 'm session" where
  "session_new client_session f passphrase =
     (case client_session of
        None \<Rightarrow> Inl NotLoggedIn
      | Some s \<Rightarrow> Inr \<lparr>se_user_session = s, se_file = f, se_passphrase = passphrase\<rparr>)"

definition read_from_file ::
  "'m session_env \<Rightarrow> path \<Rightarrow> string \<Rightarrow> world \<Rightarrow> (error + 'm session) \<times> world" where
  "read_from_file env f passphrase w =
     (case decrypt_file (sv_crypto env) f passphrase w of
        (Inl _, w) \<Rightarrow> (Inl (InternalError ''Error loading and decrypting session file''), w)
      | (Inr decrypted, w) \<Rightarrow>
          (case sv_from_json env decrypted of
             None \<Rightarrow> (Inl (InternalError ''Error deserialing session''), w)
           | Some s \<Rightarrow>
               (Inr \<lparr>se_user_session = s, se_file = f, se_passphrase = passphrase\<rparr>, w)))"

definition session_save :: "'m session_env \<Rightarrow> 'm session \<Rightarrow> world \<Rightarrow> (error + unit) \<times> world" where
  "session_save env s w =
     (case sv_to_json env (se_user_session s) of
        None \<Rightarrow> (Inl (InternalError ''Error serializing session''), w)
      | Some serialized \<Rightarrow>
          (case encrypt_to_file (sv_crypto env) (se_file s) (se_passphrase s) serialized w of
             (Inl _, w) \<Rightarrow> (Inl (InternalError ''Error writing session to file''), w)
           | (Inr _, w) \<Rightarrow> (Inr (), w)))"

section \<open>The sync process\<close>

record 'm sync_process =
  sp_session :: "'m session"
  sp_network_was_unavailable :: bool
  sp_cache :: proto_cache_inner
  sp_world :: world
  sp_log :: "response list"

text \<open>
  What the SDK answers in one round: to a sync with this token and presence (the token of
  the next sync), to a refresh of the access token, and its session afterwards.
\<close>

record 'm sync_round =
  rn_sync :: "string option \<Rightarrow> presence_m option \<Rightarrow> sdk_error + string"
  rn_refresh :: "string + unit"
  rn_session :: "'m option"

definition sync_send :: "response \<Rightarrow> 'm sync_process \<Rightarrow> 'm sync_process" where
  "sync_send e sp = sp\<lparr>sp_log := sp_log sp @ [e]\<rparr>"

definition sync_presence :: "'m session_env \<Rightarrow> 'm sync_process \<Rightarrow> presence_m option" where
  "sync_presence env sp =
     (case cache_user_status (sp_cache sp) of
        None \<Rightarrow> None
      | Some status \<Rightarrow>
          (let state = (case us_state status of None \<Rightarrow> sv_default_presence env | Some p \<Rightarrow> p)
           in Some (case presence_try_into_matrix state of Inl _ \<Rightarrow> PmOnline | Inr p \<Rightarrow> p)))"

definition sync_once ::
  "'m session_env \<Rightarrow> 'm sync_round \<Rightarrow> 'm sync_process \<Rightarrow> (sdk_error + unit) \<times> 'm sync_process" where
  "sync_once env rn sp =
     (case rn_sync rn (cache_sync_token (sp_cache sp)) (sync_presence env sp) of
        Inl e \<Rightarrow> (Inl e, sp)
      | Inr next_batch \<Rightarrow> (Inr (), sp\<lparr>sp_cache := cache_set_sync_token next_batch (sp_cache sp)\<rparr>))"

definition handle_connection_error :: "'m sync_process \<Rightarrow> (error + unit) \<times> 'm sync_process" where
  "handle_connection_error sp =
     (Inr (),
      (if \<not> sp_network_was_unavailable sp then sync_send (StatusUpdate NetworkUnavailable) sp else sp)
        \<lparr>sp_network_was_unavailable := True\<rparr>)"

text \<open>The data of an unknown-token error is whether the logout is soft.\<close>

fun is_token_error :: "sdk_error \<Rightarrow> bool option" where
  "is_token_error (SdkHttp err) =
     (case he_client_api err of
        Some (ApiError (Some (UnknownToken soft)) _) \<Rightarrow> Some soft
      | _ \<Rightarrow> None)"
| "is_token_error _ = None"

definition refresh_access_token ::
  "'m session_env \<Rightarrow> 'm sync_round \<Rightarrow> 'm sync_process \<Rightarrow> (error + unit) \<times> 'm sync_process" where
  "refresh_access_token env rn sp =
     (case rn_refresh rn of
        Inl err \<Rightarrow> (Inl (MatrixSdkRefreshTokenError err), sp)
      | Inr _ \<Rightarrow>
          (case rn_session rn of
             None \<Rightarrow> (Inl (InternalError ''Unable to retrieve matrix auth session''), sp)
           | Some s \<Rightarrow>
               (let sp = sp\<lparr>sp_session := (sp_session sp)\<lparr>se_user_session := s\<rparr>\<rparr>;
                    (_, w) = session_save env (sp_session sp) (sp_world sp)
                in (Inr (), sp\<lparr>sp_world := w\<rparr>))))"

definition handle_token_error ::
  "'m session_env \<Rightarrow> 'm sync_round \<Rightarrow> bool \<Rightarrow> 'm sync_process \<Rightarrow> (error + unit) \<times> 'm sync_process" where
  "handle_token_error env rn soft_logout sp =
     (if \<not> soft_logout then (Inl SessionLoggedOut, sync_send (StatusUpdate SessionInvalid) sp)
      else refresh_access_token env rn sp)"

definition process_sync_result ::
  "'m session_env \<Rightarrow> 'm sync_round \<Rightarrow> sdk_error + unit \<Rightarrow> 'm sync_process \<Rightarrow>
   (error + unit) \<times> 'm sync_process" where
  "process_sync_result env rn result sp =
     (case result of
        Inr _ \<Rightarrow>
          (Inr (), if sp_network_was_unavailable sp
             then sync_send (StatusUpdate LoggedIn) (sp\<lparr>sp_network_was_unavailable := False\<rparr>) else sp)
      | Inl err \<Rightarrow>
          if is_connection_error err then handle_connection_error sp
          else (case is_token_error err of
                  Some soft_logout \<Rightarrow> handle_token_error env rn soft_logout sp
                | None \<Rightarrow> (Inl (MatrixSdkError err), sp)))"

definition sync_iteration ::
  "'m session_env \<Rightarrow> 'm sync_round \<Rightarrow> 'm sync_process \<Rightarrow> (error + unit) \<times> 'm sync_process" where
  "sync_iteration env rn sp =
     (case sync_once env rn sp of (result, sp) \<Rightarrow> process_sync_result env rn result sp)"

text \<open>
  The background loop over the rounds: none while it is still running after them, or the
  error that has ended it.
\<close>

fun background_sync ::
  "'m session_env \<Rightarrow> 'm sync_round list \<Rightarrow> 'm sync_process \<Rightarrow> error option \<times> 'm sync_process" where
  "background_sync env [] sp = (None, sp)"
| "background_sync env (rn # rns) sp =
     (case sync_iteration env rn sp of
        (Inr _, sp) \<Rightarrow> background_sync env rns sp
      | (Inl err, sp) \<Rightarrow>
          (Some err, if err \<noteq> SessionLoggedOut
             then sync_send (ErrorResponse (error_into_chat_error (sv_displays env) err)) sp else sp))"

section \<open>The start of the sync\<close>

text \<open>
  What the SDK and the server answer at the start: the upload limit, the own device with
  whether it is verified, and whether other devices can verify it.
\<close>

record start_answers =
  sa_upload_size :: "sdk_error + u64"
  sa_own_device :: "string + bool option"
  sa_has_devices :: "sdk_error + bool"
  sa_user_id :: "string option"

definition get_media_size_limit :: "start_answers \<Rightarrow> u64 option" where
  "get_media_size_limit a = result_ok (sa_upload_size a)"

definition send_capabilities_event :: "start_answers \<Rightarrow> 'm sync_process \<Rightarrow> 'm sync_process" where
  "send_capabilities_event a = sync_send (CapabilityEvent (get_media_size_limit a))"

definition send_verification_status_event ::
  "start_answers \<Rightarrow> 'm sync_process \<Rightarrow> (error + unit) \<times> 'm sync_process" where
  "send_verification_status_event a sp =
     (case sa_own_device a of
        Inl err \<Rightarrow> (Inl (InternalError (''Error retrieving own device: '' @ err)), sp)
      | Inr None \<Rightarrow> (Inl NotLoggedIn, sp)
      | Inr (Some verified) \<Rightarrow>
          (Inr (), sync_send (VerificationStatusEvent verified True
             (case sa_has_devices a of Inl _ \<Rightarrow> False | Inr b \<Rightarrow> b)) sp))"

definition initial_sync ::
  "'m session_env \<Rightarrow> start_answers \<Rightarrow> 'm sync_round \<Rightarrow> 'm sync_process \<Rightarrow>
   (error + unit) \<times> 'm sync_process" where
  "initial_sync env a rn sp =
     (case sync_once env rn sp of
        (Inl err, sp) \<Rightarrow> (Inl (MatrixSdkError err), sp)
      | (Inr _, sp) \<Rightarrow> send_verification_status_event a (send_capabilities_event a sp))"

definition exec_initial_actions :: "start_answers \<Rightarrow> 'm sync_process \<Rightarrow> 'm sync_process" where
  "exec_initial_actions a sp =
     (case sa_user_id a of
        None \<Rightarrow> sp
      | Some user_id \<Rightarrow>
          (case cache_user_status (sp_cache sp) of
             None \<Rightarrow> sp
           | Some status \<Rightarrow> sync_send (UserChangeEvent user_id [UcStatus status]) sp))"

text \<open>
  The whole sync: the initial one, then the background loop over the further rounds; the
  result is that of the start, with the error that has ended the loop, if any.
\<close>

definition session_sync ::
  "'m session_env \<Rightarrow> start_answers \<Rightarrow> 'm sync_round \<Rightarrow> 'm sync_round list \<Rightarrow> 'm sync_process \<Rightarrow>
   (error + error option) \<times> 'm sync_process" where
  "session_sync env a rn rns sp =
     (case initial_sync env a rn sp of
        (Inl err, sp) \<Rightarrow> (Inl err, sp)
      | (Inr _, sp) \<Rightarrow>
          (case background_sync env rns (exec_initial_actions a sp) of (r, sp) \<Rightarrow> (Inr r, sp)))"

section \<open>Reports of the redecryptor\<close>

datatype redecryptor_report =
  ResolvedUtds string "string list"
| Lagging
| BackupAvailable

text \<open>
  The rooms whose cached encrypted events are retried, each with the events it is retried
  for (all without a list); errors are only logged.
\<close>

definition handle_redecryptor_report ::
  "redecryptor_report \<Rightarrow> memory_cache \<Rightarrow> (string \<times> string list option) list" where
  "handle_redecryptor_report report mc =
     (case report of
        ResolvedUtds rid events \<Rightarrow>
          (case mc_retry_encrypted_events rid mc of
             Inl _ \<Rightarrow> [] | Inr rids \<Rightarrow> map (\<lambda>r. (r, Some events)) rids)
      | Lagging \<Rightarrow> map (\<lambda>r. (r, None)) (snd (mc_retry_all_encrypted_events mc))
      | BackupAvailable \<Rightarrow> map (\<lambda>r. (r, None)) (snd (mc_retry_all_encrypted_events mc)))"

section \<open>Rounds of the loop\<close>

text \<open>The status the application has been told, and the view it has of the network.\<close>

definition statuses :: "response list \<Rightarrow> status_code list" where
  "statuses log = concat (map (\<lambda>e. case e of StatusUpdate c \<Rightarrow> [c] | _ \<Rightarrow> []) log)"

fun network_view :: "bool \<Rightarrow> status_code list \<Rightarrow> bool option" where
  "network_view up [] = Some up"
| "network_view True (NetworkUnavailable # cs) = network_view False cs"
| "network_view False (LoggedIn # cs) = network_view True cs"
| "network_view _ _ = None"

lemma network_view_append:
  "network_view up (cs @ ds) = (case network_view up cs of None \<Rightarrow> None | Some u \<Rightarrow> network_view u ds)"
  by (induction up cs rule: network_view.induct) auto

lemma statuses_append [simp]: "statuses (xs @ ys) = statuses xs @ statuses ys"
  by (simp add: statuses_def)

lemma statuses_simps [simp]:
  "statuses [] = []" "statuses [StatusUpdate c] = [c]" "statuses [ErrorResponse e] = []"
  by (simp_all add: statuses_def)

lemma sync_send_simps [simp]:
  "sp_log (sync_send e sp) = sp_log sp @ [e]"
  "sp_network_was_unavailable (sync_send e sp) = sp_network_was_unavailable sp"
  "sp_cache (sync_send e sp) = sp_cache sp" "sp_session (sync_send e sp) = sp_session sp"
  "sp_world (sync_send e sp) = sp_world sp"
  by (simp_all add: sync_send_def)

text \<open>
  A step of the loop: one round after which it goes on.  Its cases are what the code does
  in one round, and the only ones that do not end the loop.
\<close>

inductive sync_step :: "'m session_env \<Rightarrow> 'm sync_process \<Rightarrow> 'm sync_process \<Rightarrow> bool" for env where
  step_ok: "rn_sync (rn :: 'm sync_round) (cache_sync_token (sp_cache sp)) (sync_presence env sp) = Inr next_batch \<Longrightarrow>
     \<not> sp_network_was_unavailable sp \<Longrightarrow>
     sync_step env sp (sp\<lparr>sp_cache := cache_set_sync_token next_batch (sp_cache sp)\<rparr>)"
| step_back: "rn_sync (rn :: 'm sync_round) (cache_sync_token (sp_cache sp)) (sync_presence env sp) = Inr next_batch \<Longrightarrow>
     sp_network_was_unavailable sp \<Longrightarrow>
     sync_step env sp (sync_send (StatusUpdate LoggedIn)
       (sp\<lparr>sp_cache := cache_set_sync_token next_batch (sp_cache sp),
           sp_network_was_unavailable := False\<rparr>))"
| step_lost: "is_connection_error e \<Longrightarrow> \<not> sp_network_was_unavailable sp \<Longrightarrow>
     sync_step env sp ((sync_send (StatusUpdate NetworkUnavailable) sp)\<lparr>sp_network_was_unavailable := True\<rparr>)"
| step_still: "is_connection_error e \<Longrightarrow> sp_network_was_unavailable sp \<Longrightarrow> sync_step env sp sp"
| step_refresh: "rn_session (rn :: 'm sync_round) = Some s \<Longrightarrow>
     session_save env ((sp_session sp)\<lparr>se_user_session := s\<rparr>) (sp_world sp) = (r, w) \<Longrightarrow>
     sync_step env sp (sp\<lparr>sp_session := (sp_session sp)\<lparr>se_user_session := s\<rparr>, sp_world := w\<rparr>)"

inductive_cases sync_stepE: "sync_step env sp sp'"

lemma still_unavailable: "sp_network_was_unavailable sp \<Longrightarrow> sp\<lparr>sp_network_was_unavailable := True\<rparr> = sp"
  by (cases sp) simp

lemma sync_iteration_step:
  assumes "sync_iteration env rn sp = (Inr u, sp')"
  shows "sync_step env sp sp'"
proof (cases "rn_sync rn (cache_sync_token (sp_cache sp)) (sync_presence env sp)")
  case (Inr next_batch)
  then show ?thesis
    using assms step_ok [OF Inr] step_back [OF Inr]
    by (auto simp: sync_iteration_def sync_once_def process_sync_result_def sync_send_def
        split: if_splits)
next
  case (Inl e)
  show ?thesis
  proof (cases "is_connection_error e")
    case True
    then have "sp' = (if \<not> sp_network_was_unavailable sp
        then sync_send (StatusUpdate NetworkUnavailable) sp else sp)\<lparr>sp_network_was_unavailable := True\<rparr>"
      using assms Inl
      by (auto simp: sync_iteration_def sync_once_def process_sync_result_def handle_connection_error_def)
    then show ?thesis
      using step_lost [OF True, of sp env] step_still [OF True, of sp env] still_unavailable [of sp]
      by (cases "sp_network_was_unavailable sp") simp_all
  next
    case False
    then have "refresh_access_token env rn sp = (Inr u, sp')"
      using assms Inl
      by (auto simp: sync_iteration_def sync_once_def process_sync_result_def handle_token_error_def
          split: option.splits if_splits)
    then show ?thesis
      by (auto simp: refresh_access_token_def Let_def split: sum.splits option.splits prod.splits
          intro: step_refresh)
  qed
qed

text \<open>A round that ends the loop.\<close>

lemma sync_iteration_stop:
  assumes "sync_iteration env rn sp = (Inl err, sp')"
  shows "sp_log sp' = sp_log sp @ (if err = SessionLoggedOut then [StatusUpdate SessionInvalid] else []) \<and>
    sp_network_was_unavailable sp' = sp_network_was_unavailable sp \<and> sp_cache sp' = sp_cache sp"
  using assms
  by (auto simp: sync_iteration_def sync_once_def process_sync_result_def handle_connection_error_def
      handle_token_error_def refresh_access_token_def Let_def
      split: sum.splits if_splits option.splits prod.splits)

section \<open>Invariants of the loop\<close>

text \<open>
  What holds while the loop goes on: the application's view of the network is the process's,
  it has received nothing but the start's events and statuses, and no error.
\<close>

definition quiet :: "response \<Rightarrow> bool" where
  "quiet e \<longleftrightarrow> (case e of ErrorResponse _ \<Rightarrow> False | StatusUpdate SessionInvalid \<Rightarrow> False | _ \<Rightarrow> True)"

definition sync_inv :: "'m sync_process \<Rightarrow> bool" where
  "sync_inv sp \<longleftrightarrow> network_view True (statuses (sp_log sp)) = Some (\<not> sp_network_was_unavailable sp) \<and>
     (\<forall>e \<in> set (sp_log sp). quiet e)"

lemma sync_step_inv:
  assumes "sync_step env sp sp'" "sync_inv sp"
  shows "sync_inv sp'"
  using assms(1)
  by (rule sync_stepE)
    (use assms(2) in \<open>auto simp: sync_inv_def network_view_append quiet_def\<close>)

text \<open>What the loop does with the error that ends it.\<close>

definition report_end :: "'m session_env \<Rightarrow> error \<Rightarrow> 'm sync_process \<Rightarrow> 'm sync_process" where
  "report_end env err sp = (if err \<noteq> SessionLoggedOut
     then sync_send (ErrorResponse (error_into_chat_error (sv_displays env) err)) sp else sp)"

lemma background_sync_steps:
  "background_sync env rns sp = (r, sp') \<Longrightarrow>
   \<exists>sp1. (sync_step env)\<^sup>*\<^sup>* sp sp1 \<and>
     (case r of None \<Rightarrow> sp' = sp1
      | Some err \<Rightarrow> \<exists>rn \<in> set rns. \<exists>sp2. sync_iteration env rn sp1 = (Inl err, sp2) \<and>
          sp' = report_end env err sp2)"
proof (induction rns arbitrary: sp)
  case (Cons rn rns)
  show ?case
  proof (cases "sync_iteration env rn sp")
    case (Pair q sp1)
    show ?thesis
    proof (cases q)
      case (Inl err)
      with Cons.prems Pair have "r = Some err" "sp' = report_end env err sp1"
        by (auto simp: report_end_def split: if_splits)
      with Pair Inl show ?thesis by (intro exI [of _ sp]) auto
    next
      case (Inr u)
      with Cons.prems Pair have "background_sync env rns sp1 = (r, sp')" by simp
      from Cons.IH [OF this] obtain sp2 where "(sync_step env)\<^sup>*\<^sup>* sp1 sp2"
        "case r of None \<Rightarrow> sp' = sp2
         | Some err \<Rightarrow> \<exists>rn \<in> set rns. \<exists>sp3. sync_iteration env rn sp2 = (Inl err, sp3) \<and>
          sp' = report_end env err sp3"
        by blast
      moreover have "sync_step env sp sp1" using sync_iteration_step Pair Inr by blast
      ultimately show ?thesis
        by (intro exI [of _ sp2]) (auto split: option.splits intro: converse_rtranclp_into_rtranclp)
    qed
  qed
qed simp

lemma sync_steps_inv: "(sync_step env)\<^sup>*\<^sup>* sp sp' \<Longrightarrow> sync_inv sp \<Longrightarrow> sync_inv sp'"
  by (induction rule: rtranclp_induct) (auto intro: sync_step_inv)

section \<open>Properties\<close>

lemma background_sync_end:
  assumes "background_sync env rns sp = (r, sp')" "sync_inv sp"
  shows "\<exists>log. network_view True (statuses log) = Some (\<not> sp_network_was_unavailable sp') \<and>
    (\<forall>e \<in> set log. quiet e) \<and> sp_log sp' = log @ (case r of None \<Rightarrow> []
      | Some err \<Rightarrow> if err = SessionLoggedOut then [StatusUpdate SessionInvalid]
          else [ErrorResponse (error_into_chat_error (sv_displays env) err)])"
proof -
  obtain sp1 where s: "(sync_step env)\<^sup>*\<^sup>* sp sp1"
    "case r of None \<Rightarrow> sp' = sp1
      | Some err \<Rightarrow> \<exists>rn \<in> set rns. \<exists>sp2. sync_iteration env rn sp1 = (Inl err, sp2) \<and>
          sp' = report_end env err sp2"
    using background_sync_steps [OF assms(1)] by blast
  have "sync_inv sp1" using sync_steps_inv [OF s(1) assms(2)] .
  moreover have "sp_network_was_unavailable sp' = sp_network_was_unavailable sp1 \<and>
    sp_log sp' = sp_log sp1 @ (case r of None \<Rightarrow> []
      | Some err \<Rightarrow> if err = SessionLoggedOut then [StatusUpdate SessionInvalid]
          else [ErrorResponse (error_into_chat_error (sv_displays env) err)])"
  proof (cases r)
    case None
    with s(2) show ?thesis by simp
  next
    case (Some err)
    with s(2) obtain rn sp2 where "sync_iteration env rn sp1 = (Inl err, sp2)" "sp' = report_end env err sp2"
      by auto
    with sync_iteration_stop [of env rn sp1 err sp2] Some show ?thesis by (simp add: report_end_def)
  qed
  ultimately show ?thesis by (intro exI [of _ "sp_log sp1"]) (simp add: sync_inv_def)
qed

text \<open>
  The network as the server's answers tell: the requests that failed on the way (not sent, no
  connection, no answer in time) and the syncs that succeeded decide, every other answer leaves it open.
\<close>

fun lost_on_the_way :: "sdk_error \<Rightarrow> bool" where
  "lost_on_the_way (SdkHttp \<lparr>he_client_api = _, he_variant = HeReqwest e\<rparr>) =
     (rq_is_timeout e \<or> rq_is_connect e \<or> rq_is_request e)"
| "lost_on_the_way _ = False"

definition tells_network :: "sdk_error + string \<Rightarrow> bool option" where
  "tells_network a = (case a of Inr _ \<Rightarrow> Some True | Inl e \<Rightarrow> if lost_on_the_way e then Some False else None)"

definition network_up :: "bool \<Rightarrow> (sdk_error + string) list \<Rightarrow> bool" where
  "network_up up as = last (up # List.map_filter tells_network as)"

text \<open>The answers that the loop gets, each to the request with the token and presence it has by then.\<close>

fun sync_answers ::
  "'m session_env \<Rightarrow> 'm sync_round list \<Rightarrow> 'm sync_process \<Rightarrow> (sdk_error + string) list" where
  "sync_answers env [] sp = []"
| "sync_answers env (rn # rns) sp =
     rn_sync rn (cache_sync_token (sp_cache sp)) (sync_presence env sp) #
     (case sync_iteration env rn sp of (Inr _, sp') \<Rightarrow> sync_answers env rns sp' | (Inl _, _) \<Rightarrow> [])"

lemma connection_error_iff: "is_connection_error e \<longleftrightarrow> lost_on_the_way e"
  by (induction e rule: lost_on_the_way.induct) auto

lemma sync_iteration_network:
  assumes "sync_iteration env rn sp = (q, sp')"
  shows "(\<not> sp_network_was_unavailable sp') =
    (case tells_network (rn_sync rn (cache_sync_token (sp_cache sp)) (sync_presence env sp)) of
       Some up \<Rightarrow> up | None \<Rightarrow> \<not> sp_network_was_unavailable sp)"
  using assms
  by (auto simp: sync_iteration_def sync_once_def process_sync_result_def handle_connection_error_def
      handle_token_error_def refresh_access_token_def Let_def tells_network_def connection_error_iff
      split: sum.splits if_splits option.splits prod.splits)

lemma network_up_simps [simp]:
  "network_up up [] = up"
  "network_up up (a # as) = network_up (case tells_network a of Some up' \<Rightarrow> up' | None \<Rightarrow> up) as"
  by (auto simp: network_up_def List.map_filter_def split: option.split)

lemma background_sync_network:
  "background_sync env rns sp = (r, sp') \<Longrightarrow>
   (\<not> sp_network_was_unavailable sp') = network_up (\<not> sp_network_was_unavailable sp) (sync_answers env rns sp)"
proof (induction rns arbitrary: sp)
  case (Cons rn rns)
  obtain q sp1 where i: "sync_iteration env rn sp = (q, sp1)" by (cases "sync_iteration env rn sp")
  note n = sync_iteration_network [OF i]
  show ?case
  proof (cases q)
    case (Inl err)
    with Cons.prems i have "sp_network_was_unavailable sp' = sp_network_was_unavailable sp1"
      by (auto split: if_splits)
    with n i Inl show ?thesis by simp
  next
    case (Inr u)
    with Cons.prems i have "background_sync env rns sp1 = (r, sp')" by simp
    from Cons.IH [OF this] n i Inr show ?thesis by simp
  qed
qed simp


text \<open>
  Claim C21: The loop ends with exactly one notice, which comes last: the status of an invalid
  session when the session is logged out, the error otherwise; while it goes on, the
  application receives neither.
\<close>

theorem sync_end_is_reported_once:
  assumes "background_sync env rns sp = (r, sp')"
    and "\<not> sp_network_was_unavailable sp" "sp_log sp = []"
  shows "\<exists>before notice. sp_log sp' = before @ notice \<and>
    (\<forall>e \<in> set before. (\<forall>err. e \<noteq> ErrorResponse err) \<and> e \<noteq> StatusUpdate SessionInvalid) \<and>
    notice = (case r of None \<Rightarrow> []
      | Some err \<Rightarrow> if err = SessionLoggedOut then [StatusUpdate SessionInvalid]
          else [ErrorResponse (error_into_chat_error (sv_displays env) err)])"
proof -
  have "sync_inv sp" using assms(2,3) by (simp add: sync_inv_def)
  from background_sync_end [OF assms(1) this] obtain log where
    "\<forall>e \<in> set log. quiet e" "sp_log sp' = log @ (case r of None \<Rightarrow> []
      | Some err \<Rightarrow> if err = SessionLoggedOut then [StatusUpdate SessionInvalid]
          else [ErrorResponse (error_into_chat_error (sv_displays env) err)])" by blast
  moreover have "quiet e \<Longrightarrow> (\<forall>err. e \<noteq> ErrorResponse err) \<and> e \<noteq> StatusUpdate SessionInvalid" for e
    by (auto simp: quiet_def)
  ultimately show ?thesis by blast
qed

text \<open>
  A round asks with the token of the last successful round and stores the token it is
  given; a round that fails, whatever becomes of it, keeps the token, so that no change is
  skipped or asked for twice.
\<close>

theorem sync_token_follows_success:
  assumes "\<not> mtx_poisoned (pc_info (sp_cache sp))" and "sync_iteration env rn sp = (r, sp')"
  shows "cache_sync_token (sp_cache sp') =
      (case rn_sync rn (cache_sync_token (sp_cache sp)) (sync_presence env sp) of
         Inl _ \<Rightarrow> cache_sync_token (sp_cache sp) | Inr next_batch \<Rightarrow> Some next_batch) \<and>
    \<not> mtx_poisoned (pc_info (sp_cache sp'))"
proof -
  have set: "cache_sync_token (cache_set_sync_token t c) = Some t \<and>
      \<not> mtx_poisoned (pc_info (cache_set_sync_token t c))" if "\<not> mtx_poisoned (pc_info c)" for t c
    using that
    by (simp add: cache_sync_token_def cache_set_sync_token_def inner_sync_token_def
        inner_set_sync_token_def lock_ok flatten_result_def)
  show ?thesis
  proof (cases "rn_sync rn (cache_sync_token (sp_cache sp)) (sync_presence env sp)")
    case (Inl e)
    have "sp_cache sp' = sp_cache sp"
      using assms(2) Inl
      by (auto simp: sync_iteration_def sync_once_def process_sync_result_def handle_connection_error_def
          handle_token_error_def refresh_access_token_def Let_def
          split: if_splits option.splits sum.splits prod.splits)
    with Inl assms(1) show ?thesis by simp
  next
    case (Inr t)
    then have "sp_cache sp' = cache_set_sync_token t (sp_cache sp)"
      using assms(2)
      by (auto simp: sync_iteration_def sync_once_def process_sync_result_def split: if_splits)
    with Inr set [OF assms(1)] show ?thesis by simp
  qed
qed

text \<open>
  A session that has been saved is read back, and so is the one that a refresh of the
  access token has saved: as the session it was, with the file and passphrase it is read with.
\<close>

theorem saved_session_is_read:
  assumes "cipher_ok (sv_crypto env)"
    and "\<And>b. sv_to_json env (se_user_session s) = Some b \<Longrightarrow> sv_from_json env b = Some (se_user_session s)"
    and "session_save env s w = (Inr (), w')" and "faultless (w_fs w')"
  shows "fst (read_from_file env (se_file s) (se_passphrase s) w') = Inr s"
proof -
  obtain b where b: "sv_to_json env (se_user_session s) = Some b"
    "encrypt_to_file (sv_crypto env) (se_file s) (se_passphrase s) b w = (Inr (), w')"
    using assms(3) by (auto simp: session_save_def split: option.splits prod.splits sum.splits)
  have "fst (decrypt_file (sv_crypto env) (se_file s) (se_passphrase s) w') = Inr b"
    by (rule crypto.store_load [OF assms(1) b(2) assms(4)])
  then show ?thesis
    using assms(2) [OF b(1)]
    by (cases "decrypt_file (sv_crypto env) (se_file s) (se_passphrase s) w'") (simp add: read_from_file_def)
qed

text \<open>
  A refresh of the access token that fails for whatever reason, for instance because
  the network is lost just then, ends the loop for good with an authorization error, although
  a sync that fails for the same reason is retried.
\<close>

theorem failed_refresh_ends_sync:
  assumes "rn_sync rn (cache_sync_token (sp_cache sp)) (sync_presence env sp) = Inl e"
    and "\<not> is_connection_error e" "is_token_error e = Some True" "rn_refresh rn = Inl err"
    and "is_connection_error e'" "\<And>t p. rn_sync rn' t p = Inl e'"
  shows "background_sync env (rn # rns) sp =
      (Some (MatrixSdkRefreshTokenError err),
       sync_send (ErrorResponse \<lparr>ce_type = EAuthorization, ce_string = Some err\<rparr>) sp) \<and>
    fst (background_sync env (rn' # rns) sp) = fst (background_sync env rns (snd (handle_connection_error sp)))"
  using assms
  by (simp add: sync_iteration_def sync_once_def process_sync_result_def handle_token_error_def
      refresh_access_token_def handle_connection_error_def convert_refresh_token_error_def chat_err_msg_def)

section \<open>Concrete runs\<close>

definition toy_session_env :: "string session_env" where
  "toy_session_env = \<lparr>sv_crypto = toy_crypto, sv_to_json = (\<lambda>s. Some (as_bytes s)),
     sv_from_json = (\<lambda>b. if b = as_bytes ''m'' then Some ''m'' else None),
     sv_displays = \<lparr>d_into_http = (\<lambda>_. ''''), d_http = (\<lambda>_. ''''), d_api = (\<lambda>_. ''''),
        d_sdk_media = (\<lambda>_. ''''), d_sdk = (\<lambda>_. ''''), d_build = (\<lambda>_. ''''),
        d_verification = (\<lambda>_. ''''), d_secret = (\<lambda>_. ''''), d_recovery = (\<lambda>_. '''')\<rparr>,
     sv_default_presence = PresenceUnknown\<rparr>"

definition toy_process :: "string sync_process" where
  "toy_process = \<lparr>sp_session = \<lparr>se_user_session = ''m'', se_file = toy_path, se_passphrase = ''p''\<rparr>,
     sp_network_was_unavailable = False, sp_cache = toy_cache, sp_world = toy_world, sp_log = []\<rparr>"

definition connection_lost :: sdk_error where
  "connection_lost = SdkHttp \<lparr>he_client_api = None,
     he_variant = HeReqwest \<lparr>rq_is_request = True, rq_is_connect = False, rq_is_timeout = False,
       rq_status = None\<rparr>\<rparr>"

definition token_lost :: "bool \<Rightarrow> sdk_error" where
  "token_lost soft = SdkHttp \<lparr>he_client_api = Some (ApiError (Some (UnknownToken soft)) ''t''),
     he_variant = HeApi (Some 401)\<rparr>"

definition round_of :: "sdk_error + string \<Rightarrow> string sync_round" where
  "round_of a = \<lparr>rn_sync = (\<lambda>_ _. a), rn_refresh = Inl ''offline'', rn_session = None\<rparr>"

lemmas toy_sync_defs = toy_session_env_def toy_process_def connection_lost_def token_lost_def round_of_def
  sync_iteration_def sync_once_def process_sync_result_def handle_connection_error_def
  handle_token_error_def refresh_access_token_def

definition toy_rounds :: "string sync_round list" where
  "toy_rounds = [round_of (Inl connection_lost), round_of (Inl connection_lost), round_of (Inr ''s1''),
     round_of (Inl (token_lost False))]"

lemma toy_process_start: "\<not> sp_network_was_unavailable toy_process" "sp_log toy_process = []"
  by (simp_all add: toy_process_def)


theorem sync_end_is_reported_once_witness:
  "\<exists>before. sp_log (snd (background_sync toy_session_env toy_rounds toy_process)) =
     before @ [StatusUpdate SessionInvalid]"
proof -
  obtain r sp where b: "background_sync toy_session_env toy_rounds toy_process = (r, sp)" by (metis surj_pair)
  moreover have "fst (background_sync toy_session_env toy_rounds toy_process) = Some SessionLoggedOut"
    by (simp add: toy_rounds_def toy_sync_defs)
  ultimately show ?thesis using sync_end_is_reported_once [OF b toy_process_start] by auto
qed

theorem sync_token_follows_success_witness:
  "cache_sync_token (sp_cache (snd (sync_iteration toy_session_env (round_of (Inr ''s1'')) toy_process))) =
     Some ''s1''"
proof -
  obtain r sp where i: "sync_iteration toy_session_env (round_of (Inr ''s1'')) toy_process = (r, sp)"
    by (metis surj_pair)
  have "\<not> mtx_poisoned (pc_info (sp_cache toy_process))" by (simp add: toy_process_def toy_cache_def)
  from sync_token_follows_success [OF this i] i show ?thesis by (simp add: round_of_def)
qed

theorem saved_session_is_read_witness:
  "\<exists>w'. session_save toy_session_env (sp_session toy_process) toy_world = (Inr (), w') \<and>
     fst (read_from_file toy_session_env toy_path ''p'' w') = Inr (sp_session toy_process)"
proof -
  obtain w' where w: "session_save toy_session_env (sp_session toy_process) toy_world = (Inr (), w')"
    "faultless (w_fs w')"
    by (simp add: session_save_def toy_session_env_def toy_process_def toy_defs as_bytes_def)
  have ok: "cipher_ok (sv_crypto toy_session_env)" by (simp add: toy_session_env_def toy_crypto_ok)
  have "fst (read_from_file toy_session_env (se_file (sp_session toy_process))
      (se_passphrase (sp_session toy_process)) w') = Inr (sp_session toy_process)"
    by (rule saved_session_is_read [OF ok _ w]) (simp add: toy_session_env_def toy_process_def)
  with w(1) show ?thesis by (simp add: toy_process_def)
qed

theorem failed_refresh_ends_sync_witness:
  "fst (background_sync toy_session_env [round_of (Inl (token_lost True)), round_of (Inr ''s1'')] toy_process) =
     Some (MatrixSdkRefreshTokenError ''offline'')"
  using failed_refresh_ends_sync [of "round_of (Inl (token_lost True))" toy_process toy_session_env
      "token_lost True" "''offline''" connection_lost "round_of (Inl connection_lost)" "[round_of (Inr ''s1'')]"]
  by (simp add: round_of_def token_lost_def connection_lost_def)

end
