(* ===== verification/Rooms.thy ===== *)
theory Rooms
  imports Media Notifications Bridge
begin

text \<open>
  rooms.rs: assembling a room of the API from a room of the SDK, the conference URL that is
  kept in a state event of the room, and the requests that create a room or change its join
  rule.  A room of the SDK is the view \<open>sdk_room\<close> of what the code asks it for; what is done to
  a room on the server is the list of the calls made, with the server's answers as arguments.
\<close>

section \<open>Rooms of the SDK\<close>

datatype room_display_name = DnEmpty | DnNamed string

text \<open>
  The conference state event of a room: one that cannot be parsed, one of an invitation, or
  the original with its ID and URL, or redacted.
\<close>

datatype conference_state =
  ConfUnparsable
| ConfStripped
| ConfOriginal string string
| ConfRedacted

record sdk_room =
  sr_id :: string
  sr_is_space :: bool
  sr_is_joined :: bool
  sr_display_name :: "sdk_error + room_display_name"
  sr_num_unread :: u64
  sr_members :: "sdk_error + (string \<times> membership_state_m) list"
  sr_join_rule :: "join_rule_m option"
  sr_latest_ts :: "u64 option"
  sr_avatar :: room_avatar_asset
  sr_is_direct :: "sdk_error + bool"
  sr_pinned :: "string list option"
  sr_user_receipt :: "string \<Rightarrow> sdk_error + u64 option option"
  sr_conference :: "sdk_error + conference_state option"
  sr_can_send_state :: "string \<Rightarrow> string \<Rightarrow> bool"
  sr_can_invite :: "string \<Rightarrow> bool"
  sr_can_kick :: "string \<Rightarrow> bool"
  sr_can_ban :: "string \<Rightarrow> bool"
  sr_can_notify :: "string \<Rightarrow> bool"
  sr_is_favourite :: bool
  sr_notification_mode :: "room_notification_mode option"

definition conference_state_event_type :: string where
  "conference_state_event_type = ''de.gonicus.conference''"

section \<open>Assembling a room\<close>

fun insert_members ::
  "(string \<times> membership_state_m) list \<Rightarrow> (string, user_room_state proto_enum) hmap \<Rightarrow>
   (string, user_room_state proto_enum) hmap" where
  "insert_members [] result = result"
| "insert_members ((user_id, membership) # ms) result =
     insert_members ms (hm_insert user_id (Some (membership_state_into_chat membership)) result)"

definition get_room_members :: "sdk_room \<Rightarrow> error + (string, user_room_state proto_enum) hmap" where
  "get_room_members r =
     (case sr_members r of
        Inl e \<Rightarrow> Inl (MatrixSdkError e)
      | Inr members \<Rightarrow> Inr (insert_members members []))"

definition get_room_permissions :: "sdk_room \<Rightarrow> string \<Rightarrow> room_permissions" where
  "get_room_permissions r user_id =
     \<lparr>rp_edit = sr_can_send_state r user_id ''m.room.name'' \<and>
        sr_can_send_state r user_id ''m.room.join_rules'',
      rp_invite = sr_can_invite r user_id,
      rp_kick = sr_can_kick r user_id,
      rp_ban = sr_can_ban r user_id,
      rp_mention = sr_can_notify r user_id,
      rp_pin = sr_can_send_state r user_id ''m.room.pinned_events'',
      rp_conference = sr_can_send_state r user_id conference_state_event_type\<rparr>"

definition get_room_settings :: "sdk_room \<Rightarrow> notification_setting option" where
  "get_room_settings r =
     map_option matrix_notification_mode_to_chat_notification_settings (sr_notification_mode r)"

text \<open>The loop over the members; a member without a receipt, or with one that fails, is skipped.\<close>

fun insert_receipts ::
  "sdk_room \<Rightarrow> (string \<times> membership_state_m) list \<Rightarrow> (string, u64) hmap \<Rightarrow> (string, u64) hmap" where
  "insert_receipts r [] result = result"
| "insert_receipts r ((user_id, _) # ms) result =
     (case sr_user_receipt r user_id of
        Inr (Some (Some ts)) \<Rightarrow> insert_receipts r ms (hm_insert user_id ts result)
      | _ \<Rightarrow> insert_receipts r ms result)"

definition room_member_read_markers :: "sdk_room \<Rightarrow> error + (string, u64) hmap" where
  "room_member_read_markers r =
     (case sr_members r of
        Inl e \<Rightarrow> Inl (MatrixSdkError e)
      | Inr members \<Rightarrow> Inr (insert_receipts r members []))"

text \<open>The ID and the URL of the conference event; one that cannot be parsed counts as none.\<close>

definition get_conference_state_event :: "sdk_room \<Rightarrow> error + (string \<times> string) option" where
  "get_conference_state_event r =
     (case sr_conference r of
        Inl e \<Rightarrow> Inl (MatrixSdkError e)
      | Inr (Some (ConfOriginal event_id url)) \<Rightarrow> Inr (Some (event_id, url))
      | Inr _ \<Rightarrow> Inr None)"

definition get_conference_url :: "sdk_room \<Rightarrow> error + string option" where
  "get_conference_url r =
     (case get_conference_state_event r of
        Inl e \<Rightarrow> Inl e
      | Inr result \<Rightarrow> Inr (map_option snd result))"

definition unwrap_or :: "'a \<Rightarrow> 'e + 'a \<Rightarrow> 'a" where
  "unwrap_or d r = (case r of Inl _ \<Rightarrow> d | Inr x \<Rightarrow> x)"

definition assemble_chat_room ::
  "media_env \<Rightarrow> media_manager \<Rightarrow> string option \<Rightarrow> sdk_room \<Rightarrow> fs \<Rightarrow> (error + room) \<times> fs" where
  "assemble_chat_room env mm own r fs =
     (let display_name = unwrap_or DnEmpty (sr_display_name r)
      in case own of
           None \<Rightarrow> (Inl NotLoggedIn, fs)
         | Some user_id \<Rightarrow>
             (let display_name = (case display_name of DnEmpty \<Rightarrow> None | DnNamed n \<Rightarrow> Some n);
                  unread_count = saturating_u32 (sr_num_unread r)
              in case get_room_members r of
                   Inl e \<Rightarrow> (Inl e, fs)
                 | Inr members \<Rightarrow>
                     (let join_rule = join_rule_into_chat
                            (case sr_join_rule r of None \<Rightarrow> JrInvite | Some j \<Rightarrow> j);
                          (avatar_path, fs) = get_room_avatar_path env mm (sr_avatar r) fs
                      in case (if length members > 2 then Inr False else
                             (case sr_is_direct r of Inl e \<Rightarrow> Inl (MatrixSdkError e) | Inr b \<Rightarrow> Inr b)) of
                           Inl e \<Rightarrow> (Inl e, fs)
                         | Inr is_direct \<Rightarrow>
                             (Inr \<lparr>room_id = sr_id r, room_display_name = display_name,
                                room_users = members, room_space_ids = [],
                                room_unread = unread_count, room_is_direct = is_direct,
                                room_join = join_rule,
                                room_permissions = Some (get_room_permissions r user_id),
                                room_latest_ts = sr_latest_ts r, room_avatar = avatar_path,
                                room_favorite = sr_is_favourite r,
                                room_settings = Some (get_room_settings r),
                                room_invitation = None,
                                room_pinned = (case sr_pinned r of None \<Rightarrow> [] | Some ids \<Rightarrow> ids),
                                room_read_marker = unwrap_or [] (room_member_read_markers r),
                                room_conference = unwrap_or None (get_conference_url r)\<rparr>, fs))))"

text \<open>
  All rooms are assembled concurrently; \<open>rooms\<close> are the client's rooms in the order in which
  their assembly completes.
\<close>

fun collect_rooms ::
  "media_env \<Rightarrow> media_manager \<Rightarrow> string option \<Rightarrow> sdk_room list \<Rightarrow> fs \<Rightarrow> room list \<times> fs" where
  "collect_rooms env mm own [] fs = ([], fs)"
| "collect_rooms env mm own (r # rs) fs =
     (case assemble_chat_room env mm own r fs of
        (Inl _, fs) \<Rightarrow> collect_rooms env mm own rs fs
      | (Inr c, fs) \<Rightarrow> (case collect_rooms env mm own rs fs of (cs, fs) \<Rightarrow> (c # cs, fs)))"

definition fetch_all_rooms ::
  "media_env \<Rightarrow> media_manager \<Rightarrow> string option \<Rightarrow> sdk_room list \<Rightarrow> fs \<Rightarrow> (error + room list) \<times> fs" where
  "fetch_all_rooms env mm own rooms fs =
     (case collect_rooms env mm own (filter (\<lambda>r. \<not> sr_is_space r) rooms) fs of
        (cs, fs) \<Rightarrow> (Inr cs, fs))"

section \<open>Changing a room\<close>

datatype room_call =
  SendConferenceUrl string
| RedactEvent string
| UpdateJoinRule join_rule_m
| UpdateVisibility bool

text \<open>
  The calls that are made, with the result; the argument answers each of them.  The error of a
  call is of the SDK or of its HTTP layer, and the question mark operator converts either.
\<close>

datatype call_error = CallSdk sdk_error | CallHttp http_error

fun from_call_error :: "call_error \<Rightarrow> error" where
  "from_call_error (CallSdk e) = MatrixSdkError e"
| "from_call_error (CallHttp e) = MatrixSdkHttpError e"

definition remove_conference_url ::
  "(room_call \<Rightarrow> call_error + unit) \<Rightarrow> sdk_room \<Rightarrow> (error + unit) \<times> room_call list" where
  "remove_conference_url answer r =
     (case get_conference_state_event r of
        Inl e \<Rightarrow> (Inl e, [])
      | Inr None \<Rightarrow> (Inr (), [])
      | Inr (Some (event_id, _)) \<Rightarrow>
          (case answer (RedactEvent event_id) of
             Inl e \<Rightarrow> (Inl (from_call_error e), [RedactEvent event_id])
           | Inr _ \<Rightarrow> (Inr (), [RedactEvent event_id])))"

definition set_conference_url ::
  "(room_call \<Rightarrow> call_error + unit) \<Rightarrow> sdk_room \<Rightarrow> string \<Rightarrow> (error + unit) \<times> room_call list" where
  "set_conference_url answer r conference_url =
     (if conference_url = [] then remove_conference_url answer r
      else (case answer (SendConferenceUrl conference_url) of
              Inl e \<Rightarrow> (Inl (from_call_error e), [SendConferenceUrl conference_url])
            | Inr _ \<Rightarrow> (Inr (), [SendConferenceUrl conference_url])))"

text \<open>A room is listed publicly (\<open>True\<close>) when it is public or can be knocked at.\<close>

definition matrix_join_rule_to_visibility :: "join_rule_m \<Rightarrow> bool" where
  "matrix_join_rule_to_visibility j \<longleftrightarrow> j = JrPublic \<or> j = JrKnock"

definition update_room_join_rule ::
  "(room_call \<Rightarrow> call_error + unit) \<Rightarrow> room_join_rule \<Rightarrow> (error + unit) \<times> room_call list" where
  "update_room_join_rule answer rule =
     (let j = join_rule_into_matrix rule
      in case answer (UpdateJoinRule j) of
           Inl e \<Rightarrow> (Inl (from_call_error e), [UpdateJoinRule j])
         | Inr _ \<Rightarrow>
             (let v = matrix_join_rule_to_visibility j
              in case answer (UpdateVisibility v) of
                   Inl e \<Rightarrow> (Inl (from_call_error e), [UpdateJoinRule j, UpdateVisibility v])
                 | Inr _ \<Rightarrow> (Inr (), [UpdateJoinRule j, UpdateVisibility v])))"

text \<open>The request that creates a room.\<close>

datatype initial_state = StEncryption | StJoinRules join_rule_m | StHistoryShared

record create_room_request_m =
  cq_name :: "string option"
  cq_invite :: "string list"
  cq_public :: bool
  cq_initial_state :: "initial_state list"
  cq_trusted_private :: bool
  cq_is_direct :: bool

definition create_room_request ::
  "string option \<Rightarrow> string list \<Rightarrow> room_join_rule \<Rightarrow> create_room_request_m" where
  "create_room_request display_name invitees join_rule =
     (let j = join_rule_into_matrix join_rule
      in \<lparr>cq_name = display_name, cq_invite = invitees,
          cq_public = matrix_join_rule_to_visibility j,
          cq_initial_state = [StEncryption, StJoinRules j, StHistoryShared],
          cq_trusted_private = False, cq_is_direct = False\<rparr>)"

definition create_dm_room_request :: "string option \<Rightarrow> string \<Rightarrow> create_room_request_m" where
  "create_dm_room_request display_name invitee =
     (create_room_request display_name [invitee] InviteRule)
       \<lparr>cq_trusted_private := True, cq_is_direct := True\<rparr>"

section \<open>Public rooms\<close>

record public_room_m =
  pm_name :: "string option"
  pm_joined :: u64
  pm_id :: string
  pm_topic :: "string option"
  pm_join_rule :: join_rule_m

record public_room =
  pb_display_name :: "string option"
  pb_joined :: u32
  pb_id :: string
  pb_topic :: "string option"
  pb_join_rule :: room_join_rule

fun convert_public_rooms_chunk :: "public_room_m list \<Rightarrow> public_room list" where
  "convert_public_rooms_chunk [] = []"
| "convert_public_rooms_chunk (r # rs) =
     \<lparr>pb_display_name = pm_name r, pb_joined = saturating_u32 (pm_joined r), pb_id = pm_id r,
      pb_topic = pm_topic r, pb_join_rule = join_rule_kind_into_chat (pm_join_rule r)\<rparr>
     # convert_public_rooms_chunk rs"

section \<open>Properties\<close>

text \<open>The rooms that can be assembled, whatever becomes of their avatars.\<close>

definition assembles :: "string option \<Rightarrow> sdk_room \<Rightarrow> bool" where
  "assembles own r \<longleftrightarrow> own \<noteq> None \<and>
     (case get_room_members r of
        Inl _ \<Rightarrow> False
      | Inr members \<Rightarrow> length members > 2 \<or> (case sr_is_direct r of Inl _ \<Rightarrow> False | Inr _ \<Rightarrow> True))"

lemma assemble_chat_room_outcome:
  "case assemble_chat_room env mm own r fs of
     (Inl e, fs') \<Rightarrow> \<not> assembles own r
   | (Inr c, fs') \<Rightarrow> assembles own r \<and> room_id c = sr_id r \<and>
       get_room_members r = Inr (room_users c) \<and>
       unat (room_unread c) = min (unat (sr_num_unread r)) (2 ^ 32 - 1) \<and>
       (room_is_direct c \<longrightarrow> length (room_users c) \<le> 2 \<and> sr_is_direct r = Inr True) \<and>
       room_avatar c = fst (get_room_avatar_path env mm (sr_avatar r) fs) \<and>
       fs' = snd (get_room_avatar_path env mm (sr_avatar r) fs)"
  by (cases "get_room_avatar_path env mm (sr_avatar r) fs")
    (auto simp: assemble_chat_room_def assembles_def Let_def unat_saturating_u32
      split: option.split sum.split if_splits)

lemma collect_rooms_ids:
  "collect_rooms env mm own rs fs = (cs, fs') \<Longrightarrow> map room_id cs = map sr_id (filter (assembles own) rs)"
proof (induction rs arbitrary: fs cs)
  case (Cons r rs)
  show ?case
  proof (cases "assemble_chat_room env mm own r fs")
    case (Pair q fs1)
    then show ?thesis
      using Cons assemble_chat_room_outcome [where env = env and mm = mm and own = own and r = r and fs = fs]
      by (cases q) (auto split: prod.splits)
  qed
qed simp

text \<open>
  Fetching all rooms always succeeds and gives every room that is no space and can be
  assembled, once each; a room is left out only when nobody is logged in, its members cannot be
  loaded, or it has at most two members and the server does not say whether it is direct.  The
  failure of an avatar, the receipts or the conference URL leaves no room out.
\<close>

theorem fetch_all_rooms_complete:
  "\<exists>cs fs'. fetch_all_rooms env mm own rooms fs = (Inr cs, fs') \<and>
     map room_id cs = map sr_id (filter (\<lambda>r. \<not> sr_is_space r \<and> own \<noteq> None \<and>
       (case get_room_members r of
          Inl _ \<Rightarrow> False
        | Inr members \<Rightarrow> length members > 2 \<or> (case sr_is_direct r of Inl _ \<Rightarrow> False | Inr _ \<Rightarrow> True)))
       rooms)"
proof -
  obtain cs fs' where c: "collect_rooms env mm own (filter (\<lambda>r. \<not> sr_is_space r) rooms) fs = (cs, fs')"
    by (cases "collect_rooms env mm own (filter (\<lambda>r. \<not> sr_is_space r) rooms) fs")
  from collect_rooms_ids [OF c] have "map room_id cs = map sr_id (filter (\<lambda>r. \<not> sr_is_space r \<and> assembles own r) rooms)"
    by (simp add: filter_filter conj_commute)
  with c show ?thesis by (auto simp: fetch_all_rooms_def assembles_def)
qed

lemma convert_public_rooms_chunk_map:
  "map pb_id (convert_public_rooms_chunk rs) = map pm_id rs"
  "r \<in> set (convert_public_rooms_chunk rs) \<Longrightarrow> \<exists>m \<in> set rs. pb_id r = pm_id m \<and>
     unat (pb_joined r) = min (unat (pm_joined m)) (2 ^ 32 - 1)"
  by (induction rs) (auto simp: unat_saturating_u32)

end
