(* ===== verification/Users.thy ===== *)
theory Users
  imports Media ProtoCache Bridge "HOL-Library.Sublist"
begin

text \<open>
  user.rs: a user is answered from the persistent cache when it holds them, and synced in the
  background; otherwise the server is asked.  The comparison of two users
  (\<open>UserChangeEventBuilder::compare_users\<close>) and the application of its changes are generated code
  outside src/, the parameters \<open>compare_users\<close> and \<open>cd_update_user\<close>.
\<close>

section \<open>Asking the server\<close>

datatype profile_field = PfAvatarUrl string | PfOther

text \<open>
  The server's answers for a user: the profile with its display name (which may be malformed),
  the avatar field for each time it is asked for, the media behind a URI, and the presence.
\<close>

record user_server =
  uv_displays :: displays
  uv_profile :: "string \<Rightarrow> sdk_error + (string + string option)"
  uv_avatar_fields :: "string \<Rightarrow> (sdk_error + profile_field option) list"
  uv_avatar_content :: "string \<Rightarrow> sdk_error + bytes"
  uv_presence :: "string \<Rightarrow> http_error + presence_m \<times> string option"

definition is_profile_field_expected_error :: "displays \<Rightarrow> sdk_error \<Rightarrow> bool" where
  "is_profile_field_expected_error d err \<longleftrightarrow>
     sublist ''invalid type: null, expected a string'' (d_sdk d err)"

definition fetch_avatar_uri ::
  "displays \<Rightarrow> sdk_error + profile_field option \<Rightarrow> error + string option" where
  "fetch_avatar_uri d result =
     (case result of
        Inl err \<Rightarrow> if is_profile_field_expected_error d err then Inr None else Inl (MatrixSdkError err)
      | Inr (Some (PfAvatarUrl url)) \<Rightarrow> Inr (Some url)
      | Inr (Some PfOther) \<Rightarrow> Inl (InternalError ''received unexpected profile field value'')
      | Inr None \<Rightarrow> Inr None)"

definition fetch_status :: "user_server \<Rightarrow> string \<Rightarrow> error + user_status" where
  "fetch_status server user_id =
     (case uv_presence server user_id of
        Inl err \<Rightarrow> Inl (MatrixSdkHttpError err)
      | Inr (presence, status_msg) \<Rightarrow>
          Inr \<lparr>us_state = Some (presence_into_chat presence), us_message = status_msg\<rparr>)"

definition user_avatar_path ::
  "media_env \<Rightarrow> media_manager \<Rightarrow> user_server \<Rightarrow> string \<Rightarrow> fs \<Rightarrow> string option \<times> fs" where
  "user_avatar_path env mm server user_id =
     get_user_avatar_path env mm user_id
       (map (fetch_avatar_uri (uv_displays server)) (uv_avatar_fields server user_id))
       (uv_avatar_content server)"

definition fetch_user ::
  "media_env \<Rightarrow> media_manager \<Rightarrow> user_server \<Rightarrow> string \<Rightarrow> fs \<Rightarrow> (error + user) \<times> fs" where
  "fetch_user env mm server user_id fs =
     (case uv_profile server user_id of
        Inl _ \<Rightarrow> (Inl UserNotFound, fs)
      | Inr display_name \<Rightarrow>
          (let (avatar_path, fs) = user_avatar_path env mm server user_id fs
           in (Inr \<lparr>u_id = user_id,
                 u_display_name = (case display_name of Inl _ \<Rightarrow> None | Inr n \<Rightarrow> n),
                 u_avatar_path = avatar_path,
                 u_status = result_ok (fetch_status server user_id)\<rparr>, fs)))"

section \<open>The cache\<close>

text \<open>
  The background task, on the cache as it is when the server has answered: the event that it
  sends, if any.
\<close>

definition sync_cached_user ::
  "(user \<Rightarrow> user \<Rightarrow> string \<times> user_change list) \<Rightarrow> media_env \<Rightarrow> media_manager \<Rightarrow> user_server \<Rightarrow>
   proto_cache_inner \<Rightarrow> string \<Rightarrow> fs \<Rightarrow> response list \<times> fs" where
  "sync_cached_user compare_users env mm server cache user_id fs =
     (case fetch_user env mm server user_id fs of
        (Inl _, fs) \<Rightarrow> ([], fs)
      | (Inr fetched, fs) \<Rightarrow>
          (let cached = (case cached_user user_id cache of None \<Rightarrow> default_user | Some u \<Rightarrow> u)
           in if cached \<noteq> fetched
              then (case compare_users cached fetched of (i, changes) \<Rightarrow> ([UserChangeEvent i changes], fs))
              else ([], fs)))"

text \<open>The answer to the request, and whether a background task has been started.\<close>

definition get_and_sync_user ::
  "media_env \<Rightarrow> media_manager \<Rightarrow> user_server \<Rightarrow> proto_cache_inner \<Rightarrow> string \<Rightarrow> fs \<Rightarrow>
   ((error + user) \<times> bool) \<times> fs" where
  "get_and_sync_user env mm server cache user_id fs =
     (case cached_user user_id cache of
        Some user \<Rightarrow> ((Inr user, True), fs)
      | None \<Rightarrow> (case fetch_user env mm server user_id fs of (r, fs) \<Rightarrow> ((r, False), fs)))"

section \<open>Properties\<close>

lemma cached_user_id:
  "\<not> mtx_poisoned (pc_users c) \<Longrightarrow> cached_user i c = Some u \<Longrightarrow> u_id u = i"
  by (auto simp: cached_user_find find_Some_iff)

lemma cached_user_update:
  assumes "\<not> mtx_poisoned (pc_users c)" "\<And>u. u_id (cd_update_user cd cs u) = u_id u"
  shows "\<not> mtx_poisoned (pc_users (cache_response_content cd (UserChangeEvent i cs) c)) \<and>
    cached_user j (cache_response_content cd (UserChangeEvent i cs) c) =
      (if j = i then map_option (cd_update_user cd cs) (cached_user j c) else cached_user j c)"
proof (cases "mtx_data (pc_users c)")
  case None
  with assms(1) show ?thesis
    by (simp add: inner_update_user_def lock_ok cached_user_find cached_users_def)
next
  case (Some us)
  with assms show ?thesis
    by (auto simp: inner_update_user_def lock_ok cached_user_find cached_users_def find_update_user
        split: option.splits)
qed

lemma cached_user_put:
  assumes "\<not> mtx_poisoned (pc_users c)"
  shows "cached_user j (cache_response_content cd (UserResponse u) c) =
    (if j = u_id u then Some u else cached_user j c)"
  using assms find_put_user [of j u "[]"]
  by (cases "mtx_data (pc_users c)")
    (simp_all add: inner_cache_user_def lock_ok cached_user_find cached_users_def find_put_user)

lemma fetch_user_ok:
  assumes "uv_profile server user_id = Inr name"
  shows "\<exists>u. fst (fetch_user env mm server user_id fs) = Inr u \<and> u_id u = user_id \<and>
    u_display_name u = (case name of Inl _ \<Rightarrow> None | Inr n \<Rightarrow> n)"
  using assms by (cases "user_avatar_path env mm server user_id fs") (simp add: fetch_user_def)


text \<open>A cached user whose avatar and status have changed on the server.\<close>

definition toy_media_env :: media_env where
  "toy_media_env = \<lparr>md_infer = (\<lambda>_. None), md_mime_from_ext = (\<lambda>_. None),
     md_info_to_json = (\<lambda>_. Inl ''''), md_info_from_json = (\<lambda>_. Inl ''''), md_now = 0\<rparr>"

definition toy_media_manager :: media_manager where
  "toy_media_manager = \<lparr>mm_data_root_dir = toy_path, mm_room_avatars_dir = toy_path,
     mm_user_avatars_dir = toy_path, mm_attachments_dir = toy_path\<rparr>"

definition offline_server :: user_server where
  "offline_server = \<lparr>uv_displays = \<lparr>d_into_http = (\<lambda>_. ''''), d_http = (\<lambda>_. ''''), d_api = (\<lambda>_. ''''),
        d_sdk_media = (\<lambda>_. ''''), d_sdk = (\<lambda>_. ''''), d_build = (\<lambda>_. ''''),
        d_verification = (\<lambda>_. ''''), d_secret = (\<lambda>_. ''''), d_recovery = (\<lambda>_. '''')\<rparr>,
     uv_profile = (\<lambda>_. Inr (Inr (Some ''New''))), uv_avatar_fields = (\<lambda>_. []),
     uv_avatar_content = (\<lambda>_. Inl (SdkUrl '''')), uv_presence = (\<lambda>_. Inl
        \<lparr>he_client_api = None, he_variant = HeOther ''''\<rparr>)\<rparr>"


end
