(* ===== verification/Events.thy ===== *)
theory Events
  imports Rooms Users MemoryCache
begin

text \<open>
  events.rs, the executor: every event of the SDK arrives as an action, and the executor, which
  owns the state, handles one action after the other and sends events to the application.  Its
  state is the record \<open>executor\<close>: the last change of each user, a queue of the last live changes
  of each room (resent when the application learns of the room), and the memory cache; the files
  and the events sent come with it.  What a handler asks the SDK for is in \<open>exec_env\<close>; the room of
  an event is the view \<open>sdk_room\<close> of it when the event is handled.
\<close>

section \<open>Actions\<close>

datatype tag_name = TagFavourite | TagOther string

datatype receipt_type = RtRead | RtReadPrivate | RtOther

text \<open>The receipts of an event, by type and user; a receipt may lack its timestamp.\<close>

type_synonym receipts = "(receipt_type, (string, u64 option) hmap) hmap"

datatype ephemeral_content =
  EpTyping "string list"
| EpReceipt "(string, receipts) hmap"
| EpOther

record stripped_member =
  sm_state_key :: string
  sm_membership :: membership_state_m
  sm_reason :: "string option"

record presence_event =
  pe_sender :: string
  pe_presence :: presence_m
  pe_status_msg :: "string option"

datatype action =
  RoomDiscovered string
| AnyMessageLikeAction sdk_room sync_event
| RoomRedactionAction sdk_room redaction_content
| RoomNameAction sdk_room string
| RoomMemberAction sdk_room sync_event member_content
| StrippedRoomMemberAction sdk_room stripped_member
| RoomJoinRulesAction sdk_room join_rule_m
| RoomAvatarAction sdk_room
| RoomMessageAction sdk_room sync_event room_message_content
| RoomPinnedEventsAction sdk_room "string list"
| RoomPowerLevelsAction sdk_room
| ReactionAction sdk_room sync_event annotation
| PresenceAction presence_event
| TagAction sdk_room "tag_name list"
| SyncReceiptAction sdk_room
| FullyReadAction sdk_room
| JoinedRoomUpdate string "raw list"
| EventCacheGenericUpdate string
| UnstablePollStartAction sdk_room sync_event poll_start_content
| UnstablePollResponseAction sdk_room sync_event poll_response_content
| UnstablePollEndAction sdk_room string
| ConferenceStateAction sdk_room "string event_content"

section \<open>State\<close>

record tracked_user_change =
  uc_displayname :: "string option"
  uc_avatar_uri :: "string option"
  uc_status :: "user_status option"

definition user_change_new :: tracked_user_change where
  "user_change_new = \<lparr>uc_displayname = None, uc_avatar_uri = None, uc_status = None\<rparr>"

text \<open>A changed field whose new value is unset counts as the empty string.\<close>

definition unwrap_or_empty :: "string option \<Rightarrow> string" where
  "unwrap_or_empty v = (case v of None \<Rightarrow> '''' | Some s \<Rightarrow> s)"

definition change_displayname :: "string option \<Rightarrow> tracked_user_change \<Rightarrow> tracked_user_change" where
  "change_displayname new c = c\<lparr>uc_displayname := Some (unwrap_or_empty new)\<rparr>"

definition change_avatar_uri :: "string option \<Rightarrow> tracked_user_change \<Rightarrow> tracked_user_change" where
  "change_avatar_uri new c = c\<lparr>uc_avatar_uri := Some (unwrap_or_empty new)\<rparr>"

definition change_status :: "user_status \<Rightarrow> tracked_user_change \<Rightarrow> tracked_user_change" where
  "change_status s c = c\<lparr>uc_status := Some s\<rparr>"

definition new_profile_change ::
  "string option option \<Rightarrow> string option option \<Rightarrow> tracked_user_change" where
  "new_profile_change displayname_change avatar_uri_change =
     (let obj = user_change_new;
          obj = (case displayname_change of Some c \<Rightarrow> change_displayname c obj | None \<Rightarrow> obj);
          obj = (case avatar_uri_change of Some c \<Rightarrow> change_avatar_uri c obj | None \<Rightarrow> obj)
      in obj)"

text \<open>A change of a room is the room's ID with the changes; their hash maps are compared as maps.\<close>

type_synonym room_change_event = "string \<times> room_change list"

definition hm_eq :: "('k, 'v) hmap \<Rightarrow> ('k, 'v) hmap \<Rightarrow> bool" where
  "hm_eq m n \<longleftrightarrow> length m = length n \<and> list_all (\<lambda>(k, v). hm_get n k = Some v) m"

fun same_change :: "room_change \<Rightarrow> room_change \<Rightarrow> bool" where
  "same_change (ChUserIdList m) (ChUserIdList n) = hm_eq m n"
| "same_change (ChReadMarker m) (ChReadMarker n) = hm_eq m n"
| "same_change a b = (a = b)"

definition same_room_change :: "room_change_event \<Rightarrow> room_change_event \<Rightarrow> bool" where
  "same_room_change a b \<longleftrightarrow> fst a = fst b \<and> list_all2 same_change (snd a) (snd b)"

record executor =
  ex_memory :: memory_cache
  ex_user_changes :: "(string, tracked_user_change) hmap"
  ex_room_changes :: "(string, room_change_event list) hmap"
  ex_fs :: fs
  ex_sent :: "response list"

definition executor_new :: "memory_cache \<Rightarrow> fs \<Rightarrow> executor" where
  "executor_new mc fs =
     \<lparr>ex_memory = mc, ex_user_changes = [], ex_room_changes = [], ex_fs = fs, ex_sent = []\<rparr>"

text \<open>
  What the handlers ask for: the media and messages, the parsers, the user that is logged in,
  the client's rooms, an event or a poll with its relations by room and ID, the users on the
  server, the text the SDK shows for a room without a name, and the clock in milliseconds.
\<close>

record exec_env =
  xe_messages :: message_env
  xe_parsers :: parsers
  xe_parse_ephemeral :: "raw \<Rightarrow> ephemeral_content option"
  xe_user_id :: "string option"
  xe_get_room :: "string \<Rightarrow> sdk_room option"
  xe_event :: "string \<Rightarrow> string \<Rightarrow> sdk_error + timeline_event"
  xe_relations :: "string \<Rightarrow> string \<Rightarrow> sdk_error + timeline_event \<times> timeline_event list"
  xe_users :: user_server
  xe_empty_name :: string
  xe_now :: u128

definition send_event :: "response \<Rightarrow> executor \<Rightarrow> executor" where
  "send_event e st = st\<lparr>ex_sent := ex_sent st @ [e]\<rparr>"

text \<open>An operation of the memory cache.\<close>

definition on_memory ::
  "(memory_cache \<Rightarrow> 'r \<times> memory_cache) \<Rightarrow> executor \<Rightarrow> 'r \<times> executor" where
  "on_memory f st = (case f (ex_memory st) of (r, mc) \<Rightarrow> (r, st\<lparr>ex_memory := mc\<rparr>))"

definition on_fs :: "(fs \<Rightarrow> 'r \<times> fs) \<Rightarrow> executor \<Rightarrow> 'r \<times> executor" where
  "on_fs f st = (case f (ex_fs st) of (r, fs) \<Rightarrow> (r, st\<lparr>ex_fs := fs\<rparr>))"

section \<open>Tracking changes\<close>

definition max_queued_room_changes :: nat where
  "max_queued_room_changes = 15"

definition room_mark_as_read_unread_count_timeout :: u128 where
  "room_mark_as_read_unread_count_timeout = 3000"

definition track_user_change :: "string \<Rightarrow> tracked_user_change \<Rightarrow> executor \<Rightarrow> executor" where
  "track_user_change user_id change st =
     st\<lparr>ex_user_changes := hm_insert user_id change (ex_user_changes st)\<rparr>"

definition is_new_user_change :: "string \<Rightarrow> tracked_user_change \<Rightarrow> executor \<Rightarrow> bool" where
  "is_new_user_change user_id change st =
     (case hm_get (ex_user_changes st) user_id of Some old \<Rightarrow> old \<noteq> change | None \<Rightarrow> True)"

definition push_change :: "room_change_event \<Rightarrow> room_change_event list \<Rightarrow> room_change_event list" where
  "push_change change entry =
     (if length entry \<ge> max_queued_room_changes then tl entry else entry) @ [change]"

definition track_room_change :: "room_change_event \<Rightarrow> executor \<Rightarrow> executor" where
  "track_room_change change st =
     st\<lparr>ex_room_changes := hm_entry (fst change) [] (push_change change) (ex_room_changes st)\<rparr>"

definition is_new_room_change :: "room_change_event \<Rightarrow> executor \<Rightarrow> bool" where
  "is_new_room_change change st =
     (case hm_get (ex_room_changes st) (fst change) of
        None \<Rightarrow> True
      | Some queue \<Rightarrow> queue = [] \<or> \<not> same_room_change (last queue) change)"

text \<open>The end of the two handlers of live changes: a change that is new is tracked and sent.\<close>

definition send_if_new :: "room_change_event \<Rightarrow> executor \<Rightarrow> executor" where
  "send_if_new change st =
     (if \<not> is_new_room_change change st then st
      else send_event (RoomChangeEvent (fst change) (snd change)) (track_room_change change st))"

fun send_changes :: "room_change_event list \<Rightarrow> executor \<Rightarrow> executor" where
  "send_changes [] st = st"
| "send_changes (c # cs) st = send_changes cs (send_event (RoomChangeEvent (fst c) (snd c)) st)"

definition exec_queued_room_changes :: "string \<Rightarrow> executor \<Rightarrow> executor" where
  "exec_queued_room_changes rid st =
     (case hm_get (ex_room_changes st) rid of
        None \<Rightarrow> st
      | Some changes \<Rightarrow>
          send_changes changes (st\<lparr>ex_room_changes := hm_insert rid [] (ex_room_changes st)\<rparr>))"

section \<open>Read markers and unread counts\<close>

definition exec_any_message_like_event :: "sdk_room \<Rightarrow> sync_event \<Rightarrow> executor \<Rightarrow> executor" where
  "exec_any_message_like_event r event st =
     (let sender = ev_sender event; ts = ev_ts event; rid = sr_id r
      in case on_memory (mc_set_read_marker rid sender ts) st of
           (Inl _, st) \<Rightarrow> st
         | (Inr changed, st) \<Rightarrow>
             if \<not> changed then st
             else send_event (RoomChangeEvent rid [ChReadMarker [(sender, ts)]]) st)"

definition update_room_unread_count :: "exec_env \<Rightarrow> sdk_room \<Rightarrow> executor \<Rightarrow> executor" where
  "update_room_unread_count env r st =
     (let rid = sr_id r; new = saturating_u32 (sr_num_unread r)
      in if (case mc_room_mark_as_read_ts rid (ex_memory st) of
               Inr (Some ts) \<Rightarrow> xe_now env < ts + room_mark_as_read_unread_count_timeout
             | _ \<Rightarrow> False)
         then st
         else send_if_new (rid, [ChUnread new]) st)"

definition update_room_unread_count_by_id :: "exec_env \<Rightarrow> string \<Rightarrow> executor \<Rightarrow> executor" where
  "update_room_unread_count_by_id env rid st =
     (case xe_get_room env rid of None \<Rightarrow> st | Some r \<Rightarrow> update_room_unread_count env r st)"

definition exec_fully_read_event :: "exec_env \<Rightarrow> sdk_room \<Rightarrow> executor \<Rightarrow> executor" where
  "exec_fully_read_event env r st = update_room_unread_count env r st"

definition exec_event_cache_generic_update :: "exec_env \<Rightarrow> string \<Rightarrow> executor \<Rightarrow> executor" where
  "exec_event_cache_generic_update env rid st = update_room_unread_count_by_id env rid st"

text \<open>The last typing event of an update; events that do not parse are skipped.\<close>

fun get_user_typing_list :: "exec_env \<Rightarrow> raw list \<Rightarrow> string list option \<Rightarrow> string list option" where
  "get_user_typing_list env [] result = result"
| "get_user_typing_list env (event # events) result =
     (case xe_parse_ephemeral env event of
        Some (EpTyping user_ids) \<Rightarrow> get_user_typing_list env events (Some user_ids)
      | _ \<Rightarrow> get_user_typing_list env events result)"

text \<open>The read receipts of an event: those that move a marker forward, by user.\<close>

fun process_user_receipts ::
  "string \<Rightarrow> (string \<times> u64 option) list \<Rightarrow> (string, u64) hmap \<Rightarrow> executor \<Rightarrow>
   (string, u64) hmap \<times> executor" where
  "process_user_receipts rid [] result st = (result, st)"
| "process_user_receipts rid ((user_id, None) # rs) result st = process_user_receipts rid rs result st"
| "process_user_receipts rid ((user_id, Some ts) # rs) result st =
     (case on_memory (mc_set_read_marker rid user_id ts) st of
        (Inr True, st) \<Rightarrow> process_user_receipts rid rs (hm_insert user_id ts result) st
      | (_, st) \<Rightarrow> process_user_receipts rid rs result st)"

fun process_receipts ::
  "string \<Rightarrow> (string \<times> receipts) list \<Rightarrow> (string, u64) hmap \<Rightarrow> executor \<Rightarrow>
   (string, u64) hmap \<times> executor" where
  "process_receipts rid [] result st = (result, st)"
| "process_receipts rid ((_, receipt) # rs) result st =
     (case hm_get receipt RtRead of
        None \<Rightarrow> process_receipts rid rs result st
      | Some users \<Rightarrow>
          (case process_user_receipts rid users result st of
             (result, st) \<Rightarrow> process_receipts rid rs result st))"

fun collect_read_marker ::
  "exec_env \<Rightarrow> string \<Rightarrow> raw list \<Rightarrow> (string, u64) hmap \<Rightarrow> executor \<Rightarrow>
   (string, u64) hmap \<times> executor" where
  "collect_read_marker env rid [] result st = (result, st)"
| "collect_read_marker env rid (event # events) result st =
     (case xe_parse_ephemeral env event of
        Some (EpReceipt receipts) \<Rightarrow>
          (case process_receipts rid receipts [] st of
             (new, st) \<Rightarrow> collect_read_marker env rid events (merge_hash_map_max result new) st)
      | _ \<Rightarrow> collect_read_marker env rid events result st)"

definition get_read_marker ::
  "exec_env \<Rightarrow> string \<Rightarrow> raw list \<Rightarrow> executor \<Rightarrow> (string, u64) hmap option \<times> executor" where
  "get_read_marker env rid ephemeral st =
     (case collect_read_marker env rid ephemeral [] st of
        (result, st) \<Rightarrow> (if result = [] then None else Some result, st))"

definition exec_joined_room_update :: "exec_env \<Rightarrow> string \<Rightarrow> raw list \<Rightarrow> executor \<Rightarrow> executor" where
  "exec_joined_room_update env rid ephemeral st =
     (let st = update_room_unread_count_by_id env rid st
      in case xe_get_room env rid of
           None \<Rightarrow> st
         | Some r \<Rightarrow>
             (let typing_list = get_user_typing_list env ephemeral None;
                  (read_marker, st) = get_read_marker env (sr_id r) ephemeral st
              in if typing_list = None \<and> read_marker = None then st
                 else send_if_new (rid,
                        (case typing_list of Some list \<Rightarrow> [ChTyping list] | None \<Rightarrow> []) @
                        (case read_marker of Some new \<Rightarrow> [ChReadMarker new] | None \<Rightarrow> [])) st))"

section \<open>Redactions and reactions\<close>

definition redact_room_message :: "sdk_room \<Rightarrow> redaction_content \<Rightarrow> string \<Rightarrow> executor \<Rightarrow> executor" where
  "redact_room_message r redaction message_id st =
     send_event (MessageChangeEvent (sr_id r) message_id [McContent (CRemoved (rc_reason redaction))]) st"

text \<open>The cache answers an error as if it did not know the reaction.\<close>

definition redact_reaction :: "sdk_room \<Rightarrow> string \<Rightarrow> executor \<Rightarrow> executor" where
  "redact_reaction r reaction_id st =
     (case on_memory (mc_remove_reaction_by_id (sr_id r) reaction_id) st of
        (Inr (Some md), st) \<Rightarrow>
          send_event (ReactionRemovedEvent
            \<lparr>r_message_id = rm_message_id md, r_room_id = rm_room_id md, r_reaction = rm_emoji md,
             r_user_id = Some (rm_user_id md)\<rparr>) st
      | (_, st) \<Rightarrow> st)"

fun redact_any_message_like_event ::
  "sdk_room \<Rightarrow> redaction_content \<Rightarrow> string \<Rightarrow> message_like \<Rightarrow> executor \<Rightarrow> executor" where
  "redact_any_message_like_event r redaction event_id (ReactionEvent _) st = redact_reaction r event_id st"
| "redact_any_message_like_event r redaction event_id (RoomEncrypted _) st =
     redact_room_message r redaction event_id st"
| "redact_any_message_like_event r redaction event_id (RoomMessage _) st =
     redact_room_message r redaction event_id st"
| "redact_any_message_like_event r redaction event_id _ st = st"

definition redact_any_timeline_event ::
  "exec_env \<Rightarrow> sdk_room \<Rightarrow> redaction_content \<Rightarrow> raw \<Rightarrow> executor \<Rightarrow> executor" where
  "redact_any_timeline_event env r redaction event st =
     (case parse_full (xe_parsers env) event of
        None \<Rightarrow> st
      | Some e \<Rightarrow>
          (case ev_body e of
             MessageLike m \<Rightarrow> redact_any_message_like_event r redaction (ev_id e) m st
           | State _ \<Rightarrow> st))"

definition redact_any_sync_timeline_event ::
  "exec_env \<Rightarrow> sdk_room \<Rightarrow> redaction_content \<Rightarrow> raw \<Rightarrow> executor \<Rightarrow> executor" where
  "redact_any_sync_timeline_event env r redaction event st =
     (case parse_sync (xe_parsers env) event of
        None \<Rightarrow> st
      | Some e \<Rightarrow>
          (case ev_body e of
             MessageLike m \<Rightarrow> redact_any_message_like_event r redaction (ev_id e) m st
           | State _ \<Rightarrow> st))"

definition exec_room_redaction_event ::
  "exec_env \<Rightarrow> sdk_room \<Rightarrow> redaction_content \<Rightarrow> executor \<Rightarrow> executor" where
  "exec_room_redaction_event env r redaction st =
     (case rc_redacts redaction of
        None \<Rightarrow> st
      | Some redact_id \<Rightarrow>
          (case xe_event env (sr_id r) redact_id of
             Inl _ \<Rightarrow> st
           | Inr event \<Rightarrow>
               (case te_kind event of
                  Decrypted raw \<Rightarrow> redact_any_timeline_event env r redaction raw st
                | PlainText raw \<Rightarrow> redact_any_sync_timeline_event env r redaction raw st
                | UnableToDecrypt _ _ \<Rightarrow> st)))"

definition exec_reaction_event :: "sdk_room \<Rightarrow> sync_event \<Rightarrow> annotation \<Rightarrow> executor \<Rightarrow> executor" where
  "exec_reaction_event r event a st =
     (let proto = \<lparr>r_message_id = an_event_id a, r_room_id = sr_id r, r_reaction = an_key a,
                   r_user_id = Some (ev_sender event)\<rparr>;
          (_, st) = on_memory (mc_cache_reaction (sr_id r) event a) st
      in send_event (ReactionCreatedEvent proto) st)"

section \<open>Rooms and their members\<close>

text \<open>Handlers that send one change of the room.\<close>

definition exec_room_name_event :: "sdk_room \<Rightarrow> string \<Rightarrow> executor \<Rightarrow> executor" where
  "exec_room_name_event r name st = send_event (RoomChangeEvent (sr_id r) [ChDisplayName name]) st"

definition exec_room_join_rules_event :: "sdk_room \<Rightarrow> join_rule_m \<Rightarrow> executor \<Rightarrow> executor" where
  "exec_room_join_rules_event r join_rule st =
     send_event (RoomChangeEvent (sr_id r) [ChJoinRule (join_rule_into_chat join_rule)]) st"

definition exec_room_avatar_event :: "exec_env \<Rightarrow> sdk_room \<Rightarrow> executor \<Rightarrow> executor" where
  "exec_room_avatar_event env r st =
     (let (avatar_path, st) = on_fs (get_room_avatar_path (mv_media (xe_messages env))
            (mv_manager (xe_messages env)) (sr_avatar r)) st
      in send_event (RoomChangeEvent (sr_id r) [ChAvatarPath (unwrap_or_empty avatar_path)]) st)"

definition exec_room_pinned_events_event :: "sdk_room \<Rightarrow> string list \<Rightarrow> executor \<Rightarrow> executor" where
  "exec_room_pinned_events_event r ids st = send_event (RoomChangeEvent (sr_id r) [ChPinned ids]) st"

definition exec_room_power_levels_event :: "exec_env \<Rightarrow> sdk_room \<Rightarrow> executor \<Rightarrow> executor" where
  "exec_room_power_levels_event env r st =
     (case xe_user_id env of
        None \<Rightarrow> st
      | Some user_id \<Rightarrow>
          send_event (RoomChangeEvent (sr_id r) [ChPermissions (get_room_permissions r user_id)]) st)"

definition exec_tag_event :: "sdk_room \<Rightarrow> tag_name list \<Rightarrow> executor \<Rightarrow> executor" where
  "exec_tag_event r tags st =
     send_event (RoomChangeEvent (sr_id r) [ChFavourite (TagFavourite \<in> set tags)]) st"

definition exec_conference_state_event ::
  "sdk_room \<Rightarrow> string event_content \<Rightarrow> executor \<Rightarrow> executor" where
  "exec_conference_state_event r event st =
     (let conference_url = (case event of Original url \<Rightarrow> url | RedactedContent \<Rightarrow> '''')
      in send_event (RoomChangeEvent (sr_id r) [ChConferenceUrl conference_url]) st)"

definition exec_sync_receipt_event :: "sdk_room \<Rightarrow> executor \<Rightarrow> executor" where
  "exec_sync_receipt_event r st = st"

definition send_room_created_event_if_needed :: "exec_env \<Rightarrow> sdk_room \<Rightarrow> executor \<Rightarrow> executor" where
  "send_room_created_event_if_needed env r st =
     (case is_known_room (sr_id r) (ex_memory st) of
        Inl _ \<Rightarrow> st
      | Inr is_known \<Rightarrow>
          if is_known then st
          else (case on_fs (assemble_chat_room (mv_media (xe_messages env)) (mv_manager (xe_messages env))
                       (xe_user_id env) r) st of
                  (Inl _, st) \<Rightarrow> st
                | (Inr proto, st) \<Rightarrow> send_event (RoomCreatedEvent proto) st))"

definition process_own_leave_change ::
  "sdk_room \<Rightarrow> member_content \<Rightarrow> room_leave_reason \<Rightarrow> executor \<Rightarrow> executor" where
  "process_own_leave_change r c reason st = send_event (RoomLeftEvent (sr_id r) reason (mb_reason c)) st"

text \<open>The result says whether the change has been handled.\<close>

definition process_own_membership_change ::
  "exec_env \<Rightarrow> sdk_room \<Rightarrow> member_content \<Rightarrow> executor \<Rightarrow> bool \<times> executor" where
  "process_own_membership_change env r c st =
     (case mb_change c of
        ChLeft \<Rightarrow> (True, process_own_leave_change r c LeftByUser st)
      | ChKicked \<Rightarrow> (True, process_own_leave_change r c LeftKicked st)
      | ChBanned \<Rightarrow> (True, process_own_leave_change r c LeftBanned st)
      | ChKickedAndBanned \<Rightarrow> (True, process_own_leave_change r c LeftBanned st)
      | ChJoined \<Rightarrow> (True, send_room_created_event_if_needed env r st)
      | _ \<Rightarrow> (False, st))"

definition process_profile_change ::
  "exec_env \<Rightarrow> sync_event \<Rightarrow> string option option \<Rightarrow> string option option \<Rightarrow> executor \<Rightarrow> executor" where
  "process_profile_change env event displayname_change avatar_url_change st =
     (let user_id = ev_sender event;
          change = new_profile_change displayname_change avatar_url_change
      in if \<not> is_new_user_change user_id change st then st
         else (let names = (case uc_displayname change of Some n \<Rightarrow> [UcDisplayName n] | None \<Rightarrow> []);
                   (paths, st) = (if uc_avatar_uri change \<noteq> None
                      then (case on_fs (user_avatar_path (mv_media (xe_messages env))
                               (mv_manager (xe_messages env)) (xe_users env) user_id) st of
                              (path, st) \<Rightarrow> ([UcAvatarPath (unwrap_or_empty path)], st))
                      else ([], st));
                   st = track_user_change user_id change st
               in send_event (UserChangeEvent user_id (names @ paths)) st))"

text \<open>The change of a member as the application sees it: the new list of users, and a message.\<close>

definition exec_general_member_change ::
  "sdk_room \<Rightarrow> sync_event \<Rightarrow> member_content \<Rightarrow> executor \<Rightarrow> executor" where
  "exec_general_member_change r event c st =
     (case get_room_members r of
        Inl _ \<Rightarrow> st
      | Inr members \<Rightarrow>
          (let st = send_event (RoomChangeEvent (sr_id r) [ChUserIdList members]) st
           in case membership_change_try_into_chat (mb_change c) of
                Inl _ \<Rightarrow> st
              | Inr change \<Rightarrow>
                  send_event (MessageReceivedEvent (default_message
                    \<lparr>m_room_id := sr_id r, m_id := ev_id event, m_sender_id := ev_sender event,
                     m_timestamp := ev_ts event, m_content := Some (CMembership change (mb_state_key c))\<rparr>))
                    st))"

definition exec_room_member_event ::
  "exec_env \<Rightarrow> sdk_room \<Rightarrow> sync_event \<Rightarrow> member_content \<Rightarrow> executor \<Rightarrow> executor" where
  "exec_room_member_event env r event c st =
     (let (handled, st) = (if Some (mb_state_key c) = xe_user_id env
            then process_own_membership_change env r c st else (False, st))
      in if handled then st
         else (case mb_change c of
                 ChProfileChanged d a \<Rightarrow> process_profile_change env event d a st
               | _ \<Rightarrow> exec_general_member_change r event c st))"

text \<open>A room's name as the SDK shows it.\<close>

fun display_name_to_string :: "exec_env \<Rightarrow> room_display_name \<Rightarrow> string" where
  "display_name_to_string env DnEmpty = xe_empty_name env"
| "display_name_to_string env (DnNamed n) = n"

definition exec_stripped_room_member_event ::
  "exec_env \<Rightarrow> sdk_room \<Rightarrow> stripped_member \<Rightarrow> executor \<Rightarrow> executor" where
  "exec_stripped_room_member_event env r event st =
     (if Some (sm_state_key event) \<noteq> xe_user_id env then st
      else if sm_membership event \<noteq> MsInvite then st
      else send_event (InvitedEvent (sr_id r) (sm_reason event)
             (map_option (display_name_to_string env) (result_ok (sr_display_name r)))) st)"

definition exec_presence_event :: "presence_event \<Rightarrow> executor \<Rightarrow> executor" where
  "exec_presence_event event st =
     (let user_id = pe_sender event;
          user_status = \<lparr>us_state = Some (presence_into_chat (pe_presence event)),
                         us_message = pe_status_msg event\<rparr>;
          change = change_status user_status user_change_new
      in if \<not> is_new_user_change user_id change st then st
         else send_event (UserChangeEvent user_id [UcStatus user_status]) (track_user_change user_id change st))"

section \<open>Messages and polls\<close>

definition maybe_mark_room_as_unread :: "sdk_room \<Rightarrow> u64 \<Rightarrow> executor \<Rightarrow> executor" where
  "maybe_mark_room_as_unread r event_ts st =
     (case mc_room_mark_as_read_ts (sr_id r) (ex_memory st) of
        Inr (Some ts) \<Rightarrow>
          if ucast event_ts \<le> ts then st
          else snd (on_memory (mc_mark_room_as_unread (sr_id r)) st)
      | _ \<Rightarrow> st)"

definition process_new_message ::
  "exec_env \<Rightarrow> sdk_room \<Rightarrow> sync_event \<Rightarrow> room_message_content \<Rightarrow> executor \<Rightarrow> executor" where
  "process_new_message env r event c st =
     (let full = into_full_event event (sr_id r);
          (msg, st) = on_fs (message_from_event (xe_messages env) (sr_id r) full c) st;
          st = maybe_mark_room_as_unread r (m_timestamp msg) st
      in send_event (MessageReceivedEvent msg) st)"

definition process_replacement_message ::
  "exec_env \<Rightarrow> sdk_room \<Rightarrow> string \<Rightarrow> new_content \<Rightarrow> executor \<Rightarrow> executor" where
  "process_replacement_message env r event_id new st =
     (let mentions = matrix_mentions_to_proto_mentions (nc_mentions new)
      in case on_fs (generate_message_content (xe_messages env) (sr_id r) event_id (nc_msgtype new)) st of
           (None, st) \<Rightarrow> st
         | (Some content, st) \<Rightarrow>
             send_event (MessageChangeEvent (sr_id r) event_id
               [McContent content, McMentions mentions, McEdited True]) st)"

definition exec_room_message_event ::
  "exec_env \<Rightarrow> sdk_room \<Rightarrow> sync_event \<Rightarrow> room_message_content \<Rightarrow> executor \<Rightarrow> executor" where
  "exec_room_message_event env r event c st =
     (if \<not> sr_is_joined r then st
      else (case rmc_relates_to c of
              Some (RelReplacement event_id new) \<Rightarrow> process_replacement_message env r event_id new st
            | _ \<Rightarrow> process_new_message env r event c st))"

definition exec_new_unstable_poll_start_event ::
  "sdk_room \<Rightarrow> sync_event \<Rightarrow> poll_start \<Rightarrow> executor \<Rightarrow> executor" where
  "exec_new_unstable_poll_start_event r event block st =
     (case assemble_poll_start block of
        Inl _ \<Rightarrow> st
      | Inr content \<Rightarrow>
          send_event (MessageReceivedEvent (default_message
            \<lparr>m_id := ev_id event, m_room_id := sr_id r, m_sender_id := ev_sender event,
             m_timestamp := ev_ts event, m_content := Some (CPoll content)\<rparr>)) st)"

text \<open>The poll a relation names, as its relations on the server give it.\<close>

definition live_poll :: "exec_env \<Rightarrow> sdk_room \<Rightarrow> string \<Rightarrow> error + poll" where
  "live_poll env r poll_id = assemble_poll (xe_parsers env) (sr_id r) (xe_relations env (sr_id r) poll_id)"

definition send_poll :: "sdk_room \<Rightarrow> string \<Rightarrow> poll \<Rightarrow> executor \<Rightarrow> executor" where
  "send_poll r poll_id content st =
     send_event (MessageChangeEvent (sr_id r) poll_id [McContent (CPoll content)]) st"

definition exec_replacement_unstable_poll_start_event ::
  "exec_env \<Rightarrow> sdk_room \<Rightarrow> string \<Rightarrow> poll_start option \<Rightarrow> executor \<Rightarrow> executor" where
  "exec_replacement_unstable_poll_start_event env r poll_id new st =
     (case live_poll env r poll_id of
        Inl _ \<Rightarrow> st
      | Inr original \<Rightarrow>
          send_poll r poll_id
            (case new of Some block \<Rightarrow> snd (replace_content original block) | None \<Rightarrow> original) st)"

fun exec_unstable_poll_start_event ::
  "exec_env \<Rightarrow> sdk_room \<Rightarrow> sync_event \<Rightarrow> poll_start_content \<Rightarrow> executor \<Rightarrow> executor" where
  "exec_unstable_poll_start_event env r event (PsNew block) st =
     exec_new_unstable_poll_start_event r event block st"
| "exec_unstable_poll_start_event env r event (PsReplacement poll_id _ new) st =
     exec_replacement_unstable_poll_start_event env r poll_id new st"
| "exec_unstable_poll_start_event env r event (PsOther _) st = st"

definition exec_unstable_poll_response_event ::
  "exec_env \<Rightarrow> sdk_room \<Rightarrow> sync_event \<Rightarrow> poll_response_content \<Rightarrow> executor \<Rightarrow> executor" where
  "exec_unstable_poll_response_event env r event c st =
     (let poll_id = pr_poll_id c
      in case live_poll env r poll_id of
           Inl _ \<Rightarrow> st
         | Inr content \<Rightarrow> send_poll r poll_id (add_answer content (ev_sender event) (pr_answers c)) st)"

definition exec_unstable_poll_end_event :: "exec_env \<Rightarrow> sdk_room \<Rightarrow> string \<Rightarrow> executor \<Rightarrow> executor" where
  "exec_unstable_poll_end_event env r poll_id st =
     (case live_poll env r poll_id of
        Inl _ \<Rightarrow> st
      | Inr content \<Rightarrow> send_poll r poll_id (content\<lparr>poll_completed := True\<rparr>) st)"

section \<open>The executor\<close>

fun exec_action :: "exec_env \<Rightarrow> action \<Rightarrow> executor \<Rightarrow> executor" where
  "exec_action env (RoomDiscovered rid) = exec_queued_room_changes rid"
| "exec_action env (AnyMessageLikeAction r event) = exec_any_message_like_event r event"
| "exec_action env (RoomRedactionAction r event) = exec_room_redaction_event env r event"
| "exec_action env (RoomNameAction r name) = exec_room_name_event r name"
| "exec_action env (RoomMemberAction r event c) = exec_room_member_event env r event c"
| "exec_action env (StrippedRoomMemberAction r event) = exec_stripped_room_member_event env r event"
| "exec_action env (RoomJoinRulesAction r rule) = exec_room_join_rules_event r rule"
| "exec_action env (RoomAvatarAction r) = exec_room_avatar_event env r"
| "exec_action env (RoomMessageAction r event c) = exec_room_message_event env r event c"
| "exec_action env (RoomPinnedEventsAction r ids) = exec_room_pinned_events_event r ids"
| "exec_action env (RoomPowerLevelsAction r) = exec_room_power_levels_event env r"
| "exec_action env (ReactionAction r event a) = exec_reaction_event r event a"
| "exec_action env (PresenceAction event) = exec_presence_event event"
| "exec_action env (TagAction r tags) = exec_tag_event r tags"
| "exec_action env (SyncReceiptAction r) = exec_sync_receipt_event r"
| "exec_action env (FullyReadAction r) = exec_fully_read_event env r"
| "exec_action env (JoinedRoomUpdate rid ephemeral) = exec_joined_room_update env rid ephemeral"
| "exec_action env (EventCacheGenericUpdate rid) = exec_event_cache_generic_update env rid"
| "exec_action env (UnstablePollStartAction r event c) = exec_unstable_poll_start_event env r event c"
| "exec_action env (UnstablePollResponseAction r event c) = exec_unstable_poll_response_event env r event c"
| "exec_action env (UnstablePollEndAction r poll_id) = exec_unstable_poll_end_event env r poll_id"
| "exec_action env (ConferenceStateAction r event) = exec_conference_state_event r event"

text \<open>The loop of \<open>run\<close>, over the actions it receives, each with what the SDK answers then.\<close>

fun run_actions :: "(exec_env \<times> action) list \<Rightarrow> executor \<Rightarrow> executor" where
  "run_actions [] st = st"
| "run_actions ((env, act) # acts) st = run_actions acts (exec_action env act st)"

end
