(* ===== verification/EventProperties.thy ===== *)
theory EventProperties
  imports Events CacheProperties
begin

text \<open>
  What the event executor keeps and promises.  The contracts \<open>marker_relation\<close>,
  \<open>quiet_relation\<close> and \<open>executor_relation\<close>, each extending the one before, lift a relation from
  the steps the handlers are made of to every action and every run; they are interpreted for the
  queues, the log, the rooms the memory cache knows and the keys of its rooms.
\<close>

section \<open>What any action can do\<close>

text \<open>
  A relation between the executor before and after holds across every action when it holds
  across the steps the handlers are made of: sending an event, the operations on the files and
  on the memory cache that the handlers use, tracking a change, and taking a room's queue.
\<close>

text \<open>The shapes of the changes that are tracked.\<close>

fun live_change :: "room_change list \<Rightarrow> bool" where
  "live_change [ChUnread _] = True"
| "live_change [ChTyping _] = True"
| "live_change [ChReadMarker _] = True"
| "live_change [ChTyping _, ChReadMarker _] = True"
| "live_change _ = False"

text \<open>The actions that report live changes, and those that leave the queues alone.\<close>

fun live_action :: "action \<Rightarrow> bool" where
  "live_action (FullyReadAction _) = True"
| "live_action (JoinedRoomUpdate _ _) = True"
| "live_action (EventCacheGenericUpdate _) = True"
| "live_action _ = False"

fun quiet_action :: "action \<Rightarrow> bool" where
  "quiet_action (RoomDiscovered _) = False"
| "quiet_action act = (\<not> live_action act)"

lemma on_memory_eq:
  "on_memory f st = (fst (f (ex_memory st)), st\<lparr>ex_memory := snd (f (ex_memory st))\<rparr>)"
  by (simp add: on_memory_def split: prod.split)

lemma on_fs_eq: "on_fs f st = (fst (f (ex_fs st)), st\<lparr>ex_fs := snd (f (ex_fs st))\<rparr>)"
  by (simp add: on_fs_def split: prod.split)

locale marker_relation =
  fixes R :: "executor \<Rightarrow> executor \<Rightarrow> bool"
  assumes R_refl: "R st st"
    and R_trans: "R st st' \<Longrightarrow> R st' st'' \<Longrightarrow> R st st''"
    and R_marker: "R st (snd (on_memory (mc_set_read_marker rid u ts) st))"
begin

lemma R_marker': "on_memory (mc_set_read_marker rid u ts) st = (r, st') \<Longrightarrow> R st st'"
  using R_marker [where rid = rid and u = u and ts = ts and st = st] by simp

lemma process_user_receipts_R: "process_user_receipts rid rs m st = (m', st') \<Longrightarrow> R st st'"
proof (induction rs arbitrary: m st)
  case Nil
  then show ?case by (simp add: R_refl)
next
  case (Cons x rs)
  obtain u t where x: "x = (u, t)" by (cases x)
  show ?case
  proof (cases t)
    case None
    with Cons x show ?thesis by simp
  next
    case (Some ts)
    obtain r st1 where s: "on_memory (mc_set_read_marker rid u ts) st = (r, st1)"
      by (cases "on_memory (mc_set_read_marker rid u ts) st")
    have "\<exists>m. process_user_receipts rid rs m st1 = (m', st')"
      using Cons.prems x Some s by (auto split: sum.splits bool.splits)
    with Cons.IH R_marker' [OF s] R_trans show ?thesis by blast
  qed
qed

lemma process_receipts_R: "process_receipts rid rs m st = (m', st') \<Longrightarrow> R st st'"
proof (induction rs arbitrary: m st)
  case Nil
  then show ?case by (simp add: R_refl)
next
  case (Cons x rs)
  obtain i r where x: "x = (i, r)" by (cases x)
  show ?case
  proof (cases "hm_get r RtRead")
    case None
    with Cons x show ?thesis by simp
  next
    case (Some us)
    obtain m1 st1 where s: "process_user_receipts rid us m st = (m1, st1)"
      by (cases "process_user_receipts rid us m st")
    with Cons.prems x Some have "process_receipts rid rs m1 st1 = (m', st')" by simp
    with Cons.IH process_user_receipts_R [OF s] R_trans show ?thesis by blast
  qed
qed

lemma collect_read_marker_R: "collect_read_marker env rid es m st = (m', st') \<Longrightarrow> R st st'"
proof (induction es arbitrary: m st)
  case Nil
  then show ?case by (simp add: R_refl)
next
  case (Cons e es)
  show ?case
  proof (cases "\<exists>rs. xe_parse_ephemeral env e = Some (EpReceipt rs)")
    case True
    then obtain rs where p: "xe_parse_ephemeral env e = Some (EpReceipt rs)" by blast
    obtain m1 st1 where s: "process_receipts rid rs [] st = (m1, st1)"
      by (cases "process_receipts rid rs [] st")
    with Cons.prems p have "collect_read_marker env rid es (merge_hash_map_max m m1) st1 = (m', st')" by simp
    with Cons.IH process_receipts_R [OF s] R_trans show ?thesis by blast
  next
    case False
    with Cons.prems have "collect_read_marker env rid es m st = (m', st')"
      by (auto split: option.splits ephemeral_content.splits)
    with Cons.IH show ?thesis by blast
  qed
qed

lemma get_read_marker_R: "get_read_marker env rid es st = (m, st') \<Longrightarrow> R st st'"
  by (auto simp: get_read_marker_def intro: collect_read_marker_R split: prod.splits)

end

text \<open>The handlers that track no change and take no queue.\<close>

locale quiet_relation = marker_relation +
  assumes R_send: "R st (send_event e st)"
    and R_files: "R st (st\<lparr>ex_fs := fs\<rparr>)"
    and R_reaction: "R st (snd (on_memory (mc_cache_reaction rid se a) st))"
    and R_unreaction: "R st (snd (on_memory (mc_remove_reaction_by_id rid i) st))"
    and R_unread: "R st (snd (on_memory (mc_mark_room_as_unread rid) st))"
    and R_user: "R st (track_user_change u uc st)"
begin

lemma R_fs: "on_fs f st = (r, st') \<Longrightarrow> R st st'"
  using R_files by (auto simp: on_fs_def split: prod.splits)

lemma R_unreaction': "on_memory (mc_remove_reaction_by_id rid i) st = (r, st') \<Longrightarrow> R st st'"
  using R_unreaction [where rid = rid and i = i and st = st] by simp

lemma R_send_trans: "R st st' \<Longrightarrow> R st (send_event e st')"
  by (rule R_trans [OF _ R_send])

lemma R_user_trans: "R st st' \<Longrightarrow> R st (track_user_change u uc st')"
  by (rule R_trans [OF _ R_user])

lemmas R_steps = R_refl R_send R_send_trans R_user_trans R_user

lemma send_changes_R: "R st (send_changes cs st)"
  by (induction cs arbitrary: st) (auto intro: R_refl R_trans [OF R_send])

lemma redact_reaction_R: "R st (redact_reaction r i st)"
proof -
  obtain x st1 where m: "on_memory (mc_remove_reaction_by_id (sr_id r) i) st = (x, st1)"
    by (cases "on_memory (mc_remove_reaction_by_id (sr_id r) i) st")
  show ?thesis
    using R_unreaction' [OF m]
    by (auto simp: redact_reaction_def m R_send_trans split: sum.split option.split)
qed

lemma redact_any_message_like_event_R: "R st (redact_any_message_like_event r c i m st)"
  by (cases m) (simp_all add: R_steps redact_reaction_R redact_room_message_def)

lemma exec_room_redaction_event_R: "R st (exec_room_redaction_event env r c st)"
  by (auto simp: exec_room_redaction_event_def redact_any_timeline_event_def
      redact_any_sync_timeline_event_def R_refl redact_any_message_like_event_R
      split: option.split sum.split timeline_kind.split event_body.split)

lemma exec_any_message_like_event_R: "R st (exec_any_message_like_event r e st)"
proof -
  obtain x st1 where m: "on_memory (mc_set_read_marker (sr_id r) (ev_sender e) (ev_ts e)) st = (x, st1)"
    by (cases "on_memory (mc_set_read_marker (sr_id r) (ev_sender e) (ev_ts e)) st")
  show ?thesis
    using R_marker' [OF m]
    by (auto simp: exec_any_message_like_event_def Let_def m R_send_trans split: sum.split)
qed

lemma exec_reaction_event_R: "R st (exec_reaction_event r e a st)"
  using R_reaction [where rid = "sr_id r" and se = e and a = a and st = st]
  by (auto simp: exec_reaction_event_def Let_def R_send_trans split: prod.split)

lemma exec_room_avatar_event_R: "R st (exec_room_avatar_event env r st)"
  by (auto simp: exec_room_avatar_event_def Let_def R_send_trans R_fs split: prod.split)

lemma exec_room_power_levels_event_R: "R st (exec_room_power_levels_event env r st)"
  by (simp add: exec_room_power_levels_event_def R_steps split: option.split)

lemma send_room_created_event_if_needed_R: "R st (send_room_created_event_if_needed env r st)"
  by (auto simp: send_room_created_event_if_needed_def R_steps
      split: sum.split prod.split intro: R_send_trans R_fs)

lemma process_own_membership_change_R:
  "process_own_membership_change env r c st = (b, st') \<Longrightarrow> R st st'"
  by (auto simp: process_own_membership_change_def process_own_leave_change_def R_steps
      send_room_created_event_if_needed_R split: membership_change_m.splits)

lemma process_profile_change_R: "R st (process_profile_change env e d a st)"
  by (auto simp: process_profile_change_def Let_def R_steps
      split: prod.split option.split intro: R_send_trans R_user_trans R_fs)

lemma exec_general_member_change_R: "R st (exec_general_member_change r e c st)"
  by (simp add: exec_general_member_change_def Let_def R_steps split: sum.split)

lemma exec_room_member_event_R: "R st (exec_room_member_event env r e c st)"
proof -
  have rest: "R st1 (case mb_change c of
        ChProfileChanged d a \<Rightarrow> process_profile_change env e d a st1
      | _ \<Rightarrow> exec_general_member_change r e c st1)" for st1
    using process_profile_change_R exec_general_member_change_R by (cases "mb_change c") simp_all
  obtain b st1 where o: "process_own_membership_change env r c st = (b, st1)"
    by (cases "process_own_membership_change env r c st")
  show ?thesis
    using rest [of st] R_trans [OF process_own_membership_change_R [OF o] rest]
      process_own_membership_change_R [OF o]
    by (simp add: exec_room_member_event_def Let_def o)
qed

lemma exec_stripped_room_member_event_R: "R st (exec_stripped_room_member_event env r e st)"
  by (simp add: exec_stripped_room_member_event_def R_steps)

lemma exec_presence_event_R: "R st (exec_presence_event e st)"
  by (simp add: exec_presence_event_def Let_def R_steps)

lemma maybe_mark_room_as_unread_R: "R st (maybe_mark_room_as_unread r ts st)"
  by (auto simp: maybe_mark_room_as_unread_def R_refl R_unread split: sum.split option.split)

lemma process_new_message_R: "R st (process_new_message env r e c st)"
  by (auto simp: process_new_message_def Let_def split: prod.split
      intro!: R_send_trans R_trans [OF R_fs maybe_mark_room_as_unread_R])

lemma process_replacement_message_R: "R st (process_replacement_message env r i n st)"
  by (auto simp: process_replacement_message_def Let_def split: prod.split option.split
      intro: R_send_trans R_fs)

lemma exec_room_message_event_R: "R st (exec_room_message_event env r e c st)"
  by (auto simp: exec_room_message_event_def R_refl process_replacement_message_R process_new_message_R
      split: option.split relation.split)

lemma exec_poll_events_R:
  "R st (exec_unstable_poll_start_event env r e c st)"
  "R st (exec_unstable_poll_response_event env r e pc st)"
  "R st (exec_unstable_poll_end_event env r i st)"
  by (cases c; auto simp: exec_new_unstable_poll_start_event_def send_poll_def R_steps
        exec_replacement_unstable_poll_start_event_def split: sum.split option.split)
    (simp_all add: exec_unstable_poll_response_event_def exec_unstable_poll_end_event_def Let_def
      send_poll_def R_steps split: sum.split)

lemma exec_one_change_R:
  "R st (exec_room_name_event r n st)" "R st (exec_room_join_rules_event r j st)"
  "R st (exec_room_pinned_events_event r ids st)" "R st (exec_tag_event r tags st)"
  "R st (exec_sync_receipt_event r st)" "R st (exec_conference_state_event r ce st)"
  by (simp_all add: exec_room_name_event_def exec_room_join_rules_event_def
      exec_room_pinned_events_event_def exec_tag_event_def exec_sync_receipt_event_def
      exec_conference_state_event_def R_steps)

lemmas quiet_handlers_R =
  exec_any_message_like_event_R exec_room_redaction_event_R exec_one_change_R
  exec_room_member_event_R exec_stripped_room_member_event_R exec_room_avatar_event_R
  exec_room_message_event_R exec_room_power_levels_event_R exec_reaction_event_R exec_presence_event_R
  exec_poll_events_R

lemma quiet_action_R: "quiet_action act \<Longrightarrow> R st (exec_action env act st)"
  by (cases act) (simp_all add: quiet_handlers_R)

end

text \<open>All handlers.\<close>

locale executor_relation = quiet_relation +
  assumes R_track: "is_new_room_change c st \<Longrightarrow> live_change (snd c) \<Longrightarrow> R st (track_room_change c st)"
    and R_take: "R st (st\<lparr>ex_room_changes := hm_insert rid [] (ex_room_changes st)\<rparr>)"
begin

lemma send_if_new_R: "live_change (snd c) \<Longrightarrow> R st (send_if_new c st)"
  by (simp add: send_if_new_def R_refl R_send_trans R_track)

lemma update_room_unread_count_R: "R st (update_room_unread_count env r st)"
  by (auto simp: update_room_unread_count_def Let_def intro: R_refl send_if_new_R)

lemma update_room_unread_count_by_id_R: "R st (update_room_unread_count_by_id env rid st)"
  by (simp add: update_room_unread_count_by_id_def R_refl update_room_unread_count_R split: option.split)

lemma exec_joined_room_update_R: "R st (exec_joined_room_update env rid es st)"
proof -
  let ?st = "update_room_unread_count_by_id env rid st"
  have u: "R st ?st" by (rule update_room_unread_count_by_id_R)
  show ?thesis
  proof (cases "xe_get_room env rid")
    case None
    with u show ?thesis by (simp add: exec_joined_room_update_def Let_def)
  next
    case (Some r)
    obtain m st1 where m: "get_read_marker env (sr_id r) es ?st = (m, st1)"
      by (cases "get_read_marker env (sr_id r) es ?st")
    have "R st st1" using u get_read_marker_R [OF m] R_trans by blast
    moreover have "R st1 (send_if_new (rid, ys @ zs) st1)" if "live_change (ys @ zs)" for ys zs
      by (rule send_if_new_R) (simp add: that)
    ultimately show ?thesis
      using Some m R_trans
      by (cases "get_user_typing_list env es None"; cases m)
        (simp_all add: exec_joined_room_update_def Let_def send_if_new_R)
  qed
qed

lemma exec_queued_room_changes_R: "R st (exec_queued_room_changes rid st)"
  by (auto simp: exec_queued_room_changes_def R_refl split: option.split
      intro: R_trans [OF R_take send_changes_R])

lemma exec_action_R: "R st (exec_action env act st)"
proof (cases "quiet_action act")
  case True
  then show ?thesis by (rule quiet_action_R)
next
  case False
  then show ?thesis
    by (cases act) (simp_all add: exec_fully_read_event_def exec_event_cache_generic_update_def
        update_room_unread_count_R update_room_unread_count_by_id_R exec_joined_room_update_R
        exec_queued_room_changes_R)
qed

lemma run_actions_R: "R st (run_actions acts st)"
  by (induction acts st rule: run_actions.induct)
    (auto intro: R_refl R_trans [OF exec_action_R])

end

section \<open>The queues\<close>

definition queue_ok :: "string \<Rightarrow> room_change_event list \<Rightarrow> bool" where
  "queue_ok rid q \<longleftrightarrow> length q \<le> max_queued_room_changes \<and>
     (\<forall>c \<in> set q. fst c = rid \<and> live_change (snd c)) \<and>
     successively (\<lambda>a b. \<not> same_room_change a b) q"

lemma queue_ok_Nil [simp]: "queue_ok rid []"
  by (simp add: queue_ok_def)

definition executor_ok :: "executor \<Rightarrow> bool" where
  "executor_ok st \<longleftrightarrow> hm_wf (ex_user_changes st) \<and> hm_wf (ex_room_changes st) \<and>
     (\<forall>rid q. hm_get (ex_room_changes st) rid = Some q \<longrightarrow> queue_ok rid q)"

lemma executor_fields [simp]:
  "ex_room_changes (send_event e st) = ex_room_changes st"
  "ex_user_changes (send_event e st) = ex_user_changes st"
  "ex_memory (send_event e st) = ex_memory st"
  "ex_sent (send_event e st) = ex_sent st @ [e]"
  "ex_room_changes (snd (on_memory f st)) = ex_room_changes st"
  "ex_user_changes (snd (on_memory f st)) = ex_user_changes st"
  "ex_sent (snd (on_memory f st)) = ex_sent st"
  "ex_memory (snd (on_memory f st)) = snd (f (ex_memory st))"
  "ex_room_changes (track_user_change u uc st) = ex_room_changes st"
  "ex_user_changes (track_user_change u uc st) = hm_insert u uc (ex_user_changes st)"
  "ex_memory (track_user_change u uc st) = ex_memory st"
  "ex_sent (track_user_change u uc st) = ex_sent st"
  "ex_user_changes (track_room_change c st) = ex_user_changes st"
  "ex_memory (track_room_change c st) = ex_memory st"
  "ex_sent (track_room_change c st) = ex_sent st"
  by (simp_all add: send_event_def on_memory_eq track_user_change_def track_room_change_def)

definition queue_of :: "string \<Rightarrow> executor \<Rightarrow> room_change_event list" where
  "queue_of rid st = (case hm_get (ex_room_changes st) rid of None \<Rightarrow> [] | Some q \<Rightarrow> q)"

lemma queue_of_track [simp]:
  "queue_of rid (track_room_change c st) =
     (if rid = fst c then push_change c (queue_of rid st) else queue_of rid st)"
  by (simp add: queue_of_def track_room_change_def split: option.split)

lemma queue_of_send [simp]: "queue_of rid (send_event e st) = queue_of rid st"
  by (simp add: queue_of_def)

lemma is_new_room_change_queue:
  "is_new_room_change c st \<longleftrightarrow>
     queue_of (fst c) st = [] \<or> \<not> same_room_change (last (queue_of (fst c) st)) c"
  by (auto simp: is_new_room_change_def queue_of_def split: option.split)

lemma executor_ok_queue:
  "executor_ok st \<longleftrightarrow> hm_wf (ex_user_changes st) \<and> hm_wf (ex_room_changes st) \<and>
     (\<forall>rid. queue_ok rid (queue_of rid st))"
  unfolding executor_ok_def queue_of_def by (auto split: option.splits)

lemma push_change_last: "push_change c q \<noteq> []" "last (push_change c q) = c"
  by (simp_all add: push_change_def)

lemma push_change_drop:
  "length q \<le> max_queued_room_changes \<Longrightarrow>
   push_change c q = drop (length (q @ [c]) - max_queued_room_changes) (q @ [c])"
  by (cases q) (auto simp: push_change_def max_queued_room_changes_def)

lemma queue_ok_push:
  assumes "queue_ok rid q" "fst c = rid" "live_change (snd c)" "q = [] \<or> \<not> same_room_change (last q) c"
  shows "queue_ok rid (push_change c q)"
proof (cases "length q \<ge> max_queued_room_changes")
  case True
  with assms(1) obtain x xs where q: "q = x # xs"
    by (cases q) (auto simp: max_queued_room_changes_def)
  with assms(1) have xs: "successively (\<lambda>a b. \<not> same_room_change a b) xs"
    by (auto simp: queue_ok_def successively_Cons)
  have "xs \<noteq> []" using True q by (auto simp: max_queued_room_changes_def)
  with True assms q xs show ?thesis
    by (simp add: queue_ok_def push_change_def successively_append_iff successively.simps(1,2) del: successively.simps(3))
next
  case False
  with assms show ?thesis
    by (auto simp: queue_ok_def push_change_def successively_append_iff)
qed

lemma executor_ok_cong:
  "ex_user_changes st' = ex_user_changes st \<Longrightarrow> ex_room_changes st' = ex_room_changes st \<Longrightarrow>
   executor_ok st' = executor_ok st"
  by (simp add: executor_ok_def)

lemma executor_ok_track:
  assumes "executor_ok st" "is_new_room_change c st" "live_change (snd c)"
  shows "executor_ok (track_room_change c st)"
  using assms queue_ok_push [of "fst c" "queue_of (fst c) st" c]
  by (simp add: executor_ok_queue is_new_room_change_queue) (simp add: track_room_change_def hm_entry_def)

lemma executor_ok_same:
  "executor_ok (send_event e st) = executor_ok st"
  "executor_ok (st\<lparr>ex_fs := fs\<rparr>) = executor_ok st"
  "executor_ok (snd (on_memory f st)) = executor_ok st"
  by (simp_all add: executor_ok_def)

lemma executor_ok_user: "executor_ok st \<Longrightarrow> executor_ok (track_user_change u uc st)"
  by (simp add: executor_ok_def)

lemma executor_ok_take:
  "executor_ok st \<Longrightarrow> executor_ok (st\<lparr>ex_room_changes := hm_insert rid [] (ex_room_changes st)\<rparr>)"
  by (simp add: executor_ok_def)

interpretation queues: executor_relation "\<lambda>st st'. executor_ok st \<longrightarrow> executor_ok st'"
  by unfold_locales (simp_all add: executor_ok_same executor_ok_user executor_ok_take executor_ok_track)

interpretation log: executor_relation "\<lambda>st st'. prefix (ex_sent st) (ex_sent st')"
  by unfold_locales (auto intro: prefix_order.trans)

definition known :: "string \<Rightarrow> executor \<Rightarrow> bool" where
  "known rid st \<longleftrightarrow> is_known_room rid (ex_memory st) = Inr True"

lemma known_iff:
  "known rid st \<longleftrightarrow> \<not> mtx_poisoned (mc_rooms (ex_memory st)) \<and>
     hm_get (mtx_data (mc_rooms (ex_memory st))) rid \<noteq> None"
  by (auto simp: known_def is_known_room_def get_room_def split: sum.splits)

lemma known_kept_in_room:
  "known rid st \<Longrightarrow> known rid (snd (on_memory (in_room f rid') st))"
  by (auto simp: known_iff in_room_def get_or_create_room_def and_then_def put_room_def Let_def lock_def
      split: sum.splits prod.splits option.splits if_splits)

lemma known_kept_in_known_room:
  "known rid st \<Longrightarrow> known rid (snd (on_memory (in_known_room d f rid') st))"
  by (auto simp: known_iff in_known_room_def get_room_def put_room_def lock_def
      split: sum.splits prod.splits option.splits if_splits)

lemma known_same:
  "known rid (send_event e st) = known rid st"
  "known rid (st\<lparr>ex_fs := fs\<rparr>) = known rid st"
  "known rid (track_user_change u uc st) = known rid st"
  "known rid (track_room_change c st) = known rid st"
  "known rid (st\<lparr>ex_room_changes := q\<rparr>) = known rid st"
  by (simp_all add: known_def)

interpretation rooms: executor_relation "\<lambda>st st'. \<forall>rid. known rid st \<longrightarrow> known rid st'"
  by unfold_locales
    (simp_all add: known_same mc_set_read_marker_def mc_cache_reaction_def mc_remove_reaction_by_id_def
      mc_mark_room_as_unread_def known_kept_in_room known_kept_in_known_room)

text \<open>The changes a step adds to what is sent and to the queues.\<close>

definition send_of :: "room_change_event \<Rightarrow> response" where
  "send_of c = RoomChangeEvent (fst c) (snd c)"

definition adds_changes :: "executor \<Rightarrow> executor \<Rightarrow> bool" where
  "adds_changes st st' \<longleftrightarrow> (\<exists>ts. ex_sent st' = ex_sent st @ map send_of ts \<and>
     (\<forall>rid. queue_of rid st' = fold push_change (filter (\<lambda>c. fst c = rid) ts) (queue_of rid st)))"

lemma adds_changes_refl: "adds_changes st st"
  unfolding adds_changes_def by (rule exI [of _ "[]"]) simp

lemma adds_changes_trans:
  assumes "adds_changes st st'" "adds_changes st' st''"
  shows "adds_changes st st''"
proof -
  from assms obtain ts us where "ex_sent st' = ex_sent st @ map send_of ts"
      "\<forall>rid. queue_of rid st' = fold push_change (filter (\<lambda>c. fst c = rid) ts) (queue_of rid st)"
      "ex_sent st'' = ex_sent st' @ map send_of us"
      "\<forall>rid. queue_of rid st'' = fold push_change (filter (\<lambda>c. fst c = rid) us) (queue_of rid st')"
    unfolding adds_changes_def by blast
  then show ?thesis
    unfolding adds_changes_def by (intro exI [of _ "ts @ us"]) simp
qed

lemma queue_of_memory [simp]: "queue_of rid (snd (on_memory f st)) = queue_of rid st"
  by (simp add: queue_of_def)

interpretation added: marker_relation adds_changes
proof
  show "adds_changes st (snd (on_memory (mc_set_read_marker rid u ts) st))" for st rid u ts
    unfolding adds_changes_def by (rule exI [of _ "[]"]) simp
qed (rule adds_changes_refl, rule adds_changes_trans)

lemma send_if_new_adds: "adds_changes st (send_if_new c st)"
proof (cases "is_new_room_change c st")
  case True
  then show ?thesis
    unfolding adds_changes_def
    by (intro exI [of _ "[c]"]) (simp add: send_if_new_def send_of_def)
next
  case False
  then show ?thesis by (simp add: send_if_new_def adds_changes_refl)
qed

lemma update_room_unread_count_by_id_adds: "adds_changes st (update_room_unread_count_by_id env rid st)"
  "adds_changes st (update_room_unread_count env r st)"
  by (simp_all add: update_room_unread_count_by_id_def update_room_unread_count_def Let_def
      send_if_new_adds adds_changes_refl split: option.split)

lemma live_action_adds: "live_action act \<Longrightarrow> adds_changes st (exec_action env act st)"
proof (cases act)
  case (JoinedRoomUpdate rid es)
  let ?st = "update_room_unread_count_by_id env rid st"
  show ?thesis
  proof (cases "xe_get_room env rid")
    case None
    with JoinedRoomUpdate show ?thesis
      by (simp add: exec_joined_room_update_def Let_def update_room_unread_count_by_id_adds)
  next
    case (Some r)
    obtain m st1 where m: "get_read_marker env (sr_id r) es ?st = (m, st1)"
      by (cases "get_read_marker env (sr_id r) es ?st")
    have "adds_changes st st1"
      using update_room_unread_count_by_id_adds(1) added.get_read_marker_R [OF m] adds_changes_trans by blast
    with adds_changes_trans [OF this send_if_new_adds] JoinedRoomUpdate Some m show ?thesis
      by (simp add: exec_joined_room_update_def Let_def)
  qed
qed (simp_all add: exec_fully_read_event_def exec_event_cache_generic_update_def
    update_room_unread_count_by_id_adds)

interpretation quiet: quiet_relation "\<lambda>st st'. ex_room_changes st' = ex_room_changes st"
  by unfold_locales simp_all

text \<open>The live changes of a room that a run sends.\<close>

fun changes_of :: "string \<Rightarrow> response list \<Rightarrow> room_change_event list" where
  "changes_of rid [] = []"
| "changes_of rid (RoomChangeEvent i cs # es) =
     (if i = rid then (i, cs) # changes_of rid es else changes_of rid es)"
| "changes_of rid (_ # es) = changes_of rid es"

fun live_changes :: "string \<Rightarrow> (exec_env \<times> action) list \<Rightarrow> executor \<Rightarrow> room_change_event list" where
  "live_changes rid [] st = []"
| "live_changes rid ((env, act) # acts) st =
     (let st' = exec_action env act st
      in (if live_action act then changes_of rid (drop (length (ex_sent st)) (ex_sent st')) else []) @
         live_changes rid acts st')"

lemma changes_of_send: "changes_of rid (map send_of ts) = filter (\<lambda>c. fst c = rid) ts"
  by (induction ts) (auto simp: send_of_def)

lemma action_queue:
  assumes "act \<noteq> RoomDiscovered rid"
  shows "queue_of rid (exec_action env act st) =
    fold push_change (live_changes rid [(env, act)] st) (queue_of rid st)"
proof (cases "live_action act")
  case True
  from live_action_adds [OF this, of st env]
  obtain ts where "ex_sent (exec_action env act st) = ex_sent st @ map send_of ts"
      "queue_of rid (exec_action env act st) =
        fold push_change (filter (\<lambda>c. fst c = rid) ts) (queue_of rid st)"
    unfolding adds_changes_def by blast
  with True show ?thesis by (simp add: changes_of_send)
next
  case False
  show ?thesis
  proof (cases "quiet_action act")
    case True
    from quiet.quiet_action_R [OF this, of env st] False show ?thesis by (simp add: queue_of_def)
  next
    case other: False
    with False assms obtain i where act: "act = RoomDiscovered i" "i \<noteq> rid"
      by (cases act) auto
    have "queue_of rid (send_changes cs st) = queue_of rid st" for cs st
      by (induction cs arbitrary: st) simp_all
    with act show ?thesis
      by (simp add: exec_queued_room_changes_def split: option.split) (simp add: queue_of_def)
  qed
qed

lemma run_queue:
  "RoomDiscovered rid \<notin> snd ` set acts \<Longrightarrow>
   queue_of rid (run_actions acts st) = fold push_change (live_changes rid acts st) (queue_of rid st)"
proof (induction acts arbitrary: st)
  case (Cons a acts)
  obtain env act where a: "a = (env, act)" by (cases a)
  with Cons.prems have n: "act \<noteq> RoomDiscovered rid" "RoomDiscovered rid \<notin> snd ` set acts" by auto
  show ?case
    using Cons.IH [OF n(2), of "exec_action env act st"] action_queue [OF n(1), of env st]
    by (simp add: a Let_def)
qed simp

text \<open>The last entries of a list, as many as a queue holds.\<close>

definition last_changes :: "'a list \<Rightarrow> 'a list" where
  "last_changes cs = drop (length cs - max_queued_room_changes) cs"

lemma last_changes_append: "last_changes (last_changes xs @ ys) = last_changes (xs @ ys)"
proof -
  let ?k = "length xs - max_queued_room_changes"
  have "last_changes xs @ ys = drop ?k (xs @ ys)" by (simp add: last_changes_def)
  moreover have "?k + (length xs + length ys - (max_queued_room_changes + ?k)) =
      length xs + length ys - max_queued_room_changes" by arith
  ultimately show ?thesis by (simp add: last_changes_def add.commute del: drop_append)
qed

lemma fold_push_change:
  "length q \<le> max_queued_room_changes \<Longrightarrow> fold push_change cs q = last_changes (q @ cs)"
proof (induction cs arbitrary: q)
  case Nil
  then show ?case by (simp add: last_changes_def)
next
  case (Cons c cs)
  let ?q = "push_change c q"
  have q: "?q = last_changes (q @ [c])" using push_change_drop [OF Cons.prems] by (simp add: last_changes_def)
  then have "length ?q \<le> max_queued_room_changes" by (simp add: last_changes_def del: drop_append)
  with Cons.IH [of ?q] q show ?case by (simp add: last_changes_append)
qed

lemma sent_changes: "ex_sent (send_changes cs st) = ex_sent st @ map send_of cs"
  "ex_room_changes (send_changes cs st) = ex_room_changes st"
  by (induction cs arbitrary: st) (simp_all add: send_of_def)

lemma discovery_sends_queue:
  "ex_sent (exec_queued_room_changes rid st) = ex_sent st @ map send_of (queue_of rid st)"
  "queue_of rid (exec_queued_room_changes rid st) = []"
  by (simp_all add: exec_queued_room_changes_def queue_of_def sent_changes split: option.split)

section \<open>Properties of the queues\<close>

lemma executor_ok_new: "executor_ok (executor_new mc fs)"
  by (simp add: executor_ok_def executor_new_def)

text \<open>
  Claim C34: After any actions, a room's queue holds at most fifteen changes; each names the room
  and is an unread count, a typing list, a read marker or the latter two together; no two changes
  in a row are the same; and a user and a room have one entry each.
\<close>

theorem executor_state_typed:
  "let st = run_actions acts (executor_new mc fs); q = queue_of rid st
   in hm_wf (ex_user_changes st) \<and> hm_wf (ex_room_changes st) \<and> length q \<le> 15 \<and>
     list_all (\<lambda>c. fst c = rid \<and> live_change (snd c)) q \<and>
     successively (\<lambda>a b. \<not> same_room_change a b) q"
proof -
  have "executor_ok (run_actions acts (executor_new mc fs))"
    by (rule queues.run_actions_R [rule_format, OF executor_ok_new])
  then have "hm_wf (ex_user_changes (run_actions acts (executor_new mc fs)))"
      "hm_wf (ex_room_changes (run_actions acts (executor_new mc fs)))"
      "queue_ok rid (queue_of rid (run_actions acts (executor_new mc fs)))"
    unfolding executor_ok_queue by blast+
  then show ?thesis
    unfolding Let_def queue_ok_def max_queued_room_changes_def list_all_iff
    by (elim conjE) (intro conjI; assumption)
qed

text \<open>
  Claim C35: When the application discovers a room, the executor resends the last fifteen live
  changes of that room since its last discovery, in their order, and nothing else, and forgets
  them: a second discovery sends nothing.
\<close>

theorem discovery_replays_live_changes:
  assumes "RoomDiscovered rid \<notin> snd ` set acts"
    and "st = exec_action e0 (RoomDiscovered rid) (run_actions before (executor_new mc fs))"
    and "st' = exec_action e1 (RoomDiscovered rid) (run_actions acts st)"
  shows "ex_sent st' = ex_sent (run_actions acts st) @ map send_of (last_changes (live_changes rid acts st)) \<and>
    ex_sent (exec_action e2 (RoomDiscovered rid) st') = ex_sent st'"
proof -
  have "queue_of rid st = []" by (simp add: assms(2) discovery_sends_queue)
  then have "queue_of rid (run_actions acts st) = last_changes (live_changes rid acts st)"
    using run_queue [OF assms(1)] fold_push_change [of "[]"] by simp
  then show ?thesis by (simp add: assms(3) discovery_sends_queue)
qed

text \<open>A room with three unread messages, and then the application learns of it.\<close>

theorem discovery_replays_live_changes_witness:
  "\<forall>env r fs. ex_sent (exec_action env (RoomDiscovered ''!r'')
       (run_actions [(env, FullyReadAction (r\<lparr>sr_id := ''!r'', sr_num_unread := 3\<rparr>))]
         (exec_action env (RoomDiscovered ''!r'') (run_actions [] (executor_new memory_cache_new fs))))) =
     [RoomChangeEvent ''!r'' [ChUnread 3], RoomChangeEvent ''!r'' [ChUnread 3]]"
proof (intro allI)
  fix env :: exec_env and r :: sdk_room and fs
  let ?acts = "[(env, FullyReadAction (r\<lparr>sr_id := ''!r'', sr_num_unread := 3\<rparr>))]"
  let ?st = "exec_action env (RoomDiscovered ''!r'') (run_actions [] (executor_new memory_cache_new fs))"
  have st: "?st = executor_new memory_cache_new fs"
    by (simp add: exec_queued_room_changes_def executor_new_def)
  have three: "saturating_u32 3 = 3" by (simp add: saturating_u32_def)
  have run: "run_actions ?acts ?st = send_event (RoomChangeEvent ''!r'' [ChUnread 3])
      (track_room_change (''!r'', [ChUnread 3]) ?st)"
    unfolding st by (simp add: exec_fully_read_event_def update_room_unread_count_def Let_def three
        mc_room_mark_as_read_ts_def get_room_def memory_cache_new_def lock_ok executor_new_def
        send_if_new_def is_new_room_change_def)
  have "ex_sent ?st = []" unfolding st by (simp add: executor_new_def)
  then have "ex_sent (run_actions ?acts ?st) = [RoomChangeEvent ''!r'' [ChUnread 3]]"
    and "live_changes ''!r'' ?acts ?st = [(''!r'', [ChUnread 3])]"
    using run by simp_all
  moreover have "RoomDiscovered ''!r'' \<notin> snd ` set ?acts" by simp
  ultimately show "ex_sent (exec_action env (RoomDiscovered ''!r'') (run_actions ?acts ?st)) =
      [RoomChangeEvent ''!r'' [ChUnread 3], RoomChangeEvent ''!r'' [ChUnread 3]]"
    using discovery_replays_live_changes [OF _ refl refl, of "''!r''" ?acts env env "[]" memory_cache_new fs env]
    by (simp add: last_changes_def max_queued_room_changes_def send_of_def del: run_actions.simps)
qed

section \<open>Unread counts\<close>

text \<open>The rooms of the memory cache are stored under their IDs; every action keeps that.\<close>

definition rooms_keyed :: "memory_cache \<Rightarrow> bool" where
  "rooms_keyed mc \<longleftrightarrow>
     (\<forall>rid room. hm_get (mtx_data (mc_rooms mc)) rid = Some room \<longrightarrow> cr_room_id room = rid)"

lemma rooms_keyed_in_room:
  assumes "\<And>room. cr_room_id (snd (f room)) = cr_room_id room" "rooms_keyed mc"
  shows "rooms_keyed (snd (in_room f rid mc))"
  using assms
  by (auto simp: rooms_keyed_def in_room_def and_then_def get_or_create_room_def put_room_def Let_def
      cached_room_new_def split: sum.splits prod.splits option.splits)

lemma rooms_keyed_in_known_room:
  assumes "\<And>room. cr_room_id (snd (f room)) = cr_room_id room" "rooms_keyed mc"
  shows "rooms_keyed (snd (in_known_room d f rid mc))"
  using assms
  by (auto simp: rooms_keyed_def in_known_room_def put_room_def
      split: sum.splits prod.splits option.splits)

lemma room_id_kept_more:
  "cr_room_id (snd (set_marked_ts ts room)) = cr_room_id room"
  "cr_room_id (snd (remove_reaction_by_id i room)) = cr_room_id room"
  by (auto simp: set_marked_ts_def remove_reaction_by_id_def cleanup_reaction_def put_message_def
      and_then_def split: sum.split prod.split option.split)

interpretation keyed: executor_relation "\<lambda>st st'. rooms_keyed (ex_memory st) \<longrightarrow> rooms_keyed (ex_memory st')"
  by unfold_locales
    (simp_all add: mc_set_read_marker_def mc_cache_reaction_def mc_remove_reaction_by_id_def
      mc_mark_room_as_unread_def rooms_keyed_in_room rooms_keyed_in_known_room room_id_kept room_id_kept_more)

lemma rooms_keyed_new [simp]: "rooms_keyed memory_cache_new"
  by (simp add: rooms_keyed_def memory_cache_new_def)

lemma get_marked_ts:
  assumes "mc_mark_room_as_read rid ts mc = (Inr (), mc')" "rooms_keyed mc"
  shows "mc_room_mark_as_read_ts rid mc' = Inr (Some ts)"
  using assms
  by (auto simp: rooms_keyed_def mc_mark_room_as_read_def in_room_def and_then_def set_marked_ts_def
      get_or_create_room_def mc_room_mark_as_read_ts_def get_room_def put_room_def Let_def
      lock_def cached_room_new_def
      split: sum.splits prod.splits option.splits if_splits)

text \<open>An unread count of the room as it is reported during the three seconds.\<close>

definition muted_report :: "string \<Rightarrow> u128 \<Rightarrow> exec_env \<times> action \<Rightarrow> bool" where
  "muted_report rid ts ea \<longleftrightarrow> xe_now (fst ea) < ts + 3000 \<and>
     (case snd ea of FullyReadAction r \<Rightarrow> sr_id r = rid | _ \<Rightarrow> False)"

lemma muted_report_ignored:
  assumes "muted_report rid ts (env, act)" "mc_room_mark_as_read_ts rid (ex_memory st) = Inr (Some ts)"
  shows "exec_action env act st = st"
  using assms
  by (cases act) (simp_all add: muted_report_def exec_fully_read_event_def update_room_unread_count_def
      Let_def room_mark_as_read_unread_count_timeout_def)

lemma muted_reports_ignored:
  assumes "list_all (muted_report rid ts) acts" "mc_room_mark_as_read_ts rid (ex_memory st) = Inr (Some ts)"
  shows "run_actions acts st = st"
  using assms
proof (induction acts)
  case (Cons a acts)
  obtain env act where a: "a = (env, act)" by (cases a)
  with Cons.prems have "exec_action env act st = st" by (auto intro: muted_report_ignored)
  with Cons a show ?case by simp
qed simp

lemma same_room_change_refl_unread [simp]: "same_room_change (rid, [ChUnread n]) (rid, [ChUnread n])"
  by (simp add: same_room_change_def)

lemma unread_report_queued:
  assumes "mc_room_mark_as_read_ts (sr_id r) (ex_memory st) = Inr None"
    and "st' = exec_action env (FullyReadAction r) st"
  shows "queue_of (sr_id r) st' \<noteq> []"
    and "same_room_change (last (queue_of (sr_id r) st')) (sr_id r, [ChUnread (saturating_u32 (sr_num_unread r))])"
    and "ex_memory st' = ex_memory st"
  using assms
  by (auto simp: exec_fully_read_event_def update_room_unread_count_def Let_def send_if_new_def
      is_new_room_change_queue push_change_last split: if_splits)

lemma quiet_run: "list_all (\<lambda>a. quiet_action (snd a)) acts \<Longrightarrow>
  ex_room_changes (run_actions acts st) = ex_room_changes st"
proof (induction acts arbitrary: st)
  case (Cons a acts)
  then show ?case using quiet.quiet_action_R [of "snd a" "fst a" st] by (cases a) simp
qed simp

text \<open>
  Claim C36: A room reports an unread count, the room is marked as read (the application is told
  zero, and counts are muted for three seconds), and new messages, or other events that are no
  live change, bring the room back to the same count: the executor takes the new count for the
  one it has already reported and sends nothing, so the application stays at zero.
\<close>

theorem unread_count_lost_after_mark_as_read:
  assumes "mc_room_mark_as_read_ts (sr_id r) (ex_memory st) = Inr None"
    and keyed: "rooms_keyed (ex_memory st)"
    and reported: "st1 = exec_action e1 (FullyReadAction r) st"
    and marked: "mc_mark_room_as_read (sr_id r) ts (ex_memory st1) = (Inr (), mc)"
    and muted: "list_all (muted_report (sr_id r) ts) acts"
    and "list_all (\<lambda>a. quiet_action (snd a)) acts'"
    and "st2 = run_actions acts' (run_actions acts (st1\<lparr>ex_memory := mc\<rparr>))"
    and "sr_id r' = sr_id r" "sr_num_unread r' = sr_num_unread r"
  shows "exec_action e3 (FullyReadAction r') st2 = st2"
proof -
  note q = unread_report_queued [OF assms(1) reported]
  have ts: "mc_room_mark_as_read_ts (sr_id r) mc = Inr (Some ts)" 
    by (rule get_marked_ts [OF marked]) (simp add: q(3) keyed)
  have "ex_room_changes st2 = ex_room_changes st1"
    using muted_reports_ignored [OF muted, of "st1\<lparr>ex_memory := mc\<rparr>"] ts quiet_run [OF assms(6)] assms(7) by simp
  then have "\<not> is_new_room_change (sr_id r, [ChUnread (saturating_u32 (sr_num_unread r))]) st2"
    using q(1,2) by (simp add: is_new_room_change_queue queue_of_def)
  then show ?thesis
    by (simp add: exec_fully_read_event_def update_room_unread_count_def Let_def assms(8,9) send_if_new_def)
qed

text \<open>The room is read with one unread message, and one more message arrives a minute later.\<close>

theorem unread_count_lost_after_mark_as_read_witness:
  "\<forall>env r fs e c. let r1 = r\<lparr>sr_id := ''!r'', sr_num_unread := 1\<rparr>; r0 = r\<lparr>sr_id := ''!r'', sr_num_unread := 0\<rparr>;
       st1 = exec_action env (FullyReadAction r1) (executor_new memory_cache_new fs);
       st2 = run_actions [(env, RoomMessageAction r1 e c)]
         (run_actions [(env\<lparr>xe_now := 10500\<rparr>, FullyReadAction r0)]
           (st1\<lparr>ex_memory := snd (mc_mark_room_as_read ''!r'' 10000 memory_cache_new)\<rparr>))
     in ex_sent st1 = [RoomChangeEvent ''!r'' [ChUnread 1]] \<and>
       exec_action (env\<lparr>xe_now := 60000\<rparr>) (FullyReadAction r1) st2 = st2"
proof (intro allI)
  fix env :: exec_env and r :: sdk_room and fs e c
  let ?r1 = "r\<lparr>sr_id := ''!r'', sr_num_unread := 1\<rparr>"
  let ?st = "executor_new memory_cache_new fs"
  let ?muted = "[(env\<lparr>xe_now := 10500\<rparr>, FullyReadAction (r\<lparr>sr_id := ''!r'', sr_num_unread := 0\<rparr>))]"
  have none: "mc_room_mark_as_read_ts (sr_id ?r1) (ex_memory ?st) = Inr None"
    by (simp add: executor_new_def mc_room_mark_as_read_ts_def get_room_def memory_cache_new_def lock_ok)
  have keyed: "rooms_keyed (ex_memory ?st)" by (simp add: executor_new_def)
  have one: "saturating_u32 1 = 1" by (simp add: saturating_u32_def)
  let ?st1 = "exec_action env (FullyReadAction ?r1) ?st"
  have "?st1 = send_event (RoomChangeEvent ''!r'' [ChUnread 1]) (track_room_change (''!r'', [ChUnread 1]) ?st)"
    using none by (simp add: exec_fully_read_event_def update_room_unread_count_def Let_def one
        send_if_new_def is_new_room_change_def executor_new_def)
  then have st1: "ex_memory ?st1 = memory_cache_new" "ex_sent ?st1 = [RoomChangeEvent ''!r'' [ChUnread 1]]"
    by (simp_all add: executor_new_def del: exec_action.simps)
  obtain mc where mc: "mc_mark_room_as_read ''!r'' 10000 memory_cache_new = (Inr (), mc)"
    by (simp add: mc_mark_room_as_read_def in_room_def get_or_create_room_def memory_cache_new_def
        lock_ok Let_def set_marked_ts_def cached_room_new_def)
  have marked: "mc_mark_room_as_read (sr_id ?r1) 10000 (ex_memory ?st1) = (Inr (), mc)"
    using mc st1(1) by (simp del: exec_action.simps)
  have "list_all (muted_report (sr_id ?r1) 10000) ?muted" by (simp add: muted_report_def)
  moreover have "list_all (\<lambda>a. quiet_action (snd a)) [(env, RoomMessageAction ?r1 e c)]" by simp
  ultimately have "exec_action (env\<lparr>xe_now := 60000\<rparr>) (FullyReadAction ?r1)
      (run_actions [(env, RoomMessageAction ?r1 e c)] (run_actions ?muted (?st1\<lparr>ex_memory := mc\<rparr>))) =
      run_actions [(env, RoomMessageAction ?r1 e c)] (run_actions ?muted (?st1\<lparr>ex_memory := mc\<rparr>))"
    using unread_count_lost_after_mark_as_read [OF none _ refl marked _ _ refl refl refl] keyed by blast
  then show "let r1 = ?r1; r0 = r\<lparr>sr_id := ''!r'', sr_num_unread := 0\<rparr>;
       st1 = exec_action env (FullyReadAction r1) ?st;
       st2 = run_actions [(env, RoomMessageAction r1 e c)]
         (run_actions [(env\<lparr>xe_now := 10500\<rparr>, FullyReadAction r0)]
           (st1\<lparr>ex_memory := snd (mc_mark_room_as_read ''!r'' 10000 memory_cache_new)\<rparr>))
     in ex_sent st1 = [RoomChangeEvent ''!r'' [ChUnread 1]] \<and>
       exec_action (env\<lparr>xe_now := 60000\<rparr>) (FullyReadAction r1) st2 = st2"
    unfolding Let_def mc snd_conv using st1(2) by blast
qed

section \<open>Joining and leaving\<close>

lemma marker_makes_known:
  "\<not> mtx_poisoned (mc_rooms (ex_memory st)) \<Longrightarrow> rooms_keyed (ex_memory st) \<Longrightarrow>
   known rid (snd (on_memory (mc_set_read_marker rid u ts) st))"
  by (auto simp: known_iff mc_set_read_marker_def in_room_def get_or_create_room_def put_room_def Let_def
      lock_ok rooms_keyed_def cache_read_marker_def cached_room_new_def
      split: option.split prod.split sum.split)

lemma message_like_makes_known:
  assumes "\<not> mtx_poisoned (mc_rooms (ex_memory st))" "rooms_keyed (ex_memory st)"
  shows "known (sr_id r) (exec_action env (AnyMessageLikeAction r e) st)"
  using marker_makes_known [OF assms, of "sr_id r" "ev_sender e" "ev_ts e"]
  by (auto simp: exec_any_message_like_event_def Let_def known_same split: prod.split sum.split)

lemma own_change_handled:
  assumes "Some (mb_state_key c) = xe_user_id env"
  shows "mb_change c = ChLeft \<Longrightarrow> exec_action env (RoomMemberAction r e c) st =
      send_event (RoomLeftEvent (sr_id r) LeftByUser (mb_reason c)) st"
    and "mb_change c = ChJoined \<Longrightarrow> exec_action env (RoomMemberAction r e c) st =
      send_room_created_event_if_needed env r st"
  using assms by (simp_all add: exec_room_member_event_def process_own_membership_change_def
      process_own_leave_change_def)

lemma unknown_room_is_announced:
  assumes "is_known_room (sr_id r) (ex_memory st) = Inr False" "assembles (xe_user_id env) r"
  shows "\<exists>room. room_id room = sr_id r \<and>
    ex_sent (send_room_created_event_if_needed env r st) = ex_sent st @ [RoomCreatedEvent room]"
proof -
  obtain x fs where a: "assemble_chat_room (mv_media (xe_messages env)) (mv_manager (xe_messages env))
      (xe_user_id env) r (ex_fs st) = (x, fs)"
    by (cases "assemble_chat_room (mv_media (xe_messages env)) (mv_manager (xe_messages env))
      (xe_user_id env) r (ex_fs st)")
  with assms assemble_chat_room_outcome [where env = "mv_media (xe_messages env)"
      and mm = "mv_manager (xe_messages env)" and own = "xe_user_id env" and r = r and fs = "ex_fs st"]
  show ?thesis
    by (cases x) (auto simp: send_room_created_event_if_needed_def on_fs_eq)
qed

text \<open>
  Claim C37: The executor announces a room its user joins when the memory cache does not know the
  room; but a room is known as soon as a message-like event of it has been processed, and stays
  known for good: after the user has left the room, and the application has been told so, joining
  it again is never announced, whatever happens in between.
\<close>

theorem rejoined_room_is_not_announced:
  assumes "\<not> mtx_poisoned (mc_rooms (ex_memory st))" "rooms_keyed (ex_memory st)"
    and "st1 = exec_action e1 (AnyMessageLikeAction r1 ev1) st"
    and left: "mb_change c2 = ChLeft" "Some (mb_state_key c2) = xe_user_id e2" "sr_id r2 = sr_id r1"
    and "st2 = exec_action e2 (RoomMemberAction r2 ev2 c2) (run_actions acts st1)"
    and joined: "mb_change c3 = ChJoined" "Some (mb_state_key c3) = xe_user_id e3" "sr_id r3 = sr_id r1"
    and "assembles (xe_user_id e3) r3"
  shows "ex_sent st2 = ex_sent (run_actions acts st1) @ [RoomLeftEvent (sr_id r1) LeftByUser (mb_reason c2)] \<and>
    exec_action e3 (RoomMemberAction r3 ev3 c3) (run_actions acts' st2) = run_actions acts' st2 \<and>
    (\<exists>room. room_id room = sr_id r1 \<and>
       ex_sent (exec_action e3 (RoomMemberAction r3 ev3 c3) (executor_new memory_cache_new fs)) =
         [RoomCreatedEvent room])"
proof -
  have st2: "st2 = send_event (RoomLeftEvent (sr_id r1) LeftByUser (mb_reason c2)) (run_actions acts st1)"
    by (simp only: assms(7) own_change_handled(1) [OF left(2,1)] left(3))
  have "known (sr_id r1) st1" unfolding assms(3) by (rule message_like_makes_known [OF assms(1,2)])
  then have "known (sr_id r1) st2" using rooms.run_actions_R [of st1 acts] by (simp add: st2 known_same)
  then have "known (sr_id r1) (run_actions acts' st2)" using rooms.run_actions_R [of st2 acts'] by simp
  then have k: "exec_action e3 (RoomMemberAction r3 ev3 c3) (run_actions acts' st2) = run_actions acts' st2"
    by (simp only: own_change_handled(2) [OF joined(2,1)])
      (simp add: send_room_created_event_if_needed_def known_def joined(3))
  have "is_known_room (sr_id r3) (ex_memory (executor_new memory_cache_new fs)) = Inr False"
    by (simp add: executor_new_def is_known_room_def get_room_def memory_cache_new_def lock_ok)
  from unknown_room_is_announced [OF this assms(11)]
  have "\<exists>room. room_id room = sr_id r1 \<and>
       ex_sent (exec_action e3 (RoomMemberAction r3 ev3 c3) (executor_new memory_cache_new fs)) =
         [RoomCreatedEvent room]"
    by (simp only: own_change_handled(2) [OF joined(2,1)]) (simp add: joined(3) executor_new_def)
  with st2 k show ?thesis by simp
qed

definition own_member :: "membership_change_m \<Rightarrow> member_content" where
  "own_member change = \<lparr>mb_change = change, mb_state_key = ''@a:x'', mb_reason = None\<rparr>"

text \<open>A message in the room, the user leaves and joins again.\<close>

theorem rejoined_room_is_not_announced_witness:
  "\<forall>env r fs ev. let env = env\<lparr>xe_user_id := Some ''@a:x''\<rparr>;
       r = r\<lparr>sr_id := ''!r'', sr_members := Inr [(''@a:x'', MsJoin)], sr_is_direct := Inr False\<rparr>;
       st1 = exec_action env (AnyMessageLikeAction r ev) (executor_new memory_cache_new fs);
       st2 = exec_action env (RoomMemberAction r ev (own_member ChLeft)) st1
     in ex_sent st2 = ex_sent st1 @ [RoomLeftEvent ''!r'' LeftByUser None] \<and>
       exec_action env (RoomMemberAction r ev (own_member ChJoined)) st2 = st2"
proof (intro allI)
  fix env :: exec_env and r :: sdk_room and fs ev
  let ?env = "env\<lparr>xe_user_id := Some ''@a:x''\<rparr>"
  let ?r = "r\<lparr>sr_id := ''!r'', sr_members := Inr [(''@a:x'', MsJoin)], sr_is_direct := Inr False\<rparr>"
  have "\<not> mtx_poisoned (mc_rooms (ex_memory (executor_new memory_cache_new fs)))"
    "rooms_keyed (ex_memory (executor_new memory_cache_new fs))"
    by (simp_all add: executor_new_def memory_cache_new_def [THEN arg_cong, of mc_rooms])
  moreover have "Some (mb_state_key (own_member c)) = xe_user_id ?env" "mb_change (own_member c) = c"
    "mb_reason (own_member c) = None" for c
    by (simp_all add: own_member_def)
  moreover have "assembles (xe_user_id ?env) ?r"
    by (simp add: assembles_def get_room_members_def hm_insert_def)
  ultimately show "let env = ?env; r = ?r;
       st1 = exec_action env (AnyMessageLikeAction r ev) (executor_new memory_cache_new fs);
       st2 = exec_action env (RoomMemberAction r ev (own_member ChLeft)) st1
     in ex_sent st2 = ex_sent st1 @ [RoomLeftEvent ''!r'' LeftByUser None] \<and>
       exec_action env (RoomMemberAction r ev (own_member ChJoined)) st2 = st2"
    using rejoined_room_is_not_announced [OF _ _ refl _ _ _ refl, where acts = "[]" and acts' = "[]"
        and ?r1.0 = ?r and ?r2.0 = ?r and ?r3.0 = ?r and ?e2.0 = ?env and ?e3.0 = ?env
        and ?c2.0 = "own_member ChLeft" and ?c3.0 = "own_member ChJoined" and ?ev1.0 = ev and ?e1.0 = ?env
        and ?ev2.0 = ev and ?ev3.0 = ev and st = "executor_new memory_cache_new fs"]
    by (simp add: Let_def del: exec_action.simps)
qed

section \<open>Reactions\<close>

text \<open>
  What \<open>CacheProperties\<close> shows of a room holds of each room of the cache: the reactions of a
  room, as the whole cache knows them.
\<close>

definition reactions_ok :: "(string \<Rightarrow> string) \<Rightarrow> memory_cache \<Rightarrow> bool" where
  "reactions_ok target mc \<longleftrightarrow> \<not> mtx_poisoned (mc_rooms mc) \<and> rooms_keyed mc \<and>
     (\<forall>rid room. hm_get (mtx_data (mc_rooms mc)) rid = Some room \<longrightarrow> reaction_inv target room)"

definition reaction_in :: "(string \<Rightarrow> string) \<Rightarrow> memory_cache \<Rightarrow> string \<Rightarrow> string \<Rightarrow> cached_reaction option" where
  "reaction_in target mc rid i =
     (case hm_get (mtx_data (mc_rooms mc)) rid of None \<Rightarrow> None | Some room \<Rightarrow> look target room i)"

lemma reactions_ok_put:
  assumes "reactions_ok target mc" "reaction_inv target room"
  shows "reactions_ok target (put_room room mc)"
    and "reaction_in target (put_room room mc) rid =
      (if rid = cr_room_id room then look target room else reaction_in target mc rid)"
  using assms by (auto simp: reactions_ok_def rooms_keyed_def put_room_def reaction_in_def fun_eq_iff)

lemma get_or_create_room_ok:
  assumes "reactions_ok target mc"
  shows "\<exists>room mc'. get_or_create_room rid mc = (Inr room, mc') \<and> cr_room_id room = rid \<and>
    reaction_inv target room \<and> reactions_ok target mc' \<and>
    look target room = reaction_in target mc rid \<and> reaction_in target mc' = reaction_in target mc"
proof (cases "hm_get (mtx_data (mc_rooms mc)) rid")
  case None
  let ?room = "cached_room_new rid"
  have "get_or_create_room rid mc = (Inr ?room, put_room ?room mc)"
    using None assms by (simp add: get_or_create_room_def reactions_ok_def lock_ok Let_def put_room_def
        cached_room_new_def)
  moreover have "cr_room_id ?room = rid" by (simp add: cached_room_new_def)
  moreover have "look target ?room = reaction_in target mc rid"
    by (simp add: look_new reaction_in_def None fun_eq_iff)
  moreover have "reaction_in target (put_room ?room mc) = reaction_in target mc"
    using calculation(2,3) by (auto simp: reactions_ok_put(2) [OF assms reaction_inv_new] fun_eq_iff)
  ultimately show ?thesis
    using reaction_inv_new reactions_ok_put(1) [OF assms reaction_inv_new] by blast
next
  case (Some room)
  with assms show ?thesis
    by (auto simp: get_or_create_room_def reactions_ok_def rooms_keyed_def lock_ok reaction_in_def fun_eq_iff)
qed

lemma mc_cache_reaction_ok:
  assumes "reactions_ok target mc" "an_event_id a = target (ev_id e)"
  shows "\<exists>mc'. mc_cache_reaction rid e a mc = (Inr (), mc') \<and> reactions_ok target mc' \<and>
    reaction_in target mc' = (reaction_in target mc)
      (rid := (reaction_in target mc rid)(ev_id e := Some \<lparr>rx_user_id = ev_sender e, rx_emoji = an_key a\<rparr>))"
proof -
  obtain room mc1 where g: "get_or_create_room rid mc = (Inr room, mc1)" "cr_room_id room = rid"
    "reaction_inv target room" "reactions_ok target mc1" "look target room = reaction_in target mc rid"
    "reaction_in target mc1 = reaction_in target mc"
    using get_or_create_room_ok [OF assms(1)] by blast
  let ?rx = "\<lparr>rx_user_id = ev_sender e, rx_emoji = an_key a\<rparr>"
  obtain room' where c: "cache_reaction (target (ev_id e)) (ev_id e) ?rx room = (Inr (), room')"
    "reaction_inv target room'" "look target room' = (look target room)(ev_id e := Some ?rx)"
    using cache_reaction_refines [OF g(3)] by blast
  have "cr_room_id room' = rid"
    using room_id_kept(3) [of "target (ev_id e)" "ev_id e" ?rx room] c(1) g(2) by simp
  with g c reactions_ok_put [OF g(4) c(2)] show ?thesis
    by (auto simp: mc_cache_reaction_def in_room_def assms(2) fun_eq_iff)
qed

lemma mc_remove_reaction_by_id_ok:
  assumes "reactions_ok target mc"
  shows "\<exists>mc'. mc_remove_reaction_by_id rid i mc =
      (Inr (map_option (\<lambda>rx. reaction_metadata_new rx i (target i) rid) (reaction_in target mc rid i)), mc') \<and>
    reactions_ok target mc' \<and>
    reaction_in target mc' = (reaction_in target mc)(rid := (reaction_in target mc rid)(i := None))"
proof (cases "hm_get (mtx_data (mc_rooms mc)) rid")
  case None
  with assms show ?thesis
    by (auto simp: mc_remove_reaction_by_id_def in_known_room_def get_room_def reactions_ok_def lock_ok
        reaction_in_def fun_eq_iff)
next
  case (Some room)
  with assms have inv: "reaction_inv target room" and rid: "cr_room_id room = rid"
    by (simp_all add: reactions_ok_def rooms_keyed_def)
  obtain room' where r: "remove_reaction_by_id i room =
      (Inr (map_option (\<lambda>rx. reaction_metadata_new rx i (target i) (cr_room_id room)) (look target room i)), room')"
    "reaction_inv target room'" "look target room' = (look target room)(i := None)"
    using remove_reaction_by_id_refines [OF inv] by blast
  have "cr_room_id room' = rid" using room_id_kept_more(2) [of i room] r(1) rid by simp
  with Some assms r rid reactions_ok_put [OF assms r(2)] show ?thesis
    by (auto simp: mc_remove_reaction_by_id_def in_known_room_def get_room_def reactions_ok_def lock_ok
        reaction_in_def fun_eq_iff)
qed

text \<open>The SDK gives the event that is redacted, and it is a reaction.\<close>

definition redacts_reaction :: "exec_env \<Rightarrow> sdk_room \<Rightarrow> redaction_content \<Rightarrow> string \<Rightarrow> bool" where
  "redacts_reaction env r c i \<longleftrightarrow> rc_redacts c = Some i \<and>
     (case xe_event env (sr_id r) i of
        Inl _ \<Rightarrow> False
      | Inr e \<Rightarrow>
          (case te_kind e of
             Decrypted raw \<Rightarrow> (case parse_full (xe_parsers env) raw of
                 Some ev \<Rightarrow> ev_id ev = i \<and> (case ev_body ev of MessageLike (ReactionEvent _) \<Rightarrow> True | _ \<Rightarrow> False)
               | None \<Rightarrow> False)
           | PlainText raw \<Rightarrow> (case parse_sync (xe_parsers env) raw of
                 Some ev \<Rightarrow> ev_id ev = i \<and> (case ev_body ev of MessageLike (ReactionEvent _) \<Rightarrow> True | _ \<Rightarrow> False)
               | None \<Rightarrow> False)
           | UnableToDecrypt _ _ \<Rightarrow> False))"

lemma exec_redacts_reaction:
  "redacts_reaction env r c i \<Longrightarrow> exec_action env (RoomRedactionAction r c) st = redact_reaction r i st"
  by (auto simp: redacts_reaction_def exec_room_redaction_event_def redact_any_timeline_event_def
      redact_any_sync_timeline_event_def
      split: sum.splits timeline_kind.splits option.splits event_body.splits message_like.splits)

lemma redact_reaction_effect:
  assumes "reactions_ok target (ex_memory st)"
  shows "reactions_ok target (ex_memory (redact_reaction r i st)) \<and>
    reaction_in target (ex_memory (redact_reaction r i st)) = (reaction_in target (ex_memory st))
      (sr_id r := (reaction_in target (ex_memory st) (sr_id r))(i := None)) \<and>
    ex_sent (redact_reaction r i st) = ex_sent st @
      (case reaction_in target (ex_memory st) (sr_id r) i of
         None \<Rightarrow> []
       | Some rx \<Rightarrow> [ReactionRemovedEvent \<lparr>r_message_id = target i, r_room_id = sr_id r,
                       r_reaction = rx_emoji rx, r_user_id = Some (rx_user_id rx)\<rparr>])"
  using mc_remove_reaction_by_id_ok [OF assms, of "sr_id r" i]
  by (auto simp: redact_reaction_def on_memory_eq reaction_metadata_new_def send_event_def
      split: option.split)

text \<open>
  A reaction that arrives is told to the application, and its redaction takes it back:
  the event of the removal names the same message, room, emoji and user; redacting it again tells
  nothing, and the cache is back to the reactions it had before.
\<close>

theorem redaction_takes_reaction_back:
  assumes "reactions_ok target (ex_memory st)" "an_event_id a = target (ev_id e)"
    and new: "reaction_in target (ex_memory st) (sr_id r) (ev_id e) = None"
    and "redacts_reaction e2 r c (ev_id e)" "redacts_reaction e3 r c (ev_id e)"
    and "st1 = exec_action e1 (ReactionAction r e a) st"
    and "st2 = exec_action e2 (RoomRedactionAction r c) st1"
    and "rx = \<lparr>r_message_id = an_event_id a, r_room_id = sr_id r, r_reaction = an_key a,
               r_user_id = Some (ev_sender e)\<rparr>"
  shows "ex_sent st2 = ex_sent st @ [ReactionCreatedEvent rx, ReactionRemovedEvent rx] \<and>
    reaction_in target (ex_memory st2) = reaction_in target (ex_memory st) \<and>
    ex_sent (exec_action e3 (RoomRedactionAction r c) st2) = ex_sent st2"
proof -
  obtain mc where mc: "mc_cache_reaction (sr_id r) e a (ex_memory st) = (Inr (), mc)" "reactions_ok target mc"
    "reaction_in target mc = (reaction_in target (ex_memory st))
      (sr_id r := (reaction_in target (ex_memory st) (sr_id r))
         (ev_id e := Some \<lparr>rx_user_id = ev_sender e, rx_emoji = an_key a\<rparr>))"
    using mc_cache_reaction_ok [OF assms(1,2)] by blast
  have st1: "st1 = send_event (ReactionCreatedEvent rx) (st\<lparr>ex_memory := mc\<rparr>)"
    by (simp add: assms(6,8) exec_reaction_event_def on_memory_eq mc(1))
  then have m1: "ex_memory st1 = mc" by simp
  have st2: "st2 = redact_reaction r (ev_id e) st1"
    unfolding assms(7) by (rule exec_redacts_reaction [OF assms(4)])
  have ok: "reactions_ok target (ex_memory st1)" by (simp add: m1 mc(2))
  note e = redact_reaction_effect [OF ok, of r "ev_id e", folded st2]
  have same: "reaction_in target (ex_memory st2) = reaction_in target (ex_memory st)"
    using e new by (auto simp: m1 mc(3) fun_eq_iff)
  have "ex_sent (redact_reaction r (ev_id e) st2) = ex_sent st2"
    using redact_reaction_effect [of target st2 r "ev_id e"] e new same by simp
  with e same show ?thesis
    by (simp add: exec_redacts_reaction [OF assms(5)] m1 mc(3) st1 assms(2,8) del: exec_action.simps)
qed

text \<open>A thumbs-up on a message, and its redaction.\<close>

definition thumbs_up :: "annotation \<times> sync_event" where
  "thumbs_up =
     (let a = \<lparr>an_event_id = ''$m'', an_key = ''+1''\<rparr>
      in (a, \<lparr>ev_id = ''$r'', ev_sender = ''@b:x'', ev_ts = 5, ev_body = MessageLike (ReactionEvent (Original a))\<rparr>))"

definition serves_reaction :: "exec_env \<Rightarrow> exec_env" where
  "serves_reaction env = env\<lparr>xe_parsers := (xe_parsers env)\<lparr>parse_sync := \<lambda>_. Some (snd thumbs_up)\<rparr>,
     xe_event := \<lambda>_ _. Inr \<lparr>te_kind = PlainText '''', te_event_id = None, te_sender = None, te_timestamp = None\<rparr>\<rparr>"

theorem redaction_takes_reaction_back_witness:
  "\<forall>env r fs. let env = serves_reaction env; a = fst thumbs_up; e = snd thumbs_up;
       c = \<lparr>rc_redacts = Some ''$r'', rc_reason = None\<rparr>;
       rx = \<lparr>r_message_id = ''$m'', r_room_id = sr_id r, r_reaction = ''+1'', r_user_id = Some ''@b:x''\<rparr>
     in ex_sent (exec_action env (RoomRedactionAction r c)
         (exec_action env (RoomRedactionAction r c)
           (exec_action env (ReactionAction r e a) (executor_new memory_cache_new fs)))) =
       [ReactionCreatedEvent rx, ReactionRemovedEvent rx]"
proof (intro allI)
  fix env :: exec_env and r :: sdk_room and fs
  let ?env = "serves_reaction env"
  let ?a = "fst thumbs_up" and ?e = "snd thumbs_up"
  let ?c = "\<lparr>rc_redacts = Some ''$r'', rc_reason = None\<rparr>"
  let ?st = "executor_new memory_cache_new fs"
  have "reactions_ok (\<lambda>_. ''$m'') (ex_memory ?st)" "reaction_in (\<lambda>_. ''$m'') (ex_memory ?st) (sr_id r) (ev_id ?e) = None"
    "ex_sent ?st = []"
    by (simp_all add: executor_new_def reactions_ok_def reaction_in_def) (simp_all add: memory_cache_new_def)
  moreover have "an_event_id ?a = ''$m''" "an_key ?a = ''+1''" "ev_sender ?e = ''@b:x''" "ev_id ?e = ''$r''"
    by (simp_all add: thumbs_up_def Let_def)
  moreover have "redacts_reaction ?env r ?c (ev_id ?e)"
    by (simp add: redacts_reaction_def serves_reaction_def thumbs_up_def Let_def)
  ultimately show "let env = ?env; a = ?a; e = ?e; c = ?c;
       rx = \<lparr>r_message_id = ''$m'', r_room_id = sr_id r, r_reaction = ''+1'', r_user_id = Some ''@b:x''\<rparr>
     in ex_sent (exec_action env (RoomRedactionAction r c)
         (exec_action env (RoomRedactionAction r c) (exec_action env (ReactionAction r e a) ?st))) =
       [ReactionCreatedEvent rx, ReactionRemovedEvent rx]"
    using redaction_takes_reaction_back [OF _ _ _ _ _ refl refl refl, where target = "\<lambda>_. ''$m''" and st = ?st
        and a = ?a and e = ?e and r = r and c = ?c and ?e1.0 = ?env and ?e2.0 = ?env and ?e3.0 = ?env]
    by (simp add: Let_def del: exec_action.simps)
qed

end
