(* ===== verification/RoomIsolation.thy ===== *)
theory RoomIsolation
  imports EventProperties
begin

text \<open>
  The rooms do not disturb each other: what the executor keeps of a room (its cached data, its
  queue of live changes) and what it tells the application about it are determined by the actions
  of that room.  The contract \<open>isolated_parts\<close> states the two laws this takes, that a step of
  another part leaves a part's view alone and that a step of the part depends on its view only;
  the executor meets it for every room.  Left out of the view are the paths of downloaded files
  and the changes of users, since the files and the users are shared by the rooms.
\<close>

section \<open>Parts of a state that do not disturb each other\<close>

locale isolated_parts =
  fixes same :: "'s \<Rightarrow> 's \<Rightarrow> bool"
    and step :: "'a \<Rightarrow> 's \<Rightarrow> 's"
    and allowed :: "'a \<Rightarrow> bool"
    and mine :: "'a \<Rightarrow> bool"
  assumes other: "same st st' \<Longrightarrow> allowed a \<Longrightarrow> \<not> mine a \<Longrightarrow> same (step a st) st'"
    and own: "same st st' \<Longrightarrow> allowed a \<Longrightarrow> mine a \<Longrightarrow> same (step a st) (step a st')"
begin

lemma run_same:
  "same st st' \<Longrightarrow> \<forall>a \<in> set as. allowed a \<Longrightarrow> same (fold step as st) (fold step (filter mine as) st')"
  by (induction as arbitrary: st st') (auto intro: other own)

end

section \<open>The view of a room\<close>

text \<open>What the application is told about a room, without the paths of downloaded files.\<close>

fun hide_path :: "room_change \<Rightarrow> room_change" where
  "hide_path (ChAvatarPath _) = ChAvatarPath ''''"
| "hide_path c = c"

definition hide_file :: "content option \<Rightarrow> content option" where
  "hide_file c = (case c of Some (CFile _ _) \<Rightarrow> None | _ \<Rightarrow> c)"

definition names_file :: "message_change list \<Rightarrow> bool" where
  "names_file cs \<longleftrightarrow> list_ex (\<lambda>c. case c of McContent (CFile _ _) \<Rightarrow> True | _ \<Rightarrow> False) cs"

fun told_event :: "string \<Rightarrow> response \<Rightarrow> response list" where
  "told_event rid (RoomChangeEvent i cs) = (if i = rid then [RoomChangeEvent i (map hide_path cs)] else [])"
| "told_event rid (MessageChangeEvent i m cs) =
     (if i = rid \<and> \<not> names_file cs then [MessageChangeEvent i m cs] else [])"
| "told_event rid (MessageReceivedEvent m) =
     (if m_room_id m = rid then [MessageReceivedEvent (m\<lparr>m_content := hide_file (m_content m)\<rparr>)] else [])"
| "told_event rid (ReactionCreatedEvent r) = (if r_room_id r = rid then [ReactionCreatedEvent r] else [])"
| "told_event rid (ReactionRemovedEvent r) = (if r_room_id r = rid then [ReactionRemovedEvent r] else [])"
| "told_event rid (RoomCreatedEvent r) =
     (if room_id r = rid then [RoomCreatedEvent (r\<lparr>room_avatar := None\<rparr>)] else [])"
| "told_event rid (RoomLeftEvent i reason message) = (if i = rid then [RoomLeftEvent i reason message] else [])"
| "told_event rid (InvitedEvent i reason name) = (if i = rid then [InvitedEvent i reason name] else [])"
| "told_event rid _ = []"

definition told :: "string \<Rightarrow> executor \<Rightarrow> response list" where
  "told rid st = concat (map (told_event rid) (ex_sent st))"

text \<open>What the memory cache holds of a room, with whether its lock is poisoned.\<close>

definition cell :: "string \<Rightarrow> memory_cache \<Rightarrow> bool \<times> cached_room option" where
  "cell rid mc = (mtx_poisoned (mc_rooms mc), hm_get (mtx_data (mc_rooms mc)) rid)"

text \<open>The changes in a queue are those of its room.\<close>

definition queues_named :: "executor \<Rightarrow> bool" where
  "queues_named st \<longleftrightarrow> (\<forall>rid. \<forall>c \<in> set (queue_of rid st). fst c = rid)"

definition same_room :: "string \<Rightarrow> executor \<Rightarrow> executor \<Rightarrow> bool" where
  "same_room rid st st' \<longleftrightarrow>
     rooms_keyed (ex_memory st) \<and> rooms_keyed (ex_memory st') \<and> queues_named st \<and> queues_named st' \<and>
     cell rid (ex_memory st) = cell rid (ex_memory st') \<and>
     queue_of rid st = queue_of rid st' \<and> told rid st = told rid st'"

text \<open>The room an action is about; the presence of a user is about none.\<close>

fun action_room :: "action \<Rightarrow> string option" where
  "action_room (RoomDiscovered rid) = Some rid"
| "action_room (AnyMessageLikeAction r _) = Some (sr_id r)"
| "action_room (RoomRedactionAction r _) = Some (sr_id r)"
| "action_room (RoomNameAction r _) = Some (sr_id r)"
| "action_room (RoomMemberAction r _ _) = Some (sr_id r)"
| "action_room (StrippedRoomMemberAction r _) = Some (sr_id r)"
| "action_room (RoomJoinRulesAction r _) = Some (sr_id r)"
| "action_room (RoomAvatarAction r) = Some (sr_id r)"
| "action_room (RoomMessageAction r _ _) = Some (sr_id r)"
| "action_room (RoomPinnedEventsAction r _) = Some (sr_id r)"
| "action_room (RoomPowerLevelsAction r) = Some (sr_id r)"
| "action_room (ReactionAction r _ _) = Some (sr_id r)"
| "action_room (PresenceAction _) = None"
| "action_room (TagAction r _) = Some (sr_id r)"
| "action_room (SyncReceiptAction r) = Some (sr_id r)"
| "action_room (FullyReadAction r) = Some (sr_id r)"
| "action_room (JoinedRoomUpdate rid _) = Some rid"
| "action_room (EventCacheGenericUpdate rid) = Some rid"
| "action_room (UnstablePollStartAction r _ _) = Some (sr_id r)"
| "action_room (UnstablePollResponseAction r _ _) = Some (sr_id r)"
| "action_room (UnstablePollEndAction r _) = Some (sr_id r)"
| "action_room (ConferenceStateAction r _) = Some (sr_id r)"

text \<open>The SDK's client finds a room under its own ID.\<close>

definition rooms_named :: "exec_env \<Rightarrow> bool" where
  "rooms_named env \<longleftrightarrow> (\<forall>rid r. xe_get_room env rid = Some r \<longrightarrow> sr_id r = rid)"

section \<open>The steps of the handlers\<close>

lemma told_send [simp]: "told rid (send_event e st) = told rid st @ told_event rid e"
  by (simp add: told_def)

lemma told_memory [simp]: "told rid (st\<lparr>ex_memory := mc\<rparr>) = told rid st"
  "told rid (st\<lparr>ex_fs := fs\<rparr>) = told rid st" "told rid (st\<lparr>ex_room_changes := q\<rparr>) = told rid st"
  "told rid (track_user_change u c st) = told rid st" "told rid (track_room_change c' st) = told rid st"
  by (simp_all add: told_def)

lemma queue_of_other_fields [simp]:
  "queue_of rid (st\<lparr>ex_memory := mc\<rparr>) = queue_of rid st" "queue_of rid (st\<lparr>ex_fs := fs\<rparr>) = queue_of rid st"
  "queue_of rid (track_user_change u c st) = queue_of rid st"
  by (simp_all add: queue_of_def)

lemma same_room_sym: "same_room rid st st' \<Longrightarrow> same_room rid st' st"
  by (simp add: same_room_def)

lemma set_push_change: "set (push_change c q) \<subseteq> insert c (set q)"
  by (cases q) (auto simp: push_change_def)

lemma queues_named_kept [simp]:
  "queues_named (send_event e st) = queues_named st" "queues_named (st\<lparr>ex_memory := mc\<rparr>) = queues_named st"
  "queues_named (st\<lparr>ex_fs := fs\<rparr>) = queues_named st"
  "queues_named (track_user_change u uc st) = queues_named st"
  "queues_named st \<Longrightarrow> queues_named (track_room_change c st)"
  using set_push_change [of c "queue_of (fst c) st"] by (auto simp: queues_named_def)

lemma same_room_refl: "rooms_keyed (ex_memory st) \<Longrightarrow> queues_named st \<Longrightarrow> same_room rid st st"
  by (simp add: same_room_def)

text \<open>Steps of two runs in lock step.\<close>

lemma same_send:
  "same_room rid st st' \<Longrightarrow> told_event rid e = told_event rid e' \<Longrightarrow>
   same_room rid (send_event e st) (send_event e' st')"
  by (simp add: same_room_def)

lemma same_fields:
  "same_room rid st st' \<Longrightarrow> same_room rid (st\<lparr>ex_fs := fs\<rparr>) (st'\<lparr>ex_fs := fs'\<rparr>)"
  "same_room rid st st' \<Longrightarrow> same_room rid (track_user_change u c st) (track_user_change u' c' st')"
  "same_room rid st st' \<Longrightarrow> same_room rid (track_room_change ch st) (track_room_change ch st')"
  by (auto simp: same_room_def)

text \<open>Steps of another room, against a run that stands still.\<close>

lemma still_send: "same_room rid st st' \<Longrightarrow> told_event rid e = [] \<Longrightarrow> same_room rid (send_event e st) st'"
  by (simp add: same_room_def)

lemma still_fields:
  "same_room rid st st' \<Longrightarrow> same_room rid (st\<lparr>ex_fs := fs\<rparr>) st'"
  "same_room rid st st' \<Longrightarrow> same_room rid (track_user_change u c st) st'"
  "same_room rid st st' \<Longrightarrow> fst ch \<noteq> rid \<Longrightarrow> same_room rid (track_room_change ch st) st'"
  by (simp_all add: same_room_def)

text \<open>Operations of the memory cache on a room.\<close>

definition keeps_id :: "(cached_room \<Rightarrow> 'r \<times> cached_room) \<Rightarrow> bool" where
  "keeps_id f \<longleftrightarrow> (\<forall>room. cr_room_id (snd (f room)) = cr_room_id room)"

lemma cell_put_room:
  "cell rid (put_room room mc) = (fst (cell rid mc), if rid = cr_room_id room then Some room else snd (cell rid mc))"
  by (simp add: cell_def put_room_def put_guard_def)

text \<open>The result of an operation and the room afterwards, from the room before.\<close>

definition in_cell ::
  "(cached_room \<Rightarrow> (memory_cache_error + 'a) \<times> cached_room) \<Rightarrow> string \<Rightarrow> bool \<times> cached_room option \<Rightarrow>
   (memory_cache_error + 'a) \<times> bool \<times> cached_room option" where
  "in_cell f rid c =
     (if fst c then (Inl CachePoisoned, c)
      else let (r, room) = f (case snd c of None \<Rightarrow> cached_room_new rid | Some room \<Rightarrow> room)
           in (r, False, Some room))"

definition in_known_cell ::
  "'a \<Rightarrow> (cached_room \<Rightarrow> (memory_cache_error + 'a) \<times> cached_room) \<Rightarrow> bool \<times> cached_room option \<Rightarrow>
   (memory_cache_error + 'a) \<times> bool \<times> cached_room option" where
  "in_known_cell d f c =
     (if fst c then (Inl CachePoisoned, c)
      else case snd c of
             None \<Rightarrow> (Inr d, c)
           | Some room \<Rightarrow> let (r, room) = f room in (r, False, Some room))"

lemma get_or_create_room_cell:
  "get_or_create_room i mc =
     (if fst (cell i mc) then (Inl CachePoisoned, mc)
      else (Inr (case snd (cell i mc) of None \<Rightarrow> cached_room_new i | Some room \<Rightarrow> room),
            snd (get_or_create_room i mc)))"
  "cell rid (snd (get_or_create_room i mc)) = (fst (cell rid mc),
     if \<not> fst (cell rid mc) \<and> rid = i \<and> snd (cell i mc) = None then Some (cached_room_new i)
     else snd (cell rid mc))"
  by (simp_all add: get_or_create_room_def cell_def lock_def Let_def put_guard_def split: option.split)

lemma keyed_room: "rooms_keyed mc \<Longrightarrow>
  cr_room_id (case snd (cell i mc) of None \<Rightarrow> cached_room_new i | Some room \<Rightarrow> room) = i"
  by (auto simp: rooms_keyed_def cell_def cached_room_new_def split: option.split)

lemma fst_cell: "fst (cell rid mc) = fst (cell i mc)"
  by (simp add: cell_def)

lemma in_room_cell:
  assumes "keeps_id f" "rooms_keyed mc"
  shows "(fst (in_room f i mc), cell i (snd (in_room f i mc))) = in_cell f i (cell i mc)"
    and "rid \<noteq> i \<Longrightarrow> cell rid (snd (in_room f i mc)) = cell rid mc"
proof -
  let ?room = "case snd (cell i mc) of None \<Rightarrow> cached_room_new i | Some room \<Rightarrow> room"
  obtain r room where f: "f ?room = (r, room)" by (cases "f ?room")
  with assms have room: "cr_room_id room = i" using keyed_room [of mc i] by (metis keeps_id_def snd_conv)
  have "in_room f i mc = (if fst (cell i mc) then (Inl CachePoisoned, mc)
      else (r, put_room room (snd (get_or_create_room i mc))))"
    unfolding in_room_def using f by (subst get_or_create_room_cell) simp
  note eq = this
  show "(fst (in_room f i mc), cell i (snd (in_room f i mc))) = in_cell f i (cell i mc)"
    using eq f room by (simp add: in_cell_def cell_put_room get_or_create_room_cell(2))
  show "cell rid (snd (in_room f i mc)) = cell rid mc" if "rid \<noteq> i"
    using eq room that fst_cell [of rid mc i]
    by (cases "cell rid mc") (simp add: cell_put_room get_or_create_room_cell(2))
qed

lemma in_known_room_cell:
  assumes "keeps_id f" "rooms_keyed mc"
  shows "(fst (in_known_room d f i mc), cell i (snd (in_known_room d f i mc))) = in_known_cell d f (cell i mc)"
    and "rid \<noteq> i \<Longrightarrow> cell rid (snd (in_known_room d f i mc)) = cell rid mc"
proof -
  have get: "get_room i mc = (if fst (cell i mc) then Inl CachePoisoned else Inr (snd (cell i mc)))"
    by (simp add: get_room_def cell_def lock_def)
  have "cr_room_id (snd (f room)) = i" if "snd (cell i mc) = Some room" for room
    using assms that by (simp add: keeps_id_def rooms_keyed_def cell_def)
  then show "(fst (in_known_room d f i mc), cell i (snd (in_known_room d f i mc))) = in_known_cell d f (cell i mc)"
    and "rid \<noteq> i \<Longrightarrow> cell rid (snd (in_known_room d f i mc)) = cell rid mc"
    by (auto simp: in_known_room_def in_known_cell_def get cell_put_room split: option.split prod.split)
qed

lemma keyed_kept:
  "keeps_id f \<Longrightarrow> rooms_keyed mc \<Longrightarrow> rooms_keyed (snd (in_room f i mc))"
  "keeps_id g \<Longrightarrow> rooms_keyed mc \<Longrightarrow> rooms_keyed (snd (in_known_room d g i mc))"
  by (simp_all add: rooms_keyed_in_room rooms_keyed_in_known_room keeps_id_def)

lemma same_in_room:
  assumes "same_room rid st st'" "keeps_id f"
  shows "fst (on_memory (in_room f rid) st) = fst (on_memory (in_room f rid) st')"
    and "same_room rid (snd (on_memory (in_room f rid) st)) (snd (on_memory (in_room f rid) st'))"
proof -
  have k: "rooms_keyed (ex_memory st)" "rooms_keyed (ex_memory st')"
    "cell rid (ex_memory st) = cell rid (ex_memory st')"
    using assms(1) by (simp_all add: same_room_def)
  note c = in_room_cell(1) [OF assms(2) k(1), of rid] in_room_cell(1) [OF assms(2) k(2), of rid]
  then show "fst (on_memory (in_room f rid) st) = fst (on_memory (in_room f rid) st')"
    unfolding on_memory_eq k(3) by (metis fst_conv)
  have "cell rid (snd (in_room f rid (ex_memory st))) = cell rid (snd (in_room f rid (ex_memory st')))"
    using c unfolding k(3) by (metis snd_conv)
  then show "same_room rid (snd (on_memory (in_room f rid) st)) (snd (on_memory (in_room f rid) st'))"
    using assms by (simp add: same_room_def on_memory_eq keyed_kept)
qed

lemma same_in_known_room:
  assumes "same_room rid st st'" "keeps_id f"
  shows "fst (on_memory (in_known_room d f rid) st) = fst (on_memory (in_known_room d f rid) st')"
    and "same_room rid (snd (on_memory (in_known_room d f rid) st)) (snd (on_memory (in_known_room d f rid) st'))"
proof -
  have k: "rooms_keyed (ex_memory st)" "rooms_keyed (ex_memory st')"
    "cell rid (ex_memory st) = cell rid (ex_memory st')"
    using assms(1) by (simp_all add: same_room_def)
  note c = in_known_room_cell(1) [OF assms(2) k(1), of d rid] in_known_room_cell(1) [OF assms(2) k(2), of d rid]
  then show "fst (on_memory (in_known_room d f rid) st) = fst (on_memory (in_known_room d f rid) st')"
    unfolding on_memory_eq k(3) by (metis fst_conv)
  have "cell rid (snd (in_known_room d f rid (ex_memory st))) = cell rid (snd (in_known_room d f rid (ex_memory st')))"
    using c unfolding k(3) by (metis snd_conv)
  then show "same_room rid (snd (on_memory (in_known_room d f rid) st)) (snd (on_memory (in_known_room d f rid) st'))"
    using assms by (simp add: same_room_def on_memory_eq keyed_kept)
qed

lemma still_in_room:
  assumes "same_room rid st st'" "keeps_id f" "i \<noteq> rid"
  shows "same_room rid (snd (on_memory (in_room f i) st)) st'"
    and "same_room rid (snd (on_memory (in_known_room d f i) st)) st'"
  using assms in_room_cell(2) [of f "ex_memory st" rid i] in_known_room_cell(2) [of f "ex_memory st" rid i]
  by (simp_all add: same_room_def on_memory_eq keyed_kept)

lemma keeps_id_operations:
  "keeps_id (cache_read_marker u ts)" "keeps_id (set_marked_ts t)"
  "keeps_id (remove_reaction_by_id i)" "keeps_id (cache_reaction m j x)"
  by (simp_all add: keeps_id_def room_id_kept room_id_kept_more)

section \<open>Handlers that respect the rooms\<close>

text \<open>
  A handler of the room \<open>i\<close> respects the room \<open>rid\<close>: it does the same to two executors that
  agree on it when it is its own room, and leaves what they agree on alone otherwise.
\<close>

definition heeds :: "string \<Rightarrow> string \<Rightarrow> (executor \<Rightarrow> executor) \<Rightarrow> bool" where
  "heeds rid i h \<longleftrightarrow>
     (\<forall>st st'. same_room rid st st' \<longrightarrow> same_room rid (h st) (if i = rid then h st' else st'))"

definition answers_alike :: "string \<Rightarrow> string \<Rightarrow> (executor \<Rightarrow> 'r \<times> executor) \<Rightarrow> bool" where
  "answers_alike rid i f \<longleftrightarrow> heeds rid i (\<lambda>st. snd (f st)) \<and>
     (i = rid \<longrightarrow> (\<forall>st st'. same_room rid st st' \<longrightarrow> fst (f st) = fst (f st')))"

lemma heeds_return: "heeds rid i (\<lambda>st. st)"
  by (simp add: heeds_def)

lemma heeds_comp: "heeds rid i h \<Longrightarrow> heeds rid i k \<Longrightarrow> heeds rid i (\<lambda>st. k (h st))"
  by (cases "i = rid") (simp_all add: heeds_def)

lemma heeds_send: "(i \<noteq> rid \<Longrightarrow> told_event rid e = []) \<Longrightarrow> heeds rid i (send_event e)"
  by (simp add: heeds_def same_send still_send)

lemma heeds_if:
  "(\<And>st st'. same_room rid st st' \<Longrightarrow> i = rid \<Longrightarrow> P st = P st') \<Longrightarrow> heeds rid i h \<Longrightarrow> heeds rid i k \<Longrightarrow>
   heeds rid i (\<lambda>st. if P st then h st else k st)"
  by (cases "i = rid") (simp_all add: heeds_def)

lemma heeds_case:
  "(\<And>a. heeds rid i (f a)) \<Longrightarrow> (\<And>b. heeds rid i (g b)) \<Longrightarrow>
   heeds rid i (\<lambda>st. case x of Inl a \<Rightarrow> f a st | Inr b \<Rightarrow> g b st)"
  "heeds rid i h \<Longrightarrow> (\<And>c. heeds rid i (k c)) \<Longrightarrow>
   heeds rid i (\<lambda>st. case y of None \<Rightarrow> h st | Some c \<Rightarrow> k c st)"
  by (cases x; simp) (cases y; simp)

lemma heeds_bind:
  assumes "answers_alike rid i f"
    and "\<And>x st. rooms_keyed (ex_memory st) \<Longrightarrow> fst (f st) = x \<Longrightarrow> heeds rid i (k x)"
  shows "heeds rid i (\<lambda>st. case f st of (x, st) \<Rightarrow> k x st)"
  unfolding heeds_def
proof (intro allI impI)
  fix st st'
  assume same: "same_room rid st st'"
  then have "heeds rid i (k (fst (f st)))" using assms(2) [of st] by (simp add: same_room_def)
  then show "same_room rid (case f st of (x, st) \<Rightarrow> k x st)
      (if i = rid then case f st' of (x, st) \<Rightarrow> k x st else st')"
    using assms(1) same by (cases "i = rid") (simp_all add: answers_alike_def heeds_def case_prod_beta)
qed

lemmas heeds_intros = heeds_return heeds_send heeds_if heeds_case

text \<open>An operation on the files, and an event whose paths are all that depends on its answer.\<close>

lemma heeds_files:
  assumes "\<And>fs. heeds rid i (k (fst (f fs)))"
    and "i = rid \<Longrightarrow> (\<And>fs fs' st st'. same_room rid st st' \<Longrightarrow> same_room rid (k (fst (f fs)) st) (k (fst (f fs')) st'))"
  shows "heeds rid i (\<lambda>st. case on_fs f st of (x, st) \<Rightarrow> k x st)"
  using assms same_fields(1) still_fields(1)
  by (cases "i = rid") (simp_all add: heeds_def on_fs_eq)

lemma answers_in_room:
  "keeps_id f \<Longrightarrow> answers_alike rid i (on_memory (in_room f i))"
  "keeps_id f \<Longrightarrow> answers_alike rid i (on_memory (in_known_room d f i))"
  using same_in_room [where rid = i and f = f] same_in_known_room [where rid = i and f = f and d = d]
    still_in_room(1) [where rid = rid and f = f and i = i] still_in_room(2) [where rid = rid and f = f and i = i and d = d]
  by (cases "i = rid"; auto simp: answers_alike_def heeds_def)+

lemma answers_operations:
  "answers_alike rid i (on_memory (mc_set_read_marker i u ts))"
  "answers_alike rid i (on_memory (mc_cache_reaction i e a))"
  "answers_alike rid i (on_memory (mc_remove_reaction_by_id i j))"
  "answers_alike rid i (on_memory (mc_mark_room_as_unread i))"
  by (simp_all add: mc_set_read_marker_def mc_cache_reaction_def mc_remove_reaction_by_id_def
      mc_mark_room_as_unread_def answers_in_room keeps_id_operations)

text \<open>What a handler reads of its own room.\<close>

lemma same_reads:
  assumes "same_room rid st st'"
  shows "mc_room_mark_as_read_ts rid (ex_memory st) = mc_room_mark_as_read_ts rid (ex_memory st')"
    and "is_known_room rid (ex_memory st) = is_known_room rid (ex_memory st')"
    and "fst c = rid \<Longrightarrow> is_new_room_change c st = is_new_room_change c st'"
proof -
  have "get_room rid (ex_memory st) = get_room rid (ex_memory st')"
    using assms by (simp add: same_room_def cell_def get_room_def lock_def)
  then show "mc_room_mark_as_read_ts rid (ex_memory st) = mc_room_mark_as_read_ts rid (ex_memory st')"
    and "is_known_room rid (ex_memory st) = is_known_room rid (ex_memory st')"
    by (simp_all add: mc_room_mark_as_read_ts_def is_known_room_def)
  show "fst c = rid \<Longrightarrow> is_new_room_change c st = is_new_room_change c st'"
    using assms by (simp add: is_new_room_change_queue same_room_def)
qed

section \<open>Live changes\<close>

lemma heeds_track: "fst c = i \<Longrightarrow> heeds rid i (track_room_change c)"
  by (simp add: heeds_def same_fields still_fields)

lemma heeds_send_if_new: "fst c = i \<Longrightarrow> heeds rid i (send_if_new c)"
proof -
  assume c: "fst c = i"
  have "heeds rid i (\<lambda>st. if \<not> is_new_room_change c st then st
      else send_event (RoomChangeEvent (fst c) (snd c)) (track_room_change c st))"
    by (intro heeds_if heeds_return heeds_comp [OF heeds_track heeds_send])
      (simp_all add: c same_reads(3))
  then show ?thesis unfolding send_if_new_def [abs_def] .
qed

lemma heeds_unread_count: "heeds rid (sr_id r) (update_room_unread_count env r)"
  unfolding update_room_unread_count_def [abs_def] Let_def
  by (intro heeds_if heeds_return heeds_send_if_new) (simp_all add: same_reads(1))

lemma heeds_unread_count_by_id:
  "rooms_named env \<Longrightarrow> heeds rid i (update_room_unread_count_by_id env i)"
  using heeds_unread_count [of rid _ env]
  by (cases "xe_get_room env i")
    (auto simp: update_room_unread_count_by_id_def [abs_def] heeds_return rooms_named_def)

lemma answers_return: "answers_alike rid i (\<lambda>st. (x, st))"
  by (simp add: answers_alike_def heeds_return)

lemma answers_bind:
  assumes "answers_alike rid i f" "\<And>x. answers_alike rid i (k x)"
  shows "answers_alike rid i (\<lambda>st. case f st of (x, st) \<Rightarrow> k x st)"
proof -
  have "heeds rid i (\<lambda>st. case f st of (x, st) \<Rightarrow> snd (k x st))"
    using assms by (intro heeds_bind; simp add: answers_alike_def)
  then show ?thesis
    using assms by (auto simp: answers_alike_def heeds_def case_prod_beta)
qed

lemma answers_user_receipts: "answers_alike rid i (process_user_receipts i rs m)"
proof (induction rs arbitrary: m)
  case Nil
  then show ?case by (simp add: answers_return)
next
  case (Cons x rs)
  obtain u t where x: "x = (u, t)" by (cases x)
  have k: "answers_alike rid i (\<lambda>st. case r of Inr True \<Rightarrow> process_user_receipts i rs (hm_insert u ts m) st
      | _ \<Rightarrow> process_user_receipts i rs m st)" for r :: "memory_cache_error + bool" and ts
    by (cases "r = Inr True"; cases r) (simp_all add: Cons.IH case_bool_if)
  show ?case
  proof (cases t)
    case None
    with Cons.IH x show ?thesis by simp
  next
    case (Some ts)
    have "process_user_receipts i (x # rs) m = (\<lambda>st. case on_memory (mc_set_read_marker i u ts) st of
        (r, st) \<Rightarrow> (case r of Inr True \<Rightarrow> process_user_receipts i rs (hm_insert u ts m) st
          | _ \<Rightarrow> process_user_receipts i rs m st))"
      by (auto simp: x Some split: prod.split sum.split bool.split)
    then show ?thesis using answers_bind [OF answers_operations(1) k] by simp
  qed
qed

lemma answers_receipts: "answers_alike rid i (process_receipts i rs m)"
proof (induction rs arbitrary: m)
  case Nil
  then show ?case by (simp add: answers_return)
next
  case (Cons x rs)
  obtain j r where x: "x = (j, r)" by (cases x)
  show ?case
    by (cases "hm_get r RtRead") (simp_all add: x Cons answers_bind [OF answers_user_receipts])
qed

lemma answers_collect: "answers_alike rid i (collect_read_marker env i es m)"
proof (induction es arbitrary: m)
  case Nil
  then show ?case by (simp add: answers_return)
next
  case (Cons e es)
  show ?case
  proof (cases "xe_parse_ephemeral env e")
    case (Some c)
    with Cons show ?thesis by (cases c) (simp_all add: answers_bind [OF answers_receipts])
  qed (simp add: Cons)
qed

lemma answers_read_marker: "answers_alike rid i (get_read_marker env i es)"
  unfolding get_read_marker_def [abs_def] by (intro answers_bind answers_collect answers_return)

lemma heeds_joined_room_update:
  assumes "rooms_named env"
  shows "heeds rid i (exec_joined_room_update env i es)"
proof (cases "xe_get_room env i")
  case None
  then show ?thesis
    using heeds_unread_count_by_id [OF assms] by (simp add: exec_joined_room_update_def [abs_def] Let_def)
next
  case (Some r)
  then have r: "sr_id r = i" using assms by (simp add: rooms_named_def)
  let ?typing = "get_user_typing_list env es None"
  let ?rest = "\<lambda>markers. if ?typing = None \<and> markers = None then (\<lambda>st. st)
      else send_if_new (i, (case ?typing of Some list \<Rightarrow> [ChTyping list] | None \<Rightarrow> []) @
        (case markers of Some new \<Rightarrow> [ChReadMarker new] | None \<Rightarrow> []))"
  have "exec_joined_room_update env i es =
      (\<lambda>st. case get_read_marker env i es (update_room_unread_count_by_id env i st) of
        (markers, st) \<Rightarrow> ?rest markers st)"
    by (auto simp: exec_joined_room_update_def Let_def Some r split: prod.split)
  moreover have "heeds rid i (?rest markers)" for markers
    by (simp add: heeds_return heeds_send_if_new)
  ultimately show ?thesis
    using heeds_comp [OF heeds_unread_count_by_id [OF assms] heeds_bind [OF answers_read_marker]] by simp
qed

lemma queued_room_changes_effect:
  "ex_memory (exec_queued_room_changes i st) = ex_memory st"
  "told rid (exec_queued_room_changes i st) = told rid st @
     concat (map (told_event rid \<circ> send_of) (queue_of i st))"
  "queue_of rid (exec_queued_room_changes i st) = (if rid = i then [] else queue_of rid st)"
proof -
  have "ex_memory (send_changes cs st) = ex_memory st" for cs st
    by (induction cs arbitrary: st) simp_all
  then show "ex_memory (exec_queued_room_changes i st) = ex_memory st"
    by (simp add: exec_queued_room_changes_def split: option.split)
  show "told rid (exec_queued_room_changes i st) = told rid st @
     concat (map (told_event rid \<circ> send_of) (queue_of i st))"
    by (simp add: told_def discovery_sends_queue)
  show "queue_of rid (exec_queued_room_changes i st) = (if rid = i then [] else queue_of rid st)"
    using sent_changes(2) by (simp add: exec_queued_room_changes_def queue_of_def split: option.split)
qed

lemma heeds_queued_room_changes: "heeds rid i (exec_queued_room_changes i)"
proof -
  have named: "queues_named (exec_queued_room_changes i st)" if "queues_named st" for st
    using that by (simp add: queues_named_def queued_room_changes_effect)
  have quiet: "concat (map (told_event rid \<circ> send_of) (queue_of i st)) = []" if "queues_named st" "i \<noteq> rid" for st
    using that by (auto simp: queues_named_def send_of_def)
  show ?thesis
    using named quiet by (cases "i = rid") (auto simp: heeds_def same_room_def queued_room_changes_effect)
qed

section \<open>The other handlers\<close>

lemma heeds_one_change:
  "heeds rid (sr_id r) (exec_room_name_event r n)" "heeds rid (sr_id r) (exec_room_join_rules_event r j)"
  "heeds rid (sr_id r) (exec_room_pinned_events_event r ids)" "heeds rid (sr_id r) (exec_tag_event r tags)"
  "heeds rid (sr_id r) (exec_sync_receipt_event r)" "heeds rid (sr_id r) (exec_conference_state_event r ce)"
  by (simp_all add: exec_room_name_event_def [abs_def] exec_room_join_rules_event_def [abs_def]
      exec_room_pinned_events_event_def [abs_def] exec_tag_event_def [abs_def] exec_sync_receipt_event_def [abs_def]
      exec_conference_state_event_def [abs_def] heeds_send heeds_return)

lemma heeds_any_message_like_event: "heeds rid (sr_id r) (exec_any_message_like_event r e)"
  unfolding exec_any_message_like_event_def [abs_def] Let_def
  by (rule heeds_bind [OF answers_operations(1)]) (intro heeds_intros, simp_all)

lemma heeds_reaction_event: "heeds rid (sr_id r) (exec_reaction_event r e a)"
  unfolding exec_reaction_event_def [abs_def] Let_def
  by (rule heeds_bind [OF answers_operations(2)]) (simp add: heeds_send)

lemma heeds_stripped_room_member_event: "heeds rid (sr_id r) (exec_stripped_room_member_event env r e)"
  unfolding exec_stripped_room_member_event_def [abs_def] by (intro heeds_intros) simp_all

lemma heeds_power_levels_event: "heeds rid (sr_id r) (exec_room_power_levels_event env r)"
  by (cases "xe_user_id env") (simp_all add: exec_room_power_levels_event_def [abs_def] heeds_send heeds_return)

lemma heeds_avatar_event: "heeds rid (sr_id r) (exec_room_avatar_event env r)"
  unfolding exec_room_avatar_event_def [abs_def] Let_def
  by (rule heeds_files) (simp_all add: heeds_send same_send)

lemma hide_generated:
  "hide_file (fst (generate_message_content env rid i t fs)) = hide_file (fst (generate_message_content env rid i t fs'))"
proof -
  have "hide_file (fst (download_file env rid i f fs)) = None" for f fs
    by (auto simp: download_file_def Let_def hide_file_def split: prod.split sum.split)
  then show ?thesis by (cases t) simp_all
qed

lemma removed_reaction_room:
  assumes "rooms_keyed (ex_memory st)" and "fst (on_memory (mc_remove_reaction_by_id i j) st) = Inr (Some md)"
  shows "rm_room_id md = i"
proof -
  have "rm_room_id md = cr_room_id room" if "fst (remove_reaction_by_id j room) = Inr (Some md)" for room
    using that by (auto simp: remove_reaction_by_id_def cleanup_reaction_def put_message_def and_then_def
        reaction_metadata_new_def split: sum.splits option.splits prod.splits)
  then show ?thesis
    using assms by (auto simp: on_memory_eq mc_remove_reaction_by_id_def in_known_room_def get_room_def lock_def
        rooms_keyed_def split: sum.splits option.splits prod.splits if_splits) (metis fst_conv)
qed

lemma heeds_redact_reaction: "heeds rid (sr_id r) (redact_reaction r j)"
proof -
  let ?k = "\<lambda>x. case x of
      Inr (Some md) \<Rightarrow> send_event (ReactionRemovedEvent
          \<lparr>r_message_id = rm_message_id md, r_room_id = rm_room_id md, r_reaction = rm_emoji md,
           r_user_id = Some (rm_user_id md)\<rparr>)
    | _ \<Rightarrow> (\<lambda>st. st)"
  have "heeds rid (sr_id r) (?k x)"
    if "rooms_keyed (ex_memory st)" "fst (on_memory (mc_remove_reaction_by_id (sr_id r) j) st) = x" for x st
  proof (cases x)
    case (Inr y)
    with that removed_reaction_room [of st "sr_id r" j] show ?thesis
      by (cases y) (simp_all add: heeds_return heeds_send)
  qed (simp add: heeds_return)
  from heeds_bind [OF answers_operations(3) this]
  have "heeds rid (sr_id r)
      (\<lambda>st. case on_memory (mc_remove_reaction_by_id (sr_id r) j) st of (x, st) \<Rightarrow> ?k x st)" .
  moreover have "redact_reaction r j =
      (\<lambda>st. case on_memory (mc_remove_reaction_by_id (sr_id r) j) st of (x, st) \<Rightarrow> ?k x st)"
    by (rule ext) (auto simp: redact_reaction_def split: prod.split sum.split option.split)
  ultimately show ?thesis by simp
qed

lemma heeds_redact_event: "heeds rid (sr_id r) (redact_any_message_like_event r c i m)"
proof -
  have "redact_any_message_like_event r c i m = (case m of
      ReactionEvent _ \<Rightarrow> redact_reaction r i | RoomEncrypted _ \<Rightarrow> redact_room_message r c i
    | RoomMessage _ \<Rightarrow> redact_room_message r c i | _ \<Rightarrow> (\<lambda>st. st))"
    by (rule ext) (cases m; simp)
  moreover have "heeds rid (sr_id r) (redact_room_message r c i)"
    unfolding redact_room_message_def [abs_def] by (rule heeds_send) simp
  ultimately show ?thesis by (cases m) (simp_all add: heeds_redact_reaction heeds_return)
qed

lemma heeds_redaction_event: "heeds rid (sr_id r) (exec_room_redaction_event env r c)"
proof -
  have body: "heeds rid (sr_id r) (\<lambda>st. case b of MessageLike m \<Rightarrow> redact_any_message_like_event r c i m st | State _ \<Rightarrow> st)"
    for b i
    by (cases b) (simp_all add: heeds_redact_event heeds_return)
  have kind: "heeds rid (sr_id r) (\<lambda>st. case k of
      Decrypted raw \<Rightarrow> redact_any_timeline_event env r c raw st
    | PlainText raw \<Rightarrow> redact_any_sync_timeline_event env r c raw st
    | UnableToDecrypt _ _ \<Rightarrow> st)" for k
    by (cases k) (simp_all add: redact_any_timeline_event_def [abs_def] redact_any_sync_timeline_event_def [abs_def]
        heeds_case(2) heeds_return body)
  show ?thesis
    unfolding exec_room_redaction_event_def [abs_def] by (intro heeds_intros kind)
qed

lemma heeds_mark_as_unread: "heeds rid (sr_id r) (maybe_mark_room_as_unread r ts)"
proof -
  have "heeds rid (sr_id r) (\<lambda>st. if (case mc_room_mark_as_read_ts (sr_id r) (ex_memory st) of
        Inr (Some t) \<Rightarrow> \<not> ucast ts \<le> t | _ \<Rightarrow> False)
      then snd (on_memory (mc_mark_room_as_unread (sr_id r)) st) else st)"
    using answers_operations(4) [of rid "sr_id r"]
    by (intro heeds_if heeds_return) (simp_all add: same_reads(1) answers_alike_def)
  then show ?thesis
    by (rule arg_cong [where f = "heeds rid (sr_id r)", THEN iffD1, rotated])
      (auto simp: maybe_mark_room_as_unread_def split: sum.split option.split)
qed

lemma heeds_new_message: "heeds rid (sr_id r) (process_new_message env r e c)"
proof -
  let ?f = "message_from_event (xe_messages env) (sr_id r) (into_full_event e (sr_id r)) c"
  have message: "m_room_id (fst (?f fs)) = sr_id r" "m_timestamp (fst (?f fs)) = ev_ts e"
    "(fst (?f fs))\<lparr>m_content := hide_file (m_content (fst (?f fs)))\<rparr> =
     (fst (?f fs'))\<lparr>m_content := hide_file (m_content (fst (?f fs')))\<rparr>" for fs fs'
    using hide_generated [where env = "xe_messages env" and rid = "sr_id r" and fs = fs and fs' = fs'
        and i = "ev_id e" and t = "rmc_msgtype c"]
    by (simp_all add: message_from_event_def into_full_event_def case_prod_beta Let_def)
  have mark: "same_room (sr_id r) (maybe_mark_room_as_unread r ts st) (maybe_mark_room_as_unread r ts st')"
    if "same_room (sr_id r) st st'" for ts st st'
    using heeds_mark_as_unread [of "sr_id r" r ts] that by (simp add: heeds_def)
  show ?thesis
    unfolding process_new_message_def [abs_def] Let_def
    by (rule heeds_files)
      (auto simp: message intro!: heeds_comp [OF heeds_mark_as_unread heeds_send] same_send mark message(3))
qed

lemma heeds_replacement_message: "heeds rid (sr_id r) (process_replacement_message env r i n)"
proof -
  let ?f = "generate_message_content (xe_messages env) (sr_id r) i (nc_msgtype n)"
  let ?e = "\<lambda>c. MessageChangeEvent (sr_id r) i
      [McContent c, McMentions (matrix_mentions_to_proto_mentions (nc_mentions n)), McEdited True]"
  let ?k = "\<lambda>content. case content of None \<Rightarrow> (\<lambda>st. st) | Some c \<Rightarrow> send_event (?e c)"
  have told: "told_event (sr_id r) (?e c) = (case hide_file (Some c) of None \<Rightarrow> [] | Some c \<Rightarrow> [?e c])" for c
    by (cases c) (simp_all add: hide_file_def names_file_def)
  have step: "same_room (sr_id r) (?k a st) (?k b st')"
    if "same_room (sr_id r) st st'" "hide_file a = hide_file b" for a b st st'
    using that told
    by (cases a; cases b) (simp_all add: same_room_def hide_file_def)
  have "process_replacement_message env r i n = (\<lambda>st. case on_fs ?f st of (content, st) \<Rightarrow> ?k content st)"
    by (rule ext) (auto simp: process_replacement_message_def Let_def split: prod.split option.split)
  moreover have "heeds rid (sr_id r) (?k a)" for a
    by (cases a) (simp_all add: heeds_return heeds_send)
  ultimately show ?thesis
    using step hide_generated by (auto intro!: heeds_files)
qed

lemma heeds_room_message_event: "heeds rid (sr_id r) (exec_room_message_event env r e c)"
proof -
  have "exec_room_message_event env r e c = (if \<not> sr_is_joined r then (\<lambda>st. st)
      else case rmc_relates_to c of
             Some (RelReplacement event_id new) \<Rightarrow> process_replacement_message env r event_id new
           | _ \<Rightarrow> process_new_message env r e c)"
    by (rule ext) (auto simp: exec_room_message_event_def split: option.split relation.split)
  then show ?thesis
    by (auto simp: heeds_return heeds_replacement_message heeds_new_message split: option.split relation.split)
qed

lemma heeds_poll: "heeds rid (sr_id r) (send_poll r i p)"
  unfolding send_poll_def [abs_def] by (rule heeds_send) (simp add: names_file_def)

lemma heeds_poll_events:
  "heeds rid (sr_id r) (exec_unstable_poll_start_event env r e c)"
  "heeds rid (sr_id r) (exec_unstable_poll_response_event env r e pc)"
  "heeds rid (sr_id r) (exec_unstable_poll_end_event env r i)"
proof -
  have "heeds rid (sr_id r) (exec_new_unstable_poll_start_event r e block)" for block
    unfolding exec_new_unstable_poll_start_event_def [abs_def]
    by (intro heeds_intros) (simp add: default_message_def)
  moreover have "heeds rid (sr_id r) (exec_replacement_unstable_poll_start_event env r j new)" for j new
    unfolding exec_replacement_unstable_poll_start_event_def [abs_def] by (intro heeds_intros heeds_poll)
  moreover have "exec_unstable_poll_start_event env r e c = (case c of
      PsNew block \<Rightarrow> exec_new_unstable_poll_start_event r e block
    | PsReplacement j _ new \<Rightarrow> exec_replacement_unstable_poll_start_event env r j new
    | PsOther _ \<Rightarrow> (\<lambda>st. st))"
    by (rule ext) (cases c; simp)
  ultimately show "heeds rid (sr_id r) (exec_unstable_poll_start_event env r e c)"
    by (simp add: heeds_return split: poll_start_content.split)
  show "heeds rid (sr_id r) (exec_unstable_poll_response_event env r e pc)"
    "heeds rid (sr_id r) (exec_unstable_poll_end_event env r i)"
    unfolding exec_unstable_poll_response_event_def [abs_def] exec_unstable_poll_end_event_def [abs_def] Let_def
    by (intro heeds_intros heeds_poll)+
qed

lemma assembled_alike:
  "case (fst (assemble_chat_room env mm own r fs), fst (assemble_chat_room env mm own r fs')) of
     (Inr a, Inr b) \<Rightarrow> a\<lparr>room_avatar := None\<rparr> = b\<lparr>room_avatar := None\<rparr> \<and> room_id a = sr_id r \<and> room_id b = sr_id r
   | (Inl _, Inl _) \<Rightarrow> True | _ \<Rightarrow> False"
  by (auto simp: assemble_chat_room_def Let_def case_prod_beta split: option.split sum.split)

lemma heeds_room_created: "heeds rid (sr_id r) (send_room_created_event_if_needed env r)"
proof -
  let ?f = "assemble_chat_room (mv_media (xe_messages env)) (mv_manager (xe_messages env)) (xe_user_id env) r"
  let ?k = "\<lambda>q. case q of Inl _ \<Rightarrow> (\<lambda>st. st) | Inr proto \<Rightarrow> send_event (RoomCreatedEvent proto)"
  have heeds: "heeds rid (sr_id r) (?k (fst (?f fs)))" for fs
    using assembled_alike [where env = "mv_media (xe_messages env)" and mm = "mv_manager (xe_messages env)"
        and own = "xe_user_id env" and r = r and fs = fs and fs' = fs]
    by (cases "fst (?f fs)") (simp_all add: heeds_return heeds_send)
  have same: "same_room (sr_id r) (?k (fst (?f fs)) st) (?k (fst (?f fs')) st')"
    if "same_room (sr_id r) st st'" for fs fs' st st'
    using that assembled_alike [where env = "mv_media (xe_messages env)" and mm = "mv_manager (xe_messages env)"
        and own = "xe_user_id env" and r = r and fs = fs and fs' = fs']
    by (cases "fst (?f fs)"; cases "fst (?f fs')") (simp_all add: same_room_def)
  have files: "heeds rid (sr_id r) (\<lambda>st. case on_fs ?f st of (q, st) \<Rightarrow> ?k q st)"
    by (rule heeds_files) (auto intro: heeds same)
  have "send_room_created_event_if_needed env r =
      (\<lambda>st. if is_known_room (sr_id r) (ex_memory st) = Inr False
        then case on_fs ?f st of (q, st) \<Rightarrow> ?k q st else st)"
    by (rule ext) (auto simp: send_room_created_event_if_needed_def split: sum.split prod.split)
  then show ?thesis
    using heeds_if [OF _ files heeds_return, of "\<lambda>st. is_known_room (sr_id r) (ex_memory st) = Inr False"] same_reads(2)
    by simp
qed

lemma answers_own_membership: "answers_alike rid (sr_id r) (process_own_membership_change env r c)"
proof -
  have "process_own_membership_change env r c = (case mb_change c of
      ChLeft \<Rightarrow> \<lambda>st. (True, process_own_leave_change r c LeftByUser st)
    | ChKicked \<Rightarrow> \<lambda>st. (True, process_own_leave_change r c LeftKicked st)
    | ChBanned \<Rightarrow> \<lambda>st. (True, process_own_leave_change r c LeftBanned st)
    | ChKickedAndBanned \<Rightarrow> \<lambda>st. (True, process_own_leave_change r c LeftBanned st)
    | ChJoined \<Rightarrow> \<lambda>st. (True, send_room_created_event_if_needed env r st)
    | _ \<Rightarrow> \<lambda>st. (False, st))"
    by (rule ext) (simp add: process_own_membership_change_def split: membership_change_m.split)
  moreover have "heeds rid (sr_id r) (process_own_leave_change r c reason)" for reason
    unfolding process_own_leave_change_def [abs_def] by (rule heeds_send) simp
  ultimately show ?thesis
    using heeds_room_created by (simp add: answers_alike_def heeds_return split: membership_change_m.split)
qed

lemma heeds_general_member_change: "heeds rid (sr_id r) (exec_general_member_change r e c)"
  unfolding exec_general_member_change_def [abs_def] Let_def
  by (intro heeds_case heeds_return heeds_send heeds_comp [OF heeds_send heeds_send]) simp_all

text \<open>Changes of users are told, but not as something about a room.\<close>

definition quiet_about_rooms :: "(executor \<Rightarrow> executor) \<Rightarrow> bool" where
  "quiet_about_rooms h \<longleftrightarrow> (\<forall>rid st st'. same_room rid st st' \<longrightarrow> same_room rid (h st) st')"

lemma heeds_quiet: "quiet_about_rooms h \<Longrightarrow> heeds rid i h"
  unfolding quiet_about_rooms_def heeds_def by (metis same_room_sym)

lemma quiet_user_changes:
  "quiet_about_rooms (process_profile_change env e d a)" "quiet_about_rooms (exec_presence_event pe)"
  by (auto simp: quiet_about_rooms_def process_profile_change_def exec_presence_event_def Let_def on_fs_eq
      intro!: still_send still_fields split: option.split)

lemma heeds_room_member_event: "heeds rid (sr_id r) (exec_room_member_event env r e c)"
proof -
  let ?rest = "case mb_change c of ChProfileChanged d a \<Rightarrow> process_profile_change env e d a
      | _ \<Rightarrow> exec_general_member_change r e c"
  let ?k = "\<lambda>handled. if handled then (\<lambda>st. st) else ?rest"
  have rest: "heeds rid (sr_id r) ?rest"
    using heeds_general_member_change heeds_quiet [OF quiet_user_changes(1)]
    by (simp split: membership_change_m.split)
  have "exec_room_member_event env r e c =
      (if Some (mb_state_key c) = xe_user_id env
       then (\<lambda>st. case process_own_membership_change env r c st of (handled, st) \<Rightarrow> ?k handled st) else ?rest)"
    by (rule ext) (cases "mb_change c"; simp add: exec_room_member_event_def Let_def split: prod.split)
  moreover have "heeds rid (sr_id r)
      (\<lambda>st. case process_own_membership_change env r c st of (handled, st) \<Rightarrow> ?k handled st)"
    using rest by (intro heeds_bind answers_own_membership) (simp add: heeds_return)
  ultimately show ?thesis using rest by simp
qed

section \<open>The executor\<close>

lemma heeds_action:
  assumes "rooms_named env" "action_room act = Some i"
  shows "heeds rid i (exec_action env act)"
  using assms(2)
  by (cases act) (auto simp: heeds_queued_room_changes heeds_any_message_like_event heeds_redaction_event
      heeds_one_change heeds_room_member_event heeds_stripped_room_member_event heeds_avatar_event
      heeds_room_message_event heeds_power_levels_event heeds_reaction_event heeds_poll_events
      exec_fully_read_event_def [abs_def] exec_event_cache_generic_update_def [abs_def]
      heeds_unread_count heeds_unread_count_by_id [OF assms(1)] heeds_joined_room_update [OF assms(1)])

lemma action_of_other:
  assumes "rooms_named env" "action_room act \<noteq> Some rid" "same_room rid st st'"
  shows "same_room rid (exec_action env act st) st'"
proof (cases "action_room act")
  case None
  then obtain e where "act = PresenceAction e" by (cases act) auto
  with quiet_user_changes(2) [of e] assms(3) show ?thesis by (simp add: quiet_about_rooms_def)
next
  case (Some i)
  with heeds_action [OF assms(1) Some, of rid] assms(2,3) show ?thesis by (simp add: heeds_def)
qed

definition about_room :: "string \<Rightarrow> exec_env \<times> action \<Rightarrow> bool" where
  "about_room rid a \<longleftrightarrow> action_room (snd a) = Some rid"

interpretation isolated: isolated_parts "same_room rid" "\<lambda>a. exec_action (fst a) (snd a)"
  "\<lambda>a. rooms_named (fst a)" "about_room rid" for rid
proof
  fix st st' and a :: "exec_env \<times> action"
  assume "same_room rid st st'" "rooms_named (fst a)"
  then show "\<not> about_room rid a \<Longrightarrow> same_room rid (exec_action (fst a) (snd a) st) st'"
    and "about_room rid a \<Longrightarrow> same_room rid (exec_action (fst a) (snd a) st) (exec_action (fst a) (snd a) st')"
    using action_of_other heeds_action [of "fst a" "snd a" rid rid] by (auto simp: about_room_def heeds_def)
qed

lemma run_actions_fold: "run_actions acts st = fold (\<lambda>a. exec_action (fst a) (snd a)) acts st"
  by (induction acts st rule: run_actions.induct) simp_all

text \<open>
  Claim C7: The rooms do not disturb each other.  Whatever happens in other rooms, and however
  their events are interleaved with those of a room, the executor holds the same data of the
  room, has the same live changes queued for it and has told the application the same about it,
  in the same order, as if the events of that room had been the only ones; the paths of downloaded files apart.
\<close>

theorem rooms_do_not_interfere:
  assumes "\<And>env act. (env, act) \<in> set acts \<Longrightarrow> rooms_named env"
    and "st = run_actions acts (executor_new memory_cache_new fs)"
    and "alone = run_actions (filter (about_room rid) acts) (executor_new memory_cache_new fs)"
  shows "get_room rid (ex_memory st) = get_room rid (ex_memory alone) \<and>
    queue_of rid st = queue_of rid alone \<and> told rid st = told rid alone"
proof -
  have "same_room rid (executor_new memory_cache_new fs) (executor_new memory_cache_new fs)"
    by (rule same_room_refl) (simp_all add: executor_new_def queues_named_def queue_of_def)
  moreover have "\<forall>a \<in> set acts. rooms_named (fst a)" using assms(1) by auto
  ultimately have "same_room rid st alone"
    unfolding assms(2,3) run_actions_fold by (rule isolated.run_same)
  then show ?thesis by (simp add: same_room_def cell_def get_room_def lock_def)
qed

text \<open>Two rooms with unread messages: the first one's count is told, whatever the second one does.\<close>

theorem rooms_do_not_interfere_witness:
  "\<forall>env r fs. told ''!a'' (run_actions
       [(env\<lparr>xe_get_room := \<lambda>_. None\<rparr>, FullyReadAction (r\<lparr>sr_id := ''!a'', sr_num_unread := 3\<rparr>)),
        (env\<lparr>xe_get_room := \<lambda>_. None\<rparr>, FullyReadAction (r\<lparr>sr_id := ''!b'', sr_num_unread := 5\<rparr>))]
       (executor_new memory_cache_new fs)) = [RoomChangeEvent ''!a'' [ChUnread 3]]"
proof (intro allI)
  fix env :: exec_env and r :: sdk_room and fs
  let ?e = "env\<lparr>xe_get_room := \<lambda>_. None\<rparr>" and ?st = "executor_new memory_cache_new fs"
  let ?a = "(?e, FullyReadAction (r\<lparr>sr_id := ''!a'', sr_num_unread := 3\<rparr>))"
  let ?b = "(?e, FullyReadAction (r\<lparr>sr_id := ''!b'', sr_num_unread := 5\<rparr>))"
  have named: "rooms_named x" if "(x, act) \<in> set [?a, ?b]" for x act
    using that by (auto simp: rooms_named_def)
  have "told ''!a'' (run_actions [?a, ?b] ?st) = told ''!a'' (run_actions [?a] ?st)"
    using rooms_do_not_interfere [where acts = "[?a, ?b]" and fs = fs and rid = "''!a''", OF named refl refl]
    by (simp add: about_room_def)
  also have "\<dots> = [RoomChangeEvent ''!a'' [ChUnread 3]]"
    by (simp add: exec_fully_read_event_def update_room_unread_count_def Let_def saturating_u32_def
        mc_room_mark_as_read_ts_def get_room_def memory_cache_new_def lock_ok executor_new_def
        send_if_new_def is_new_room_change_def told_def)
  finally show "told ''!a'' (run_actions [?a, ?b] ?st) = [RoomChangeEvent ''!a'' [ChUnread 3]]" by simp
qed

end
