(* ===== verification/EventQueue.thy ===== *)
theory EventQueue
  imports Events
begin

text \<open>
  events.rs, the manager: the handlers registered with the SDK turn each event into an action and
  send it through a bounded channel to the executor.  A sender waits while the channel is full;
  the counter counts the actions sent and not yet received.  The steps of the queue are an
  inductive relation: offering an action, a waiting sender getting its slot (in any order), and
  the executor receiving the next action.  The manager holds a sender itself, so the channel is
  never closed.
\<close>

section \<open>The queue\<close>

record event_queue =
  eq_waiting :: "action list"
  eq_channel :: "action list"
  eq_counter :: u64
  eq_executor :: executor

definition event_channel_capacity :: nat where
  "event_channel_capacity = 100"

definition event_executor_lagging_warning :: u64 where
  "event_executor_lagging_warning = 50"

definition historical_event_timeout :: u64 where
  "historical_event_timeout = 5"

definition event_manager_new :: "executor \<Rightarrow> event_queue" where
  "event_manager_new ex = \<lparr>eq_waiting = [], eq_channel = [], eq_counter = 0, eq_executor = ex\<rparr>"

definition send_action :: "action \<Rightarrow> event_queue \<Rightarrow> event_queue" where
  "send_action act q =
     q\<lparr>eq_counter := eq_counter q + 1, eq_waiting := eq_waiting q @ [act]\<rparr>"

text \<open>The result says whether the executor lags behind.\<close>

definition update_queue_counter :: "event_queue \<Rightarrow> bool \<times> event_queue" where
  "update_queue_counter q =
     (let count = eq_counter q
      in (count > event_executor_lagging_warning, q\<lparr>eq_counter := count - 1\<rparr>))"

definition receive_action :: "exec_env \<Rightarrow> event_queue \<Rightarrow> event_queue" where
  "receive_action env q =
     (case eq_channel q of
        [] \<Rightarrow> q
      | act # acts \<Rightarrow>
          (let (_, q) = update_queue_counter (q\<lparr>eq_channel := acts\<rparr>)
           in q\<lparr>eq_executor := exec_action env act (eq_executor q)\<rparr>))"

section \<open>The handlers of the manager\<close>

definition saturating_sub :: "u64 \<Rightarrow> u64 \<Rightarrow> u64" where
  "saturating_sub a b = (if b \<le> a then a - b else 0)"

text \<open>The clock in seconds; the timestamp of the event in milliseconds.\<close>

definition is_historical_event :: "u64 \<Rightarrow> u64 \<Rightarrow> bool" where
  "is_historical_event now origin_server_ts \<longleftrightarrow>
     saturating_sub now (origin_server_ts div 1000) > historical_event_timeout"

definition skip_historical_event :: "u64 \<Rightarrow> u64 \<Rightarrow> action \<Rightarrow> event_queue \<Rightarrow> event_queue" where
  "skip_historical_event now ts act q =
     (if is_historical_event now ts then q else send_action act q)"

fun process_room_list_response :: "room list \<Rightarrow> event_queue \<Rightarrow> event_queue" where
  "process_room_list_response [] q = q"
| "process_room_list_response (r # rs) q =
     process_room_list_response rs (send_action (RoomDiscovered (room_id r)) q)"

fun process_response :: "response \<Rightarrow> event_queue \<Rightarrow> event_queue" where
  "process_response (RoomListResponse rooms) q = process_room_list_response rooms q"
| "process_response (RoomCreatedEvent r) q = send_action (RoomDiscovered (room_id r)) q"
| "process_response _ q = q"

definition process_any_sync_message_like_event :: "sdk_room \<Rightarrow> sync_event \<Rightarrow> event_queue \<Rightarrow> event_queue" where
  "process_any_sync_message_like_event r e = send_action (AnyMessageLikeAction r e)"

definition process_room_redaction_event ::
  "sdk_room \<Rightarrow> redaction_content \<Rightarrow> event_queue \<Rightarrow> event_queue" where
  "process_room_redaction_event r c = send_action (RoomRedactionAction r c)"

definition process_room_name_event ::
  "u64 \<Rightarrow> sdk_room \<Rightarrow> u64 \<Rightarrow> string \<Rightarrow> event_queue \<Rightarrow> event_queue" where
  "process_room_name_event now r ts name = skip_historical_event now ts (RoomNameAction r name)"

definition process_room_member_event ::
  "u64 \<Rightarrow> sdk_room \<Rightarrow> sync_event \<Rightarrow> member_content \<Rightarrow> event_queue \<Rightarrow> event_queue" where
  "process_room_member_event now r e c = skip_historical_event now (ev_ts e) (RoomMemberAction r e c)"

definition process_stripped_room_member_event ::
  "sdk_room \<Rightarrow> stripped_member \<Rightarrow> event_queue \<Rightarrow> event_queue" where
  "process_stripped_room_member_event r e = send_action (StrippedRoomMemberAction r e)"

definition process_room_join_rules_event ::
  "u64 \<Rightarrow> sdk_room \<Rightarrow> u64 \<Rightarrow> join_rule_m \<Rightarrow> event_queue \<Rightarrow> event_queue" where
  "process_room_join_rules_event now r ts rule = skip_historical_event now ts (RoomJoinRulesAction r rule)"

definition process_room_avatar_event :: "u64 \<Rightarrow> sdk_room \<Rightarrow> u64 \<Rightarrow> event_queue \<Rightarrow> event_queue" where
  "process_room_avatar_event now r ts = skip_historical_event now ts (RoomAvatarAction r)"

definition process_room_message_event ::
  "sdk_room \<Rightarrow> sync_event \<Rightarrow> room_message_content \<Rightarrow> event_queue \<Rightarrow> event_queue" where
  "process_room_message_event r e c = send_action (RoomMessageAction r e c)"

definition process_room_pinned_events_event ::
  "sdk_room \<Rightarrow> string list \<Rightarrow> event_queue \<Rightarrow> event_queue" where
  "process_room_pinned_events_event r ids = send_action (RoomPinnedEventsAction r ids)"

definition process_room_power_levels_event :: "sdk_room \<Rightarrow> event_queue \<Rightarrow> event_queue" where
  "process_room_power_levels_event r = send_action (RoomPowerLevelsAction r)"

definition process_live_reaction_event ::
  "sdk_room \<Rightarrow> sync_event \<Rightarrow> annotation \<Rightarrow> event_queue \<Rightarrow> event_queue" where
  "process_live_reaction_event r e a = send_action (ReactionAction r e a)"

definition process_presence_event :: "presence_event \<Rightarrow> event_queue \<Rightarrow> event_queue" where
  "process_presence_event e = send_action (PresenceAction e)"

definition process_tag_event :: "sdk_room \<Rightarrow> tag_name list \<Rightarrow> event_queue \<Rightarrow> event_queue" where
  "process_tag_event r tags = send_action (TagAction r tags)"

definition process_sync_receipt_event :: "sdk_room \<Rightarrow> event_queue \<Rightarrow> event_queue" where
  "process_sync_receipt_event r = send_action (SyncReceiptAction r)"

definition process_fully_read_event :: "sdk_room \<Rightarrow> event_queue \<Rightarrow> event_queue" where
  "process_fully_read_event r = send_action (FullyReadAction r)"

definition process_unstable_poll_start_event ::
  "sdk_room \<Rightarrow> sync_event \<Rightarrow> poll_start_content \<Rightarrow> event_queue \<Rightarrow> event_queue" where
  "process_unstable_poll_start_event r e c = send_action (UnstablePollStartAction r e c)"

definition process_unstable_poll_response_event ::
  "sdk_room \<Rightarrow> sync_event \<Rightarrow> poll_response_content \<Rightarrow> event_queue \<Rightarrow> event_queue" where
  "process_unstable_poll_response_event r e c = send_action (UnstablePollResponseAction r e c)"

definition process_unstable_poll_end_event :: "sdk_room \<Rightarrow> string \<Rightarrow> event_queue \<Rightarrow> event_queue" where
  "process_unstable_poll_end_event r poll_id = send_action (UnstablePollEndAction r poll_id)"

definition process_conference_state_event ::
  "sdk_room \<Rightarrow> string event_content \<Rightarrow> event_queue \<Rightarrow> event_queue" where
  "process_conference_state_event r e = send_action (ConferenceStateAction r e)"

definition process_joined_room_update :: "string \<Rightarrow> raw list \<Rightarrow> event_queue \<Rightarrow> event_queue" where
  "process_joined_room_update rid update = send_action (JoinedRoomUpdate rid update)"

text \<open>The subscriptions: the joined rooms of a batch of updates, and the generic updates.\<close>

fun room_updates :: "(string \<times> raw list) list \<Rightarrow> event_queue \<Rightarrow> event_queue" where
  "room_updates [] q = q"
| "room_updates ((rid, update) # us) q = room_updates us (process_joined_room_update rid update q)"

fun event_cache_updates :: "string list \<Rightarrow> event_queue \<Rightarrow> event_queue" where
  "event_cache_updates [] q = q"
| "event_cache_updates (rid # us) q = event_cache_updates us (send_action (EventCacheGenericUpdate rid) q)"

section \<open>Runs of the queue\<close>

text \<open>A run with the actions offered and the actions executed, each with what the SDK answered.\<close>

inductive queue_run ::
  "event_queue \<Rightarrow> action list \<Rightarrow> (exec_env \<times> action) list \<Rightarrow> event_queue \<Rightarrow> bool" where
  start: "queue_run q [] [] q"
| offer: "queue_run q offered executed q' \<Longrightarrow> queue_run q (offered @ [act]) executed (send_action act q')"
| slot: "queue_run q offered executed q' \<Longrightarrow> length (eq_channel q') < event_channel_capacity \<Longrightarrow>
    eq_waiting q' = before @ act # after \<Longrightarrow>
    queue_run q offered executed (q'\<lparr>eq_waiting := before @ after, eq_channel := eq_channel q' @ [act]\<rparr>)"
| execute: "queue_run q offered executed q' \<Longrightarrow> eq_channel q' = act # acts \<Longrightarrow>
    queue_run q offered (executed @ [(env, act)]) (receive_action env q')"

lemma receive_action_Cons:
  "eq_channel q = act # acts \<Longrightarrow> receive_action env q =
    q\<lparr>eq_channel := acts, eq_counter := eq_counter q - 1,
      eq_executor := exec_action env act (eq_executor q)\<rparr>"
  by (simp add: receive_action_def update_queue_counter_def Let_def)

lemma run_actions_append: "run_actions (xs @ ys) st = run_actions ys (run_actions xs st)"
  by (induction xs st rule: run_actions.induct) simp_all

definition queue_inv :: "executor \<Rightarrow> action list \<Rightarrow> (exec_env \<times> action) list \<Rightarrow> event_queue \<Rightarrow> bool" where
  "queue_inv ex offered executed q \<longleftrightarrow>
     length (eq_channel q) \<le> event_channel_capacity \<and>
     eq_counter q = of_nat (length (eq_waiting q) + length (eq_channel q)) \<and>
     mset offered = mset (map snd executed) + mset (eq_channel q) + mset (eq_waiting q) \<and>
     eq_executor q = run_actions executed ex"

lemma queue_run_inv:
  assumes "queue_run q0 offered executed q" "q0 = event_manager_new ex"
  shows "queue_inv ex offered executed q"
  using assms
proof (induction rule: queue_run.induct)
  case (start q)
  then show ?case by (simp add: queue_inv_def event_manager_new_def)
next
  case (offer q offered executed q' act)
  then show ?case by (simp add: queue_inv_def send_action_def)
next
  case (slot q offered executed q' before act after)
  then show ?case by (simp add: queue_inv_def)
next
  case (execute q offered executed q' act acts env)
  then show ?case
    by (simp add: queue_inv_def receive_action_Cons run_actions_append)
qed

text \<open>
  Claim C38: Whatever events arrive and however the senders are scheduled, the channel never holds
  more than its hundred actions, the counter is exactly the number of actions sent and not yet
  received (it never wraps below zero), no action is lost or executed twice, and the executor is
  in the state that the executed actions lead to.
\<close>

theorem event_queue_loses_nothing:
  assumes "queue_run (event_manager_new ex) offered executed q"
  shows "length (eq_channel q) \<le> 100 \<and>
    eq_counter q = of_nat (length offered - length executed) \<and>
    length executed \<le> length offered \<and>
    mset offered = mset (map snd executed) + mset (eq_channel q) + mset (eq_waiting q) \<and>
    eq_executor q = run_actions executed ex"
proof -
  have inv: "queue_inv ex offered executed q" by (rule queue_run_inv [OF assms refl])
  then have "mset offered = mset (map snd executed @ eq_channel q @ eq_waiting q)"
    by (simp add: queue_inv_def)
  then have "length offered = length (map snd executed @ eq_channel q @ eq_waiting q)"
    by (rule mset_eq_length)
  with inv show ?thesis
    by (simp add: queue_inv_def event_channel_capacity_def add.commute)
qed

theorem event_queue_loses_nothing_witness:
  "\<forall>env ex. let q = receive_action env ((send_action (RoomDiscovered ''!r'') (event_manager_new ex))
       \<lparr>eq_waiting := [], eq_channel := [RoomDiscovered ''!r'']\<rparr>)
     in eq_counter q = 0 \<and> eq_executor q = exec_action env (RoomDiscovered ''!r'') ex"
proof (intro allI)
  fix env ex
  let ?q = "(send_action (RoomDiscovered ''!r'') (event_manager_new ex))
       \<lparr>eq_waiting := [], eq_channel := [RoomDiscovered ''!r'']\<rparr>"
  have "queue_run (event_manager_new ex) ([] @ [RoomDiscovered ''!r'']) [] ?q"
    using queue_run.slot [OF queue_run.offer [OF queue_run.start], where act = "RoomDiscovered ''!r''"
        and act1 = "RoomDiscovered ''!r''" and before = "[]" and after = "[]" and q = "event_manager_new ex"]
    by (simp add: send_action_def event_manager_new_def event_channel_capacity_def)
  then have "queue_run (event_manager_new ex) ([] @ [RoomDiscovered ''!r''])
      ([] @ [(env, RoomDiscovered ''!r'')]) (receive_action env ?q)"
    by (rule queue_run.execute) simp
  from event_queue_loses_nothing [OF this]
  show "let q = receive_action env ?q
     in eq_counter q = 0 \<and> eq_executor q = exec_action env (RoomDiscovered ''!r'') ex"
    by (simp add: Let_def)
qed

section \<open>Historical events\<close>

text \<open>
  Claim C40: A change of a room's name, members, join rules or avatar is passed on exactly when it is
  not older than five seconds: an event is ignored if and only if its timestamp lies before the
  start of the fifth second before the current one, and an event from the future never is.
\<close>

theorem historical_events_bound:
  "process_room_name_event now r ts name q =
     (if unat ts < (unat now - 5) * 1000 then q else send_action (RoomNameAction r name) q) \<and>
   process_room_member_event now r (e\<lparr>ev_ts := ts\<rparr>) c q =
     (if unat ts < (unat now - 5) * 1000 then q
      else send_action (RoomMemberAction r (e\<lparr>ev_ts := ts\<rparr>) c) q) \<and>
   process_room_join_rules_event now r ts rule q =
     (if unat ts < (unat now - 5) * 1000 then q else send_action (RoomJoinRulesAction r rule) q) \<and>
   process_room_avatar_event now r ts q =
     (if unat ts < (unat now - 5) * 1000 then q else send_action (RoomAvatarAction r) q)"
proof -
  have s: "unat (ts div 1000) = unat ts div 1000" by (simp add: unat_div)
  have "is_historical_event now ts \<longleftrightarrow> unat now - unat (ts div 1000) > 5"
    by (auto simp: is_historical_event_def saturating_sub_def historical_event_timeout_def
        word_less_nat_alt word_le_nat_alt unat_sub)
  also have "\<dots> \<longleftrightarrow> unat ts < (unat now - 5) * 1000" unfolding s by (auto simp: less_diff_conv div_less_iff_less_mult)
  finally have h: "is_historical_event now ts \<longleftrightarrow> unat ts < (unat now - 5) * 1000" .
  show ?thesis
    by (simp add: process_room_name_event_def process_room_member_event_def h
        process_room_join_rules_event_def process_room_avatar_event_def skip_historical_event_def)
qed

end
