(* ===== verification/EventFeedback.thy ===== *)
theory EventFeedback
  imports EventProperties EventQueue
begin

text \<open>
  events.rs and client.rs, the loop through the application: every event that goes to the
  application comes back through \<open>on_response\<close> (client.rs), where the manager looks at it: a room that has
  been created or listed gives a \<open>RoomDiscovered\<close> action for the executor, which may send events
  in turn.  The state is the queue of the manager with the events in transit, those that have been sent
  and have not been through \<open>on_response\<close>.  The program that takes the events and calls
  \<open>on_response\<close> is not part of the repository; the steps let it call \<open>on_response\<close> for each event once,
  in any order, beside the executor.  Were it to call it from within the executor's own
  sending of an event, the executor could wait for room in the channel that only it empties; the
  steps leave this out.
\<close>

section \<open>The loop\<close>

record event_loop =
  lp_queue :: event_queue
  lp_transit :: "response list"

definition event_loop_new :: "executor \<Rightarrow> event_loop" where
  "event_loop_new ex = \<lparr>lp_queue = event_manager_new ex, lp_transit = []\<rparr>"

text \<open>A turn of the executor, the events it sends in transit; a handler, or a response to a request.\<close>

definition loop_receive :: "exec_env \<Rightarrow> event_loop \<Rightarrow> event_loop" where
  "loop_receive env l =
     (let q = receive_action env (lp_queue l);
          new = drop (length (ex_sent (eq_executor (lp_queue l)))) (ex_sent (eq_executor q))
      in \<lparr>lp_queue = q, lp_transit = lp_transit l @ new\<rparr>)"

definition loop_send :: "action \<Rightarrow> event_loop \<Rightarrow> event_loop" where
  "loop_send act l = l\<lparr>lp_queue := send_action act (lp_queue l)\<rparr>"

definition loop_answer :: "response \<Rightarrow> event_loop \<Rightarrow> event_loop" where
  "loop_answer e l = l\<lparr>lp_transit := lp_transit l @ [e]\<rparr>"

text \<open>An event in transit reaches \<open>on_response\<close>; a waiting sender gets a slot in the channel.\<close>

definition loop_respond :: "response list \<Rightarrow> response \<Rightarrow> response list \<Rightarrow> event_loop \<Rightarrow> event_loop" where
  "loop_respond before e after l =
     \<lparr>lp_queue = process_response e (lp_queue l), lp_transit = before @ after\<rparr>"

definition loop_slot :: "action list \<Rightarrow> action \<Rightarrow> action list \<Rightarrow> event_loop \<Rightarrow> event_loop" where
  "loop_slot before act after l =
     l\<lparr>lp_queue := (lp_queue l)\<lparr>eq_waiting := before @ after, eq_channel := eq_channel (lp_queue l) @ [act]\<rparr>\<rparr>"

text \<open>The steps the program takes by itself, with the action that is executed.\<close>

inductive loop_step :: "event_loop \<Rightarrow> (exec_env \<times> action) list \<Rightarrow> event_loop \<Rightarrow> bool" where
  slot: "length (eq_channel (lp_queue l)) < event_channel_capacity \<Longrightarrow>
    eq_waiting (lp_queue l) = before @ act # after \<Longrightarrow> loop_step l [] (loop_slot before act after l)"
| execute: "eq_channel (lp_queue l) = act # acts \<Longrightarrow> loop_step l [(env, act)] (loop_receive env l)"
| respond: "lp_transit l = before @ e # after \<Longrightarrow> loop_step l [] (loop_respond before e after l)"

inductive_cases loop_stepE: "loop_step l acts l'"

text \<open>
  A run, with the actions that the handlers have sent, the responses that are not the executor's, and
  the actions executed.
\<close>

inductive loop_run ::
  "event_loop \<Rightarrow> action list \<Rightarrow> response list \<Rightarrow> (exec_env \<times> action) list \<Rightarrow> event_loop \<Rightarrow> bool" where
  start: "loop_run l [] [] [] l"
| offer: "loop_run l0 offered others executed l \<Longrightarrow> loop_run l0 (offered @ [act]) others executed (loop_send act l)"
| answer: "loop_run l0 offered others executed l \<Longrightarrow> loop_run l0 offered (others @ [e]) executed (loop_answer e l)"
| step: "loop_run l0 offered others executed l \<Longrightarrow> loop_step l acts l' \<Longrightarrow>
    loop_run l0 offered others (executed @ acts) l'"

definition idle :: "event_loop \<Rightarrow> bool" where
  "idle l \<longleftrightarrow> eq_waiting (lp_queue l) = [] \<and> eq_channel (lp_queue l) = [] \<and> lp_transit l = []"

section \<open>Discoveries\<close>

text \<open>The actions that an event gives when it reaches \<open>on_response\<close>.\<close>

fun discoveries :: "response \<Rightarrow> action list" where
  "discoveries (RoomListResponse rooms) = map (\<lambda>r. RoomDiscovered (room_id r)) rooms"
| "discoveries (RoomCreatedEvent r) = [RoomDiscovered (room_id r)]"
| "discoveries _ = []"

definition all_discoveries :: "response list \<Rightarrow> action list" where
  "all_discoveries es = concat (map discoveries es)"

lemma all_discoveries_simps [simp]:
  "all_discoveries [] = []" "all_discoveries (e # es) = discoveries e @ all_discoveries es"
  "all_discoveries (es @ es') = all_discoveries es @ all_discoveries es'"
  by (simp_all add: all_discoveries_def)

fun is_discovery :: "action \<Rightarrow> bool" where
  "is_discovery (RoomDiscovered _) = True"
| "is_discovery _ = False"

lemma discoveries_are: "list_all is_discovery (discoveries e)"
  by (cases e) (simp_all add: list_all_iff)

lemma filter_discoveries [simp]: "filter (\<lambda>a. \<not> is_discovery a) (discoveries e) = []"
  using discoveries_are [of e] by (auto simp: list_all_iff filter_empty_conv)

lemma process_room_list_response_eq:
  "process_room_list_response rooms q = q\<lparr>eq_waiting := eq_waiting q @ map (\<lambda>r. RoomDiscovered (room_id r)) rooms,
     eq_counter := eq_counter q + of_nat (length rooms)\<rparr>"
  by (induction rooms q rule: process_room_list_response.induct) (simp_all add: send_action_def add.assoc)

lemma process_response_eq:
  "process_response e q = q\<lparr>eq_waiting := eq_waiting q @ discoveries e,
     eq_counter := eq_counter q + of_nat (length (discoveries e))\<rparr>"
  by (cases e) (simp_all add: process_room_list_response_eq send_action_def)

text \<open>What the executor has sent since it started; a discovery sends no discovery.\<close>

definition sent_since :: "executor \<Rightarrow> executor \<Rightarrow> response list" where
  "sent_since ex ex' = drop (length (ex_sent ex)) (ex_sent ex')"

lemma sent_since_trans:
  assumes "prefix (ex_sent ex) (ex_sent ex')" "prefix (ex_sent ex') (ex_sent ex'')"
  shows "sent_since ex ex'' = sent_since ex ex' @ sent_since ex' ex''"
  using assms by (auto simp: sent_since_def prefix_def)

lemma sent_since_run_action:
  "sent_since ex (exec_action env act (run_actions xs ex)) =
     sent_since ex (run_actions xs ex) @ sent_since (run_actions xs ex) (exec_action env act (run_actions xs ex))"
  by (rule sent_since_trans [OF log.run_actions_R log.exec_action_R])

lemma all_discoveries_changes: "all_discoveries (map send_of cs) = []"
  by (induction cs) (simp_all add: send_of_def)

lemma discovery_discovers_nothing:
  "is_discovery act \<Longrightarrow> all_discoveries (sent_since ex (exec_action env act ex)) = []"
  by (cases act) (simp_all add: sent_since_def discovery_sends_queue all_discoveries_changes)

lemma loop_receive_eq:
  assumes "eq_channel (lp_queue l) = act # acts"
  shows "loop_receive env l = (let q = lp_queue l; ex = exec_action env act (eq_executor q)
    in \<lparr>lp_queue = q\<lparr>eq_channel := acts, eq_counter := eq_counter q - 1, eq_executor := ex\<rparr>,
        lp_transit = lp_transit l @ sent_since (eq_executor q) ex\<rparr>)"
  by (simp add: loop_receive_def receive_action_Cons [OF assms] Let_def sent_since_def)

section \<open>The loop ends\<close>

text \<open>
  The variant: actions other than discoveries, which only handlers send; all actions with
  those that the events in transit give; the events in transit; the waiting senders.
\<close>

definition loop_variant :: "event_loop \<Rightarrow> nat list" where
  "loop_variant l =
     (let q = lp_queue l
      in [length (filter (\<lambda>a. \<not> is_discovery a) (eq_waiting q @ eq_channel q)),
          length (eq_waiting q @ eq_channel q @ all_discoveries (lp_transit l)),
          length (lp_transit l), length (eq_waiting q)])"

definition smaller_variant :: "(event_loop \<times> event_loop) set" where
  "smaller_variant = measures (map (\<lambda>i l. loop_variant l ! i) [0, 1, 2, 3])"

lemma loop_step_variant:
  assumes "loop_step l acts l'"
  shows "(l', l) \<in> smaller_variant"
  using assms
proof cases
  case (slot before act after)
  then show ?thesis by (simp add: smaller_variant_def loop_variant_def loop_slot_def Let_def)
next
  case (execute act as env)
  then show ?thesis
    using discovery_discovers_nothing [of act "eq_executor (lp_queue l)" env]
    by (simp add: smaller_variant_def loop_variant_def loop_receive_eq Let_def)
next
  case (respond before e after)
  then show ?thesis
    by (simp add: smaller_variant_def loop_variant_def loop_respond_def process_response_eq Let_def)
qed

lemma loop_step_wfp: "wfp (\<lambda>l' l. \<exists>acts. loop_step l acts l')"
proof -
  have "wf smaller_variant" by (simp add: smaller_variant_def)
  moreover have "{(l', l). \<exists>acts. loop_step l acts l'} \<subseteq> smaller_variant" using loop_step_variant by blast
  ultimately show ?thesis unfolding wfp_def by (rule wf_subset)
qed

lemma loop_step_possible: "(\<exists>acts l'. loop_step l acts l') \<longleftrightarrow> \<not> idle l"
proof
  assume "\<exists>acts l'. loop_step l acts l'"
  then show "\<not> idle l" by (auto simp: idle_def elim: loop_stepE)
next
  assume busy: "\<not> idle l"
  show "\<exists>acts l'. loop_step l acts l'"
  proof (cases "eq_channel (lp_queue l)")
    case (Cons act as)
    then show ?thesis using loop_step.execute by blast
  next
    case empty: Nil
    show ?thesis
    proof (cases "lp_transit l")
      case (Cons e es)
      then show ?thesis using loop_step.respond [of l "[]" e es] by auto
    next
      case Nil
      with busy empty obtain act as where "eq_waiting (lp_queue l) = [] @ act # as"
        by (cases "eq_waiting (lp_queue l)") (auto simp: idle_def)
      with empty show ?thesis using loop_step.slot [of l "[]" act as] by (auto simp: event_channel_capacity_def)
    qed
  qed
qed

lemma slot_possible:
  "(\<exists>before act after. loop_step l [] (loop_slot before act after l) \<and>
      eq_waiting (lp_queue l) = before @ act # after) \<longleftrightarrow>
   eq_waiting (lp_queue l) \<noteq> [] \<and> length (eq_channel (lp_queue l)) < 100"
proof
  assume "\<exists>before act after. loop_step l [] (loop_slot before act after l) \<and>
      eq_waiting (lp_queue l) = before @ act # after"
  then obtain before act after where w: "eq_waiting (lp_queue l) = before @ act # after"
    and s: "loop_step l [] (loop_slot before act after l)" by blast
  from s have "length (eq_channel (lp_queue l)) < 100"
    by cases (auto simp: event_channel_capacity_def loop_respond_def loop_slot_def dest: arg_cong [of _ _ "length \<circ> lp_transit"])
  with w show "eq_waiting (lp_queue l) \<noteq> [] \<and> length (eq_channel (lp_queue l)) < 100" by simp
next
  assume w: "eq_waiting (lp_queue l) \<noteq> [] \<and> length (eq_channel (lp_queue l)) < 100"
  then obtain act as where "eq_waiting (lp_queue l) = [] @ act # as" by (cases "eq_waiting (lp_queue l)") auto
  with loop_step.slot [OF _ this] w show "\<exists>before act after. loop_step l [] (loop_slot before act after l) \<and>
      eq_waiting (lp_queue l) = before @ act # after"
    unfolding event_channel_capacity_def by blast
qed

lemma loop_run_ends: "loop_run l0 offered others executed l \<Longrightarrow>
  \<exists>more l'. loop_run l0 offered others (executed @ more) l' \<and> idle l'"
proof (induction l arbitrary: executed rule: wf_induct [of smaller_variant])
  case 1
  show ?case by (simp add: smaller_variant_def)
next
  case (2 l)
  show ?case
  proof (cases "idle l")
    case True
    with 2 show ?thesis by (intro exI [of _ "[]"]) auto
  next
    case False
    then obtain acts l1 where s: "loop_step l acts l1" using loop_step_possible by blast
    with 2 loop_step_variant loop_run.step [OF 2(2) s]
    obtain more l' where "loop_run l0 offered others ((executed @ acts) @ more) l'" "idle l'" by blast
    then show ?thesis by (intro exI [of _ "acts @ more"] exI [of _ l']) simp
  qed
qed

text \<open>Two stretches of a run: a waiting action through the channel, and an event through \<open>on_response\<close>.\<close>

lemma loop_turn:
  assumes "loop_run l0 offered others executed l"
    and "eq_waiting (lp_queue l) = act # rest" "eq_channel (lp_queue l) = []"
  obtains l' where "loop_run l0 offered others (executed @ [(env, act)]) l'"
    "eq_waiting (lp_queue l') = rest" "eq_channel (lp_queue l') = []"
    "eq_executor (lp_queue l') = exec_action env act (eq_executor (lp_queue l))"
    "lp_transit l' = lp_transit l @ sent_since (eq_executor (lp_queue l)) (exec_action env act (eq_executor (lp_queue l)))"
proof -
  let ?l = "loop_slot [] act rest l"
  have c: "eq_channel (lp_queue ?l) = [act]" and v: "eq_waiting (lp_queue ?l) = rest"
    "eq_executor (lp_queue ?l) = eq_executor (lp_queue l)" "lp_transit ?l = lp_transit l"
    by (simp_all add: loop_slot_def assms(3))
  have "loop_step l [] ?l" by (rule loop_step.slot) (simp_all add: assms event_channel_capacity_def)
  from loop_run.step [OF loop_run.step [OF assms(1) this] loop_step.execute [OF c]]
  show ?thesis
    by (intro that [of "loop_receive env ?l"]) (simp_all add: loop_receive_eq [OF c] Let_def v)
qed

lemma loop_back:
  assumes "loop_run l0 offered others executed l" and "lp_transit l = e # es"
  obtains l' where "loop_run l0 offered others executed l'" "lp_transit l' = es"
    "eq_waiting (lp_queue l') = eq_waiting (lp_queue l) @ discoveries e"
    "eq_channel (lp_queue l') = eq_channel (lp_queue l)" "eq_executor (lp_queue l') = eq_executor (lp_queue l)"
proof -
  have "loop_step l [] (loop_respond [] e es l)" by (rule loop_step.respond) (simp add: assms(2))
  from loop_run.step [OF assms(1) this] show ?thesis
    by (intro that [of "loop_respond [] e es l"]) (simp_all add: loop_respond_def process_response_eq)
qed

section \<open>What a run keeps\<close>

definition loop_inv ::
  "executor \<Rightarrow> action list \<Rightarrow> response list \<Rightarrow> (exec_env \<times> action) list \<Rightarrow> event_loop \<Rightarrow> bool" where
  "loop_inv ex offered others executed l \<longleftrightarrow>
     (let q = lp_queue l
      in length (eq_channel q) \<le> event_channel_capacity \<and>
         eq_counter q = of_nat (length (eq_waiting q) + length (eq_channel q)) \<and>
         eq_executor q = run_actions executed ex \<and>
         mset offered + mset (all_discoveries others) + mset (all_discoveries (sent_since ex (run_actions executed ex))) =
           mset (map snd executed) + mset (eq_channel q) + mset (eq_waiting q) + mset (all_discoveries (lp_transit l)))"

lemma loop_step_inv:
  assumes "loop_step l acts l'" "loop_inv ex offered others executed l"
  shows "loop_inv ex offered others (executed @ acts) l'"
  using assms
proof cases
  case (slot before act after)
  with assms(2) show ?thesis by (simp add: loop_inv_def loop_slot_def Let_def ac_simps)
next
  case (execute act as env)
  with assms(2) show ?thesis
    by (simp add: loop_inv_def loop_receive_eq Let_def run_actions_append sent_since_run_action ac_simps)
next
  case (respond before e after)
  with assms(2) show ?thesis
    by (simp add: loop_inv_def loop_respond_def process_response_eq Let_def ac_simps)
qed

lemma loop_run_inv:
  assumes "loop_run l0 offered others executed l" "l0 = event_loop_new ex"
  shows "loop_inv ex offered others executed l"
  using assms
proof (induction rule: loop_run.induct)
  case (start l)
  then show ?case by (simp add: loop_inv_def event_loop_new_def event_manager_new_def sent_since_def)
next
  case (offer l0 offered others executed l act)
  then show ?case by (simp add: loop_inv_def loop_send_def send_action_def Let_def ac_simps)
next
  case (answer l0 offered others executed l e)
  then show ?case by (simp add: loop_inv_def loop_answer_def Let_def ac_simps)
next
  case (step l0 offered others executed l acts l')
  then show ?case by (blast intro: loop_step_inv)
qed



end
