(* ===== verification/EventDispatch.thy ===== *)
theory EventDispatch
  imports EventQueue
begin

text \<open>
  events.rs, the handlers registered with the SDK: for each event that it receives the SDK calls
  the handlers registered for the event's type, each of which passes it to the manager.  An event
  of the timeline that is like a message has several types: any such event, and the type of its
  own content while that is not redacted.
\<close>

text \<open>The events of the SDK, each with what the handlers for it read.\<close>

datatype sdk_event =
  MessageLikeReceived sdk_room sync_event
| NameReceived sdk_room u64 string
| MemberReceived sdk_room sync_event member_content
| StrippedMemberReceived sdk_room stripped_member
| JoinRulesReceived sdk_room u64 join_rule_m
| AvatarReceived sdk_room u64
| PinnedEventsReceived sdk_room "string list"
| PowerLevelsReceived sdk_room
| PresenceReceived presence_event
| TagReceived sdk_room "tag_name list"
| ReceiptReceived sdk_room
| FullyReadReceived sdk_room
| ConferenceStateReceived sdk_room "string event_content"

datatype event_handler =
  AnyMessageLikeEventHandler
| RoomRedactionEventHandler
| RoomNameEventHandler
| RoomMemberEventHandler
| StrippedRoomMemberEventHandler
| RoomJoinRulesEventHandler
| RoomAvatarEventHandler
| RoomMessageEventHandler
| RoomPinnedEventsEventHandler
| RoomPowerLevelsEventHandler
| ReactionEventHandler
| PresenceEventHandler
| TagEventHandler
| SyncReceiptEventHandler
| FullyReadEventHandler
| UnstablePollStartEventHandler
| UnstablePollResponseEventHandler
| UnstablePollEndEventHandler
| ConferenceStateEventHandler

text \<open>\<open>setup_event_handlers\<close>, in the order of the registrations.\<close>

definition registered_handlers :: "event_handler list" where
  "registered_handlers =
     [AnyMessageLikeEventHandler, RoomRedactionEventHandler, RoomNameEventHandler,
      RoomMemberEventHandler, StrippedRoomMemberEventHandler, RoomJoinRulesEventHandler,
      RoomAvatarEventHandler, RoomMessageEventHandler, RoomPinnedEventsEventHandler,
      RoomPowerLevelsEventHandler, ReactionEventHandler, PresenceEventHandler, TagEventHandler,
      SyncReceiptEventHandler, FullyReadEventHandler, UnstablePollStartEventHandler,
      UnstablePollResponseEventHandler, UnstablePollEndEventHandler, ConferenceStateEventHandler]"

text \<open>
  The type of the event and the processor of each handler, as the macros are given them; a handler
  is not called for an event of another type.
\<close>

definition run_event_handler :: "u64 \<Rightarrow> event_handler \<Rightarrow> sdk_event \<Rightarrow> event_queue \<Rightarrow> event_queue" where
  "run_event_handler now h ev q =
     (case h of
        AnyMessageLikeEventHandler \<Rightarrow>
          (case ev of MessageLikeReceived r e \<Rightarrow> process_any_sync_message_like_event r e q | _ \<Rightarrow> q)
      | RoomRedactionEventHandler \<Rightarrow>
          (case ev of MessageLikeReceived r e \<Rightarrow>
            (case ev_body e of MessageLike (RoomRedaction (Original c)) \<Rightarrow> process_room_redaction_event r c q | _ \<Rightarrow> q) | _ \<Rightarrow> q)
      | RoomNameEventHandler \<Rightarrow>
          (case ev of NameReceived r ts name \<Rightarrow> process_room_name_event now r ts name q | _ \<Rightarrow> q)
      | RoomMemberEventHandler \<Rightarrow>
          (case ev of MemberReceived r e c \<Rightarrow> process_room_member_event now r e c q | _ \<Rightarrow> q)
      | StrippedRoomMemberEventHandler \<Rightarrow>
          (case ev of StrippedMemberReceived r e \<Rightarrow> process_stripped_room_member_event r e q | _ \<Rightarrow> q)
      | RoomJoinRulesEventHandler \<Rightarrow>
          (case ev of JoinRulesReceived r ts rule \<Rightarrow> process_room_join_rules_event now r ts rule q | _ \<Rightarrow> q)
      | RoomAvatarEventHandler \<Rightarrow>
          (case ev of AvatarReceived r ts \<Rightarrow> process_room_avatar_event now r ts q | _ \<Rightarrow> q)
      | RoomMessageEventHandler \<Rightarrow>
          (case ev of MessageLikeReceived r e \<Rightarrow>
            (case ev_body e of MessageLike (RoomMessage (Original c)) \<Rightarrow> process_room_message_event r e c q | _ \<Rightarrow> q) | _ \<Rightarrow> q)
      | RoomPinnedEventsEventHandler \<Rightarrow>
          (case ev of PinnedEventsReceived r ids \<Rightarrow> process_room_pinned_events_event r ids q | _ \<Rightarrow> q)
      | RoomPowerLevelsEventHandler \<Rightarrow>
          (case ev of PowerLevelsReceived r \<Rightarrow> process_room_power_levels_event r q | _ \<Rightarrow> q)
      | ReactionEventHandler \<Rightarrow>
          (case ev of MessageLikeReceived r e \<Rightarrow>
            (case ev_body e of MessageLike (ReactionEvent (Original a)) \<Rightarrow> process_live_reaction_event r e a q | _ \<Rightarrow> q) | _ \<Rightarrow> q)
      | PresenceEventHandler \<Rightarrow>
          (case ev of PresenceReceived e \<Rightarrow> process_presence_event e q | _ \<Rightarrow> q)
      | TagEventHandler \<Rightarrow>
          (case ev of TagReceived r tags \<Rightarrow> process_tag_event r tags q | _ \<Rightarrow> q)
      | SyncReceiptEventHandler \<Rightarrow>
          (case ev of ReceiptReceived r \<Rightarrow> process_sync_receipt_event r q | _ \<Rightarrow> q)
      | FullyReadEventHandler \<Rightarrow>
          (case ev of FullyReadReceived r \<Rightarrow> process_fully_read_event r q | _ \<Rightarrow> q)
      | UnstablePollStartEventHandler \<Rightarrow>
          (case ev of MessageLikeReceived r e \<Rightarrow>
            (case ev_body e of MessageLike (UnstablePollStart (Original c)) \<Rightarrow> process_unstable_poll_start_event r e c q | _ \<Rightarrow> q) | _ \<Rightarrow> q)
      | UnstablePollResponseEventHandler \<Rightarrow>
          (case ev of MessageLikeReceived r e \<Rightarrow>
            (case ev_body e of MessageLike (UnstablePollResponse (Original c)) \<Rightarrow> process_unstable_poll_response_event r e c q | _ \<Rightarrow> q) | _ \<Rightarrow> q)
      | UnstablePollEndEventHandler \<Rightarrow>
          (case ev of MessageLikeReceived r e \<Rightarrow>
            (case ev_body e of MessageLike (UnstablePollEnd (Original i)) \<Rightarrow> process_unstable_poll_end_event r i q | _ \<Rightarrow> q) | _ \<Rightarrow> q)
      | ConferenceStateEventHandler \<Rightarrow>
          (case ev of ConferenceStateReceived r e \<Rightarrow> process_conference_state_event r e q | _ \<Rightarrow> q))"

text \<open>The SDK calls the handlers for an event in the order of their registration.\<close>

definition handle_sdk_event :: "u64 \<Rightarrow> sdk_event \<Rightarrow> event_queue \<Rightarrow> event_queue" where
  "handle_sdk_event now e = fold (\<lambda>h. run_event_handler now h e) registered_handlers"

section \<open>The actions of an event\<close>

fun message_like_actions :: "sdk_room \<Rightarrow> sync_event \<Rightarrow> message_like \<Rightarrow> action list" where
  "message_like_actions r e (RoomMessage (Original c)) = [RoomMessageAction r e c]"
| "message_like_actions r e (RoomRedaction (Original c)) = [RoomRedactionAction r c]"
| "message_like_actions r e (ReactionEvent (Original a)) = [ReactionAction r e a]"
| "message_like_actions r e (UnstablePollStart (Original c)) = [UnstablePollStartAction r e c]"
| "message_like_actions r e (UnstablePollResponse (Original c)) = [UnstablePollResponseAction r e c]"
| "message_like_actions r e (UnstablePollEnd (Original i)) = [UnstablePollEndAction r i]"
| "message_like_actions r e _ = []"

text \<open>The direct description: what is offered to the executor for an event, old events of the state aside.\<close>

fun actions_of :: "u64 \<Rightarrow> sdk_event \<Rightarrow> action list" where
  "actions_of now (MessageLikeReceived r e) =
     AnyMessageLikeAction r e # (case ev_body e of MessageLike m \<Rightarrow> message_like_actions r e m | State _ \<Rightarrow> [])"
| "actions_of now (NameReceived r ts name) = (if is_historical_event now ts then [] else [RoomNameAction r name])"
| "actions_of now (MemberReceived r e c) =
     (if is_historical_event now (ev_ts e) then [] else [RoomMemberAction r e c])"
| "actions_of now (StrippedMemberReceived r e) = [StrippedRoomMemberAction r e]"
| "actions_of now (JoinRulesReceived r ts rule) =
     (if is_historical_event now ts then [] else [RoomJoinRulesAction r rule])"
| "actions_of now (AvatarReceived r ts) = (if is_historical_event now ts then [] else [RoomAvatarAction r])"
| "actions_of now (PinnedEventsReceived r ids) = [RoomPinnedEventsAction r ids]"
| "actions_of now (PowerLevelsReceived r) = [RoomPowerLevelsAction r]"
| "actions_of now (PresenceReceived e) = [PresenceAction e]"
| "actions_of now (TagReceived r tags) = [TagAction r tags]"
| "actions_of now (ReceiptReceived r) = [SyncReceiptAction r]"
| "actions_of now (FullyReadReceived r) = [FullyReadAction r]"
| "actions_of now (ConferenceStateReceived r e) = [ConferenceStateAction r e]"

lemmas processor_defs = process_any_sync_message_like_event_def process_room_redaction_event_def
  process_room_name_event_def process_room_member_event_def process_stripped_room_member_event_def
  process_room_join_rules_event_def process_room_avatar_event_def process_room_message_event_def
  process_room_pinned_events_event_def process_room_power_levels_event_def process_live_reaction_event_def
  process_presence_event_def process_tag_event_def process_sync_receipt_event_def process_fully_read_event_def
  process_unstable_poll_start_event_def process_unstable_poll_response_event_def
  process_unstable_poll_end_event_def process_conference_state_event_def skip_historical_event_def

text \<open>The handlers of other types; keeping them apart keeps the terms small.\<close>

lemma other_handlers:
  assumes "h \<notin> {AnyMessageLikeEventHandler, RoomRedactionEventHandler, RoomMessageEventHandler, ReactionEventHandler,
      UnstablePollStartEventHandler, UnstablePollResponseEventHandler, UnstablePollEndEventHandler}"
  shows "run_event_handler now h (MessageLikeReceived r e) q = q"
  using assms by (cases h) (simp_all add: run_event_handler_def)

lemma message_like_handlers:
  assumes "ev_body e = MessageLike m"
  shows "run_event_handler now RoomRedactionEventHandler (MessageLikeReceived r e) q =
      (case m of RoomRedaction (Original c) \<Rightarrow> send_action (RoomRedactionAction r c) q | _ \<Rightarrow> q)"
    "run_event_handler now RoomMessageEventHandler (MessageLikeReceived r e) q =
      (case m of RoomMessage (Original c) \<Rightarrow> send_action (RoomMessageAction r e c) q | _ \<Rightarrow> q)"
    "run_event_handler now ReactionEventHandler (MessageLikeReceived r e) q =
      (case m of ReactionEvent (Original a) \<Rightarrow> send_action (ReactionAction r e a) q | _ \<Rightarrow> q)"
    "run_event_handler now UnstablePollStartEventHandler (MessageLikeReceived r e) q =
      (case m of UnstablePollStart (Original c) \<Rightarrow> send_action (UnstablePollStartAction r e c) q | _ \<Rightarrow> q)"
    "run_event_handler now UnstablePollResponseEventHandler (MessageLikeReceived r e) q =
      (case m of UnstablePollResponse (Original c) \<Rightarrow> send_action (UnstablePollResponseAction r e c) q | _ \<Rightarrow> q)"
    "run_event_handler now UnstablePollEndEventHandler (MessageLikeReceived r e) q =
      (case m of UnstablePollEnd (Original i) \<Rightarrow> send_action (UnstablePollEndAction r i) q | _ \<Rightarrow> q)"
  by (simp_all add: run_event_handler_def [unfolded processor_defs] assms)

lemma handle_message_like:
  "handle_sdk_event now (MessageLikeReceived r e) q = fold send_action (actions_of now (MessageLikeReceived r e)) q"
proof -
  let ?run = "\<lambda>h. run_event_handler now h (MessageLikeReceived r e)"
  have "handle_sdk_event now (MessageLikeReceived r e) q =
      ?run UnstablePollEndEventHandler (?run UnstablePollResponseEventHandler (?run UnstablePollStartEventHandler
        (?run ReactionEventHandler (?run RoomMessageEventHandler (?run RoomRedactionEventHandler
          (?run AnyMessageLikeEventHandler q))))))"
    by (simp add: handle_sdk_event_def registered_handlers_def other_handlers)
  also have "?run AnyMessageLikeEventHandler q = send_action (AnyMessageLikeAction r e) q"
    by (simp add: run_event_handler_def processor_defs)
  finally have run: "handle_sdk_event now (MessageLikeReceived r e) q =
      ?run UnstablePollEndEventHandler (?run UnstablePollResponseEventHandler (?run UnstablePollStartEventHandler
        (?run ReactionEventHandler (?run RoomMessageEventHandler (?run RoomRedactionEventHandler
          (send_action (AnyMessageLikeAction r e) q))))))" .
  show ?thesis
  proof (cases "ev_body e")
    case (MessageLike m)
    show ?thesis
      by (cases "(r, e, m)" rule: message_like_actions.cases)
        (simp_all add: run message_like_handlers [OF MessageLike] MessageLike)
  next
    case (State s)
    have "?run h q' = q'" if "h \<noteq> AnyMessageLikeEventHandler" for h q'
      using that by (cases h) (simp_all add: run_event_handler_def State)
    then show ?thesis unfolding run by (simp add: State)
  qed
qed

lemma handle_sdk_event_actions: "handle_sdk_event now e q = fold send_action (actions_of now e) q"
proof (cases e)
  case (MessageLikeReceived r x)
  then show ?thesis by (simp only: handle_message_like)
qed (simp_all add: handle_sdk_event_def registered_handlers_def run_event_handler_def processor_defs)

lemma room_updates_actions: "room_updates us q = fold (\<lambda>u. send_action (JoinedRoomUpdate (fst u) (snd u))) us q"
  by (induction us q rule: room_updates.induct) (simp_all add: process_joined_room_update_def)

lemma event_cache_updates_actions: "event_cache_updates rids q = fold (\<lambda>rid. send_action (EventCacheGenericUpdate rid)) rids q"
  by (induction rids q rule: event_cache_updates.induct) simp_all

end
