(* ===== verification/Client.thy ===== *)
theory Client
  imports Verification Session EventQueue "HOL-Library.Sublist"
begin

text \<open>
  client.rs, the client and its session: initialising, restoring and resetting the session,
  logging in, and the directories it lives in.  The state is the record \<open>client\<close>: the session
  context behind its lock, the cached identity providers and the verifications behind theirs, the
  verifications that were aborted and whose task still runs, the configuration, the files, the
  items of multipart responses, the calls made to the server, and the persistent caches whose
  save task still runs: every session context starts one, and none is ever stopped.
  What the SDK and the server answer is in \<open>client_env\<close>.
\<close>

section \<open>State\<close>

text \<open>
  The session context: the event manager with its executor, which owns the memory cache and what
  is sent to the application, the persistent cache and the media manager.
\<close>

record session_context =
  sx_queue :: event_queue
  sx_proto :: proto_cache_inner
  sx_media :: media_manager

datatype client_call =
  CallWhoami
| CallLoginTypes
| CallLogin string string string
| CallLoginSso "string option" string
| CallRestore
| CallRecover string
| CallRequestVerification "verification_method_m list"
| CallSearchUsers string u64
| CallSetPresence presence_m "string option"
| CallPublicRooms "u32 option" "string option" "string option"
| CallInvite string string
| CallJoin string
| CallLeave string
| CallJoinById string
| CallKnock string "string option"
| CallCreateRoom create_room_request_m
| CallSetName string string
| CallRoom string room_call
| CallSetFavourite string bool
| CallReceipts string string
| CallTyping string bool
| CallPin string string bool
| CallRedact string string "string option"
| CallReaction string annotation
| CallPollResponse string string "string list"
| CallEdit string string out_text

record client =
  cl_session :: "session_context mutex"
  cl_idps :: "string list option mutex"
  cl_verifications :: "verification_manager list mutex"
  cl_aborted :: "verification_manager list"
  cl_homeserver :: string
  cl_device_name :: string
  cl_data_root :: path
  cl_encryption_secret :: string
  cl_database_secret :: string
  cl_verify_certificates :: bool
  cl_world :: world
  cl_items :: "response list"
  cl_calls :: "client_call list"
  cl_old_caches :: "proto_cache_inner list"

definition lock_poisoned_error :: error where
  "lock_poisoned_error = InternalError ''lock poisoined''"

text \<open>\<open>try_lock!\<close>, and the lock of the session.\<close>

definition try_lock :: "'a mutex \<Rightarrow> error + 'a" where
  "try_lock m = (case lock m of Inl _ \<Rightarrow> Inl lock_poisoned_error | Inr x \<Rightarrow> Inr x)"

definition session_of :: "client \<Rightarrow> error + session_context" where
  "session_of c = try_lock (cl_session c)"

text \<open>Running an operation of the executor on the session, with the files of the client.\<close>

definition put_session :: "session_context \<Rightarrow> client \<Rightarrow> client" where
  "put_session sx c = c\<lparr>cl_session := put_guard (cl_session c) sx\<rparr>"

definition client_executor :: "client \<Rightarrow> executor" where
  "client_executor c = (eq_executor (sx_queue (mtx_data (cl_session c))))\<lparr>ex_fs := w_fs (cl_world c)\<rparr>"

definition put_executor :: "executor \<Rightarrow> client \<Rightarrow> client" where
  "put_executor ex c =
     (let sx = mtx_data (cl_session c)
      in (put_session (sx\<lparr>sx_queue := (sx_queue sx)\<lparr>eq_executor := ex\<rparr>\<rparr>) c)
           \<lparr>cl_world := (cl_world c)\<lparr>w_fs := ex_fs ex\<rparr>\<rparr>)"

definition on_executor :: "(executor \<Rightarrow> 'r \<times> executor) \<Rightarrow> client \<Rightarrow> 'r \<times> client" where
  "on_executor f c = (case f (client_executor c) of (r, ex) \<Rightarrow> (r, put_executor ex c))"

definition client_send :: "response \<Rightarrow> client \<Rightarrow> client" where
  "client_send e c = put_executor (send_event e (client_executor c)) c"

definition client_log :: "client \<Rightarrow> response list" where
  "client_log c = ex_sent (client_executor c)"

text \<open>A call to the server.\<close>

definition record_call :: "client_call \<Rightarrow> client \<Rightarrow> client" where
  "record_call k c = c\<lparr>cl_calls := cl_calls c @ [k]\<rparr>"

section \<open>Directories\<close>

definition session_dir_name :: string where "session_dir_name = ''session''"
definition media_dir_name :: string where "media_dir_name = ''media''"
definition cache_dir_name :: string where "cache_dir_name = ''cache''"
definition auth_file_name :: string where "auth_file_name = ''auth''"

definition get_session_dir :: "path \<Rightarrow> path" where
  "get_session_dir data_root_dir = path_join data_root_dir (parse_path session_dir_name)"

definition get_media_dir :: "path \<Rightarrow> path" where
  "get_media_dir data_root_dir = path_join data_root_dir (parse_path media_dir_name)"

definition get_cache_dir :: "path \<Rightarrow> path" where
  "get_cache_dir data_root_dir = path_join data_root_dir (parse_path cache_dir_name)"

definition get_auth_file :: "path \<Rightarrow> path" where
  "get_auth_file data_root_dir = path_join (get_session_dir data_root_dir) (parse_path auth_file_name)"

text \<open>
  \<open>std::fs::remove_dir_all\<close>: everything below the path goes, or the path does not exist or is a
  file; an operation that is cut short leaves some of it behind.
\<close>

definition below :: "string list \<Rightarrow> string list \<Rightarrow> bool" where
  "below k k' \<longleftrightarrow> prefix k k'"

definition fs_remove_dir_all :: "path \<Rightarrow> fs \<Rightarrow> (string + unit) \<times> fs" where
  "fs_remove_dir_all p fs =
     (case next_outcome fs of
        (IoOk, fs) \<Rightarrow>
          (let k = fs_key fs p
           in if file_at fs p \<noteq> None then (Inl ''Not a directory'', fs)
              else if k \<notin> set (fs_dirs fs) then (Inl not_found, fs)
              else (Inr (), fs\<lparr>fs_files := filter (\<lambda>f. \<not> below k (fst f)) (fs_files fs),
                               fs_dirs := filter (\<lambda>d. \<not> below k d) (fs_dirs fs)\<rparr>))
      | (IoFail e, fs) \<Rightarrow> (Inl e, fs)
      | (IoTorn n e, fs) \<Rightarrow>
          (Inl e, fs\<lparr>fs_files := filter (\<lambda>f. \<not> below (fs_key fs p) (fst f)) (take n (fs_files fs)) @
             drop n (fs_files fs)\<rparr>))"

definition remove_directory :: "path \<Rightarrow> fs \<Rightarrow> (error + unit) \<times> fs" where
  "remove_directory p fs =
     (case fs_remove_dir_all p fs of
        (Inl err, fs) \<Rightarrow>
          if err = not_found then (Inr (), fs) else (Inl (InternalError ''error removing session file''), fs)
      | (Inr _, fs) \<Rightarrow> (Inr (), fs))"

definition remove_session_data :: "path \<Rightarrow> fs \<Rightarrow> (error + unit) \<times> fs" where
  "remove_session_data root fs =
     and_then (remove_directory (get_session_dir root) fs)
       (\<lambda>_ fs. and_then (remove_directory (get_media_dir root) fs)
         (\<lambda>_ fs. remove_directory (get_cache_dir root) fs))"

section \<open>Answers\<close>

datatype login_type_m = LtPassword | LtSso "string list" | LtOther

datatype login_flow = UsernamePassword | Sso

text \<open>What the SDK's client is built with.\<close>

record client_config =
  cc_homeserver :: string
  cc_store :: path
  cc_passphrase :: string
  cc_auto_enable_cross_signing :: bool
  cc_auto_enable_backups :: bool
  cc_backup_after_decryption_failure :: bool
  cc_ssl_verification :: bool

definition client_builder :: "string \<Rightarrow> path \<Rightarrow> string \<Rightarrow> bool \<Rightarrow> client_config" where
  "client_builder homeserver session_dir session_db_passphrase verify_ssl =
     (let builder = \<lparr>cc_homeserver = homeserver, cc_store = session_dir,
            cc_passphrase = session_db_passphrase, cc_auto_enable_cross_signing = True,
            cc_auto_enable_backups = True, cc_backup_after_decryption_failure = True,
            cc_ssl_verification = True\<rparr>
      in if \<not> verify_ssl then builder\<lparr>cc_ssl_verification := False\<rparr> else builder)"

text \<open>
  What is outside src/ for one request: the codecs and the environments of the other components,
  the parsing of IDs, and the answers of the SDK and the server to the calls.
\<close>

record 'm client_env =
  ce_exec :: exec_env
  ce_room_env :: room_env
  ce_codecs :: codecs
  ce_session_env :: "'m session_env"
  ce_start :: start_answers
  ce_first_round :: "'m sync_round"
  ce_rounds :: "'m sync_round list"
  ce_room_id_ok :: "string \<Rightarrow> bool"
  ce_user_id_ok :: "string \<Rightarrow> bool"
  ce_event_id_ok :: "string \<Rightarrow> bool"
  ce_answer :: "client_call \<Rightarrow> call_error + unit"
  ce_whoami :: "http_error + unit"
  ce_login_types :: "http_error + login_type_m list"
  ce_build :: "client_config \<Rightarrow> fs \<Rightarrow> (client_build_error + unit) \<times> fs"
  ce_url_ok :: "string \<Rightarrow> bool"
  ce_sso_url :: "string option"
  ce_sso_login :: "string + unit"
  ce_restore :: "sdk_error + unit"
  ce_user_session :: "'m option"
  ce_created_room :: "call_error + sdk_room"

definition call :: "'m client_env \<Rightarrow> client_call \<Rightarrow> client \<Rightarrow> (error + unit) \<times> client" where
  "call env k c =
     ((case ce_answer env k of Inl e \<Rightarrow> Inl (from_call_error e) | Inr _ \<Rightarrow> Inr ()), record_call k c)"

section \<open>The session context\<close>

text \<open>Building the SDK's client creates its store in the session directory.\<close>

definition build_client ::
  "'m client_env \<Rightarrow> string \<Rightarrow> path \<Rightarrow> string \<Rightarrow> bool \<Rightarrow> fs \<Rightarrow> (error + unit) \<times> fs" where
  "build_client env homeserver session_dir session_db_passphrase verify_ssl fs =
     (case ce_build env (client_builder homeserver session_dir session_db_passphrase verify_ssl) fs of
        (Inl e, fs) \<Rightarrow> (Inl (MatrixSdkClientBuildError e), fs)
      | (Inr _, fs) \<Rightarrow> (Inr (), fs))"

text \<open>
  The new context starts with an empty memory cache and executor; what has been sent to the
  application stays sent.
\<close>

definition session_context_new ::
  "'m client_env \<Rightarrow> string \<Rightarrow> path \<Rightarrow> string \<Rightarrow> string \<Rightarrow> bool \<Rightarrow> response list \<Rightarrow> world \<Rightarrow>
   (error + session_context) \<times> world" where
  "session_context_new env homeserver_url data_root_dir encryption_secret database_secret verify_ssl sent w =
     (case build_client env homeserver_url (get_session_dir data_root_dir) database_secret verify_ssl (w_fs w) of
        (Inl e, fs) \<Rightarrow> (Inl e, w\<lparr>w_fs := fs\<rparr>)
      | (Inr _, fs) \<Rightarrow>
          (let (proto_cache, w) = from_directory (ce_codecs env) (get_cache_dir data_root_dir)
                 encryption_secret (w\<lparr>w_fs := fs\<rparr>);
               (mm, fs) = media_manager_new data_root_dir (parse_path media_dir_name) (w_fs w);
               ex = (executor_new memory_cache_new fs)\<lparr>ex_sent := sent\<rparr>
           in (Inr \<lparr>sx_queue = event_manager_new ex, sx_proto = proto_cache, sx_media = mm\<rparr>,
               w\<lparr>w_fs := fs\<rparr>)))"

text \<open>The save tasks of the caches that are no longer the session's keep running.\<close>

definition reset_session :: "'m client_env \<Rightarrow> client \<Rightarrow> (error + unit) \<times> client" where
  "reset_session env c =
     (case remove_session_data (cl_data_root c) (w_fs (cl_world c)) of
        (Inl e, fs) \<Rightarrow> (Inl e, c\<lparr>cl_world := (cl_world c)\<lparr>w_fs := fs\<rparr>\<rparr>)
      | (Inr _, fs) \<Rightarrow>
          (let c = c\<lparr>cl_world := (cl_world c)\<lparr>w_fs := fs\<rparr>\<rparr>
           in case session_context_new env (cl_homeserver c) (cl_data_root c) (cl_encryption_secret c)
                     (cl_database_secret c) (cl_verify_certificates c) (client_log c) (cl_world c) of
                (Inl e, w) \<Rightarrow> (Inl e, c\<lparr>cl_world := w\<rparr>)
              | (Inr sx, w) \<Rightarrow>
                  if mtx_poisoned (cl_session c)
                  then (Inl lock_poisoned_error,
                        c\<lparr>cl_world := w, cl_old_caches := sx_proto sx # cl_old_caches c\<rparr>)
                  else (Inr (), (put_session sx c)
                         \<lparr>cl_world := w,
                          cl_old_caches := sx_proto (mtx_data (cl_session c)) # cl_old_caches c\<rparr>)))"

text \<open>The save task of the session's cache, and of an earlier one, runs once.\<close>

definition save_session_cache :: "'m client_env \<Rightarrow> client \<Rightarrow> client" where
  "save_session_cache env c =
     c\<lparr>cl_world := save (ce_codecs env) (sx_proto (mtx_data (cl_session c))) (cl_world c)\<rparr>"

definition save_old_cache :: "'m client_env \<Rightarrow> nat \<Rightarrow> client \<Rightarrow> client" where
  "save_old_cache env i c =
     (if i < length (cl_old_caches c)
      then c\<lparr>cl_world := save (ce_codecs env) (cl_old_caches c ! i) (cl_world c)\<rparr> else c)"

section \<open>Errors of the network and of the login\<close>

definition ce_displays :: "'m client_env \<Rightarrow> displays" where
  "ce_displays env = sv_displays (ce_session_env env)"

definition is_auth_err_matrix_http :: "http_error \<Rightarrow> bool" where
  "is_auth_err_matrix_http err \<longleftrightarrow>
     (case he_variant err of
        HeIntoHttp e \<Rightarrow> e = IntoHttpAuthentication
      | HeReqwest e \<Rightarrow> rq_status e = Some 401
      | HeApi status \<Rightarrow> status = Some 401
      | HeOther _ \<Rightarrow> False)"

definition is_network_err_matrix :: "displays \<Rightarrow> sdk_error \<Rightarrow> bool" where
  "is_network_err_matrix d err \<longleftrightarrow> ce_type (convert_matrix_sdk_error d err) = ENetwork"

fun is_network_err :: "displays \<Rightarrow> error \<Rightarrow> bool" where
  "is_network_err d Network = True"
| "is_network_err d (MatrixSdkError err) = is_network_err_matrix d err"
| "is_network_err d _ = False"

definition is_logged_in :: "'m client_env \<Rightarrow> client \<Rightarrow> (error + bool) \<times> client" where
  "is_logged_in env c =
     (case session_of c of
        Inl e \<Rightarrow> (Inl e, c)
      | Inr _ \<Rightarrow>
          ((case ce_whoami env of
              Inr _ \<Rightarrow> Inr True
            | Inl err \<Rightarrow> if is_auth_err_matrix_http err then Inr False else Inl (MatrixSdkHttpError err)),
           record_call CallWhoami c))"

section \<open>Identity providers\<close>

definition cache_idps :: "string list \<Rightarrow> client \<Rightarrow> (error + unit) \<times> client" where
  "cache_idps idps c =
     (case try_lock (cl_idps c) of
        Inl e \<Rightarrow> (Inl e, c)
      | Inr _ \<Rightarrow> (Inr (), c\<lparr>cl_idps := put_guard (cl_idps c) (Some idps)\<rparr>))"

definition get_cached_idps :: "client \<Rightarrow> error + string list option" where
  "get_cached_idps c = try_lock (cl_idps c)"

fun push_login_flows ::
  "login_type_m list \<Rightarrow> login_flow list \<Rightarrow> client \<Rightarrow> (error + login_flow list) \<times> client" where
  "push_login_flows [] response c = (Inr response, c)"
| "push_login_flows (LtPassword # flows) response c =
     push_login_flows flows (response @ [UsernamePassword]) c"
| "push_login_flows (LtSso idps # flows) response c =
     and_then (cache_idps idps c) (\<lambda>_ c. push_login_flows flows (response @ [Sso]) c)"
| "push_login_flows (LtOther # flows) response c = push_login_flows flows response c"

definition get_login_flows :: "'m client_env \<Rightarrow> client \<Rightarrow> (error + login_flow list) \<times> client" where
  "get_login_flows env c =
     (case session_of c of
        Inl e \<Rightarrow> (Inl e, c)
      | Inr _ \<Rightarrow>
          (case ce_login_types env of
             Inl e \<Rightarrow> (Inl (MatrixSdkHttpError e), record_call CallLoginTypes c)
           | Inr flows \<Rightarrow> push_login_flows flows [] (record_call CallLoginTypes c)))"

definition get_identity_providers :: "'m client_env \<Rightarrow> client \<Rightarrow> (error + string list) \<times> client" where
  "get_identity_providers env c =
     (case get_cached_idps c of
        Inl e \<Rightarrow> (Inl e, c)
      | Inr (Some idps) \<Rightarrow> (Inr idps, c)
      | Inr None \<Rightarrow>
          and_then (get_login_flows env c) (\<lambda>_ c.
            ((case get_cached_idps c of
                Inl e \<Rightarrow> Inl e
              | Inr idps \<Rightarrow> Inr (case idps of None \<Rightarrow> [] | Some l \<Rightarrow> l)), c)))"

section \<open>Restoring the session and logging in\<close>

text \<open>The sync of a session runs on the context's cache, and sends to the application.\<close>

definition sync_session :: "'m client_env \<Rightarrow> 'm session \<Rightarrow> client \<Rightarrow> (error + unit) \<times> client" where
  "sync_session env s c =
     (let sx = mtx_data (cl_session c);
          sp = \<lparr>sp_session = s, sp_network_was_unavailable = False, sp_cache = sx_proto sx,
                sp_world = cl_world c, sp_log = client_log c\<rparr>;
          (r, sp) = session_sync (ce_session_env env) (ce_start env) (ce_first_round env) (ce_rounds env) sp;
          c = (put_session (sx\<lparr>sx_proto := sp_cache sp\<rparr>) c)\<lparr>cl_world := sp_world sp\<rparr>;
          c = put_executor ((client_executor c)\<lparr>ex_sent := sp_log sp\<rparr>) c
      in (case r of Inl e \<Rightarrow> Inl e | Inr _ \<Rightarrow> Inr (), c))"

definition restore_session :: "'m client_env \<Rightarrow> client \<Rightarrow> (error + status_code) \<times> client" where
  "restore_session env c =
     (let session_file = get_auth_file (cl_data_root c);
          (found, fs) = fs_exists session_file (w_fs (cl_world c));
          c = c\<lparr>cl_world := (cl_world c)\<lparr>w_fs := fs\<rparr>\<rparr>
      in if \<not> found then (Inr Connected, c)
         else (case read_from_file (ce_session_env env) session_file (cl_encryption_secret c) (cl_world c) of
                 (Inl _, w) \<Rightarrow> (Inr LoggedOut, c\<lparr>cl_world := w\<rparr>)
               | (Inr s, w) \<Rightarrow>
                   (let c = c\<lparr>cl_world := w\<rparr>
                    in case session_of c of
                         Inl e \<Rightarrow> (Inl e, c)
                       | Inr _ \<Rightarrow>
                           (case ce_restore env of
                              Inl err \<Rightarrow>
                                (if is_network_err_matrix (ce_displays env) err
                                 then Inl (MatrixSdkError err) else Inr LoggedOut, record_call CallRestore c)
                            | Inr _ \<Rightarrow>
                                (case sync_session env s (record_call CallRestore c) of
                                   (Inl err, c) \<Rightarrow>
                                     (if is_network_err (ce_displays env) err then Inl err else Inr LoggedOut, c)
                                 | (Inr _, c) \<Rightarrow> (Inr LoggedIn, c))))))"

text \<open>The end of both logins: the new session is saved and synced.\<close>

definition start_session :: "'m client_env \<Rightarrow> 'm session \<Rightarrow> client \<Rightarrow> (error + unit) \<times> client" where
  "start_session env s c =
     (case session_save (ce_session_env env) s (cl_world c) of
        (Inl e, w) \<Rightarrow> (Inl e, c\<lparr>cl_world := w\<rparr>)
      | (Inr _, w) \<Rightarrow> sync_session env s (c\<lparr>cl_world := w\<rparr>))"

text \<open>The beginning of both logins.\<close>

definition prepare_login :: "'m client_env \<Rightarrow> client \<Rightarrow> (error + unit) \<times> client" where
  "prepare_login env c =
     and_then (is_logged_in env c) (\<lambda>logged_in c.
       if logged_in then (Inl AlreadyLoggedIn, c)
       else and_then (reset_session env c) (\<lambda>_ c.
              (case session_of c of Inl e \<Rightarrow> Inl e | Inr _ \<Rightarrow> Inr (), c)))"

definition login_username_password ::
  "'m client_env \<Rightarrow> string \<Rightarrow> string \<Rightarrow> client \<Rightarrow> (error + status_code) \<times> client" where
  "login_username_password env username password c =
     and_then (prepare_login env c) (\<lambda>_ c.
       and_then (call env (CallLogin username password (cl_device_name c)) c) (\<lambda>_ c.
         case session_new (ce_user_session env) (get_auth_file (cl_data_root c)) (cl_encryption_secret c) of
           Inl e \<Rightarrow> (Inl e, c)
         | Inr s \<Rightarrow> and_then (start_session env s c) (\<lambda>_ c. (Inr LoggedIn, c))))"

text \<open>The login over the browser: the answer is its URL; the task waits for the login to succeed.\<close>

definition login_sso ::
  "'m client_env \<Rightarrow> string option \<Rightarrow> client \<Rightarrow> (error + string) \<times> client" where
  "login_sso env identity_provider c =
     and_then (prepare_login env c) (\<lambda>_ c.
       ((case ce_sso_url env of
           None \<Rightarrow> Inl (InternalError ''Sender of the login url dropped'')
         | Some url \<Rightarrow> Inr url), record_call (CallLoginSso identity_provider (cl_device_name c)) c))"

definition send_error :: "'m client_env \<Rightarrow> error \<Rightarrow> client \<Rightarrow> client" where
  "send_error env e c = client_send (ErrorResponse (error_into_chat_error (ce_displays env) e)) c"

definition login_sso_task :: "'m client_env \<Rightarrow> client \<Rightarrow> client" where
  "login_sso_task env c =
     (case ce_sso_login env of
        Inl err \<Rightarrow> send_error env (InternalError err) c
      | Inr _ \<Rightarrow>
          (case session_new (ce_user_session env) (get_auth_file (cl_data_root c)) (cl_encryption_secret c) of
             Inl _ \<Rightarrow> send_error env (InternalError ''Error creating session'') c
           | Inr s \<Rightarrow>
               (case start_session env s c of
                  (Inl e, c) \<Rightarrow> send_error env e c
                | (Inr _, c) \<Rightarrow> client_send (StatusUpdate LoggedIn) c)))"

text \<open>A new client; the result of an initialisation that fails is only its error.\<close>

record initialization_request =
  ir_backend_url :: string
  ir_data_root_path :: string
  ir_device_display_name :: string
  ir_encryption_secret :: string
  ir_persistent_storage_secret :: string
  ir_verify_certificates :: bool

definition client_new ::
  "'m client_env \<Rightarrow> initialization_request \<Rightarrow> world \<Rightarrow> error + client \<times> status_code" where
  "client_new env request w =
     (if \<not> ce_url_ok env (ir_backend_url request) then Inl InvalidUrl
      else (let data_root_dir = parse_path (ir_data_root_path request)
            in case session_context_new env (ir_backend_url request) data_root_dir
                     (ir_encryption_secret request) (ir_persistent_storage_secret request)
                     (ir_verify_certificates request) [] w of
                 (Inl e, _) \<Rightarrow> Inl e
               | (Inr sx, w) \<Rightarrow>
                   (let obj = \<lparr>cl_session = new_mutex sx, cl_idps = new_mutex None,
                          cl_verifications = new_mutex [], cl_aborted = [],
                          cl_homeserver = ir_backend_url request,
                          cl_device_name = ir_device_display_name request,
                          cl_data_root = data_root_dir, cl_encryption_secret = ir_encryption_secret request,
                          cl_database_secret = ir_persistent_storage_secret request,
                          cl_verify_certificates = ir_verify_certificates request,
                          cl_world = w, cl_items = [], cl_calls = [], cl_old_caches = []\<rparr>
                    in case restore_session env obj of
                         (Inl e, _) \<Rightarrow> Inl e
                       | (Inr status, obj) \<Rightarrow> Inr (obj, status))))"

section \<open>Responses on their way to the application\<close>

definition on_response :: "'m client_env \<Rightarrow> response option \<Rightarrow> client \<Rightarrow> client" where
  "on_response env response c =
     (case session_of c of
        Inl _ \<Rightarrow> c
      | Inr sx \<Rightarrow>
          (case response of
             None \<Rightarrow> c
           | Some content \<Rightarrow>
               put_session (sx\<lparr>sx_queue := process_response content (sx_queue sx),
                               sx_proto := cache_response_content (ce_codecs env) content (sx_proto sx)\<rparr>) c))"

end
