(* ===== verification/ClientRequests.thy ===== *)
theory ClientRequests
  imports Client
begin

text \<open>
  client.rs, the requests of the application on a session: verifications, users, rooms and
  messages.  Each handler runs on the record \<open>client\<close>; what the SDK answers to it is in
  \<open>request_env\<close>, and every call to the server that can change something is recorded in the client.
\<close>

section \<open>Answers\<close>

text \<open>
  The rooms of the SDK are those of \<open>exec_env\<close>; \<open>re_after\<close> is the view of a room once the calls of
  the request have been answered, and \<open>re_refreshed_room\<close> the second lookup of a room.
\<close>

record 'm request_env =
  re_client :: "'m client_env"
  re_after :: "sdk_room \<Rightarrow> sdk_room"
  re_refreshed_room :: "string \<Rightarrow> sdk_room option"
  re_rooms :: "sdk_room list"
  re_latest_event :: "string \<Rightarrow> string option"
  re_recover :: "string \<Rightarrow> recovery_error + unit"
  re_user_identity :: "string + bool"
  re_verification :: "request_verification_error + string"
  re_rules :: notification_rules
  re_users_found :: "http_error + (string \<times> string option) list"
  re_public_rooms :: "http_error + public_room_m list \<times> string option"
  re_joined_room :: "call_error + sdk_room"
  re_message_sdk :: "string \<Rightarrow> room_sdk"
  re_edit_text :: "string \<Rightarrow> string + unit"
  re_event_with_context :: "string \<Rightarrow> sdk_error + string option"
  re_chunks :: "(memory_cache_error + chunk_answer) list"

definition re_exec :: "'m request_env \<Rightarrow> exec_env" where
  "re_exec env = ce_exec (re_client env)"

definition re_media :: "'m request_env \<Rightarrow> media_env" where
  "re_media env = mv_media (xe_messages (re_exec env))"

text \<open>The user that is logged in.\<close>

definition own_user_id :: "'m request_env \<Rightarrow> string option" where
  "own_user_id env = xe_user_id (re_exec env)"

text \<open>Handlers that begin with the session, and with one of its rooms.\<close>

definition with_session ::
  "(session_context \<Rightarrow> client \<Rightarrow> (error + 'a) \<times> client) \<Rightarrow> client \<Rightarrow> (error + 'a) \<times> client" where
  "with_session f c = (case session_of c of Inl e \<Rightarrow> (Inl e, c) | Inr sx \<Rightarrow> f sx c)"

definition lookup_room ::
  "'m request_env \<Rightarrow> (string \<Rightarrow> sdk_room option) \<Rightarrow> string \<Rightarrow> client \<Rightarrow> error + sdk_room" where
  "lookup_room env rooms rid c =
     (if \<not> ce_room_id_ok (re_client env) rid then Inl InvalidRoomId
      else (case session_of c of
              Inl e \<Rightarrow> Inl e
            | Inr _ \<Rightarrow> (case rooms rid of None \<Rightarrow> Inl RoomNotFound | Some r \<Rightarrow> Inr r)))"

definition get_matrix_room :: "'m request_env \<Rightarrow> string \<Rightarrow> client \<Rightarrow> error + sdk_room" where
  "get_matrix_room env = lookup_room env (xe_get_room (re_exec env))"

definition with_room ::
  "'m request_env \<Rightarrow> string \<Rightarrow> (sdk_room \<Rightarrow> client \<Rightarrow> (error + 'a) \<times> client) \<Rightarrow> client \<Rightarrow>
   (error + 'a) \<times> client" where
  "with_room env rid f c = (case get_matrix_room env rid c of Inl e \<Rightarrow> (Inl e, c) | Inr r \<Rightarrow> f r c)"

text \<open>Parsing IDs.\<close>

definition parse_user_ids :: "'m request_env \<Rightarrow> string list \<Rightarrow> error + string list" where
  "parse_user_ids env ids =
     (if list_all (ce_user_id_ok (re_client env)) ids then Inr ids else Inl InvalidUserId)"

definition parse_event_id :: "'m request_env \<Rightarrow> error \<Rightarrow> string \<Rightarrow> error + string" where
  "parse_event_id env e i = (if ce_event_id_ok (re_client env) i then Inr i else Inl e)"

definition parse_optional_event_id ::
  "'m request_env \<Rightarrow> error \<Rightarrow> string option \<Rightarrow> error + string option" where
  "parse_optional_event_id env e i =
     (case i of
        None \<Rightarrow> Inr None
      | Some j \<Rightarrow> (case parse_event_id env e j of Inl e \<Rightarrow> Inl e | Inr k \<Rightarrow> Inr (Some k)))"

text \<open>A call whose failure is only logged.\<close>

definition try_call :: "'m request_env \<Rightarrow> client_call \<Rightarrow> client \<Rightarrow> client" where
  "try_call env k c = snd (call (re_client env) k c)"

section \<open>Verifications\<close>

definition recovery_key_verification ::
  "'m request_env \<Rightarrow> string \<Rightarrow> client \<Rightarrow> (error + string option \<times> end_result) \<times> client" where
  "recovery_key_verification env recovery_key =
     with_session (\<lambda>_ c.
       ((case re_recover env recovery_key of
           Inl e \<Rightarrow> Inl (MatrixSdkRecoveryError e)
         | Inr _ \<Rightarrow> Inr (None, Successful True)), record_call (CallRecover recovery_key) c))"

definition push_verification_request ::
  "verification_manager \<Rightarrow> client \<Rightarrow> (error + unit) \<times> client" where
  "push_verification_request manager c =
     (case try_lock (cl_verifications c) of
        Inl e \<Rightarrow> (Inl e, c)
      | Inr ms \<Rightarrow> (Inr (), c\<lparr>cl_verifications := put_guard (cl_verifications c) (ms @ [manager])\<rparr>))"

definition cleanup_verifications :: "client \<Rightarrow> (error + unit) \<times> client" where
  "cleanup_verifications c =
     (case try_lock (cl_verifications c) of
        Inl e \<Rightarrow> (Inl e, c)
      | Inr ms \<Rightarrow>
          (Inr (), c\<lparr>cl_verifications := put_guard (cl_verifications c) (filter vm_is_active ms)\<rparr>))"

definition cross_signing_start ::
  "'m request_env \<Rightarrow> cross_signing_method proto_enum list \<Rightarrow> client \<Rightarrow> (error + string) \<times> client" where
  "cross_signing_start env supported_methods c =
     and_then (cleanup_verifications c) (\<lambda>_. with_session (\<lambda>_ c.
       case own_user_id env of
         None \<Rightarrow> (Inl NotLoggedIn, c)
       | Some _ \<Rightarrow>
           (case re_user_identity env of
              Inl e \<Rightarrow> (Inl (MatrixSdkCryptoStoreError e), c)
            | Inr False \<Rightarrow> (Inl (InternalError ''User identity of our own user not found''), c)
            | Inr True \<Rightarrow>
                (let methods = cross_signing_methods_to_matrix supported_methods
                 in if methods = [] then (Inl NoCrossSigningMethod, c)
                    else (case re_verification env of
                            Inl e \<Rightarrow>
                              (Inl (MatrixSdkRequestVerificationError e),
                               record_call (CallRequestVerification methods) c)
                          | Inr flow_id \<Rightarrow>
                              and_then (push_verification_request (from_verification_request flow_id)
                                   (record_call (CallRequestVerification methods) c))
                                (\<lambda>_ c. (Inr flow_id, c)))))))"

text \<open>The first verification with the ID is changed in place.\<close>

definition on_verification ::
  "string \<Rightarrow> (verification_manager \<Rightarrow> error + verification_manager) \<Rightarrow> client \<Rightarrow>
   (error + unit) \<times> client" where
  "on_verification flow_id f c =
     (case try_lock (cl_verifications c) of
        Inl e \<Rightarrow> (Inl e, c)
      | Inr ms \<Rightarrow>
          (case find (\<lambda>m. vm_flow_id m = flow_id) ms of
             None \<Rightarrow> (Inl VerificationFlowNotFound, c)
           | Some m \<Rightarrow>
               (case f m of
                  Inl e \<Rightarrow> (Inl e, c)
                | Inr m' \<Rightarrow>
                    (Inr (), c\<lparr>cl_verifications := put_guard (cl_verifications c)
                       (update_first (\<lambda>m. vm_flow_id m = flow_id) (\<lambda>_. m') ms)\<rparr>))))"

definition cross_signing_select_method ::
  "string \<Rightarrow> cross_signing_method proto_enum \<Rightarrow> client \<Rightarrow> (error + unit) \<times> client" where
  "cross_signing_select_method flow_id selected_method c =
     and_then (cleanup_verifications c) (\<lambda>_. on_verification flow_id (\<lambda>m.
       case selected_method of
         None \<Rightarrow> Inl UnsupportedCrossSigningMethod
       | Some method \<Rightarrow> Inr (vm_select_method method m)))"

definition cross_signing_confirm :: "string \<Rightarrow> client \<Rightarrow> (error + unit) \<times> client" where
  "cross_signing_confirm flow_id c =
     and_then (cleanup_verifications c) (\<lambda>_. on_verification flow_id (\<lambda>m. Inr (vm_confirm m)))"

text \<open>\<open>Vec::swap_remove\<close>: the last element takes the place of the removed one.\<close>

definition swap_remove :: "nat \<Rightarrow> 'a list \<Rightarrow> 'a list" where
  "swap_remove i xs = butlast (xs[i := last xs])"

fun position :: "('a \<Rightarrow> bool) \<Rightarrow> 'a list \<Rightarrow> nat option" where
  "position p [] = None"
| "position p (x # xs) = (if p x then Some 0 else map_option Suc (position p xs))"

definition abort_verification ::
  "string \<Rightarrow> client \<Rightarrow> (error + string option \<times> end_result) \<times> client" where
  "abort_verification flow_id c =
     and_then (cleanup_verifications c) (\<lambda>_ c.
       case try_lock (cl_verifications c) of
         Inl e \<Rightarrow> (Inl e, c)
       | Inr ms \<Rightarrow>
           (case position (\<lambda>m. vm_flow_id m = flow_id) ms of
              None \<Rightarrow> (Inl VerificationFlowNotFound, c)
            | Some i \<Rightarrow>
                (Inr (Some flow_id, Successful False),
                 c\<lparr>cl_verifications := put_guard (cl_verifications c) (swap_remove i ms),
                   cl_aborted := vm_cancel (ms ! i) # cl_aborted c\<rparr>)))"

section \<open>Users\<close>

definition get_global_settings ::
  "'m request_env \<Rightarrow> client \<Rightarrow> (error + notification_setting) \<times> client" where
  "get_global_settings env =
     with_session (\<lambda>_ c. (Inr (compose_global_notification_settings (re_rules env)), c))"

text \<open>Working on the files.\<close>

definition on_files :: "(fs \<Rightarrow> 'r \<times> fs) \<Rightarrow> client \<Rightarrow> 'r \<times> client" where
  "on_files f = on_executor (on_fs f)"

text \<open>The result says whether the user is synced in the background (\<open>sync_user_task\<close>).\<close>

definition get_user :: "'m request_env \<Rightarrow> string \<Rightarrow> client \<Rightarrow> (error + user \<times> bool) \<times> client" where
  "get_user env user_id c =
     (if \<not> ce_user_id_ok (re_client env) user_id then (Inl InvalidUserId, c)
      else with_session (\<lambda>sx c.
             case on_files (get_and_sync_user (re_media env) (sx_media sx) (xe_users (re_exec env))
                    (sx_proto sx) user_id) c of
               ((Inl e, _), c) \<Rightarrow> (Inl e, c)
             | ((Inr u, synced), c) \<Rightarrow> (Inr (u, synced), c)) c)"

fun send_all :: "response list \<Rightarrow> client \<Rightarrow> client" where
  "send_all [] c = c"
| "send_all (e # es) c = send_all es (client_send e c)"

definition sync_user_task ::
  "(user \<Rightarrow> user \<Rightarrow> string \<times> user_change list) \<Rightarrow> 'm request_env \<Rightarrow> string \<Rightarrow> client \<Rightarrow> client" where
  "sync_user_task compare_users env user_id c =
     (let sx = mtx_data (cl_session c);
          (es, c) = on_files (sync_cached_user compare_users (re_media env) (sx_media sx)
            (xe_users (re_exec env)) (sx_proto sx) user_id) c
      in send_all es c)"

text \<open>The users found are completed concurrently; they are given in the order of completion.\<close>

fun found_users ::
  "'m request_env \<Rightarrow> media_manager \<Rightarrow> (string \<times> string option) list \<Rightarrow> fs \<Rightarrow> user list \<times> fs" where
  "found_users env mm [] fs = ([], fs)"
| "found_users env mm ((user_id, display_name) # us) fs =
     (let (avatar_path, fs) = user_avatar_path (re_media env) mm (xe_users (re_exec env)) user_id fs;
          (users, fs) = found_users env mm us fs
      in (\<lparr>u_id = user_id, u_display_name = display_name, u_avatar_path = avatar_path,
           u_status = result_ok (fetch_status (xe_users (re_exec env)) user_id)\<rparr> # users, fs))"

definition search_users ::
  "'m request_env \<Rightarrow> string \<Rightarrow> u32 \<Rightarrow> client \<Rightarrow> (error + user list) \<times> client" where
  "search_users env query limit =
     with_session (\<lambda>sx c.
       (let c = record_call (CallSearchUsers query (ucast limit)) c
        in case re_users_found env of
             Inl e \<Rightarrow> (Inl (MatrixSdkHttpError e), c)
           | Inr results \<Rightarrow>
               (case on_files (found_users env (sx_media sx) results) c of
                  (users, c) \<Rightarrow> (Inr users, c))))"

definition set_status :: "'m request_env \<Rightarrow> user_status \<Rightarrow> client \<Rightarrow> (error + unit) \<times> client" where
  "set_status env request =
     with_session (\<lambda>sx c.
       case own_user_id env of
         None \<Rightarrow> (Inl NotLoggedIn, c)
       | Some _ \<Rightarrow>
           (let state = (case us_state request of
                 Some p \<Rightarrow> p | None \<Rightarrow> sv_default_presence (ce_session_env (re_client env)))
            in case presence_try_into_matrix state of
                 Inl _ \<Rightarrow> (Inl (InternalError ''Invalid presence state''), c)
               | Inr p \<Rightarrow>
                   and_then (call (re_client env) (CallSetPresence p (us_message request)) c) (\<lambda>_ c.
                     (let sx = mtx_data (cl_session c)
                      in (Inr (), put_session
                            (sx\<lparr>sx_proto := cache_set_user_status request (sx_proto sx)\<rparr>) c)))))"

section \<open>Rooms\<close>

definition get_public_rooms ::
  "'m request_env \<Rightarrow> u32 option \<Rightarrow> string option \<Rightarrow> string option \<Rightarrow> client \<Rightarrow>
   (error + public_room list \<times> string option) \<times> client" where
  "get_public_rooms env limit since generic_search_term =
     with_session (\<lambda>_ c.
       ((case re_public_rooms env of
           Inl e \<Rightarrow> Inl (MatrixSdkHttpError e)
         | Inr (chunk, next_batch) \<Rightarrow> Inr (convert_public_rooms_chunk chunk, next_batch)),
        record_call (CallPublicRooms limit since generic_search_term) c))"

text \<open>A room change event is the ID of the room with the changes.\<close>

fun invite_all :: "'m request_env \<Rightarrow> string \<Rightarrow> string list \<Rightarrow> client \<Rightarrow> client" where
  "invite_all env rid [] c = c"
| "invite_all env rid (user_id # invitees) c =
     invite_all env rid invitees (try_call env (CallInvite rid user_id) c)"

definition invite ::
  "'m request_env \<Rightarrow> string \<Rightarrow> string list \<Rightarrow> client \<Rightarrow> (error + room_change_event) \<times> client" where
  "invite env rid invitees =
     with_room env rid (\<lambda>r c.
       case parse_user_ids env invitees of
         Inl e \<Rightarrow> (Inl e, c)
       | Inr invitees \<Rightarrow>
           (let c = invite_all env (sr_id r) invitees c
            in case lookup_room env (re_refreshed_room env) rid c of
                 Inl e \<Rightarrow> (Inl e, c)
               | Inr r \<Rightarrow>
                   (case get_room_members r of
                      Inl e \<Rightarrow> (Inl e, c)
                    | Inr members \<Rightarrow> (Inr (rid, [ChUserIdList members]), c))))"

text \<open>\<open>RoomsManager::assemble_chat_room\<close> on the session.\<close>

definition assemble_room ::
  "'m request_env \<Rightarrow> sdk_room \<Rightarrow> client \<Rightarrow> (error + room) \<times> client" where
  "assemble_room env r c =
     on_files (assemble_chat_room (re_media env) (sx_media (mtx_data (cl_session c))) (own_user_id env) r) c"

definition invitation_reply ::
  "'m request_env \<Rightarrow> string \<Rightarrow> bool \<Rightarrow> client \<Rightarrow> (error + unit) \<times> client" where
  "invitation_reply env rid accepted =
     with_session (\<lambda>_. with_room env rid (\<lambda>r c.
       if \<not> accepted then call (re_client env) (CallLeave (sr_id r)) c
       else and_then (call (re_client env) (CallJoin (sr_id r)) c) (\<lambda>_ c.
              and_then (assemble_room env (re_after env r) c) (\<lambda>proto c.
                (Inr (), client_send (RoomCreatedEvent proto) c)))))"

text \<open>Whether the user is a joined member of a room.\<close>

definition is_joined_member :: "string \<Rightarrow> room \<Rightarrow> bool" where
  "is_joined_member user_id r =
     (case find (\<lambda>p. fst p = user_id) (room_users r) of
        Some p \<Rightarrow> snd p = Some Joined
      | None \<Rightarrow> False)"

fun select_rooms :: "bool \<Rightarrow> bool \<Rightarrow> string \<Rightarrow> room list \<Rightarrow> room list" where
  "select_rooms include_joined include_unjoined user_id [] = []"
| "select_rooms include_joined include_unjoined user_id (r # rs) =
     (let joined = is_joined_member user_id r
      in if include_joined \<and> joined then r # select_rooms include_joined include_unjoined user_id rs
         else if include_unjoined \<and> \<not> joined then r # select_rooms include_joined include_unjoined user_id rs
         else select_rooms include_joined include_unjoined user_id rs)"

definition get_rooms ::
  "'m request_env \<Rightarrow> bool \<Rightarrow> bool \<Rightarrow> client \<Rightarrow> (error + room list) \<times> client" where
  "get_rooms env include_joined include_unjoined =
     with_session (\<lambda>sx c.
       case own_user_id env of
         None \<Rightarrow> (Inl NotLoggedIn, c)
       | Some user_id \<Rightarrow>
           and_then (on_files (fetch_all_rooms (re_media env) (sx_media sx) (Some user_id) (re_rooms env)) c)
             (\<lambda>room_list c. (Inr (select_rooms include_joined include_unjoined user_id room_list), c)))"

text \<open>The avatar of a room that has been created: a failure is sent as an error.\<close>

definition upload_avatar ::
  "'m request_env \<Rightarrow> sdk_room \<Rightarrow> string \<Rightarrow> client \<Rightarrow> bool \<times> client" where
  "upload_avatar env r new_avatar c =
     (case on_files (upload_room_avatar (re_media env) (sx_media (mtx_data (cl_session c))) (sr_avatar r)
             (parse_path new_avatar)) c of
        (Inl e, c) \<Rightarrow> (False, send_error (re_client env) (MediaError e) c)
      | (Inr _, c) \<Rightarrow> (True, c))"

definition create_room ::
  "'m request_env \<Rightarrow> create_room_request_m \<Rightarrow> string option \<Rightarrow> client \<Rightarrow> (error + room) \<times> client" where
  "create_room env room_request new_avatar c =
     (let c = record_call (CallCreateRoom room_request) c
      in case ce_created_room (re_client env) of
           Inl e \<Rightarrow> (Inl (from_call_error e), c)
         | Inr r \<Rightarrow>
             (let c = (case new_avatar of None \<Rightarrow> c | Some p \<Rightarrow> snd (upload_avatar env r p c))
              in assemble_room env (re_after env r) c))"

definition create_group_room ::
  "'m request_env \<Rightarrow> string option \<Rightarrow> string list \<Rightarrow> room_join_rule proto_enum \<Rightarrow> string option \<Rightarrow>
   client \<Rightarrow> (error + room) \<times> client" where
  "create_group_room env display_name invitees join_rule new_avatar =
     with_session (\<lambda>_ c.
       case join_rule of
         None \<Rightarrow> (Inl (InternalError ''Invalid RoomJoinRule''), c)
       | Some join_rule \<Rightarrow>
           (case parse_user_ids env invitees of
              Inl e \<Rightarrow> (Inl e, c)
            | Inr invitees \<Rightarrow>
                create_room env (create_room_request display_name invitees join_rule) new_avatar c))"

definition create_direct_room ::
  "'m request_env \<Rightarrow> string option \<Rightarrow> string \<Rightarrow> string option \<Rightarrow> client \<Rightarrow> (error + room) \<times> client" where
  "create_direct_room env display_name invitee new_avatar =
     with_session (\<lambda>_ c.
       if \<not> ce_user_id_ok (re_client env) invitee then (Inl InvalidUserId, c)
       else create_room env (create_dm_room_request display_name invitee) new_avatar c)"

text \<open>
  The steps of a change, each with the changes it reports.  A room call is answered as such, and
  an avatar that could not be uploaded is sent as an error and not reported.
\<close>

definition room_calls ::
  "string \<Rightarrow> (error + unit) \<times> room_call list \<Rightarrow> client \<Rightarrow> (error + unit) \<times> client" where
  "room_calls rid answered c =
     (case answered of (r, calls) \<Rightarrow> (r, c\<lparr>cl_calls := cl_calls c @ map (CallRoom rid) calls\<rparr>))"

definition answer_room_call :: "'m request_env \<Rightarrow> string \<Rightarrow> room_call \<Rightarrow> call_error + unit" where
  "answer_room_call env rid k = ce_answer (re_client env) (CallRoom rid k)"

definition if_set ::
  "'v option \<Rightarrow> ('v \<Rightarrow> client \<Rightarrow> (error + room_change list) \<times> client) \<Rightarrow> client \<Rightarrow>
   (error + room_change list) \<times> client" where
  "if_set v f c = (case v of None \<Rightarrow> (Inr [], c) | Some x \<Rightarrow> f x c)"

definition change_name ::
  "'m request_env \<Rightarrow> sdk_room \<Rightarrow> string \<Rightarrow> client \<Rightarrow> (error + room_change list) \<times> client" where
  "change_name env r name c =
     and_then (call (re_client env) (CallSetName (sr_id r) name) c) (\<lambda>_ c. (Inr [ChDisplayName name], c))"

definition change_join_rule ::
  "'m request_env \<Rightarrow> sdk_room \<Rightarrow> room_join_rule proto_enum \<Rightarrow> client \<Rightarrow>
   (error + room_change list) \<times> client" where
  "change_join_rule env r rule c =
     (case rule of
        None \<Rightarrow> (Inl (InternalError ''Invalid JoinRule''), c)
      | Some rule \<Rightarrow>
          and_then (room_calls (sr_id r) (update_room_join_rule (answer_room_call env (sr_id r)) rule) c)
            (\<lambda>_ c. (Inr [ChJoinRule rule], c)))"

definition change_avatar ::
  "'m request_env \<Rightarrow> sdk_room \<Rightarrow> string \<Rightarrow> client \<Rightarrow> (error + room_change list) \<times> client" where
  "change_avatar env r new_avatar c =
     (case upload_avatar env r new_avatar c of
        (uploaded, c) \<Rightarrow> (Inr (if uploaded then [ChAvatarPath new_avatar] else []), c))"

definition change_favourite ::
  "'m request_env \<Rightarrow> sdk_room \<Rightarrow> bool \<Rightarrow> client \<Rightarrow> (error + room_change list) \<times> client" where
  "change_favourite env r is_favourite c =
     and_then (call (re_client env) (CallSetFavourite (sr_id r) is_favourite) c)
       (\<lambda>_ c. (Inr [ChFavourite is_favourite], c))"

definition change_conference ::
  "'m request_env \<Rightarrow> sdk_room \<Rightarrow> string \<Rightarrow> client \<Rightarrow> (error + room_change list) \<times> client" where
  "change_conference env r conference_url c =
     and_then (room_calls (sr_id r) (set_conference_url (answer_room_call env (sr_id r)) r conference_url) c)
       (\<lambda>_ c. (Inr [ChConferenceUrl conference_url], c))"

record room_change_request =
  rq_room_id :: string
  rq_display_name :: "string option"
  rq_join_rule :: "room_join_rule proto_enum option"
  rq_avatar_path :: "string option"
  rq_is_favorite :: "bool option"
  rq_conference_url :: "string option"

definition change_room ::
  "'m request_env \<Rightarrow> room_change_request \<Rightarrow> client \<Rightarrow> (error + room_change_event) \<times> client" where
  "change_room env rq =
     with_session (\<lambda>_. with_room env (rq_room_id rq) (\<lambda>r c.
       and_then (if_set (rq_display_name rq) (change_name env r) c) (\<lambda>response c.
       and_then (if_set (rq_join_rule rq) (change_join_rule env r) c) (\<lambda>rule c.
       and_then (if_set (rq_avatar_path rq) (change_avatar env r) c) (\<lambda>avatar c.
       and_then (if_set (rq_is_favorite rq) (change_favourite env r) c) (\<lambda>favourite c.
       and_then (if_set (rq_conference_url rq) (change_conference env r) c) (\<lambda>conference c.
         (Inr (rq_room_id rq, response @ rule @ avatar @ favourite @ conference), c))))))))"

definition leave_room ::
  "'m request_env \<Rightarrow> string \<Rightarrow> client \<Rightarrow>
   (error + string \<times> room_leave_reason \<times> string option) \<times> client" where
  "leave_room env rid =
     with_room env rid (\<lambda>r c.
       and_then (call (re_client env) (CallLeave (sr_id r)) c) (\<lambda>_ c. (Inr (rid, LeftByUser, None), c)))"

definition join_room :: "'m request_env \<Rightarrow> string \<Rightarrow> client \<Rightarrow> (error + room) \<times> client" where
  "join_room env rid =
     with_session (\<lambda>_ c.
       if \<not> ce_room_id_ok (re_client env) rid then (Inl RoomNotFound, c)
       else (let c = record_call (CallJoinById rid) c
             in case re_joined_room env of
                  Inl e \<Rightarrow> (Inl (from_call_error e), c)
                | Inr r \<Rightarrow> assemble_room env r c))"

definition knock_room ::
  "'m request_env \<Rightarrow> string \<Rightarrow> string option \<Rightarrow> client \<Rightarrow> (error + unit) \<times> client" where
  "knock_room env rid message =
     with_session (\<lambda>_ c.
       if \<not> ce_room_id_ok (re_client env) rid then (Inl RoomNotFound, c)
       else call (re_client env) (CallKnock rid message) c)"

text \<open>The failure to note the time in the cache is only logged.\<close>

definition mark_as_read ::
  "'m request_env \<Rightarrow> string \<Rightarrow> client \<Rightarrow> (error + room_change_event) \<times> client" where
  "mark_as_read env rid =
     with_session (\<lambda>_. with_room env rid (\<lambda>r c.
       case re_latest_event env (sr_id r) of
         None \<Rightarrow> (Inl (InternalError ''Room does not contain any events''), c)
       | Some event_id \<Rightarrow>
           and_then (call (re_client env) (CallReceipts (sr_id r) event_id) c) (\<lambda>_ c.
             (let (_, c) = on_executor (on_memory
                    (mc_mark_room_as_read (sr_id r) (xe_now (re_exec env)))) c
              in (Inr (sr_id r, [ChUnread 0]), c)))))"

text \<open>A connection error is not reported.\<close>

definition ignore_typing_notice_connection_error :: "call_error + unit \<Rightarrow> error + unit" where
  "ignore_typing_notice_connection_error result =
     (case result of
        Inl (CallSdk err) \<Rightarrow> if is_connection_error err then Inr () else Inl (from_call_error (CallSdk err))
      | Inl err \<Rightarrow> Inl (from_call_error err)
      | Inr _ \<Rightarrow> Inr ())"

definition activate_typing_notice :: "'m request_env \<Rightarrow> string \<Rightarrow> client \<Rightarrow> (error + unit) \<times> client" where
  "activate_typing_notice env rid =
     with_room env rid (\<lambda>r c.
       (ignore_typing_notice_connection_error (ce_answer (re_client env) (CallTyping (sr_id r) True)),
        record_call (CallTyping (sr_id r) True) c))"

definition pin_unpin_message ::
  "'m request_env \<Rightarrow> string \<Rightarrow> string \<Rightarrow> bool \<Rightarrow> client \<Rightarrow> (error + room_change_event) \<times> client" where
  "pin_unpin_message env rid message_id pinned =
     with_room env rid (\<lambda>r c.
       case parse_event_id env InvalidMessageId message_id of
         Inl e \<Rightarrow> (Inl e, c)
       | Inr event_id \<Rightarrow>
           and_then (call (re_client env) (CallPin (sr_id r) event_id pinned) c) (\<lambda>_ c.
             (Inr (sr_id r, [ChPinned (case sr_pinned (re_after env r) of None \<Rightarrow> [] | Some ids \<Rightarrow> ids)]), c)))"

section \<open>Messages\<close>

datatype messages_order = Forward | Backward

record room_messages_request =
  gm_room_id :: string
  gm_order :: "messages_order proto_enum option"
  gm_from_message_id :: "string option"
  gm_limit :: "u32 option"
  gm_thread_id :: "string option"

text \<open>An operation on a room of the memory cache, with the files and what is sent.\<close>

definition on_cached_room ::
  "cached_room \<Rightarrow> (room_state \<Rightarrow> 'r \<times> room_state) \<Rightarrow> executor \<Rightarrow> 'r \<times> executor" where
  "on_cached_room room f ex =
     (case f \<lparr>st_room = room, st_fs = ex_fs ex, st_log = ex_sent ex\<rparr> of
        (r, st) \<Rightarrow> (r, ex\<lparr>ex_memory := put_room (st_room st) (ex_memory ex), ex_fs := st_fs st,
                        ex_sent := st_log st\<rparr>))"

text \<open>The items of the multipart response: every message up to the first error.\<close>

fun message_items :: "(memory_cache_error + message) list \<Rightarrow> message list \<times> (error + unit)" where
  "message_items [] = ([], Inr ())"
| "message_items (Inl e # rs) = ([], Inl (MemoryCacheError e))"
| "message_items (Inr m # rs) = (case message_items rs of (ms, r) \<Rightarrow> (m # ms, r))"

definition send_items :: "message list \<Rightarrow> client \<Rightarrow> client" where
  "send_items ms c = c\<lparr>cl_items := cl_items c @ map MessageReceivedEvent ms\<rparr>"

definition query_options_of ::
  "'m request_env \<Rightarrow> room_messages_request \<Rightarrow> error + query_options" where
  "query_options_of env rq =
     (if gm_order rq = Some (Some Forward) then Inl (InternalError ''MessagesOrder::Forward is not supported'')
      else (let limit = (case gm_limit rq of None \<Rightarrow> 10 | Some l \<Rightarrow> l)
            in case parse_optional_event_id env InvalidMessageId (gm_from_message_id rq) of
                 Inl e \<Rightarrow> Inl e
               | Inr from_message_id \<Rightarrow>
                   (case parse_optional_event_id env InvalidThreadId (gm_thread_id rq) of
                      Inl e \<Rightarrow> Inl e
                    | Inr thread_id \<Rightarrow>
                        Inr \<lparr>qo_limit = limit, qo_from_message_id = from_message_id,
                             qo_thread_id = thread_id, qo_send_read_markers = True\<rparr>)))"

text \<open>
  The fetcher runs on the chunks that the server answers; while it waits for a further one there
  is no result.
\<close>

definition run_fetcher ::
  "'m request_env \<Rightarrow> string \<Rightarrow> messages_fetcher \<Rightarrow> executor \<Rightarrow> (messages_fetcher \<times> executor) option" where
  "run_fetcher env rid f ex =
     (case get_room rid (ex_memory ex) of
        Inr (Some room) \<Rightarrow>
          (case fetcher_run (ce_room_env (re_client env)) (re_chunks env) f
                  \<lparr>st_room = room, st_fs = ex_fs ex, st_log = ex_sent ex\<rparr> of
             None \<Rightarrow> None
           | Some (f, st) \<Rightarrow> Some (on_cached_room room (\<lambda>_. (f, st)) ex))
      | _ \<Rightarrow> Some (f, ex))"

definition get_room_messages ::
  "'m request_env \<Rightarrow> room_messages_request \<Rightarrow> client \<Rightarrow>
   ((error + unit) \<times> client) option" where
  "get_room_messages env rq c =
     (case get_matrix_room env (gm_room_id rq) c of
        Inl e \<Rightarrow> Some (Inl e, c)
      | Inr r \<Rightarrow>
          (case query_options_of env rq of
             Inl e \<Rightarrow> Some (Inl e, c)
           | Inr options \<Rightarrow>
               (case on_executor (on_memory (mc_fetch_messages (re_event_with_context env) None
                        (sr_id r) options)) c of
                  (Inl e, c) \<Rightarrow> Some (Inl (MemoryCacheError e), c)
                | (Inr f, c) \<Rightarrow>
                    (case run_fetcher env (sr_id r) f (client_executor c) of
                       None \<Rightarrow> None
                     | Some (f, ex) \<Rightarrow>
                         (case message_items (mf_sent f) of
                            (ms, r) \<Rightarrow> Some (r, send_items ms (put_executor ex c)))))))"

text \<open>\<open>MemoryCache::fetch_message\<close>.\<close>

definition fetch_message ::
  "'m request_env \<Rightarrow> string \<Rightarrow> string \<Rightarrow> executor \<Rightarrow> (memory_cache_error + message) \<times> executor" where
  "fetch_message env rid event_id ex =
     and_then (on_memory (get_or_create_room rid) ex) (\<lambda>room.
       on_cached_room room (message_fetcher_run (ce_room_env (re_client env))
         (xe_relations (re_exec env) rid event_id)))"

definition get_message ::
  "'m request_env \<Rightarrow> string \<Rightarrow> string \<Rightarrow> client \<Rightarrow> (error + message) \<times> client" where
  "get_message env rid message_id =
     with_session (\<lambda>_ c.
       case parse_event_id env InvalidMessageId message_id of
         Inl e \<Rightarrow> (Inl e, c)
       | Inr event_id \<Rightarrow>
           with_room env rid (\<lambda>r c.
             case on_executor (fetch_message env (sr_id r) event_id) c of
               (Inl e, c) \<Rightarrow> (Inl (MemoryCacheError e), c)
             | (Inr m, c) \<Rightarrow> (Inr m, c)) c)"

record message_send_request =
  ms_room_id :: string
  ms_related_message_id :: "string option"
  ms_mentioned_user_ids :: "string list"
  ms_room_mentioned :: bool
  ms_content :: "send_content option"
  ms_thread_id :: "string option"

definition message_builder_of ::
  "'m request_env \<Rightarrow> message_send_request \<Rightarrow> error + message_builder" where
  "message_builder_of env rq =
     (case ms_content rq of
        None \<Rightarrow> Inl (InternalError ''Message content not set'')
      | Some content \<Rightarrow>
          (case parse_optional_event_id env InvalidMessageId (ms_related_message_id rq) of
             Inl e \<Rightarrow> Inl e
           | Inr related \<Rightarrow>
               (case parse_user_ids env (ms_mentioned_user_ids rq) of
                  Inl e \<Rightarrow> Inl e
                | Inr mentioned \<Rightarrow>
                    (case parse_optional_event_id env InvalidThreadId (ms_thread_id rq) of
                       Inl e \<Rightarrow> Inl e
                     | Inr thread_id \<Rightarrow>
                         Inr ((message_builder_new content)
                           \<lparr>mb_related := related, mb_mentioned := mentioned,
                            mb_room_mentioned := ms_room_mentioned rq, mb_thread := thread_id\<rparr>)))))"

definition session_message_env :: "'m request_env \<Rightarrow> session_context \<Rightarrow> message_env" where
  "session_message_env env sx = (xe_messages (re_exec env))\<lparr>mv_manager := sx_media sx\<rparr>"

definition send_message_request ::
  "'m request_env \<Rightarrow> message_send_request \<Rightarrow> client \<Rightarrow> (error + string) \<times> client" where
  "send_message_request env rq c =
     (case message_builder_of env rq of
        Inl e \<Rightarrow> (Inl e, c)
      | Inr b \<Rightarrow>
          with_session (\<lambda>sx. with_room env (ms_room_id rq) (\<lambda>r c.
            on_files (send_message (session_message_env env sx) (xe_parsers (re_exec env))
              (re_message_sdk env (sr_id r)) b) (try_call env (CallTyping (sr_id r) False) c))) c)"

definition remove_message ::
  "'m request_env \<Rightarrow> string \<Rightarrow> string \<Rightarrow> string option \<Rightarrow> client \<Rightarrow> (error + unit) \<times> client" where
  "remove_message env rid message_id reason =
     with_room env rid (\<lambda>r c.
       case parse_event_id env InvalidMessageId message_id of
         Inl e \<Rightarrow> (Inl e, c)
       | Inr event_id \<Rightarrow> call (re_client env) (CallRedact (sr_id r) event_id reason) c)"

record message_change_request =
  mq_room_id :: string
  mq_message_id :: string
  mq_has_mentioned_user_ids_changed :: bool
  mq_mentioned_user_ids :: "string list"
  mq_room_mentioned :: "bool option"
  mq_content :: "send_content option"

text \<open>The new text, with mentions when the request names some.\<close>

definition changed_text ::
  "'m request_env \<Rightarrow> string \<Rightarrow> message_change_request \<Rightarrow> string list \<Rightarrow> string \<Rightarrow> error + out_text" where
  "changed_text env rid rq mentioned body =
     (let event = \<lparr>ot_body = body, ot_formatted = sdk_markdown (re_message_sdk env rid) body,
                   ot_relation = NoRelation, ot_mentions = None\<rparr>
      in if mq_has_mentioned_user_ids_changed rq \<or> mq_room_mentioned rq \<noteq> None
         then (case proto_mentions_to_matrix_mentions mentioned
                      (case mq_room_mentioned rq of None \<Rightarrow> False | Some b \<Rightarrow> b) of
                 Inl e \<Rightarrow> Inl e
               | Inr ms \<Rightarrow> Inr (event\<lparr>ot_mentions := Some ms\<rparr>))
         else Inr event)"

definition change_message ::
  "'m request_env \<Rightarrow> message_change_request \<Rightarrow> client \<Rightarrow> (error + unit) \<times> client" where
  "change_message env rq =
     with_room env (mq_room_id rq) (\<lambda>r c.
       and_then (parse_event_id env InvalidMessageId (mq_message_id rq), c) (\<lambda>event_id c.
         case mq_content rq of
           None \<Rightarrow> (Inl (InternalError ''Message content not set''), c)
         | Some content \<Rightarrow>
             and_then (parse_user_ids env (mq_mentioned_user_ids rq), c) (\<lambda>mentioned c.
               (let c = try_call env (CallTyping (sr_id r) False) c
                in case content of
                     SendText body \<Rightarrow>
                       and_then (changed_text env (sr_id r) rq mentioned body, c) (\<lambda>event c.
                         case re_edit_text env event_id of
                           Inl e \<Rightarrow> (Inl (MatrixSdkEditError e), c)
                         | Inr _ \<Rightarrow> call (re_client env) (CallEdit (sr_id r) event_id event) c)
                   | _ \<Rightarrow> (Inl NotImplemented, c)))))"

section \<open>Reactions and polls\<close>

definition create_reaction ::
  "'m request_env \<Rightarrow> string \<Rightarrow> string \<Rightarrow> string \<Rightarrow> client \<Rightarrow> (error + unit) \<times> client" where
  "create_reaction env rid message_id emoji =
     with_room env rid (\<lambda>r c.
       and_then (parse_event_id env InvalidMessageId message_id, c) (\<lambda>message_id.
         call (re_client env) (CallReaction (sr_id r) \<lparr>an_event_id = message_id, an_key = emoji\<rparr>)))"

text \<open>The cache answers an error as if it did not know the reaction.\<close>

definition remove_reaction ::
  "'m request_env \<Rightarrow> reaction \<Rightarrow> client \<Rightarrow> (error + unit) \<times> client" where
  "remove_reaction env rq =
     with_session (\<lambda>_. with_room env (r_room_id rq) (\<lambda>r c.
       (let user_id = (case r_user_id rq of
              Some u \<Rightarrow> u | None \<Rightarrow> unwrap_or_empty (own_user_id env))
        in case on_executor (on_memory (mc_remove_reaction_by_emoji (r_room_id rq) (r_message_id rq)
                  user_id (r_reaction rq))) c of
             (Inr (Some md), c) \<Rightarrow>
               and_then (parse_event_id env ReactionNotFound (rm_reaction_id md), c) (\<lambda>event_id c.
                 and_then (call (re_client env) (CallRedact (sr_id r) event_id None) c) (\<lambda>_ c.
                   (Inr (), client_send (ReactionRemovedEvent (rq\<lparr>r_user_id := Some user_id\<rparr>)) c)))
           | (_, c) \<Rightarrow> (Inl ReactionNotFound, c))))"

definition answer_poll ::
  "'m request_env \<Rightarrow> string \<Rightarrow> string \<Rightarrow> string list \<Rightarrow> client \<Rightarrow>
   (error + string \<times> string \<times> message_change list) \<times> client" where
  "answer_poll env rid message_id option_ids c =
     and_then (parse_event_id env InvalidMessageId message_id, c) (\<lambda>event_id.
       with_room env rid (\<lambda>r c.
         and_then (call (re_client env) (CallPollResponse (sr_id r) event_id option_ids) c) (\<lambda>_ c.
           and_then (assemble_poll (xe_parsers (re_exec env)) (sr_id r)
               (xe_relations (re_exec env) (sr_id r) event_id), c) (\<lambda>content c.
             (Inr (rid, message_id, [McContent (CPoll content)]), c)))))"

end
