(* ===== verification/ClientApi.thy ===== *)
theory ClientApi
  imports ClientRequests
begin

text \<open>
  client.rs, the client as the application sees it: a cell that is empty until the client is
  initialised, and the requests, each of which is passed to the client's handler and its error
  converted to the error of the API.  The requests are in four groups: the session and its
  logins, verifications and users, rooms, and messages.
\<close>

section \<open>Requests and responses\<close>

datatype session_request =
  GetLoginFlows
| GetIdentityProviders
| LoginUsernamePassword string string
| LoginSso "string option"
| RecoveryKeyVerification string
| CrossSigningStart "cross_signing_method proto_enum list"
| CrossSigningSelectMethod string "cross_signing_method proto_enum"
| CrossSigningConfirm string

datatype user_request =
  AbortVerification string
| GetGlobalSettings
| GetUser string
| SearchUsers string u32
| SetStatus user_status
| GetPublicRooms "u32 option" "string option" "string option"
| Invite string "string list"
| InvitationReply string bool

datatype room_request =
  GetRooms bool bool
| CreateGroupRoom "string option" "string list" "room_join_rule proto_enum" "string option"
| CreateDirectRoom "string option" string "string option"
| ChangeRoom room_change_request
| LeaveRoom string
| JoinRoom string
| KnockRoom string "string option"

datatype message_request =
  GetRoomMessages room_messages_request
| MarkAsRead string
| ActivateTypingNotice string
| PinUnpinMessage string string bool
| SendMessage message_send_request
| RemoveMessage string string "string option"
| ChangeMessage message_change_request
| CreateReaction string string string
| RemoveReaction reaction
| GetMessage string string
| AnswerPoll string string "string list"

datatype client_response =
  RespUnit
| RespFlows "login_flow list"
| RespIdentityProviders "string list"
| RespStatus status_code
| RespLoginUrl string
| RespVerificationEnd "string option" end_result
| RespFlowId string
| RespSettings notification_setting
| RespUser user
| RespUsers "user list"
| RespPublicRooms "public_room list" "string option"
| RespRoomChange string "room_change list"
| RespRooms "room list"
| RespRoom room
| RespRoomLeft string room_leave_reason "string option"
| RespMessageId string
| RespMessage message
| RespMessageChange string string "message_change list"

text \<open>The result of a handler as a response.\<close>

definition respond ::
  "('a \<Rightarrow> client_response) \<Rightarrow> (error + 'a) \<times> client \<Rightarrow> (error + client_response) \<times> client" where
  "respond f rc = (case rc of (Inl e, c) \<Rightarrow> (Inl e, c) | (Inr x, c) \<Rightarrow> (Inr (f x), c))"

section \<open>The handlers of the requests\<close>

fun session_handler ::
  "'m request_env \<Rightarrow> session_request \<Rightarrow> client \<Rightarrow> (error + client_response) \<times> client" where
  "session_handler env GetLoginFlows c = respond RespFlows (get_login_flows (re_client env) c)"
| "session_handler env GetIdentityProviders c =
     respond RespIdentityProviders (get_identity_providers (re_client env) c)"
| "session_handler env (LoginUsernamePassword username password) c =
     respond RespStatus (login_username_password (re_client env) username password c)"
| "session_handler env (LoginSso identity_provider) c =
     respond RespLoginUrl (login_sso (re_client env) identity_provider c)"
| "session_handler env (RecoveryKeyVerification recovery_key) c =
     respond (\<lambda>(i, r). RespVerificationEnd i r) (recovery_key_verification env recovery_key c)"
| "session_handler env (CrossSigningStart methods) c =
     respond RespFlowId (cross_signing_start env methods c)"
| "session_handler env (CrossSigningSelectMethod flow_id method) c =
     respond (\<lambda>_. RespUnit) (cross_signing_select_method flow_id method c)"
| "session_handler env (CrossSigningConfirm flow_id) c =
     respond (\<lambda>_. RespUnit) (cross_signing_confirm flow_id c)"

fun user_handler ::
  "'m request_env \<Rightarrow> user_request \<Rightarrow> client \<Rightarrow> (error + client_response) \<times> client" where
  "user_handler env (AbortVerification flow_id) c =
     respond (\<lambda>(i, r). RespVerificationEnd i r) (abort_verification flow_id c)"
| "user_handler env GetGlobalSettings c = respond RespSettings (get_global_settings env c)"
| "user_handler env (GetUser user_id) c = respond (\<lambda>(u, _). RespUser u) (get_user env user_id c)"
| "user_handler env (SearchUsers query limit) c = respond RespUsers (search_users env query limit c)"
| "user_handler env (SetStatus status) c = respond (\<lambda>_. RespUnit) (set_status env status c)"
| "user_handler env (GetPublicRooms limit since term) c =
     respond (\<lambda>(rooms, next_batch). RespPublicRooms rooms next_batch)
       (get_public_rooms env limit since term c)"
| "user_handler env (Invite rid invitees) c =
     respond (\<lambda>(i, changes). RespRoomChange i changes) (invite env rid invitees c)"
| "user_handler env (InvitationReply rid accepted) c =
     respond (\<lambda>_. RespUnit) (invitation_reply env rid accepted c)"

fun room_handler ::
  "'m request_env \<Rightarrow> room_request \<Rightarrow> client \<Rightarrow> (error + client_response) \<times> client" where
  "room_handler env (GetRooms include_joined include_unjoined) c =
     respond RespRooms (get_rooms env include_joined include_unjoined c)"
| "room_handler env (CreateGroupRoom name invitees rule avatar) c =
     respond RespRoom (create_group_room env name invitees rule avatar c)"
| "room_handler env (CreateDirectRoom name invitee avatar) c =
     respond RespRoom (create_direct_room env name invitee avatar c)"
| "room_handler env (ChangeRoom rq) c =
     respond (\<lambda>(i, changes). RespRoomChange i changes) (change_room env rq c)"
| "room_handler env (LeaveRoom rid) c =
     respond (\<lambda>(i, reason, message). RespRoomLeft i reason message) (leave_room env rid c)"
| "room_handler env (JoinRoom rid) c = respond RespRoom (join_room env rid c)"
| "room_handler env (KnockRoom rid message) c = respond (\<lambda>_. RespUnit) (knock_room env rid message c)"

text \<open>A request for the messages of a room may still be waiting for the server.\<close>

fun message_handler ::
  "'m request_env \<Rightarrow> message_request \<Rightarrow> client \<Rightarrow> ((error + client_response) \<times> client) option" where
  "message_handler env (GetRoomMessages rq) c =
     map_option (respond (\<lambda>_. RespUnit)) (get_room_messages env rq c)"
| "message_handler env (MarkAsRead rid) c =
     Some (respond (\<lambda>(i, changes). RespRoomChange i changes) (mark_as_read env rid c))"
| "message_handler env (ActivateTypingNotice rid) c =
     Some (respond (\<lambda>_. RespUnit) (activate_typing_notice env rid c))"
| "message_handler env (PinUnpinMessage rid message_id pinned) c =
     Some (respond (\<lambda>(i, changes). RespRoomChange i changes) (pin_unpin_message env rid message_id pinned c))"
| "message_handler env (SendMessage rq) c = Some (respond RespMessageId (send_message_request env rq c))"
| "message_handler env (RemoveMessage rid message_id reason) c =
     Some (respond (\<lambda>_. RespUnit) (remove_message env rid message_id reason c))"
| "message_handler env (ChangeMessage rq) c = Some (respond (\<lambda>_. RespUnit) (change_message env rq c))"
| "message_handler env (CreateReaction rid message_id emoji) c =
     Some (respond (\<lambda>_. RespUnit) (create_reaction env rid message_id emoji c))"
| "message_handler env (RemoveReaction rq) c = Some (respond (\<lambda>_. RespUnit) (remove_reaction env rq c))"
| "message_handler env (GetMessage rid message_id) c =
     Some (respond RespMessage (get_message env rid message_id c))"
| "message_handler env (AnswerPoll rid message_id option_ids) c =
     Some (respond (\<lambda>(i, m, changes). RespMessageChange i m changes)
       (answer_poll env rid message_id option_ids c))"

section \<open>The client\<close>

type_synonym matrix_client = "client option"

definition matrix_client_new :: matrix_client where
  "matrix_client_new = None"

definition inner :: "matrix_client \<Rightarrow> error + client" where
  "inner mc = (case mc of None \<Rightarrow> Inl NotInitialized | Some c \<Rightarrow> Inr c)"

text \<open>
  Initialising: the first step looks at the cell and builds the client, the second one sets the
  cell; another request may set it in between.
\<close>

definition initialize_client ::
  "'m client_env \<Rightarrow> initialization_request \<Rightarrow> world \<Rightarrow> matrix_client \<Rightarrow> error + client \<times> status_code" where
  "initialize_client env request w mc =
     (if mc \<noteq> None then Inl AlreadyInitialized else client_new env request w)"

definition initialize_set :: "client \<Rightarrow> status_code \<Rightarrow> matrix_client \<Rightarrow> (error + status_code) \<times> matrix_client" where
  "initialize_set c status mc =
     (case mc of
        Some _ \<Rightarrow> (Inl (InternalError ''Unknown error initializing client''), mc)
      | None \<Rightarrow> (Inr status, Some c))"

definition initialize ::
  "'m client_env \<Rightarrow> initialization_request \<Rightarrow> world \<Rightarrow> matrix_client \<Rightarrow>
   (chat_error + status_code) \<times> matrix_client" where
  "initialize env request w mc =
     (case initialize_client env request w mc of
        Inl e \<Rightarrow> (Inl (error_into_chat_error (ce_displays env) e), mc)
      | Inr (c, status) \<Rightarrow>
          (case initialize_set c status mc of
             (Inl e, mc) \<Rightarrow> (Inl (error_into_chat_error (ce_displays env) e), mc)
           | (Inr status, mc) \<Rightarrow> (Inr status, mc)))"

definition with_inner ::
  "displays \<Rightarrow> (client \<Rightarrow> (error + 'a) \<times> client) \<Rightarrow> matrix_client \<Rightarrow> (chat_error + 'a) \<times> matrix_client" where
  "with_inner d f mc =
     (case inner mc of
        Inl e \<Rightarrow> (Inl (error_into_chat_error d e), mc)
      | Inr c \<Rightarrow>
          (case f c of
             (Inl e, c) \<Rightarrow> (Inl (error_into_chat_error d e), Some c)
           | (Inr x, c) \<Rightarrow> (Inr x, Some c)))"

definition re_displays :: "'m request_env \<Rightarrow> displays" where
  "re_displays env = ce_displays (re_client env)"

definition handle_session_request ::
  "'m request_env \<Rightarrow> session_request \<Rightarrow> matrix_client \<Rightarrow> (chat_error + client_response) \<times> matrix_client" where
  "handle_session_request env rq = with_inner (re_displays env) (session_handler env rq)"

definition handle_user_request ::
  "'m request_env \<Rightarrow> user_request \<Rightarrow> matrix_client \<Rightarrow> (chat_error + client_response) \<times> matrix_client" where
  "handle_user_request env rq = with_inner (re_displays env) (user_handler env rq)"

definition handle_room_request ::
  "'m request_env \<Rightarrow> room_request \<Rightarrow> matrix_client \<Rightarrow> (chat_error + client_response) \<times> matrix_client" where
  "handle_room_request env rq = with_inner (re_displays env) (room_handler env rq)"

definition handle_message_request ::
  "'m request_env \<Rightarrow> message_request \<Rightarrow> matrix_client \<Rightarrow>
   ((chat_error + client_response) \<times> matrix_client) option" where
  "handle_message_request env rq mc =
     (case inner mc of
        Inl e \<Rightarrow> Some (Inl (error_into_chat_error (re_displays env) e), mc)
      | Inr c \<Rightarrow>
          (case message_handler env rq c of
             None \<Rightarrow> None
           | Some rc \<Rightarrow> Some (with_inner (re_displays env) (\<lambda>_. rc) mc)))"

definition client_on_response :: "'m client_env \<Rightarrow> response option \<Rightarrow> matrix_client \<Rightarrow> matrix_client" where
  "client_on_response env response mc =
     (case inner mc of Inl _ \<Rightarrow> mc | Inr c \<Rightarrow> Some (on_response env response c))"

end
