(* ===== verification/ClientProperties.thy ===== *)
theory ClientProperties
  imports ClientApi EventProperties
begin

text \<open>
  What the requests of client.rs do across the components: resetting a session and its caches and
  files, removing a reaction while the server's echo of the removal is on its way, changing a
  room, aborting a verification, and requests with invalid IDs.
\<close>

section \<open>Resetting the session\<close>

lemma client_update_simps [simp]:
  "mtx_data (cl_session (put_session sx c)) = sx"
  "mtx_poisoned (cl_session (put_session sx c)) = mtx_poisoned (cl_session c)"
  "cl_old_caches (put_session sx c) = cl_old_caches c"
  "cl_world (put_session sx c) = cl_world c" "cl_calls (put_session sx c) = cl_calls c"
  "cl_data_root (put_session sx c) = cl_data_root c"
  "cl_encryption_secret (put_session sx c) = cl_encryption_secret c"
  by (simp_all add: put_session_def)

lemma reset_session_InrD:
  assumes "reset_session env c = (Inr u, c')"
  obtains fs w sx where
    "remove_session_data (cl_data_root c) (w_fs (cl_world c)) = (Inr (), fs)"
    "session_context_new env (cl_homeserver c) (cl_data_root c) (cl_encryption_secret c)
       (cl_database_secret c) (cl_verify_certificates c) (client_log (c\<lparr>cl_world := (cl_world c)\<lparr>w_fs := fs\<rparr>\<rparr>))
       ((cl_world c)\<lparr>w_fs := fs\<rparr>) = (Inr sx, w)"
    "\<not> mtx_poisoned (cl_session c)" "cl_world c' = w" "mtx_data (cl_session c') = sx"
    "cl_old_caches c' = sx_proto (mtx_data (cl_session c)) # cl_old_caches c"
    "cl_data_root c' = cl_data_root c" "cl_encryption_secret c' = cl_encryption_secret c"
  using assms
  by (auto simp: reset_session_def Let_def split: prod.splits sum.splits if_splits)

text \<open>
  A file system that reports every missing entry as such and no other one, and whose files lie in
  directories.
\<close>

definition no_outcome :: "string \<Rightarrow> fs \<Rightarrow> bool" where
  "no_outcome e fs \<longleftrightarrow> list_all (\<lambda>out. case out of IoOk \<Rightarrow> True | IoFail e' \<Rightarrow> e' \<noteq> e | IoTorn _ e' \<Rightarrow> e' \<noteq> e)
     (fs_outcomes fs)"

definition fs_tree :: "fs \<Rightarrow> bool" where
  "fs_tree fs \<longleftrightarrow> list_all (\<lambda>(k, _). list_all (is_dir fs) (prefixes_of (butlast k))) (fs_files fs)"

lemma in_prefixes_of_iff: "xs \<in> set (prefixes_of ys) \<longleftrightarrow> prefix xs ys"
  by (induction ys arbitrary: xs) (auto simp: prefix_Cons)

lemma next_outcome_no:
  "next_outcome fs = (out, fs') \<Longrightarrow> no_outcome e fs \<Longrightarrow>
   no_outcome e fs' \<and> out \<noteq> IoFail e \<and> (\<forall>n. out \<noteq> IoTorn n e)"
  by (auto simp: next_outcome_def no_outcome_def split: list.splits)

lemma fs_tree_below:
  assumes "fs_tree fs" "file_at fs q \<noteq> None" "prefix k (fs_key fs q)" "k \<noteq> fs_key fs q"
  shows "is_dir fs k"
proof -
  have "prefix k (butlast (fs_key fs q))"
    using assms(3,4) by (metis append_butlast_last_id butlast.simps(1) prefix_bot.extremum_unique prefix_snoc)
  with assms(1,2) show ?thesis
    by (force simp: fs_tree_def list_all_iff file_at_def in_prefixes_of_iff dest: hm_get_in_set)
qed

lemma fs_tree_remove:
  assumes "fs_tree fs"
  shows "fs_tree (fs\<lparr>fs_files := filter (\<lambda>f. \<not> below k (fst f)) (fs_files fs),
    fs_dirs := filter (\<lambda>d. \<not> below k d) (fs_dirs fs)\<rparr>)"
proof -
  have "d = [] \<or> d \<in> set (fs_dirs fs) \<and> \<not> prefix k d"
    if "(k', x) \<in> set (fs_files fs)" "\<not> prefix k k'" "prefix d (butlast k')" for k' x d
  proof -
    have "is_dir fs d" using assms that(1,3) by (force simp: fs_tree_def list_all_iff in_prefixes_of_iff)
    moreover have "\<not> prefix k d"
      using that(2,3) prefixeq_butlast [of k'] by (meson prefix_order.trans)
    ultimately show ?thesis by (simp add: is_dir_def)
  qed
  then show ?thesis
    by (force simp: fs_tree_def list_all_iff in_prefixes_of_iff is_dir_def below_def)
qed

lemma hm_get_filter_key: "hm_get (filter (\<lambda>f. P (fst f)) m) k = (if P k then hm_get m k else None)"
  by (induction m) auto

text \<open>Removing a directory, when it has succeeded.\<close>

lemma remove_directory_effect:
  assumes "remove_directory p fs = (Inr (), fs')" "fs_tree fs" "no_outcome not_found fs"
    "fs_key fs p \<noteq> []"
  shows "fs_tree fs' \<and> no_outcome not_found fs' \<and> fs_key fs' = fs_key fs \<and>
    (\<forall>q. file_at fs' q = (if prefix (fs_key fs p) (fs_key fs q) then None else file_at fs q))"
proof -
  obtain out f where o: "next_outcome fs = (out, f)" by (cases "next_outcome fs")
  note k = file_at_keeps [OF o] and d = next_outcome_keeps [OF o] and n = next_outcome_no [OF o assms(3)]
  have "is_dir f = is_dir fs" using d by (simp add: is_dir_def fun_eq_iff)
  then have t: "fs_tree f" using assms(2) d by (simp add: fs_tree_def)
  show ?thesis
  proof (cases "fs_key f p \<in> set (fs_dirs f)")
    case True
    then have "fs' = f\<lparr>fs_files := filter (\<lambda>g. \<not> below (fs_key f p) (fst g)) (fs_files f),
        fs_dirs := filter (\<lambda>d. \<not> below (fs_key f p) d) (fs_dirs f)\<rparr>"
      using assms(1) o n by (auto simp: remove_directory_def fs_remove_dir_all_def Let_def not_found_def
          split: outcome.splits if_splits)
    moreover from this have "no_outcome e fs' = no_outcome e f" for e by (simp add: no_outcome_def)
    moreover from calculation have "file_at fs' q =
        (if prefix (fs_key f p) (fs_key f q) then None else file_at f q)" for q
      by (simp add: file_at_def below_def hm_get_filter_key [where P = "\<lambda>x. \<not> prefix (fs_key f p) x"])
    ultimately show ?thesis
      using t k n fs_tree_remove [OF t, of "fs_key f p"] by simp
  next
    case False
    then have f: "fs' = f" "file_at f p = None"
      using assms(1) o n by (auto simp: remove_directory_def fs_remove_dir_all_def Let_def not_found_def
          split: outcome.splits if_splits)
    have "file_at f q = None" if "prefix (fs_key f p) (fs_key f q)" for q
    proof (rule ccontr)
      assume q: "file_at f q \<noteq> None"
      then have "fs_key f p \<noteq> fs_key f q" using f(2) by (auto simp: file_at_def)
      from fs_tree_below [OF t q that this] False assms(4) k show False by (simp add: is_dir_def)
    qed
    with f t n k show ?thesis by auto
  qed
qed

lemma fs_create_dir_all_keeps:
  "file_at (snd (fs_create_dir_all p fs)) q = file_at fs q \<and> fs_key (snd (fs_create_dir_all p fs)) = fs_key fs"
proof -
  obtain out f where o: "next_outcome fs = (out, f)" by (cases "next_outcome fs")
  have "file_at (f\<lparr>fs_dirs := x\<rparr>) q = file_at f q" for x by (simp add: file_at_def)
  then show ?thesis
    using o file_at_keeps [OF o, of q] by (cases out) (auto simp: fs_create_dir_all_def)
qed

lemma from_directory_keeps:
  "from_directory cd dir pw w = (c, w') \<Longrightarrow>
   fs_key (w_fs w') = fs_key (w_fs w) \<and> file_at (w_fs w') q = file_at (w_fs w) q"
  by (auto simp: from_directory_def read_from_file_system_def read_info_def read_users_def
      initialize_directory_keeps Let_def split: prod.splits sum.splits dest!: decrypt_file_world [where q = q])

lemma session_context_new_keeps:
  assumes "session_context_new env url root secret db verify sent w = (r, w')"
  shows "fs_key (w_fs w') = fs_key (snd (ce_build env (client_builder url (get_session_dir root) db verify) (w_fs w))) \<and>
    file_at (w_fs w') q = file_at (snd (ce_build env (client_builder url (get_session_dir root) db verify) (w_fs w))) q"
  using assms
  by (auto simp: session_context_new_def build_client_def media_manager_new_def init_dirs_def
      init_dir_relative_def Let_def fs_create_dir_all_keeps split: prod.splits sum.splits
      dest!: from_directory_keeps [where q = q])

lemma session_dirs_not_root:
  "fs_key fs (get_session_dir root) \<noteq> []" "fs_key fs (get_media_dir root) \<noteq> []"
  "fs_key fs (get_cache_dir root) \<noteq> []"
  by (simp_all add: get_session_dir_def get_media_dir_def get_cache_dir_def session_dir_name_def
      media_dir_name_def cache_dir_name_def path_comps_join_plain plain_name_def slash_def fs_key_def
      resolve_comps_append)

definition in_session_data :: "fs \<Rightarrow> path \<Rightarrow> path \<Rightarrow> bool" where
  "in_session_data fs root p \<longleftrightarrow>
     list_ex (\<lambda>d. prefix (fs_key fs d) (fs_key fs p)) [get_session_dir root, get_media_dir root, get_cache_dir root]"

lemma remove_session_data_effect:
  assumes "remove_session_data root fs = (Inr (), fs')" "fs_tree fs" "no_outcome not_found fs"
  shows "fs_key fs' = fs_key fs \<and>
    file_at fs' q = (if in_session_data fs root q then None else file_at fs q)"
proof -
  obtain f1 f2 where 1: "remove_directory (get_session_dir root) fs = (Inr (), f1)"
    and 2: "remove_directory (get_media_dir root) f1 = (Inr (), f2)"
    and 3: "remove_directory (get_cache_dir root) f2 = (Inr (), fs')"
    using assms(1) by (auto simp: remove_session_data_def elim!: and_then_cases)
  note e1 = remove_directory_effect [OF 1 assms(2,3) session_dirs_not_root(1)]
  note e2 = remove_directory_effect [OF 2 _ _ session_dirs_not_root(2)]
  note e3 = remove_directory_effect [OF 3 _ _ session_dirs_not_root(3)]
  from e1 e2 e3 show ?thesis by (simp add: in_session_data_def)
qed

text \<open>
  What the code relies on when the SDK opens its store: it writes only below the directory it is
  given, where its files are not called like the session file.
\<close>

definition store_file :: "fs \<Rightarrow> path \<Rightarrow> path \<Rightarrow> bool" where
  "store_file fs dir p \<longleftrightarrow> prefix (fs_key fs dir) (fs_key fs p) \<and>
     (case drop (length (fs_key fs dir)) (fs_key fs p) of [] \<Rightarrow> False | n # _ \<Rightarrow> n \<noteq> auth_file_name)"

definition own_store :: "'m client_env \<Rightarrow> bool" where
  "own_store env \<longleftrightarrow> (\<forall>cfg fs p. fs_key (snd (ce_build env cfg fs)) = fs_key fs \<and>
     (file_at (snd (ce_build env cfg fs)) p = file_at fs p \<or> store_file fs (cc_store cfg) p))"

lemma store_file_cong: "fs_key fs' = fs_key fs \<Longrightarrow> store_file fs' = store_file fs"
  by (simp add: store_file_def fun_eq_iff)

lemma client_builder_store [simp]: "cc_store (client_builder url dir db verify) = dir"
  by (simp add: client_builder_def Let_def)

text \<open>
  Claim C23: A reset of the session that reports success leaves nothing of the old session in the
  directories of the session, the media and the cache, whatever the new session has failed to do:
  every file in them is one that the SDK has created for its new store in the emptied session
  directory, and the session file is gone.  Every file outside them is as it was.
\<close>

theorem reset_removes_session_data:
  assumes "reset_session env c = (Inr (), c')" and "own_store env"
    and "fs_tree (w_fs (cl_world c))" "no_outcome not_found (w_fs (cl_world c))"
  shows "\<exists>emptied. file_at emptied p =
      (if in_session_data (w_fs (cl_world c)) (cl_data_root c) p then None else file_at (w_fs (cl_world c)) p) \<and>
    file_at (w_fs (cl_world c')) p =
      (if store_file (w_fs (cl_world c)) (get_session_dir (cl_data_root c)) p
       then file_at (snd (ce_build env (client_builder (cl_homeserver c) (get_session_dir (cl_data_root c))
              (cl_database_secret c) (cl_verify_certificates c)) emptied)) p
       else file_at emptied p)"
proof (rule reset_session_InrD [OF assms(1)])
  fix fs w sx
  assume r: "remove_session_data (cl_data_root c) (w_fs (cl_world c)) = (Inr (), fs)"
    and n: "session_context_new env (cl_homeserver c) (cl_data_root c) (cl_encryption_secret c)
       (cl_database_secret c) (cl_verify_certificates c) (client_log (c\<lparr>cl_world := (cl_world c)\<lparr>w_fs := fs\<rparr>\<rparr>))
       ((cl_world c)\<lparr>w_fs := fs\<rparr>) = (Inr sx, w)"
    and w: "cl_world c' = w"
  let ?cfg = "client_builder (cl_homeserver c) (get_session_dir (cl_data_root c))
       (cl_database_secret c) (cl_verify_certificates c)"
  note e = remove_session_data_effect [OF r assms(3,4), of p]
  have k: "file_at (w_fs w) p = file_at (snd (ce_build env ?cfg fs)) p"
    using session_context_new_keeps [OF n, of p] by simp
  have "file_at (snd (ce_build env ?cfg fs)) p = file_at fs p \<or> store_file fs (get_session_dir (cl_data_root c)) p"
    using assms(2) unfolding own_store_def by (metis client_builder_store)
  with e have "\<not> store_file (w_fs (cl_world c)) (get_session_dir (cl_data_root c)) p \<Longrightarrow>
      file_at (snd (ce_build env ?cfg fs)) p = file_at fs p"
    using store_file_cong by metis
  then show ?thesis using e k w by (intro exI [of _ fs]) simp
qed

text \<open>
  Claim C12: Resetting a session does not stop the save task of its cache: when that task runs
  once more, at any later time, it replaces what the new session has stored by the old session's
  sync token and users, and the next start of the client opens them.
\<close>

theorem old_cache_survives_reset:
  assumes "reset_session env c = (Inr (), c')"
    and "old = sx_proto (mtx_data (cl_session c))"
    and "cache_at (get_cache_dir (cl_data_root c)) (cl_encryption_secret c) old"
    and "codecs_ok (ce_codecs env)" "mtx_data (pc_users old) = Some us"
      "\<forall>u \<in> set us. user_codec_ok (ce_codecs env) u"
    and "cl_old_caches c2 = cl_old_caches c'"
    and "write_users (ce_codecs env) old (cl_world c2) = (Inr (), w1)"
      "write_info (ce_codecs env) old w1 = (Inr (), w2)" "faultless (w_fs w2)"
  shows "cl_world (save_old_cache env 0 c2) = w2 \<and>
    (let opened = fst (from_directory (ce_codecs env) (get_cache_dir (cl_data_root c'))
           (cl_encryption_secret c') w2)
     in cache_sync_token opened = cache_sync_token old \<and> cached_user i opened = cached_user i old)"
proof -
  have c': "cl_old_caches c' = old # cl_old_caches c" "cl_data_root c' = cl_data_root c"
    "cl_encryption_secret c' = cl_encryption_secret c"
    by (rule reset_session_InrD [OF assms(1)]; simp add: assms(2))+
  note o = saved_cache_opens [OF assms(4,3,5,6,8,9,10)]
  show ?thesis
    using o assms(3,5,7) c'
    by (simp add: save_old_cache_def Let_def cache_sync_token_def inner_sync_token_def cache_at_def
        lock_ok cached_user_find cached_users_def)
qed

text \<open>A reset that meets no failure.\<close>

lemma remove_directory_faultless:
  assumes "faultless fs" "file_at fs p = None"
  shows "\<exists>fs'. remove_directory p fs = (Inr (), fs') \<and> faultless fs' \<and>
    (\<forall>q. file_at fs q = None \<longrightarrow> file_at fs' q = None)"
proof -
  have "hm_get (fs_files fs) k = None \<Longrightarrow>
      hm_get (filter (\<lambda>f. \<not> below k' (fst f)) (fs_files fs)) k = None" for k k'
    by (simp add: hm_get_filter_key [where P = "\<lambda>x. \<not> below k' x"])
  with assms show ?thesis
    by (auto simp: remove_directory_def fs_remove_dir_all_def Let_def file_at_def)
qed

lemma remove_session_data_faultless:
  assumes "faultless fs" "file_at fs (get_session_dir root) = None" "file_at fs (get_media_dir root) = None"
    "file_at fs (get_cache_dir root) = None"
  shows "\<exists>fs'. remove_session_data root fs = (Inr (), fs') \<and> faultless fs'"
proof -
  obtain f1 where 1: "remove_directory (get_session_dir root) fs = (Inr (), f1)" "faultless f1"
    and k1: "\<And>q. file_at fs q = None \<Longrightarrow> file_at f1 q = None"
    using remove_directory_faultless [OF assms(1,2)] by blast
  obtain f2 where 2: "remove_directory (get_media_dir root) f1 = (Inr (), f2)" "faultless f2"
    and k2: "\<And>q. file_at f1 q = None \<Longrightarrow> file_at f2 q = None"
    using remove_directory_faultless [OF 1(2) k1 [OF assms(3)]] by blast
  show ?thesis
    using remove_directory_faultless [OF 2(2) k2 [OF k1 [OF assms(4)]]]
    by (auto simp: remove_session_data_def 1 2)
qed

lemma session_context_new_ok:
  assumes "\<And>k fs. fst (ce_build env k fs) = Inr ()"
  shows "\<exists>sx w'. session_context_new env url root secret db verify sent w = (Inr sx, w')"
proof -
  obtain fs where "ce_build env (client_builder url (get_session_dir root) db verify) (w_fs w) = (Inr (), fs)"
    using assms by (metis prod.collapse)
  then show ?thesis by (simp add: session_context_new_def build_client_def split: prod.split)
qed

lemma reset_session_ok:
  assumes "faultless (w_fs (cl_world c))" "\<And>k fs. fst (ce_build env k fs) = Inr ()" "\<not> mtx_poisoned (cl_session c)"
    "file_at (w_fs (cl_world c)) (get_session_dir (cl_data_root c)) = None"
    "file_at (w_fs (cl_world c)) (get_media_dir (cl_data_root c)) = None"
    "file_at (w_fs (cl_world c)) (get_cache_dir (cl_data_root c)) = None"
  shows "\<exists>c'. reset_session env c = (Inr (), c')"
proof -
  obtain fs where fs: "remove_session_data (cl_data_root c) (w_fs (cl_world c)) = (Inr (), fs)"
    using remove_session_data_faultless [OF assms(1,4,5,6)] by blast
  let ?c = "c\<lparr>cl_world := (cl_world c)\<lparr>w_fs := fs\<rparr>\<rparr>"
  obtain sx w' where "session_context_new env (cl_homeserver ?c) (cl_data_root ?c) (cl_encryption_secret ?c)
      (cl_database_secret ?c) (cl_verify_certificates ?c) (client_log ?c) (cl_world ?c) = (Inr sx, w')"
    using session_context_new_ok [where env = env, OF assms(2)] by blast
  with assms(3) show ?thesis
    unfolding reset_session_def fs Let_def by simp
qed

text \<open>An SDK that creates the directory of its store and a database in it.\<close>

definition toy_build :: "client_config \<Rightarrow> fs \<Rightarrow> (client_build_error + unit) \<times> fs" where
  "toy_build cfg fs =
     (Inr (), fs_put (path_join (cc_store cfg) \<lparr>path_abs = False, path_comps = [''db'']\<rparr>) []
        (snd (fs_create_dir_all (cc_store cfg) fs)))"

lemma toy_build_ok [simp]: "fst (toy_build cfg fs) = Inr ()"
  by (simp add: toy_build_def)

lemma toy_build_own_store: "own_store (env\<lparr>ce_build := toy_build\<rparr>)"
proof -
  have "fs_key (snd (toy_build cfg fs)) = fs_key fs" for cfg fs
    by (simp add: toy_build_def fs_create_dir_all_keeps)
  moreover have "file_at (snd (toy_build cfg fs)) p = file_at fs p \<or> store_file fs (cc_store cfg) p" for cfg fs p
    by (simp add: toy_build_def fs_create_dir_all_keeps store_file_def path_join_def fs_key_def
        resolve_comps_append auth_file_name_def)
  ultimately show ?thesis by (simp add: own_store_def)
qed

text \<open>A client on the data directory \<open>/\<close> with the one user and the token of the cache below.\<close>

definition toy_client :: "media_manager \<Rightarrow> client" where
  "toy_client mm =
     \<lparr>cl_session = new_mutex \<lparr>sx_queue = event_manager_new (executor_new memory_cache_new (w_fs toy_world)),
        sx_proto = toy_cache\<lparr>pc_info_file := parse_path ''/cache/info'',
          pc_users_file := parse_path ''/cache/users''\<rparr>, sx_media = mm\<rparr>,
      cl_idps = new_mutex None, cl_verifications = new_mutex [], cl_aborted = [], cl_homeserver = '''',
      cl_device_name = '''', cl_data_root = parse_path ''/'', cl_encryption_secret = ''p'',
      cl_database_secret = '''', cl_verify_certificates = True,
      cl_world = toy_world\<lparr>w_fs := (w_fs toy_world)\<lparr>fs_dirs := [[''cache'']]\<rparr>\<rparr>,
      cl_items = [], cl_calls = [], cl_old_caches = []\<rparr>"

lemmas toy_paths = get_session_dir_def get_media_dir_def get_cache_dir_def session_dir_name_def
  media_dir_name_def cache_dir_name_def parse_path_def slash_def path_join_def fs_key_def file_at_def

lemma toy_client_cache:
  "cache_at (get_cache_dir (cl_data_root (toy_client mm))) (cl_encryption_secret (toy_client mm))
     (sx_proto (mtx_data (cl_session (toy_client mm))))"
  by (simp add: cache_at_def toy_client_def toy_cache_def get_cache_dir_def cache_dir_name_def
      path_join_def parse_path_def slash_def)

lemma toy_client_save:
  "\<exists>w1 w2. write_users toy_codecs (sx_proto (mtx_data (cl_session (toy_client mm)))) (cl_world (toy_client mm)) =
       (Inr (), w1) \<and>
     write_info toy_codecs (sx_proto (mtx_data (cl_session (toy_client mm)))) w1 = (Inr (), w2) \<and>
     faultless (w_fs w2)"
  by (simp add: toy_cache_defs toy_client_def)

theorem old_cache_survives_reset_witness:
  "\<forall>env mm. \<exists>c' w2. reset_session (env\<lparr>ce_codecs := toy_codecs, ce_build := toy_build\<rparr>) (toy_client mm) =
       (Inr (), c') \<and>
     cl_world (save_old_cache (env\<lparr>ce_codecs := toy_codecs, ce_build := toy_build\<rparr>) 0
       (c'\<lparr>cl_world := cl_world (toy_client mm)\<rparr>)) = w2 \<and>
     cache_sync_token (fst (from_directory toy_codecs (get_cache_dir (cl_data_root c'))
       (cl_encryption_secret c') w2)) = Some ''t''"
proof (intro allI)
  fix env :: "'a client_env" and mm
  let ?env = "env\<lparr>ce_codecs := toy_codecs, ce_build := toy_build\<rparr>" and ?c = "toy_client mm"
  let ?old = "sx_proto (mtx_data (cl_session ?c))"
  obtain c' where c': "reset_session ?env ?c = (Inr (), c')"
    using reset_session_ok [of ?c ?env] by (auto simp: toy_client_def toy_world_def faultless_def toy_paths)
  obtain w1 w2 where w: "write_users toy_codecs ?old (cl_world ?c) = (Inr (), w1)"
    "write_info toy_codecs ?old w1 = (Inr (), w2)" "faultless (w_fs w2)"
    using toy_client_save by blast
  have users: "mtx_data (pc_users ?old) = Some [toy_user]"
    by (simp add: toy_client_def toy_cache_def)
  have token: "cache_sync_token ?old = Some ''t''"
    by (simp add: toy_client_def toy_cache_def cache_sync_token_def inner_sync_token_def lock_ok
        flatten_result_def toy_info_def)
  show "\<exists>c' w2. reset_session ?env ?c = (Inr (), c') \<and>
     cl_world (save_old_cache ?env 0 (c'\<lparr>cl_world := cl_world ?c\<rparr>)) = w2 \<and>
     cache_sync_token (fst (from_directory toy_codecs (get_cache_dir (cl_data_root c'))
       (cl_encryption_secret c') w2)) = Some ''t''"
    using old_cache_survives_reset [OF c' refl toy_client_cache, of "[toy_user]" "c'\<lparr>cl_world := cl_world ?c\<rparr>" w1 w2]
      c' w users token by (simp add: toy_codecs_ok Let_def)
qed

theorem reset_removes_session_data_witness:
  "\<forall>env mm. let c = (toy_client mm)\<lparr>cl_world := toy_world\<lparr>w_fs := (w_fs toy_world)
         \<lparr>fs_dirs := [[''session''], [''x'']],
          fs_files := [([''session'', ''auth''], [1]), ([''x'', ''session''], [2])]\<rparr>\<rparr>\<rparr>
     in \<exists>c'. reset_session (env\<lparr>ce_build := toy_build\<rparr>) c = (Inr (), c') \<and>
       file_at (w_fs (cl_world c')) (parse_path ''/session/auth'') = None \<and>
       file_at (w_fs (cl_world c')) (parse_path ''/x/session'') = Some [2]"
proof (intro allI)
  fix env :: "'a client_env" and mm
  let ?c = "(toy_client mm)\<lparr>cl_world := toy_world\<lparr>w_fs := (w_fs toy_world)
         \<lparr>fs_dirs := [[''session''], [''x'']],
          fs_files := [([''session'', ''auth''], [1]), ([''x'', ''session''], [2])]\<rparr>\<rparr>\<rparr>"
  let ?env = "env\<lparr>ce_build := toy_build\<rparr>"
  obtain c' where c': "reset_session ?env ?c = (Inr (), c')"
    using reset_session_ok [of ?c ?env] by (auto simp: toy_client_def toy_world_def faultless_def toy_paths)
  have tree: "fs_tree (w_fs (cl_world ?c))" "no_outcome not_found (w_fs (cl_world ?c))"
    by (simp_all add: fs_tree_def no_outcome_def is_dir_def toy_world_def)
  note e = reset_removes_session_data [OF c' toy_build_own_store tree]
  have "in_session_data (w_fs (cl_world ?c)) (cl_data_root ?c) (parse_path ''/session/auth'')"
    "\<not> in_session_data (w_fs (cl_world ?c)) (cl_data_root ?c) (parse_path ''/x/session'')"
    "\<not> store_file (w_fs (cl_world ?c)) (get_session_dir (cl_data_root ?c)) (parse_path ''/session/auth'')"
    "\<not> store_file (w_fs (cl_world ?c)) (get_session_dir (cl_data_root ?c)) (parse_path ''/x/session'')"
    by (simp_all add: in_session_data_def store_file_def auth_file_name_def toy_client_def toy_world_def toy_paths)
  moreover have "file_at (w_fs (cl_world ?c)) (parse_path ''/x/session'') = Some [2]"
    by (simp add: toy_world_def toy_paths)
  ultimately show "let c = ?c in \<exists>c'. reset_session ?env c = (Inr (), c') \<and>
       file_at (w_fs (cl_world c')) (parse_path ''/session/auth'') = None \<and>
       file_at (w_fs (cl_world c')) (parse_path ''/x/session'') = Some [2]"
    using c' e [of "parse_path ''/session/auth''"] e [of "parse_path ''/x/session''"]
    unfolding Let_def by (intro exI [of _ c']) auto
qed

section \<open>Removing a reaction\<close>

lemma client_executor_put [simp]: "client_executor (put_executor ex c) = ex"
  by (cases ex) (simp add: put_executor_def client_executor_def put_session_def Let_def)

lemma client_executor_record [simp]:
  "client_executor (record_call k c) = client_executor c" "client_log (record_call k c) = client_log c"
  by (simp_all add: client_executor_def record_call_def client_log_def)

lemma client_log_send [simp]:
  "client_log (client_send e c) = client_log c @ [e]"
  "client_executor (client_send e c) = send_event e (client_executor c)"
  by (simp_all add: client_log_def client_send_def)

lemma put_executor_session [simp]:
  "mtx_poisoned (cl_session (put_executor ex c)) = mtx_poisoned (cl_session c)"
  "cl_calls (put_executor ex c) = cl_calls c"
  by (simp_all add: put_executor_def put_session_def Let_def)

lemma client_bookkeeping [simp]:
  "cl_calls (record_call k c) = cl_calls c @ [k]" "cl_session (record_call k c) = cl_session c"
  "cl_calls (client_send e c) = cl_calls c"
  "mtx_poisoned (cl_session (client_send e c)) = mtx_poisoned (cl_session c)"
  by (simp_all add: record_call_def client_send_def)

lemma session_of_ok [simp]: "\<not> mtx_poisoned (cl_session c) \<Longrightarrow> session_of c = Inr (mtx_data (cl_session c))"
  by (simp add: session_of_def try_lock_def lock_def)

lemma session_of_iff: "session_of c = Inr sx \<longleftrightarrow> \<not> mtx_poisoned (cl_session c) \<and> sx = mtx_data (cl_session c)"
  by (auto simp: session_of_def try_lock_def lock_def)

lemma session_of_poisoned: "session_of c = Inl e \<longleftrightarrow> mtx_poisoned (cl_session c) \<and> e = lock_poisoned_error"
  by (auto simp: session_of_def try_lock_def lock_def)

lemma get_matrix_room_ok:
  "get_matrix_room env rid c = Inr r \<longleftrightarrow> ce_room_id_ok (re_client env) rid \<and>
     \<not> mtx_poisoned (cl_session c) \<and> xe_get_room (re_exec env) rid = Some r"
  by (auto simp: get_matrix_room_def lookup_room_def split: sum.splits option.splits)
    (auto simp: session_of_def try_lock_def lock_def)

text \<open>What removing by emoji does to the cache and what it answers.\<close>

definition matches :: "(string \<Rightarrow> string) \<Rightarrow> string \<Rightarrow> string \<Rightarrow> string \<Rightarrow> string \<Rightarrow> cached_reaction \<Rightarrow> bool" where
  "matches target mid user_id emoji i rx \<longleftrightarrow> target i = mid \<and> by_user_and_emoji user_id emoji (i, rx)"

lemma first_matching_look:
  assumes "reaction_inv target room"
  shows "case first_matching mid user_id emoji room of
      None \<Rightarrow> \<nexists>i rx. look target room i = Some rx \<and> matches target mid user_id emoji i rx
    | Some md \<Rightarrow> \<exists>rx. look target room (rm_reaction_id md) = Some rx \<and>
        matches target mid user_id emoji (rm_reaction_id md) rx"
proof -
  let ?rs = "cm_reactions (message_at room mid)" and ?sel = "by_user_and_emoji user_id emoji"
  have wf: "hm_wf ?rs" using reaction_invD(2) [OF assms] .
  have get: "hm_get ?rs i = (if mid = target i then look target room i else None)" for i
    using reaction_at_look [OF assms, of mid i] by (simp add: reaction_at_def)
  have in_rs: "(i, rx) \<in> set ?rs \<longleftrightarrow> target i = mid \<and> look target room i = Some rx" for i rx
    using hm_get_mem [OF wf, of i rx] get [of i] by (auto split: if_splits)
  show ?thesis
  proof (cases "filter ?sel ?rs")
    case Nil
    then show ?thesis using in_rs by (auto simp: first_matching_def matches_def filter_empty_conv)
  next
    case (Cons x xs)
    then have "x \<in> set (filter ?sel ?rs)" by simp
    then have "x \<in> set ?rs \<and> ?sel x" by simp
    with Cons in_rs show ?thesis
      by (cases x) (auto simp: first_matching_def matches_def reaction_metadata_new_def)
  qed
qed

lemma room_id_kept_cleanup: "cr_room_id (snd (cleanup_reactions rs room)) = cr_room_id room"
  by (induction rs arbitrary: room)
    (auto simp: cleanup_reaction_def and_then_def split: sum.splits prod.splits)

lemma room_id_kept_cleanup':
  "cleanup_reactions rs room = (r, room') \<Longrightarrow> cr_room_id room' = cr_room_id room"
  using room_id_kept_cleanup [of rs room] by simp

lemma room_id_kept_emoji:
  "cr_room_id (snd (remove_reaction_by_emoji mid user_id emoji room)) = cr_room_id room"
  by (auto simp: remove_reaction_by_emoji_def Let_def and_then_def put_message_def
      simp del: cleanup_reactions.simps split: sum.split prod.split option.split list.split
      dest!: room_id_kept_cleanup')

lemma mc_remove_reaction_by_emoji_ok:
  assumes "reactions_ok target mc"
  shows "\<exists>md mc'. mc_remove_reaction_by_emoji rid mid user_id emoji mc = (Inr md, mc') \<and>
    reactions_ok target mc' \<and>
    reaction_in target mc' = (reaction_in target mc)
      (rid := remove_matching target mid user_id emoji (reaction_in target mc rid)) \<and>
    (case md of
       None \<Rightarrow> \<nexists>i rx. reaction_in target mc rid i = Some rx \<and> matches target mid user_id emoji i rx
     | Some md \<Rightarrow> \<exists>rx. reaction_in target mc rid (rm_reaction_id md) = Some rx \<and>
         matches target mid user_id emoji (rm_reaction_id md) rx)"
proof (cases "hm_get (mtx_data (mc_rooms mc)) rid")
  case None
  with assms show ?thesis
    by (auto simp: mc_remove_reaction_by_emoji_def in_known_room_def get_room_def reactions_ok_def lock_ok
        reaction_in_def fun_eq_iff remove_matching_def)
next
  case (Some room)
  with assms have inv: "reaction_inv target room" and rid: "cr_room_id room = rid"
    by (simp_all add: reactions_ok_def rooms_keyed_def)
  obtain room' where r: "remove_reaction_by_emoji mid user_id emoji room =
      (Inr (first_matching mid user_id emoji room), room')"
    "reaction_inv target room'" "look target room' = remove_matching target mid user_id emoji (look target room)"
    using remove_reaction_by_emoji_refines [OF inv] by blast
  have "cr_room_id room' = rid" using room_id_kept_emoji [of mid user_id emoji room] r(1) rid by simp
  moreover have here: "reaction_in target mc rid = look target room"
    by (simp add: reaction_in_def Some fun_eq_iff)
  moreover have "mc_remove_reaction_by_emoji rid mid user_id emoji mc =
      (Inr (first_matching mid user_id emoji room), put_room room' mc)"
    using Some assms r(1) by (simp add: mc_remove_reaction_by_emoji_def in_known_room_def get_room_def
        reactions_ok_def lock_ok)
  moreover have "reaction_in target (put_room room' mc) = (reaction_in target mc)
      (rid := remove_matching target mid user_id emoji (reaction_in target mc rid))"
    by (rule ext) (simp add: reactions_ok_put(2) [OF assms r(2)] calculation(1) r(3) here)
  ultimately show ?thesis
    using reactions_ok_put(1) [OF assms r(2)] first_matching_look [OF inv, of mid user_id emoji]
    by (auto split: option.splits)
qed


definition reaction_user :: "'m request_env \<Rightarrow> reaction \<Rightarrow> string" where
  "reaction_user env rq = (case r_user_id rq of Some u \<Rightarrow> u | None \<Rightarrow> unwrap_or_empty (own_user_id env))"

text \<open>The reactions that the client's cache knows.\<close>

definition client_reactions ::
  "(string \<Rightarrow> string) \<Rightarrow> client \<Rightarrow> string \<Rightarrow> string \<Rightarrow> cached_reaction option" where
  "client_reactions target c = reaction_in target (ex_memory (client_executor c))"

definition client_reactions_ok :: "(string \<Rightarrow> string) \<Rightarrow> client \<Rightarrow> bool" where
  "client_reactions_ok target c \<longleftrightarrow> reactions_ok target (ex_memory (client_executor c))"

lemma client_reactions_cong:
  "ex_memory (client_executor c') = ex_memory (client_executor c) \<Longrightarrow>
   client_reactions target c' = client_reactions target c \<and>
   client_reactions_ok target c' = client_reactions_ok target c"
  by (simp add: client_reactions_def client_reactions_ok_def)

lemma remove_reaction_run:
  assumes "get_matrix_room env (r_room_id rq) c = Inr r"
    and "mc_remove_reaction_by_emoji (r_room_id rq) (r_message_id rq) (reaction_user env rq) (r_reaction rq)
      (ex_memory (client_executor c)) = (Inr md, mc)"
  shows "remove_reaction env rq c =
    (let c = put_executor ((client_executor c)\<lparr>ex_memory := mc\<rparr>) c in case md of
       None \<Rightarrow> (Inl ReactionNotFound, c)
     | Some md \<Rightarrow>
         and_then (parse_event_id env ReactionNotFound (rm_reaction_id md), c) (\<lambda>event_id c.
           and_then (call (re_client env) (CallRedact (sr_id r) event_id None) c) (\<lambda>_ c.
             (Inr (), client_send (ReactionRemovedEvent (rq\<lparr>r_user_id := Some (reaction_user env rq)\<rparr>)) c))))"
proof -
  have p: "\<not> mtx_poisoned (cl_session c)" using assms(1) by (simp add: get_matrix_room_ok)
  show ?thesis
    unfolding remove_reaction_def with_session_def with_room_def on_executor_def on_memory_eq assms(1)
      reaction_user_def [symmetric] Let_def
    by (simp add: assms(2) p split: option.split)
qed

text \<open>The request takes the reactions out of the cache, whatever becomes of the call.\<close>

lemma remove_reaction_outcome:
  assumes "client_reactions_ok target c" "get_matrix_room env (r_room_id rq) c = Inr r"
    "remove_reaction env rq c = (res, c')"
  shows "client_reactions_ok target c' \<and> client_reactions target c' = (client_reactions target c)
      (r_room_id rq := remove_matching target (r_message_id rq) (reaction_user env rq) (r_reaction rq)
         (client_reactions target c (r_room_id rq))) \<and>
    mtx_poisoned (cl_session c') = mtx_poisoned (cl_session c) \<and>
    (if \<nexists>i rx. client_reactions target c (r_room_id rq) i = Some rx \<and>
          matches target (r_message_id rq) (reaction_user env rq) (r_reaction rq) i rx
     then res = Inl ReactionNotFound \<and> client_log c' = client_log c \<and> cl_calls c' = cl_calls c
     else \<exists>i rx. client_reactions target c (r_room_id rq) i = Some rx \<and>
       matches target (r_message_id rq) (reaction_user env rq) (r_reaction rq) i rx \<and>
       (if \<not> ce_event_id_ok (re_client env) i
        then res = Inl ReactionNotFound \<and> client_log c' = client_log c \<and> cl_calls c' = cl_calls c
        else cl_calls c' = cl_calls c @ [CallRedact (sr_id r) i None] \<and>
          (case ce_answer (re_client env) (CallRedact (sr_id r) i None) of
             Inl e \<Rightarrow> res = Inl (from_call_error e) \<and> client_log c' = client_log c
           | Inr _ \<Rightarrow> res = Inr () \<and> client_log c' = client_log c @
               [ReactionRemovedEvent (rq\<lparr>r_user_id := Some (reaction_user env rq)\<rparr>)])))"
proof -
  let ?user = "reaction_user env rq" and ?ex = "client_executor c"
  obtain md mc where m: "mc_remove_reaction_by_emoji (r_room_id rq) (r_message_id rq) ?user (r_reaction rq)
      (ex_memory ?ex) = (Inr md, mc)" "reactions_ok target mc"
    "reaction_in target mc = (client_reactions target c)
      (r_room_id rq := remove_matching target (r_message_id rq) ?user (r_reaction rq)
         (client_reactions target c (r_room_id rq)))"
    "case md of
       None \<Rightarrow> \<nexists>i rx. client_reactions target c (r_room_id rq) i = Some rx \<and>
         matches target (r_message_id rq) ?user (r_reaction rq) i rx
     | Some md \<Rightarrow> \<exists>rx. client_reactions target c (r_room_id rq) (rm_reaction_id md) = Some rx \<and>
         matches target (r_message_id rq) ?user (r_reaction rq) (rm_reaction_id md) rx"
    using mc_remove_reaction_by_emoji_ok [OF assms(1) [unfolded client_reactions_ok_def],
      where rid = "r_room_id rq" and mid = "r_message_id rq" and user_id = ?user and emoji = "r_reaction rq"]
    unfolding client_reactions_def [symmetric] by (elim exE conjE) (rule that)
  let ?c1 = "put_executor (?ex\<lparr>ex_memory := mc\<rparr>) c"
  have p: "\<not> mtx_poisoned (cl_session c)" using assms(2) by (simp add: get_matrix_room_ok)
  have run: "(res, c') = (case md of
      None \<Rightarrow> (Inl ReactionNotFound, ?c1)
    | Some md \<Rightarrow>
        and_then (parse_event_id env ReactionNotFound (rm_reaction_id md), ?c1) (\<lambda>event_id c.
          and_then (call (re_client env) (CallRedact (sr_id r) event_id None) c) (\<lambda>_ c.
            (Inr (), client_send (ReactionRemovedEvent (rq\<lparr>r_user_id := Some ?user\<rparr>)) c))))"
    using remove_reaction_run [OF assms(2) m(1)] assms(3) unfolding Let_def by simp
  have log: "client_log ?c1 = client_log c" by (simp add: client_log_def)
  show ?thesis
  proof (cases md)
    case None
    with run m p log show ?thesis
      by (simp add: client_reactions_ok_def) (simp add: client_reactions_def)
  next
    case (Some md1)
    with m(4) obtain rx where i: "client_reactions target c (r_room_id rq) (rm_reaction_id md1) = Some rx"
      "matches target (r_message_id rq) ?user (r_reaction rq) (rm_reaction_id md1) rx" by auto
    have "client_reactions_ok target c' \<and> client_reactions target c' = reaction_in target mc \<and>
      mtx_poisoned (cl_session c') = mtx_poisoned (cl_session c)"
      using run Some m(2)
      by (auto simp: parse_event_id_def call_def client_reactions_ok_def client_reactions_def
          split: sum.splits if_splits)
    moreover have "if \<not> ce_event_id_ok (re_client env) (rm_reaction_id md1)
        then res = Inl ReactionNotFound \<and> client_log c' = client_log c \<and> cl_calls c' = cl_calls c
        else cl_calls c' = cl_calls c @ [CallRedact (sr_id r) (rm_reaction_id md1) None] \<and>
          (case ce_answer (re_client env) (CallRedact (sr_id r) (rm_reaction_id md1) None) of
             Inl e \<Rightarrow> res = Inl (from_call_error e) \<and> client_log c' = client_log c
           | Inr _ \<Rightarrow> res = Inr () \<and> client_log c' = client_log c @
               [ReactionRemovedEvent (rq\<lparr>r_user_id := Some ?user\<rparr>)])"
      using run Some log by (auto simp: parse_event_id_def call_def split: sum.splits)
    moreover have "\<not> (\<nexists>i rx. client_reactions target c (r_room_id rq) i = Some rx \<and>
        matches target (r_message_id rq) ?user (r_reaction rq) i rx)"
      using i by blast
    ultimately show ?thesis using i unfolding m(3) by (simp only: if_False) blast
  qed
qed


lemma no_match_after_removal:
  "remove_matching target mid user_id emoji m i = Some rx \<Longrightarrow> \<not> matches target mid user_id emoji i rx"
  by (auto simp: remove_matching_def matches_def split: option.splits if_splits)

text \<open>The server's echo of the removal of a reaction that the cache does not know.\<close>

lemma echo_of_unknown_reaction:
  assumes "client_reactions_ok target c" "redacts_reaction e r rc i" "client_reactions target c (sr_id r) i = None"
  shows "ex_sent (exec_action e (RoomRedactionAction r rc) (client_executor c)) = client_log c"
  using redact_reaction_effect [OF assms(1) [unfolded client_reactions_ok_def], of r i] assms(3)
  unfolding exec_redacts_reaction [OF assms(2)] by (simp add: client_reactions_def client_log_def)

text \<open>
  Claim C13: A reaction that the user removes is told as removed exactly once: when the request
  succeeds, one reaction of that user with that emoji on that message has been redacted and one
  event names it; when the server's echo of that redaction arrives, nothing is told again.
\<close>

theorem removed_reaction_told_once:
  assumes "client_reactions_ok target c" "get_matrix_room env (r_room_id rq) c = Inr r"
    and "remove_reaction env rq c = (Inr (), c')"
  shows "\<exists>i rx. client_reactions target c (r_room_id rq) i = Some rx \<and>
    target i = r_message_id rq \<and> rx_user_id rx = reaction_user env rq \<and> rx_emoji rx = r_reaction rq \<and>
    cl_calls c' = cl_calls c @ [CallRedact (sr_id r) i None] \<and>
    client_log c' = client_log c @ [ReactionRemovedEvent (rq\<lparr>r_user_id := Some (reaction_user env rq)\<rparr>)] \<and>
    (sr_id room = r_room_id rq \<longrightarrow> redacts_reaction e room rc i \<longrightarrow>
       ex_sent (exec_action e (RoomRedactionAction room rc) (client_executor c')) = client_log c')"
proof -
  note o = remove_reaction_outcome [OF assms]
  then obtain i rx where i: "client_reactions target c (r_room_id rq) i = Some rx"
    "matches target (r_message_id rq) (reaction_user env rq) (r_reaction rq) i rx"
    "cl_calls c' = cl_calls c @ [CallRedact (sr_id r) i None]"
    "client_log c' = client_log c @ [ReactionRemovedEvent (rq\<lparr>r_user_id := Some (reaction_user env rq)\<rparr>)]"
    by (auto split: if_splits sum.splits)
  have "client_reactions target c' (r_room_id rq) i = None"
    using o i(1,2) by (simp add: remove_matching_def matches_def)
  with o i echo_of_unknown_reaction [of target c' e room rc i] show ?thesis
    by (intro exI [of _ i] exI [of _ rx]) (simp add: matches_def by_user_and_emoji_def del: exec_action.simps)
qed

text \<open>The same removal requested again and again, each time with what the SDK answers then.\<close>

fun remove_again :: "'m request_env list \<Rightarrow> reaction \<Rightarrow> client \<Rightarrow> (error + unit) list \<times> client" where
  "remove_again [] rq c = ([], c)"
| "remove_again (env # envs) rq c =
     (case remove_reaction env rq c of
        (res, c) \<Rightarrow> (case remove_again envs rq c of (rs, c) \<Rightarrow> (res # rs, c)))"

lemma remove_again_unknown:
  assumes "client_reactions_ok target c" "\<not> mtx_poisoned (cl_session c)"
    "\<forall>i rx. client_reactions target c (r_room_id rq) i = Some rx \<longrightarrow>
       \<not> matches target (r_message_id rq) u (r_reaction rq) i rx"
    "\<forall>env \<in> set envs. ce_room_id_ok (re_client env) (r_room_id rq) \<and>
       xe_get_room (re_exec env) (r_room_id rq) \<noteq> None \<and> reaction_user env rq = u"
    "remove_again envs rq c = (rs, c')"
  shows "client_reactions_ok target c' \<and> rs = replicate (length envs) (Inl ReactionNotFound) \<and>
    client_log c' = client_log c \<and>
    (\<forall>i. client_reactions target c (r_room_id rq) i = None \<longrightarrow> client_reactions target c' (r_room_id rq) i = None)"
  using assms
proof (induction envs arbitrary: c rs)
  case (Cons env envs)
  obtain r where r: "get_matrix_room env (r_room_id rq) c = Inr r"
    using Cons.prems(2,4) by (auto simp: get_matrix_room_ok)
  obtain res c1 where c1: "remove_reaction env rq c = (res, c1)" by (cases "remove_reaction env rq c")
  obtain rs' where rs': "remove_again envs rq c1 = (rs', c')" "rs = res # rs'"
    using Cons.prems(5) c1 by (auto split: prod.splits)
  have u: "reaction_user env rq = u" using Cons.prems(4) by simp
  note o = remove_reaction_outcome [OF Cons.prems(1) r c1, unfolded u]
  have same: "client_reactions target c1 (r_room_id rq) =
      remove_matching target (r_message_id rq) u (r_reaction rq) (client_reactions target c (r_room_id rq))"
    using o by simp
  have kept: "client_reactions target c1 (r_room_id rq) i = Some rx \<Longrightarrow> client_reactions target c (r_room_id rq) i = Some rx" for i rx
    unfolding same by (auto simp: remove_matching_def split: option.splits if_splits)
  have none: "\<nexists>i rx. client_reactions target c (r_room_id rq) i = Some rx \<and>
      matches target (r_message_id rq) u (r_reaction rq) i rx" using Cons.prems(3) by blast
  with o have res: "res = Inl ReactionNotFound" "client_log c1 = client_log c" by simp_all
  have "\<forall>i rx. client_reactions target c1 (r_room_id rq) i = Some rx \<longrightarrow>
       \<not> matches target (r_message_id rq) u (r_reaction rq) i rx" using kept Cons.prems(3) by blast
  from Cons.IH [OF _ _ this _ rs'(1)] o Cons.prems(2,4)
  have "client_reactions_ok target c' \<and> rs' = replicate (length envs) (Inl ReactionNotFound) \<and>
    client_log c' = client_log c1 \<and>
    (\<forall>i. client_reactions target c1 (r_room_id rq) i = None \<longrightarrow> client_reactions target c' (r_room_id rq) i = None)"
    by simp
  with res rs'(2) kept show ?case by (auto simp: not_None_eq [symmetric] simp del: not_None_eq) (metis option.exhaust)
qed simp

text \<open>
  Claim C19: A removal that the server refuses, or that the network loses, makes the client forget
  the reaction although it still exists and the application still shows it.  However often the
  user asks again to remove it, directly after that, the answer is that the reaction was not found, nothing
  is told, and when the reaction is then redacted on another device, the application is not told either.
  (Only processing the reaction's event once more, as a fetch of the message does, caches it again.)
\<close>

theorem failed_removal_loses_reaction:
  assumes "client_reactions_ok target c" "get_matrix_room env (r_room_id rq) c = Inr r"
    and "client_reactions target c (r_room_id rq) i = Some \<lparr>rx_user_id = reaction_user env rq, rx_emoji = r_reaction rq\<rparr>"
      "target i = r_message_id rq"
    and "\<And>j. ce_event_id_ok (re_client env) j"
      "\<And>j. ce_answer (re_client env) (CallRedact (sr_id r) j None) = Inl err"
    and "remove_reaction env rq c = (res, c')"
    and "\<forall>env2 \<in> set envs. ce_room_id_ok (re_client env2) (r_room_id rq) \<and>
       xe_get_room (re_exec env2) (r_room_id rq) \<noteq> None \<and> reaction_user env2 rq = reaction_user env rq"
      "remove_again envs rq c' = (rs, c'')"
    and "sr_id room = r_room_id rq" "redacts_reaction e room rc i"
  shows "res = Inl (from_call_error err) \<and> client_log c' = client_log c \<and>
    rs = replicate (length envs) (Inl ReactionNotFound) \<and> client_log c'' = client_log c \<and>
    ex_sent (exec_action e (RoomRedactionAction room rc) (client_executor c'')) = client_log c"
proof -
  note o = remove_reaction_outcome [OF assms(1,2,7)]
  have m: "matches target (r_message_id rq) (reaction_user env rq) (r_reaction rq) i
      \<lparr>rx_user_id = reaction_user env rq, rx_emoji = r_reaction rq\<rparr>"
    using assms(4) by (simp add: matches_def by_user_and_emoji_def)
  then have "\<not> (\<nexists>i rx. client_reactions target c (r_room_id rq) i = Some rx \<and>
      matches target (r_message_id rq) (reaction_user env rq) (r_reaction rq) i rx)"
    using assms(3) by blast
  with o assms(5,6) have r: "res = Inl (from_call_error err)" "client_log c' = client_log c"
    by (simp_all only: if_False) auto
  have ok: "client_reactions_ok target c'" "\<not> mtx_poisoned (cl_session c')"
    using o assms(2) by (simp_all add: get_matrix_room_ok)
  have gone: "client_reactions target c' (r_room_id rq) =
      remove_matching target (r_message_id rq) (reaction_user env rq) (r_reaction rq)
        (client_reactions target c (r_room_id rq))"
    using o by simp
  then have none: "\<forall>i rx. client_reactions target c' (r_room_id rq) i = Some rx \<longrightarrow>
      \<not> matches target (r_message_id rq) (reaction_user env rq) (r_reaction rq) i rx"
    by (metis no_match_after_removal)
  have i: "client_reactions target c' (r_room_id rq) i = None"
    using gone m assms(3) by (simp add: remove_matching_def matches_def)
  note again = remove_again_unknown [OF ok none assms(8,9)]
  with i have "client_reactions target c'' (sr_id room) i = None" unfolding assms(10) by blast
  with again r echo_of_unknown_reaction [OF _ assms(11), of target c''] show ?thesis
    by (simp del: exec_action.simps)
qed

text \<open>A client whose cache knows one reaction, and an environment that answers every call alike.\<close>

definition reacting_client :: "media_manager \<Rightarrow> sdk_room \<Rightarrow> client" where
  "reacting_client mm r =
     put_executor (exec_reaction_event r (snd thumbs_up) (fst thumbs_up) (client_executor (toy_client mm)))
       (toy_client mm)"

definition answering :: "sdk_room \<Rightarrow> call_error + unit \<Rightarrow> 'm request_env \<Rightarrow> 'm request_env" where
  "answering r answer env = env\<lparr>re_client := (re_client env)
     \<lparr>ce_exec := serves_reaction ((ce_exec (re_client env))\<lparr>xe_get_room := \<lambda>_. Some r\<rparr>),
      ce_room_id_ok := \<lambda>_. True, ce_user_id_ok := \<lambda>_. True, ce_event_id_ok := \<lambda>_. True,
      ce_answer := \<lambda>_. answer\<rparr>\<rparr>"

definition thumbs_up_reaction :: reaction where
  "thumbs_up_reaction =
     \<lparr>r_message_id = ''$m'', r_room_id = ''!r'', r_reaction = ''+1'', r_user_id = Some ''@b:x''\<rparr>"

lemma reacting_client_reactions:
  assumes "sr_id r = ''!r''"
  shows "client_reactions_ok (\<lambda>_. ''$m'') (reacting_client mm r) \<and>
    client_reactions (\<lambda>_. ''$m'') (reacting_client mm r) ''!r'' =
      (\<lambda>_. None)(''$r'' := Some \<lparr>rx_user_id = ''@b:x'', rx_emoji = ''+1''\<rparr>) \<and>
    \<not> mtx_poisoned (cl_session (reacting_client mm r)) \<and> cl_calls (reacting_client mm r) = []"
proof -
  have m: "ex_memory (client_executor (toy_client mm)) = memory_cache_new"
    by (simp add: client_executor_def toy_client_def event_manager_new_def executor_new_def)
  have ok: "reactions_ok (\<lambda>_. ''$m'') memory_cache_new"
    "reaction_in (\<lambda>_. ''$m'') memory_cache_new = (\<lambda>_ _. None)"
    by (simp add: reactions_ok_def) (simp_all add: memory_cache_new_def reaction_in_def fun_eq_iff)
  have t: "an_event_id (fst thumbs_up) = (\<lambda>_. ''$m'') (ev_id (snd thumbs_up))" "ev_id (snd thumbs_up) = ''$r''"
    "ev_sender (snd thumbs_up) = ''@b:x''" "an_key (fst thumbs_up) = ''+1''"
    by (simp_all add: thumbs_up_def Let_def)
  obtain mc where "mc_cache_reaction (sr_id r) (snd thumbs_up) (fst thumbs_up) memory_cache_new = (Inr (), mc)"
    "reactions_ok (\<lambda>_. ''$m'') mc"
    "reaction_in (\<lambda>_. ''$m'') mc = (\<lambda>_ _. None)
      (sr_id r := (\<lambda>_. None)(''$r'' := Some \<lparr>rx_user_id = ''@b:x'', rx_emoji = ''+1''\<rparr>))"
    using mc_cache_reaction_ok [OF ok(1), where a = "fst thumbs_up" and e = "snd thumbs_up" and rid = "sr_id r"] t ok(2) by auto
  then show ?thesis
    using assms m by (simp add: reacting_client_def client_reactions_ok_def client_reactions_def
        exec_reaction_event_def on_memory_eq Let_def) (simp add: toy_client_def)
qed

lemma answering_room:
  "get_matrix_room (answering r answer env) rid c = Inr r \<longleftrightarrow> \<not> mtx_poisoned (cl_session c)"
  by (simp add: get_matrix_room_ok answering_def re_exec_def serves_reaction_def)

lemma serves_redaction:
  "redacts_reaction (serves_reaction e) room \<lparr>rc_redacts = Some ''$r'', rc_reason = None\<rparr> ''$r''"
  by (simp add: redacts_reaction_def serves_reaction_def thumbs_up_def Let_def)

lemma thumbs_up_request:
  "r_room_id thumbs_up_reaction = ''!r''" "r_message_id thumbs_up_reaction = ''$m''"
  "r_reaction thumbs_up_reaction = ''+1''" "reaction_user env thumbs_up_reaction = ''@b:x''"
  by (simp_all add: thumbs_up_reaction_def reaction_user_def)

theorem removed_reaction_told_once_witness:
  "\<forall>env e mm r. let r = r\<lparr>sr_id := ''!r''\<rparr>; c = reacting_client mm r
     in \<exists>c'. remove_reaction (answering r (Inr ()) env) thumbs_up_reaction c = (Inr (), c') \<and>
       cl_calls c' = [CallRedact ''!r'' ''$r'' None] \<and>
       ex_sent (exec_action (serves_reaction e)
         (RoomRedactionAction r \<lparr>rc_redacts = Some ''$r'', rc_reason = None\<rparr>) (client_executor c')) = client_log c'"
proof (intro allI)
  fix env :: "'a request_env" and e mm and r :: sdk_room
  let ?r = "r\<lparr>sr_id := ''!r''\<rparr>" and ?c = "reacting_client mm (r\<lparr>sr_id := ''!r''\<rparr>)"
  let ?env = "answering ?r (Inr ()) env"
  note c = reacting_client_reactions [of ?r mm, simplified]
  have room: "get_matrix_room ?env (r_room_id thumbs_up_reaction) ?c = Inr ?r"
    using c by (simp add: answering_room)
  obtain res c' where run: "remove_reaction ?env thumbs_up_reaction ?c = (res, c')"
    by (cases "remove_reaction ?env thumbs_up_reaction ?c")
  have "res = Inr ()"
    using remove_reaction_outcome [OF _ room run, of "\<lambda>_. ''$m''"] c
    by (simp add: thumbs_up_request matches_def by_user_and_emoji_def answering_def split: if_splits)
  with run have ok: "remove_reaction ?env thumbs_up_reaction ?c = (Inr (), c')" by simp
  show "let r = ?r; c = reacting_client mm r
     in \<exists>c'. remove_reaction (answering r (Inr ()) env) thumbs_up_reaction c = (Inr (), c') \<and>
       cl_calls c' = [CallRedact ''!r'' ''$r'' None] \<and>
       ex_sent (exec_action (serves_reaction e)
         (RoomRedactionAction r \<lparr>rc_redacts = Some ''$r'', rc_reason = None\<rparr>) (client_executor c')) = client_log c'"
    using removed_reaction_told_once [OF _ room ok, of "\<lambda>_. ''$m''" ?r "serves_reaction e"
        "\<lparr>rc_redacts = Some ''$r'', rc_reason = None\<rparr>"] c ok
    by (auto simp: thumbs_up_request serves_redaction simp del: exec_action.simps split: if_splits)
qed

theorem failed_removal_loses_reaction_witness:
  "\<forall>env env2 e mm r err. let r = r\<lparr>sr_id := ''!r''\<rparr>; c = reacting_client mm r;
       c' = snd (remove_reaction (answering r (Inl err) env) thumbs_up_reaction c);
       (rs, c'') = remove_again [answering r (Inl err) env2, answering r (Inr ()) env2] thumbs_up_reaction c'
     in rs = [Inl ReactionNotFound, Inl ReactionNotFound] \<and>
       ex_sent (exec_action (serves_reaction e)
         (RoomRedactionAction r \<lparr>rc_redacts = Some ''$r'', rc_reason = None\<rparr>) (client_executor c'')) = client_log c"
proof (intro allI)
  fix env :: "'a request_env" and env2 :: "'b request_env" and e mm err and r :: sdk_room
  let ?r = "r\<lparr>sr_id := ''!r''\<rparr>" and ?c = "reacting_client mm (r\<lparr>sr_id := ''!r''\<rparr>)"
  let ?env = "answering ?r (Inl err) env" and ?envs = "[answering ?r (Inl err) env2, answering ?r (Inr ()) env2]"
  note c = reacting_client_reactions [of ?r mm, simplified]
  have room: "get_matrix_room ?env (r_room_id thumbs_up_reaction) ?c = Inr ?r"
    using c by (simp add: answering_room)
  obtain res c' where run: "remove_reaction ?env thumbs_up_reaction ?c = (res, c')"
    by (cases "remove_reaction ?env thumbs_up_reaction ?c")
  obtain rs c'' where again: "remove_again ?envs thumbs_up_reaction c' = (rs, c'')"
    by (cases "remove_again ?envs thumbs_up_reaction c'")
  have answers: "ce_event_id_ok (re_client ?env) j" "ce_answer (re_client ?env) k = Inl err" for j k
    by (simp_all add: answering_def)
  have known: "client_reactions (\<lambda>_. ''$m'') ?c (r_room_id thumbs_up_reaction) ''$r'' =
      Some \<lparr>rx_user_id = reaction_user ?env thumbs_up_reaction, rx_emoji = r_reaction thumbs_up_reaction\<rparr>"
    using c by (simp add: thumbs_up_request)
  have envs: "\<forall>env2 \<in> set ?envs. ce_room_id_ok (re_client env2) (r_room_id thumbs_up_reaction) \<and>
      xe_get_room (re_exec env2) (r_room_id thumbs_up_reaction) \<noteq> None \<and>
      reaction_user env2 thumbs_up_reaction = reaction_user ?env thumbs_up_reaction"
    by (simp add: thumbs_up_request answering_def re_exec_def serves_reaction_def)
  have here: "sr_id ?r = r_room_id thumbs_up_reaction" by (simp add: thumbs_up_request)
  note f = failed_removal_loses_reaction [OF conjunct1 [OF c] room known
      thumbs_up_request(2) [symmetric] answers run envs again here serves_redaction]
  show "let r = ?r; c = reacting_client mm r;
       c' = snd (remove_reaction (answering r (Inl err) env) thumbs_up_reaction c);
       (rs, c'') = remove_again [answering r (Inl err) env2, answering r (Inr ()) env2] thumbs_up_reaction c'
     in rs = [Inl ReactionNotFound, Inl ReactionNotFound] \<and>
       ex_sent (exec_action (serves_reaction e)
         (RoomRedactionAction r \<lparr>rc_redacts = Some ''$r'', rc_reason = None\<rparr>) (client_executor c'')) = client_log c"
    using f [of e] unfolding Let_def run snd_conv again prod.case by (simp del: exec_action.simps add: numeral_2_eq_2)
qed

end
