(* ===== verification/ClientRooms.thy ===== *)
theory ClientRooms
  imports ClientProperties
begin

text \<open>
  The requests of client.rs that change or list rooms, and the requests that are refused: what the
  application is told of a new avatar, which rooms a list holds, and that a request with an
  invalid ID has no effect.
\<close>

section \<open>Changing the avatar of a room\<close>

lemma file_at_without_others:
  "\<forall>n \<in> set ns. fs_key fs (asset_file m n) \<noteq> fs_key fs q \<Longrightarrow>
   file_at (without_files m ns fs) q = file_at fs q \<and> fs_key (without_files m ns fs) = fs_key fs"
  by (induction ns arbitrary: fs) (auto simp: without_files_def)

lemma asset_place_rename:
  assumes "asset_place ops m i fs" "plain_name n" "file_at fs src = Some d"
  shows "fs_rename src (asset_file m n) fs = (Inr (), fs_put (asset_file m n) d
    (fs\<lparr>fs_files := hm_remove (fs_key fs src) (fs_files fs)\<rparr>))"
proof -
  have "faultless fs" "\<not> is_dir fs (fs_key fs (asset_file m n))" "is_dir fs (butlast (fs_key fs (asset_file m n)))"
    using assms(1,2) by (auto simp: is_dir_def asset_file_key asset_place_def)
  with assms(3) show ?thesis by (simp add: fs_rename_def)
qed

text \<open>An upload of a file that lies outside the directory of the avatars moves it there.\<close>

lemma upload_moves_avatar:
  fixes mm a
  defines "m \<equiv> room_avatar_manager mm a"
  assumes place: "asset_place (room_avatar_ops env) m (ra_id a) fs"
    and src: "src = path_join (mm_data_root_dir mm) p" "file_at fs src = Some d"
      "butlast (fs_key fs src) \<noteq> fs_key fs (get_download_dir_absolute m)"
    and ext: "determine_file_extension_and_mime env d src = (ext, mime)" "plain_extension ext"
    and server: "ra_upload a mime d = Inr uri" "ra_set_avatar_url a uri = Inr ()"
    and codec: "md_info_to_json env \<lparr>ai_file = data_name (ra_id a) ext, ai_download_ts = md_now env,
        ai_upstream_url = uri\<rparr> = Inr b"
    and old: "\<forall>j. info_on_disk env m (ra_id a) fs = Some j \<longrightarrow> plain_name (ai_file j)"
  shows "\<exists>fs'. upload_room_avatar env mm a p fs =
      (Inr (avatar_path (mm_room_avatars_dir mm) (data_name (ra_id a) ext)), fs') \<and>
    fs_key fs' = fs_key fs \<and> file_at fs' src = None \<and>
    file_at fs' (asset_file m (data_name (ra_id a) ext)) = Some d"
proof -
  let ?n = "data_name (ra_id a) ext" and ?i = "info_name (ra_id a)"
  define fs0 where "fs0 = (case info_on_disk env m (ra_id a) fs of None \<Rightarrow> fs
    | Some j \<Rightarrow> without_files m [?i, ai_file j] fs)"
  have pl: "plain_name ?n" "plain_name ?i" and f: "faultless fs"
    using place ext(2) by (simp_all add: asset_place_def)
  have out: "fs_key fs (asset_file m n) \<noteq> fs_key fs src" if "plain_name n" for n
    using src(3) asset_file_key [OF that, of fs m] by (metis butlast_snoc)
  have fs0: "file_at fs0 src = Some d" "fs_key fs0 = fs_key fs" "asset_place (room_avatar_ops env) m (ra_id a) fs0"
    using file_at_without_others [of "[?i, ai_file j]" fs m src for j] out pl(2) old src(2) place
    by (auto simp: fs0_def split: option.splits)
  have del: "(case info_on_disk env m (ra_id a) fs of None \<Rightarrow> fs
      | Some j \<Rightarrow> delete_asset_and_info (room_avatar_ops env) j m fs) = fs0"
    using asset_place_delete [OF place] old by (auto simp: fs0_def split: option.splits)
  have root: "am_data_root_dir m = mm_data_root_dir mm" "asset_manager_new (mm_data_root_dir mm)
      (mm_room_avatars_dir mm) a = m" "am_asset m = a" "m\<lparr>am_asset := a\<rparr> = m" "am_asset_dir m = mm_room_avatars_dir mm"
    by (simp_all add: m_def room_avatar_manager_def asset_manager_new_def)
  have up: "op_upload (room_avatar_ops env) src a fs = (Inr \<lparr>ul_file_extension = ext, ul_upstream_url = uri\<rparr>, a, fs)"
    using src(2) server ext(1)
    by (simp add: room_avatar_ops_def room_avatar_upload_def fs_read_faultless [OF f])
  let ?fs1 = "fs_put (asset_file m ?n) d (fs0\<lparr>fs_files := hm_remove (fs_key fs0 src) (fs_files fs0)\<rparr>)"
  have place1: "asset_place (room_avatar_ops env) m (ra_id a) ?fs1" using fs0(3) by simp
  have "manager_upload env (room_avatar_ops env) p m fs =
      (Inr (avatar_path (mm_room_avatars_dir mm) ?n), m, fs_put (asset_file m ?i) b ?fs1)"
    using asset_place_rename [OF fs0(3) pl(1) fs0(1)] asset_place_paths(2) [OF place pl(1)]
    unfolding manager_upload_def root(1,3) src(1) [symmetric] up Let_def prod.case sum.case root(4)
    by (simp add: asset_place_read_info [OF place] del asset_place_info_path [OF place] root(5)
        asset_place_paths(1) [OF place pl(1)] write_asset_info_def codec
        asset_place_write [OF place1 pl(2)] avatar_path_def)
  then show ?thesis
    using out [OF pl(1)] out [OF pl(2)] pl fs0(2) by (auto simp: upload_room_avatar_def root)
qed

text \<open>The other steps of a change leave the files and the session alone.\<close>

definition same_place :: "client \<Rightarrow> client \<Rightarrow> bool" where
  "same_place c c' \<longleftrightarrow> cl_world c' = cl_world c \<and> cl_session c' = cl_session c"

lemma same_place_refl [simp]: "same_place c c"
  by (simp add: same_place_def)

lemma same_place_trans: "same_place c c' \<Longrightarrow> same_place c' c'' \<Longrightarrow> same_place c c''"
  by (simp add: same_place_def)

lemma same_place_steps:
  "change_name env r name c = (res, c') \<Longrightarrow> same_place c c'"
  "change_join_rule env r rule c = (res, c') \<Longrightarrow> same_place c c'"
  "change_favourite env r fav c = (res, c') \<Longrightarrow> same_place c c'"
  "change_conference env r url c = (res, c') \<Longrightarrow> same_place c c'"
  by (auto simp: change_name_def change_join_rule_def change_favourite_def change_conference_def
      call_def room_calls_def record_call_def and_then_def same_place_def split: sum.splits option.splits prod.splits)

lemma same_place_if_set:
  "if_set v f c = (res, c') \<Longrightarrow> (\<And>x res c'. f x c = (res, c') \<Longrightarrow> same_place c c') \<Longrightarrow> same_place c c'"
  by (auto simp: if_set_def split: option.splits)

lemma on_files_effect:
  "on_files f c = (res, c') \<Longrightarrow> res = fst (f (w_fs (cl_world c))) \<and> w_fs (cl_world c') = snd (f (w_fs (cl_world c)))"
  by (cases "f (w_fs (cl_world c))")
    (auto simp: on_files_def on_executor_def Events.on_fs_def client_executor_def put_executor_def Let_def)

text \<open>
  Claim C29: When a room's avatar is changed to a file that lies outside the directory of the room
  avatars, the answer names the path that was asked for, but the upload has moved the file: there
  is no file at the path the application is told, and the avatar lies at another one.
\<close>

theorem changed_avatar_names_moved_file:
  assumes "change_room env rq c = (Inr (rid, changes), c')" "rq_avatar_path rq = Some p"
    and "get_matrix_room env (rq_room_id rq) c = Inr r"
    and "m = room_avatar_manager (sx_media (mtx_data (cl_session c))) a" "a = sr_avatar r"
      "fs = w_fs (cl_world c)"
    and "asset_place (room_avatar_ops (re_media env)) m (ra_id a) fs"
    and "src = path_join (am_data_root_dir m) (parse_path p)" "file_at fs src = Some d"
      "butlast (fs_key fs src) \<noteq> fs_key fs (get_download_dir_absolute m)"
    and "determine_file_extension_and_mime (re_media env) d src = (ext, mime)" "plain_extension ext"
    and "ra_upload a mime d = Inr uri" "ra_set_avatar_url a uri = Inr ()"
    and "md_info_to_json (re_media env) \<lparr>ai_file = data_name (ra_id a) ext,
        ai_download_ts = md_now (re_media env), ai_upstream_url = uri\<rparr> = Inr b"
    and "\<forall>j. info_on_disk (re_media env) m (ra_id a) fs = Some j \<longrightarrow> plain_name (ai_file j)"
  shows "ChAvatarPath p \<in> set changes \<and> file_at (w_fs (cl_world c')) src = None \<and>
    file_at (w_fs (cl_world c')) (asset_file m (data_name (ra_id a) ext)) = Some d"
proof -
  have "session_of c = Inr (mtx_data (cl_session c))" using assms(3) by (simp add: get_matrix_room_ok)
  then obtain l1 c1 l2 c2 l3 c3 l4 c4 l5 where
    1: "if_set (rq_display_name rq) (change_name env r) c = (Inr l1, c1)" and
    2: "if_set (rq_join_rule rq) (change_join_rule env r) c1 = (Inr l2, c2)" and
    3: "change_avatar env r p c2 = (Inr l3, c3)" and
    4: "if_set (rq_is_favorite rq) (change_favourite env r) c3 = (Inr l4, c4)" and
    5: "if_set (rq_conference_url rq) (change_conference env r) c4 = (Inr l5, c')" and
    changes: "changes = l1 @ l2 @ l3 @ l4 @ l5"
    using assms(1-3) by (auto simp: change_room_def with_session_def with_room_def if_set_def [of "Some p"]
        elim!: and_then_cases)
  have s1: "same_place c c1" by (rule same_place_if_set [OF 1]) (rule same_place_steps)
  have s2: "same_place c1 c2" by (rule same_place_if_set [OF 2]) (rule same_place_steps)
  have s4: "same_place c3 c4" by (rule same_place_if_set [OF 4]) (rule same_place_steps)
  have s5: "same_place c4 c'" by (rule same_place_if_set [OF 5]) (rule same_place_steps)
  have before: "cl_world c2 = cl_world c" "cl_session c2 = cl_session c"
    using s1 s2 by (simp_all add: same_place_def)
  have after: "cl_world c' = cl_world c3"
    using s4 s5 by (simp add: same_place_def)
  have mm: "am_data_root_dir m = mm_data_root_dir (sx_media (mtx_data (cl_session c)))"
    by (simp add: assms(4) room_avatar_manager_def asset_manager_new_def)
  obtain fs' where up: "upload_room_avatar (re_media env) (sx_media (mtx_data (cl_session c))) a (parse_path p) fs =
      (Inr (avatar_path (mm_room_avatars_dir (sx_media (mtx_data (cl_session c)))) (data_name (ra_id a) ext)), fs')"
    "fs_key fs' = fs_key fs" "file_at fs' src = None" "file_at fs' (asset_file m (data_name (ra_id a) ext)) = Some d"
    using upload_moves_avatar [OF assms(7) [unfolded assms(4)] assms(8) [unfolded mm] assms(9)
        assms(10) [unfolded assms(4)] assms(11-15) assms(16) [unfolded assms(4)]]
    unfolding assms(4) [symmetric] by blast
  obtain res c3' where o: "on_files (upload_room_avatar (re_media env) (sx_media (mtx_data (cl_session c2)))
      (sr_avatar r) (parse_path p)) c2 = (res, c3')"
    by force
  have "l3 = [ChAvatarPath p]" "cl_world c3 = cl_world c3'"
    using 3 o on_files_effect [OF o] up(1)
    by (auto simp: change_avatar_def upload_avatar_def before assms(5,6) split: sum.splits if_splits)
  moreover have "w_fs (cl_world c3') = fs'"
    using on_files_effect [OF o] up(1) by (simp add: before assms(5,6))
  ultimately show ?thesis using changes after up by simp
qed

definition example_request :: room_change_request where
  "example_request = \<lparr>rq_room_id = ''!r'', rq_display_name = None, rq_join_rule = None,
     rq_avatar_path = Some ''new.png'', rq_is_favorite = None, rq_conference_url = None\<rparr>"

lemma avatar_change_succeeds:
  assumes "get_matrix_room env (rq_room_id rq) c = Inr r"
    and "rq = \<lparr>rq_room_id = rid, rq_display_name = None, rq_join_rule = None,
      rq_avatar_path = Some p, rq_is_favorite = None, rq_conference_url = None\<rparr>"
  shows "\<exists>changes c'. change_room env rq c = (Inr (rid, changes), c')"
proof -
  have "\<not> mtx_poisoned (cl_session c)" using assms(1) by (simp add: get_matrix_room_ok)
  with assms show ?thesis
    by (cases "upload_avatar env r p c")
      (simp add: change_room_def with_session_def with_room_def if_set_def change_avatar_def)
qed

theorem changed_avatar_names_moved_file_witness:
  "\<forall>env r. let r = r\<lparr>sr_id := ''!r'', sr_avatar := example_room_avatar\<rparr>;
       env = answering r (Inr ()) env;
       env = env\<lparr>re_client := (re_client env)\<lparr>ce_exec := (ce_exec (re_client env))\<lparr>xe_messages :=
         (xe_messages (ce_exec (re_client env)))\<lparr>mv_media := example_env (example_info ''x'' ''y'')\<rparr>\<rparr>\<rparr>\<rparr>;
       c = (toy_client example_media)\<lparr>cl_world := toy_world\<lparr>w_fs := example_fs [([''d'', ''new.png''], [9])]\<rparr>\<rparr>
     in \<exists>changes c'. change_room env example_request c = (Inr (''!r'', changes), c') \<and>
       ChAvatarPath ''new.png'' \<in> set changes \<and>
       file_at (w_fs (cl_world c')) \<lparr>path_abs = True, path_comps = [''d'', ''new.png'']\<rparr> = None"
proof (intro allI)
  fix env :: "'a request_env" and r :: sdk_room
  let ?r = "r\<lparr>sr_id := ''!r'', sr_avatar := example_room_avatar\<rparr>"
  let ?env0 = "answering ?r (Inr ()) env"
  let ?env = "?env0\<lparr>re_client := (re_client ?env0)\<lparr>ce_exec := (ce_exec (re_client ?env0))\<lparr>xe_messages :=
         (xe_messages (ce_exec (re_client ?env0)))\<lparr>mv_media := example_env (example_info ''x'' ''y'')\<rparr>\<rparr>\<rparr>\<rparr>"
  let ?fs = "example_fs [([''d'', ''new.png''], [9])]"
  let ?c = "(toy_client example_media)\<lparr>cl_world := toy_world\<lparr>w_fs := ?fs\<rparr>\<rparr>"
  let ?m = "room_avatar_manager example_media example_room_avatar"
  let ?src = "\<lparr>path_abs = True, path_comps = [''d'', ''new.png'']\<rparr>"
  have room: "get_matrix_room ?env (rq_room_id example_request) ?c = Inr ?r"
    by (simp add: get_matrix_room_ok answering_def re_exec_def serves_reaction_def toy_client_def)
  have media: "re_media ?env = example_env (example_info ''x'' ''y'')" by (simp add: re_media_def re_exec_def)
  obtain changes c' where run: "change_room ?env example_request ?c = (Inr (''!r'', changes), c')"
    using avatar_change_succeeds [OF room example_request_def] by blast
  have dir: "mm_data_root_dir example_media = \<lparr>path_abs = True, path_comps = [''d'']\<rparr>"
    "am_data_root_dir ?m = \<lparr>path_abs = True, path_comps = [''d'']\<rparr>"
    "get_download_dir_absolute ?m = \<lparr>path_abs = True, path_comps = [''d'', ''rooms'']\<rparr>"
    by (simp_all add: example_media_def room_avatar_manager_def asset_manager_new_def
        get_download_dir_absolute_def get_download_dir_relative_def path_join_def)
  have place: "asset_place (room_avatar_ops (re_media ?env)) ?m (ra_id example_room_avatar) ?fs"
    unfolding asset_place_def dir by (simp add: room_avatar_ops_simps example_room_avatar_def example_fs_def
        plain_name_def slash_def faultless_def is_dir_def fs_key_def)
  have src: "?src = path_join (am_data_root_dir ?m) (parse_path ''new.png'')" "file_at ?fs ?src = Some [9]"
    "butlast (fs_key ?fs ?src) \<noteq> fs_key ?fs (get_download_dir_absolute ?m)"
    unfolding dir by (simp_all add: path_join_def parse_path_def slash_def file_at_def fs_key_def example_fs_def)
  have "path_extension ?src = Some ''png''" by (simp add: path_extension_def path_file_name_def Let_def)
  then obtain mime where ext: "determine_file_extension_and_mime (re_media ?env) [9] ?src = (Some ''png'', mime)"
    by (force simp: determine_file_extension_and_mime_def determine_file_extension_with_path_def)
  have plain: "plain_extension (Some ''png'')" by (simp add: plain_extension_def slash_def)
  have m: "?m = room_avatar_manager (sx_media (mtx_data (cl_session ?c))) example_room_avatar"
    "example_room_avatar = sr_avatar ?r" "?fs = w_fs (cl_world ?c)" "rq_avatar_path example_request = Some ''new.png''"
    by (simp_all add: toy_client_def toy_world_def example_request_def)
  have server: "ra_upload example_room_avatar mime [9] = Inr ''v''"
    "ra_set_avatar_url example_room_avatar ''v'' = Inr ()"
    by (simp_all add: example_room_avatar_def)
  have codec: "md_info_to_json (re_media ?env) i = Inr [1]" for i unfolding media by (simp add: example_env_def)
  have old: "\<forall>j. info_on_disk (re_media ?env) ?m (ra_id example_room_avatar) ?fs = Some j \<longrightarrow> plain_name (ai_file j)"
    unfolding media by (simp add: info_on_disk_def example_env_def result_ok_def example_info_def plain_name_def
        slash_def split: option.split)
  note gone = changed_avatar_names_moved_file [OF run m(4) room m(1-3) place src ext plain server codec old]
  show "let r = ?r; env = answering r (Inr ()) env;
       env = env\<lparr>re_client := (re_client env)\<lparr>ce_exec := (ce_exec (re_client env))\<lparr>xe_messages :=
         (xe_messages (ce_exec (re_client env)))\<lparr>mv_media := example_env (example_info ''x'' ''y'')\<rparr>\<rparr>\<rparr>\<rparr>;
       c = ?c
     in \<exists>changes c'. change_room env example_request c = (Inr (''!r'', changes), c') \<and>
       ChAvatarPath ''new.png'' \<in> set changes \<and> file_at (w_fs (cl_world c')) ?src = None"
    unfolding Let_def using run gone by blast
qed

end
