(* ===== verification/ClientRestart.thy ===== *)
theory ClientRestart
  imports ClientProperties
begin

text \<open>
  The session across a restart of the application: what a login has saved, and a refresh of the
  access token has replaced, is what the next start restores.
\<close>

section \<open>Operations on files that do not fail\<close>

lemma faultless_create [simp]: "faultless fs \<Longrightarrow> faultless (snd (fs_create_dir_all p fs))"
  by (simp add: fs_create_dir_all_def)

lemma faultless_remove_session_data:
  assumes "faultless fs"
  shows "faultless (snd (remove_session_data root fs))"
proof -
  have dir: "faultless (snd (remove_directory p fs))" if "faultless fs" for p fs
  proof -
    have "faultless (snd (fs_remove_dir_all p fs))"
      using that by (simp add: fs_remove_dir_all_def Let_def faultless_def [of "fs_files_update f fs" for f]
          faultless_def [of "fs_dirs_update f fs" for f])
    then show ?thesis
      by (cases "fs_remove_dir_all p fs") (auto simp: remove_directory_def split: sum.split)
  qed
  show ?thesis
    unfolding remove_session_data_def by (intro and_then_inv [where I = faultless] dir assms)
qed

lemma from_directory_faultless:
  assumes "faultless (w_fs w)"
  shows "faultless (w_fs (snd (from_directory cd dir pw w)))"
proof -
  have f: "faultless (w_fs (initialize_directory dir w))" using assms by (rule initialize_directory_keeps)
  then show ?thesis
    by (auto simp: from_directory_def Let_def read_from_file_system_def read_info_def read_users_def
        split: prod.split sum.split dest!: decrypt_file_faultless [rotated])
qed

text \<open>The SDK's client is built, and opening its store does not disturb the files.\<close>

definition builds_store :: "'m client_env \<Rightarrow> bool" where
  "builds_store env \<longleftrightarrow> own_store env \<and>
     (\<forall>cfg fs. fst (ce_build env cfg fs) = Inr () \<and> (faultless fs \<longrightarrow> faultless (snd (ce_build env cfg fs))))"

lemma context_faultless:
  assumes "builds_store env" "session_context_new env url root secret db verify sent w = (r, w')"
    "faultless (w_fs w)"
  shows "faultless (w_fs w')"
proof -
  obtain fs where b: "ce_build env (client_builder url (get_session_dir root) db verify) (w_fs w) = (Inr (), fs)"
    using assms(1) unfolding builds_store_def by (metis prod.collapse)
  then have "faultless fs" using assms(1,3) unfolding builds_store_def by (metis snd_conv)
  then have f: "faultless (w_fs (snd (from_directory (ce_codecs env) (get_cache_dir root) secret (w\<lparr>w_fs := fs\<rparr>))))"
    by (intro from_directory_faultless) simp
  obtain p w1 where d: "from_directory (ce_codecs env) (get_cache_dir root) secret (w\<lparr>w_fs := fs\<rparr>) = (p, w1)"
    by (cases "from_directory (ce_codecs env) (get_cache_dir root) secret (w\<lparr>w_fs := fs\<rparr>)")
  with f have "faultless (w_fs w1)" by simp
  with assms(2) b d show ?thesis
    by (auto simp: session_context_new_def build_client_def media_manager_new_def init_dirs_def
        init_dir_relative_def Let_def)
qed

section \<open>The stored session\<close>

text \<open>The session file of a data directory holds a session, sealed with a secret.\<close>

definition session_stored :: "'m session_env \<Rightarrow> path \<Rightarrow> string \<Rightarrow> fs \<Rightarrow> bool" where
  "session_stored env f secret fs \<longleftrightarrow>
     (\<exists>m d b. sv_to_json env m = Some d \<and> sealed_by (sv_crypto env) secret b d \<and> file_at fs f = Some b)"

definition json_ok :: "'m session_env \<Rightarrow> bool" where
  "json_ok env \<longleftrightarrow> (\<forall>m d. sv_to_json env m = Some d \<longrightarrow> sv_from_json env d = Some m)"

lemma fs_write_outcome:
  "fs_write p d fs = (r, fs') \<Longrightarrow> faultless fs \<Longrightarrow> faultless fs' \<and> (r = Inr () \<or> fs' = fs)"
  by (auto simp: fs_write_def split: if_splits)

lemma encrypt_to_file_faultless:
  assumes "encrypt_to_file env p pw d w = (r, w')" "faultless (w_fs w)"
  shows "faultless (w_fs w') \<and> (r = Inr () \<or> file_at (w_fs w') p = file_at (w_fs w) p)"
  using assms(1)
proof (cases rule: encrypt_to_file_cases)
  case (early x)
  with assms(2) show ?thesis by simp
next
  case (written b r')
  with fs_write_outcome [OF written(2) assms(2)] show ?thesis by auto
qed

lemma session_save_stores:
  assumes "session_save env s w = (r, w')" "faultless (w_fs w)"
  shows "faultless (w_fs w') \<and> fs_key (w_fs w') = fs_key (w_fs w) \<and>
    (r = Inr () \<or> session_stored env (se_file s) (se_passphrase s) (w_fs w) \<longrightarrow>
     session_stored env (se_file s) (se_passphrase s) (w_fs w'))"
proof (cases "sv_to_json env (se_user_session s)")
  case None
  with assms show ?thesis by (auto simp: session_save_def)
next
  case (Some d)
  obtain q where e: "encrypt_to_file (sv_crypto env) (se_file s) (se_passphrase s) d w = (q, w')"
    and r: "r = Inr () \<longleftrightarrow> q = Inr ()"
    using assms(1) Some by (auto simp: session_save_def split: prod.splits sum.splits)
  note f = encrypt_to_file_faultless [OF e assms(2)] and k = crypto.store_frame [OF e]
  show ?thesis
  proof (cases "q = Inr ()")
    case True
    then have "encrypt_to_file (sv_crypto env) (se_file s) (se_passphrase s) d w = (Inr (), w')" using e by simp
    from crypto.store_ok_sealed [OF this] Some f k show ?thesis
      by (auto simp: session_stored_def)
  next
    case False
    with f r k show ?thesis by (auto simp: session_stored_def)
  qed
qed

lemma stored_session_is_read:
  assumes "cipher_ok (sv_crypto env)" "json_ok env" "session_stored env f secret (w_fs w)" "faultless (w_fs w)"
  shows "\<exists>s. read_from_file env f secret w = (Inr s, w)"
proof -
  obtain m d b where b: "sv_to_json env m = Some d" "sealed_by (sv_crypto env) secret b d"
    "file_at (w_fs w) f = Some b"
    using assms(3) by (auto simp: session_stored_def)
  have "fst (decrypt_file (sv_crypto env) f secret w) = Inr d"
    by (rule crypto.load_sealed [OF assms(1,4) b(3,2)])
  moreover obtain q w1 where q: "decrypt_file (sv_crypto env) f secret w = (q, w1)"
    by (cases "decrypt_file (sv_crypto env) f secret w")
  ultimately show ?thesis
    using decrypt_file_faultless [OF assms(4) q] assms(2) b(1) by (simp add: read_from_file_def json_ok_def)
qed

text \<open>What a process that syncs keeps: its file and passphrase, and a stored session.\<close>

definition session_kept :: "'m session_env \<Rightarrow> path \<Rightarrow> string \<Rightarrow> 'm sync_process \<Rightarrow> bool" where
  "session_kept env f secret sp \<longleftrightarrow> se_file (sp_session sp) = f \<and> se_passphrase (sp_session sp) = secret \<and>
     faultless (w_fs (sp_world sp)) \<and> session_stored env f secret (w_fs (sp_world sp))"

lemma session_kept_fields [simp]:
  "session_kept env f secret (sync_send e sp) = session_kept env f secret sp"
  "session_kept env f secret (sp\<lparr>sp_cache := c\<rparr>) = session_kept env f secret sp"
  "session_kept env f secret (sp\<lparr>sp_network_was_unavailable := b\<rparr>) = session_kept env f secret sp"
  "session_kept env f secret (sp\<lparr>sp_log := log\<rparr>) = session_kept env f secret sp"
  by (simp_all add: session_kept_def)

lemma session_kept_refresh:
  assumes "session_kept env f secret sp"
    and "session_save env ((sp_session sp)\<lparr>se_user_session := s\<rparr>) (sp_world sp) = (r, w)"
  shows "session_kept env f secret (sp\<lparr>sp_session := (sp_session sp)\<lparr>se_user_session := s\<rparr>, sp_world := w\<rparr>)"
  using session_save_stores [OF assms(2)] assms(1) by (auto simp: session_kept_def)

lemma session_kept_step: "sync_step env sp sp' \<Longrightarrow> session_kept env f secret sp \<Longrightarrow> session_kept env f secret sp'"
  by (erule sync_stepE) (auto simp: session_kept_refresh)

lemma session_kept_background:
  assumes "background_sync env rns sp = (r, sp')" "session_kept env f secret sp"
  shows "session_kept env f secret sp'"
proof -
  obtain sp1 where steps: "(sync_step env)\<^sup>*\<^sup>* sp sp1"
    "case r of None \<Rightarrow> sp' = sp1
      | Some err \<Rightarrow> \<exists>rn \<in> set rns. \<exists>sp2. sync_iteration env rn sp1 = (Inl err, sp2) \<and>
          sp' = report_end env err sp2"
    using background_sync_steps [OF assms(1)] by blast
  from steps(1) have kept: "session_kept env f secret sp1"
    by (induction rule: rtranclp_induct) (auto intro: session_kept_step assms(2))
  have "session_kept env f secret sp2" if "sync_iteration env rn sp1 = (Inl err, sp2)" for rn err sp2
    using that kept
    by (auto simp: sync_iteration_def sync_once_def process_sync_result_def handle_connection_error_def
        handle_token_error_def refresh_access_token_def Let_def
        split: sum.splits if_splits option.splits prod.splits)
  with steps(2) kept show ?thesis by (auto simp: report_end_def split: option.splits)
qed

lemma session_kept_sync:
  assumes "session_sync env a rn rns sp = (r, sp')" "session_kept env f secret sp"
  shows "session_kept env f secret sp'"
proof -
  have start: "session_kept env f secret sp1" if "initial_sync env a rn sp = (q, sp1)" for q sp1
    using that assms(2)
    by (auto simp: initial_sync_def sync_once_def send_verification_status_event_def send_capabilities_event_def
        split: sum.splits option.splits prod.splits)
  have "session_kept env f secret (exec_initial_actions a sp1) = session_kept env f secret sp1" for sp1
    by (simp add: exec_initial_actions_def split: option.split)
  with assms(1) start show ?thesis
    by (auto simp: session_sync_def split: prod.splits sum.splits intro: session_kept_background)
qed

section \<open>Logging in\<close>

lemma prepare_login_keeps:
  assumes "prepare_login env c = (Inr u, c')" "builds_store env" "faultless (w_fs (cl_world c))"
  shows "cl_data_root c' = cl_data_root c" "cl_encryption_secret c' = cl_encryption_secret c"
    "faultless (w_fs (cl_world c'))"
proof -
  let ?c = "record_call CallWhoami c"
  obtain q where r: "reset_session env ?c = (Inr q, c')"
    using assms(1)
    by (auto simp: prepare_login_def is_logged_in_def elim!: and_then_cases split: sum.splits if_splits)
  obtain fs w sx where d: "remove_session_data (cl_data_root c) (w_fs (cl_world c)) = (Inr (), fs)"
    and n: "session_context_new env (cl_homeserver c) (cl_data_root c) (cl_encryption_secret c)
       (cl_database_secret c) (cl_verify_certificates c) (client_log (?c\<lparr>cl_world := (cl_world c)\<lparr>w_fs := fs\<rparr>\<rparr>))
       ((cl_world c)\<lparr>w_fs := fs\<rparr>) = (Inr sx, w)" and w: "cl_world c' = w"
    and f: "cl_data_root c' = cl_data_root c" "cl_encryption_secret c' = cl_encryption_secret c"
    by (rule reset_session_InrD [OF r], rule that) (simp_all add: record_call_def)
  have "faultless fs" using faultless_remove_session_data [OF assms(3), of "cl_data_root c"] d by simp
  then have "faultless (w_fs w)" by (intro context_faultless [OF assms(2) n]) simp
  with f w show "cl_data_root c' = cl_data_root c" "cl_encryption_secret c' = cl_encryption_secret c"
    "faultless (w_fs (cl_world c'))" by simp_all
qed

lemma sync_session_keeps:
  assumes "sync_session env s c = (r, c')"
    and "faultless (w_fs (cl_world c))"
    and "session_stored (ce_session_env env) (se_file s) (se_passphrase s) (w_fs (cl_world c))"
  shows "faultless (w_fs (cl_world c')) \<and>
    session_stored (ce_session_env env) (se_file s) (se_passphrase s) (w_fs (cl_world c'))"
proof -
  let ?sp = "\<lparr>sp_session = s, sp_network_was_unavailable = False, sp_cache = sx_proto (mtx_data (cl_session c)),
                sp_world = cl_world c, sp_log = client_log c\<rparr>"
  obtain q sp where s: "session_sync (ce_session_env env) (ce_start env) (ce_first_round env) (ce_rounds env) ?sp = (q, sp)"
    by (cases "session_sync (ce_session_env env) (ce_start env) (ce_first_round env) (ce_rounds env) ?sp")
  have "session_kept (ce_session_env env) (se_file s) (se_passphrase s) ?sp"
    using assms(2,3) by (simp add: session_kept_def)
  from session_kept_sync [OF s this] have "session_kept (ce_session_env env) (se_file s) (se_passphrase s) sp" .
  moreover have "w_fs (cl_world c') = w_fs (sp_world sp)"
    using assms(1) s
    by (auto simp: sync_session_def Let_def put_executor_def client_executor_def put_session_def)
  ultimately show ?thesis by (simp add: session_kept_def)
qed

lemma login_stores_session:
  assumes "login_username_password env username password c = (Inr status, c')"
    and "builds_store env" "faultless (w_fs (cl_world c))"
  shows "status = LoggedIn \<and> faultless (w_fs (cl_world c')) \<and>
    session_stored (ce_session_env env) (get_auth_file (cl_data_root c)) (cl_encryption_secret c) (w_fs (cl_world c'))"
proof -
  obtain u c1 where p: "prepare_login env c = (Inr u, c1)"
    and rest: "and_then (call env (CallLogin username password (cl_device_name c1)) c1) (\<lambda>_ c.
         case session_new (ce_user_session env) (get_auth_file (cl_data_root c)) (cl_encryption_secret c) of
           Inl e \<Rightarrow> (Inl e, c)
         | Inr s \<Rightarrow> and_then (start_session env s c) (\<lambda>_ c. (Inr LoggedIn, c))) = (Inr status, c')"
    using assms(1) by (auto simp: login_username_password_def elim: and_then_cases)
  note k = prepare_login_keeps [OF p assms(2,3)]
  let ?c = "record_call (CallLogin username password (cl_device_name c1)) c1"
  have c: "cl_data_root ?c = cl_data_root c" "cl_encryption_secret ?c = cl_encryption_secret c"
    "cl_world ?c = cl_world c1"
    using k by (simp_all add: record_call_def)
  have "and_then (case session_new (ce_user_session env) (get_auth_file (cl_data_root c)) (cl_encryption_secret c) of
        Inl e \<Rightarrow> (Inl e, ?c) | Inr s \<Rightarrow> (Inr s, ?c))
      (\<lambda>s c. and_then (start_session env s c) (\<lambda>_ c. (Inr LoggedIn, c))) = (Inr status, c')"
    using rest c by (cases "ce_answer env (CallLogin username password (cl_device_name c1))")
      (auto simp: call_def split: sum.splits)
  then obtain s where s: "session_new (ce_user_session env) (get_auth_file (cl_data_root c)) (cl_encryption_secret c) = Inr s"
    and rest: "and_then (start_session env s ?c) (\<lambda>_ c. (Inr LoggedIn, c)) = (Inr status, c')"
    by (auto split: sum.splits)
  then have s: "se_file s = get_auth_file (cl_data_root c)" "se_passphrase s = cl_encryption_secret c"
    by (auto simp: session_new_def split: option.splits)
  obtain w q where w: "session_save (ce_session_env env) s (cl_world c1) = (Inr (), w)"
    and sync: "sync_session env s (?c\<lparr>cl_world := w\<rparr>) = (Inr q, c')" and status: "status = LoggedIn"
    using rest c(3) by (auto simp: start_session_def elim!: and_then_cases split: prod.splits sum.splits)
  note st = session_save_stores [OF w k(3)]
  with sync_session_keeps [OF sync] s status show ?thesis by simp
qed

section \<open>The next start\<close>

text \<open>The SDK takes the session, and the server answers its first sync.\<close>

definition accepts_session :: "'m client_env \<Rightarrow> bool" where
  "accepts_session env \<longleftrightarrow> ce_restore env = Inr () \<and>
     (\<forall>token presence. \<exists>next_batch. rn_sync (ce_first_round env) token presence = Inr next_batch) \<and>
     (\<exists>verified. sa_own_device (ce_start env) = Inr (Some verified))"

lemma sync_session_accepted:
  assumes "accepts_session env"
  shows "\<exists>c'. sync_session env s c = (Inr (), c')"
proof -
  have "\<exists>r sp'. session_sync sv (ce_start env) (ce_first_round env) rns sp = (Inr r, sp')" for sv rns sp
  proof -
    obtain t where t: "rn_sync (ce_first_round env) (cache_sync_token (sp_cache sp)) (sync_presence sv sp) = Inr t"
      using assms by (auto simp: accepts_session_def)
    obtain v where "sa_own_device (ce_start env) = Inr (Some v)" using assms by (auto simp: accepts_session_def)
    with t have "\<exists>u sp1. initial_sync sv (ce_start env) (ce_first_round env) sp = (Inr u, sp1)"
      by (simp add: initial_sync_def sync_once_def send_verification_status_event_def)
    then show ?thesis by (auto simp: session_sync_def split: prod.split)
  qed
  then show ?thesis by (auto simp: sync_session_def Let_def split: prod.split sum.split) (metis Inl_Inr_False fst_conv)
qed

lemma restore_stored_session:
  assumes "cipher_ok (sv_crypto (ce_session_env env))" "json_ok (ce_session_env env)"
    and "session_stored (ce_session_env env) (get_auth_file (cl_data_root c)) (cl_encryption_secret c) (w_fs (cl_world c))"
    and "faultless (w_fs (cl_world c))" "accepts_session env" "\<not> mtx_poisoned (cl_session c)"
  shows "\<exists>c'. restore_session env c = (Inr LoggedIn, c')"
proof -
  have found: "fs_exists (get_auth_file (cl_data_root c)) (w_fs (cl_world c)) = (True, w_fs (cl_world c))"
    using assms(3,4) by (auto simp: session_stored_def fs_exists_def)
  obtain s where s: "read_from_file (ce_session_env env) (get_auth_file (cl_data_root c)) (cl_encryption_secret c)
      (cl_world c) = (Inr s, cl_world c)"
    using stored_session_is_read [OF assms(1-4)] by blast
  obtain c' where "sync_session env s (record_call CallRestore c) = (Inr (), c')"
    using sync_session_accepted [OF assms(5)] by blast
  moreover have "ce_restore env = Inr ()" using assms(5) by (simp add: accepts_session_def)
  ultimately show ?thesis
    using found s assms(6) by (simp add: restore_session_def)
qed

lemma auth_file_not_in_store: "\<not> store_file fs (get_session_dir root) (get_auth_file root)"
  by (simp add: store_file_def get_auth_file_def auth_file_name_def path_comps_join_plain plain_name_def
      slash_def fs_key_def resolve_comps_append)

text \<open>
  Claim C8: A login survives a restart: once the application has been told that it is logged in, a
  client that is started on the same data directory with the same secret restores a session from
  the session file and reports that it is logged in, when the SDK and the server accept it, whatever
  refreshes of the access token the sync has saved meanwhile, and whatever has become of the other files.
\<close>

theorem login_survives_restart:
  assumes "login_username_password env username password c = (Inr status, c1)"
    and "builds_store env" "faultless (w_fs (cl_world c))"
    and "cipher_ok (sv_crypto (ce_session_env env))" "json_ok (ce_session_env env)"
    and "faultless (w_fs w)"
      "file_at (w_fs w) (get_auth_file (cl_data_root c)) = file_at (w_fs (cl_world c1)) (get_auth_file (cl_data_root c))"
    and "parse_path (ir_data_root_path rq) = cl_data_root c" "ir_encryption_secret rq = cl_encryption_secret c"
    and "ce_session_env env' = ce_session_env env" "ce_url_ok env' (ir_backend_url rq)"
      "builds_store env'" "accepts_session env'"
  shows "status = LoggedIn \<and> (\<exists>c2. client_new env' rq w = Inr (c2, LoggedIn))"
proof -
  let ?root = "cl_data_root c" and ?secret = "cl_encryption_secret c" and ?sv = "ce_session_env env"
  have login: "status = LoggedIn" "session_stored ?sv (get_auth_file ?root) ?secret (w_fs (cl_world c1))"
    using login_stores_session [OF assms(1-3)] by simp_all
  obtain sx w1 where n: "session_context_new env' (ir_backend_url rq) ?root ?secret
      (ir_persistent_storage_secret rq) (ir_verify_certificates rq) [] w = (Inr sx, w1)"
    using session_context_new_ok [of env'] assms(12) unfolding builds_store_def by metis
  let ?obj = "\<lparr>cl_session = new_mutex sx, cl_idps = new_mutex None, cl_verifications = new_mutex [], cl_aborted = [],
     cl_homeserver = ir_backend_url rq, cl_device_name = ir_device_display_name rq, cl_data_root = ?root,
     cl_encryption_secret = ?secret, cl_database_secret = ir_persistent_storage_secret rq,
     cl_verify_certificates = ir_verify_certificates rq, cl_world = w1, cl_items = [], cl_calls = [], cl_old_caches = []\<rparr>"
  have "file_at (w_fs w1) (get_auth_file ?root) = file_at (w_fs w) (get_auth_file ?root)"
    using session_context_new_keeps [OF n, of "get_auth_file ?root"] assms(12) auth_file_not_in_store
    unfolding builds_store_def own_store_def by (metis client_builder_store)
  then have "session_stored (ce_session_env env') (get_auth_file (cl_data_root ?obj)) (cl_encryption_secret ?obj)
      (w_fs (cl_world ?obj))"
    using login(2) assms(7,10) by (simp add: session_stored_def)
  moreover have "faultless (w_fs (cl_world ?obj))"
    using context_faultless [OF assms(12) n assms(6)] by simp
  ultimately obtain c2 where "restore_session env' ?obj = (Inr LoggedIn, c2)"
    using restore_stored_session [of env' ?obj] assms(4,5,10,13) by (auto simp: new_mutex_def)
  with n assms(8,9,11) login(1) show ?thesis by (simp add: client_new_def Let_def)
qed

section \<open>A concrete login and restart\<close>

definition toy_stored_env :: "string session_env" where
  "toy_stored_env = toy_session_env\<lparr>sv_to_json := \<lambda>s. if s = ''m'' then Some (as_bytes s) else None\<rparr>"

definition toy_login_env :: "string client_env \<Rightarrow> string client_env" where
  "toy_login_env env = env\<lparr>ce_codecs := toy_codecs, ce_session_env := toy_stored_env, ce_build := toy_build,
     ce_whoami := Inl \<lparr>he_client_api = None, he_variant = HeApi (Some 401)\<rparr>,
     ce_answer := \<lambda>_. Inr (), ce_user_session := Some ''m'',
     ce_start := \<lparr>sa_upload_size = Inr 5, sa_own_device = Inr (Some True), sa_has_devices = Inr False, sa_user_id = None\<rparr>,
     ce_first_round := round_of (Inr ''s1''), ce_rounds := [], ce_restore := Inr (), ce_url_ok := \<lambda>_. True\<rparr>"

lemma toy_login_env_ok:
  "builds_store (toy_login_env env)" "accepts_session (toy_login_env env)"
  "cipher_ok (sv_crypto (ce_session_env (toy_login_env env)))" "json_ok (ce_session_env (toy_login_env env))"
proof -
  have "faultless (snd (toy_build cfg fs))" if "faultless fs" for cfg fs
    using that by (simp add: toy_build_def)
  then show "builds_store (toy_login_env env)"
    using toy_build_own_store [of "toy_login_env env"] by (simp add: builds_store_def toy_login_env_def own_store_def)
  show "accepts_session (toy_login_env env)"
    by (auto simp: accepts_session_def toy_login_env_def round_of_def)
  show "cipher_ok (sv_crypto (ce_session_env (toy_login_env env)))"
    by (simp add: toy_login_env_def toy_stored_env_def toy_session_env_def toy_crypto_ok)
  show "json_ok (ce_session_env (toy_login_env env))"
    by (simp add: json_ok_def toy_login_env_def toy_stored_env_def toy_session_env_def)
qed

lemma toy_prepare_login:
  "\<exists>c1. prepare_login (toy_login_env env) (toy_client mm) = (Inr (), c1) \<and>
     w_fs (cl_world c1) = \<lparr>fs_cwd = [], fs_files = hm_insert [''session'', ''db''] [] [],
       fs_dirs = [[''media'', ''attachments''], [''media'', ''user_avatars''], [''media''], [''media'', ''room_avatars''],
         [''cache''], [], [''session'']], fs_outcomes = []\<rparr>"
  by (simp add: prepare_login_def is_logged_in_def toy_client_def session_of_def try_lock_def lock_def new_mutex_def
      toy_login_env_def record_call_def reset_session_def remove_session_data_def remove_directory_def
      fs_remove_dir_all_def toy_paths toy_world_def next_outcome_def is_auth_err_matrix_http_def Let_def
      not_found_def below_def session_context_new_def build_client_def client_builder_def toy_build_def
      fs_create_dir_all_def fs_put_def from_directory_def initialize_directory_def FileSystem.on_fs_def
      read_from_file_system_def read_info_def read_users_def decrypt_file_def fs_read_def media_manager_new_def
      init_dirs_def init_dir_relative_def put_session_def client_log_def client_executor_def put_guard_def)

lemma toy_login:
  "\<exists>c1. login_username_password (toy_login_env env) username password (toy_client mm) = (Inr LoggedIn, c1)"
proof -
  let ?env = "toy_login_env env" and ?c = "toy_client mm"
  obtain c1 where p: "prepare_login ?env ?c = (Inr (), c1)"
    and fs: "w_fs (cl_world c1) = \<lparr>fs_cwd = [], fs_files = hm_insert [''session'', ''db''] [] [],
       fs_dirs = [[''media'', ''attachments''], [''media'', ''user_avatars''], [''media''], [''media'', ''room_avatars''],
         [''cache''], [], [''session'']], fs_outcomes = []\<rparr>"
    using toy_prepare_login by blast
  have "faultless (w_fs (cl_world ?c))" by (simp add: toy_client_def toy_world_def faultless_def)
  note k = prepare_login_keeps [OF p toy_login_env_ok(1) this]
  let ?s = "\<lparr>se_user_session = ''m'', se_file = get_auth_file (cl_data_root ?c),
    se_passphrase = cl_encryption_secret ?c\<rparr>"
  have "\<exists>w. session_save (ce_session_env ?env) ?s (cl_world c1) = (Inr (), w)"
    by (simp add: session_save_def toy_login_env_def toy_stored_env_def toy_session_env_def toy_crypto_def encrypt_to_file_def
        derive_new_key_def encrypt_def fill_bytes_def FileSystem.on_fs_def fs_write_def fs next_outcome_def
        toy_paths is_dir_def toy_client_def get_auth_file_def auth_file_name_def as_bytes_def)
  then obtain w where w: "session_save (ce_session_env ?env) ?s (cl_world c1) = (Inr (), w)" by blast
  let ?c2 = "record_call (CallLogin username password (cl_device_name c1)) c1"
  obtain c' where "sync_session ?env ?s (?c2\<lparr>cl_world := w\<rparr>) = (Inr (), c')"
    using sync_session_accepted [OF toy_login_env_ok(2)] by blast
  moreover have "ce_answer ?env = (\<lambda>_. Inr ())" "ce_user_session ?env = Some ''m''"
    by (simp_all add: toy_login_env_def)
  moreover have "cl_world ?c2 = cl_world c1" "cl_data_root ?c2 = cl_data_root ?c"
    "cl_encryption_secret ?c2 = cl_encryption_secret ?c"
    using k by (simp_all add: record_call_def)
  ultimately show ?thesis
    using w by (simp add: login_username_password_def p call_def session_new_def start_session_def)
qed

definition toy_restart :: initialization_request where
  "toy_restart = \<lparr>ir_backend_url = '''', ir_data_root_path = ''/'', ir_device_display_name = '''',
     ir_encryption_secret = ''p'', ir_persistent_storage_secret = '''', ir_verify_certificates = True\<rparr>"

theorem login_survives_restart_witness:
  "\<forall>env mm. \<exists>c1 c2. login_username_password (toy_login_env env) ''u'' ''pw'' (toy_client mm) = (Inr LoggedIn, c1) \<and>
     client_new (toy_login_env env) toy_restart (cl_world c1) = Inr (c2, LoggedIn)"
proof (intro allI)
  fix env :: "string client_env" and mm
  let ?env = "toy_login_env env" and ?c = "toy_client mm"
  obtain c1 where l: "login_username_password ?env ''u'' ''pw'' ?c = (Inr LoggedIn, c1)"
    using toy_login by blast
  have f: "faultless (w_fs (cl_world ?c))" by (simp add: toy_client_def toy_world_def faultless_def)
  have f1: "faultless (w_fs (cl_world c1))" using login_stores_session [OF l toy_login_env_ok(1) f] by simp
  have rq: "parse_path (ir_data_root_path toy_restart) = cl_data_root ?c"
    "ir_encryption_secret toy_restart = cl_encryption_secret ?c" "ce_url_ok ?env (ir_backend_url toy_restart)"
    by (simp_all add: toy_client_def toy_login_env_def toy_restart_def)
  from login_survives_restart [OF l toy_login_env_ok(1) f toy_login_env_ok(3,4) f1 refl rq(1,2) refl rq(3)
      toy_login_env_ok(1,2)] l
  show "\<exists>c1 c2. login_username_password ?env ''u'' ''pw'' ?c = (Inr LoggedIn, c1) \<and>
     client_new ?env toy_restart (cl_world c1) = Inr (c2, LoggedIn)"
    by blast
qed

end
