(* ===== verification/ClientRejects.thy ===== *)
theory ClientRejects
  imports ClientProperties
begin

text \<open>
  client.rs, the requests that are refused because of what they name: none of them has an effect.
  The predicates \<open>accepted\<close> and \<open>refused\<close> on results are closed under the combinators the handlers
  are written with, which gives one lemma for each handler.
\<close>

section \<open>Refused requests\<close>

text \<open>
  The errors for a request that names something which is no ID, or a room the user has not.
  A result is \<open>accepted\<close> when it is none of them, and \<open>refused c\<close> when each of them leaves the
  client as \<open>c\<close>.
\<close>

fun rejection :: "error \<Rightarrow> bool" where
  "rejection InvalidRoomId = True"
| "rejection RoomNotFound = True"
| "rejection InvalidMessageId = True"
| "rejection InvalidThreadId = True"
| "rejection InvalidUserId = True"
| "rejection _ = False"

definition accepted :: "(error + 'a) \<times> 's \<Rightarrow> bool" where
  "accepted rc \<longleftrightarrow> (\<forall>e. fst rc = Inl e \<longrightarrow> \<not> rejection e)"

definition refused :: "client \<Rightarrow> (error + 'a) \<times> client \<Rightarrow> bool" where
  "refused c rc \<longleftrightarrow> (\<forall>e. fst rc = Inl e \<longrightarrow> rejection e \<longrightarrow> snd rc = c)"

lemma accepted_simps [simp]:
  "accepted (Inl e, c) \<longleftrightarrow> \<not> rejection e" "accepted (Inr x, c)"
  "accepted (respond f rc) \<longleftrightarrow> accepted rc"
  by (auto simp: accepted_def respond_def split: prod.split sum.split)

lemma refused_simps [simp]:
  "refused c (Inl e, c)" "refused c (Inr x, c')" "refused c (r, c)"
  "refused c (respond f rc) \<longleftrightarrow> refused c rc"
  by (auto simp: refused_def respond_def split: prod.split sum.split)

lemma accepted_refused: "accepted rc \<Longrightarrow> refused c rc"
  by (auto simp: accepted_def refused_def)

lemma from_call_error_accepted [simp]: "\<not> rejection (from_call_error e)"
  by (cases e) simp_all

lemma accepted_call [simp]: "accepted (call env k c)"
  by (simp add: call_def split: sum.split)

lemma accepted_and_then: "accepted rc \<Longrightarrow> (\<And>x c. accepted (k x c)) \<Longrightarrow> accepted (and_then rc k)"
  by (cases rc; cases "fst rc") (auto simp: and_then_def)

lemma refused_and_then: "refused c (and_then (r, c) k)" if "\<And>x. refused c (k x c)" for c k
  using that by (cases r) (simp_all add: and_then_def)

lemma refused_with_session: "(\<And>sx. refused c (f sx c)) \<Longrightarrow> refused c (with_session f c)"
  by (simp add: with_session_def split: sum.split)

lemma refused_with_room: "(\<And>r. refused c (f r c)) \<Longrightarrow> refused c (with_room env rid f c)"
  by (simp add: with_room_def split: sum.split)

lemma accepted_on_files:
  assumes "\<And>fs. accepted (f fs)"
  shows "accepted (on_files f c)"
  using assms [of "ex_fs (client_executor c)"]
  by (cases "f (ex_fs (client_executor c))")
    (simp add: accepted_def on_files_def on_executor_def on_fs_def)

lemma accepted_if_set: "(\<And>x c. accepted (f x c)) \<Longrightarrow> accepted (if_set v f c)"
  by (simp add: if_set_def split: option.split)

subsection \<open>The calls of the handlers\<close>

lemma room_calls_accepted:
  "accepted (room_calls rid (update_room_join_rule answer rule) c)"
  "accepted (room_calls rid (set_conference_url answer r url) c)"
  by (auto simp: room_calls_def update_room_join_rule_def set_conference_url_def remove_conference_url_def
      get_conference_state_event_def Let_def split: sum.splits if_splits option.splits conference_state.splits)

lemma get_room_members_accepted [dest]: "get_room_members r = Inl e \<Longrightarrow> \<not> rejection e"
  by (auto simp: get_room_members_def split: sum.splits)

lemma assemble_room_accepted: "accepted (assemble_room env r c)"
  unfolding assemble_room_def
  by (rule accepted_on_files) (auto simp: assemble_chat_room_def get_room_members_def Let_def accepted_def
      split: option.splits sum.splits prod.splits if_splits)

lemma create_room_accepted: "accepted (create_room env rq a c)"
  by (simp add: create_room_def Let_def assemble_room_accepted split: sum.split)

lemma metadata_accepted:
  "add_thread_metadata p sdk b event t = Inl e \<Longrightarrow> \<not> rejection e"
  "add_reply_metadata p sdk event t = Inl e \<Longrightarrow> \<not> rejection e"
  by (auto simp: add_thread_metadata_def add_reply_metadata_def get_event_sender_id_def
      sender_id_from_timeline_event_def get_thread_reply_metadata_def get_main_reply_metadata_def
      Let_def split: sum.splits option.splits if_splits timeline_kind.splits)

lemma text_event_accepted: "text_event p sdk b body = Inl e \<Longrightarrow> \<not> rejection e"
  by (auto simp: text_event_def Let_def proto_mentions_to_matrix_mentions_def
      dest: metadata_accepted split: option.splits sum.splits if_splits)

lemma send_message_accepted: "accepted (send_message env p sdk b fs)"
  by (auto simp: send_message_def send_text_def send_file_def Messages.send_poll_def
      Messages.send_event_def poll_event_def Let_def accepted_def dest: text_event_accepted
      split: send_content.splits sum.splits option.splits if_splits prod.splits)

lemma poll_kind_accepted: "poll_kind_try_into_chat k = Inl e \<Longrightarrow> \<not> rejection e"
  by (cases k) auto

lemma deserialize_poll_start_accepted: "deserialize_poll_start_content p rid t = Inl e \<Longrightarrow> \<not> rejection e"
  by (auto simp: deserialize_poll_start_content_def timeline_event_to_any_timeline_event_def
      any_timeline_event_from_decrypted_def any_timeline_event_from_plain_text_def
      elim!: any_timeline_event_to_message_like.elims timeline_kind_to_any_timeline_event.elims
      split: sum.splits message_like.splits event_content.splits option.splits)

lemma apply_relation_accepted: "apply_relation p rid content r = Inl e \<Longrightarrow> \<not> rejection e"
  by (auto simp: apply_relation_def replace_content_def Let_def dest: poll_kind_accepted
      split: sum.splits option.splits)

lemma apply_relations_accepted: "apply_relations p rid content es = Inl e \<Longrightarrow> \<not> rejection e"
  by (induction es arbitrary: content) (auto dest: apply_relation_accepted split: sum.splits)

lemma assemble_poll_accepted: "assemble_poll p rid fetched = Inl e \<Longrightarrow> \<not> rejection e"
  by (auto simp: assemble_poll_def assemble_poll_start_def
      dest: apply_relations_accepted deserialize_poll_start_accepted split: sum.splits)

lemma get_and_sync_user_accepted:
  "on_files (get_and_sync_user me mm server cache uid) c = ((Inl e, b), c') \<Longrightarrow> \<not> rejection e"
  by (auto simp: on_files_def on_executor_def on_fs_def get_and_sync_user_def fetch_user_def
      split: option.splits sum.splits prod.splits)

subsection \<open>The handlers\<close>

lemma try_lock_accepted: "try_lock m = Inl e \<Longrightarrow> \<not> rejection e"
  by (auto simp: try_lock_def lock_poisoned_error_def split: sum.splits)

lemma abort_verification_refuses: "refused c (abort_verification flow_id c)"
  by (auto simp: abort_verification_def cleanup_verifications_def and_then_def refused_def
      dest: try_lock_accepted split: sum.splits option.splits)

lemma get_user_refuses: "refused c (get_user env uid c)"
  by (auto simp: get_user_def intro!: refused_with_session)
    (auto simp: refused_def dest!: get_and_sync_user_accepted split: prod.splits sum.splits)

lemma search_users_refuses: "refused c (search_users env query limit c)"
  unfolding search_users_def
  by (rule refused_with_session) (auto simp: Let_def refused_def split: sum.splits prod.splits)

lemma set_status_refuses: "refused c (set_status env status c)"
  unfolding set_status_def Let_def
  by (rule refused_with_session)
    (auto intro!: accepted_refused accepted_and_then split: option.splits sum.splits)

lemma plain_user_requests_refuse:
  "refused c (get_public_rooms env l since term c)"
  "refused c (get_global_settings env c)"
  unfolding get_public_rooms_def get_global_settings_def
  by (rule refused_with_session; auto simp: refused_def split: sum.splits)+

lemma invitation_reply_refuses: "refused c (invitation_reply env rid accept c)"
  unfolding invitation_reply_def
  by (intro refused_with_session refused_with_room)
    (auto intro!: accepted_refused accepted_and_then assemble_room_accepted)

lemmas user_requests_refuse = abort_verification_refuses get_user_refuses search_users_refuses
  set_status_refuses plain_user_requests_refuse invitation_reply_refuses

lemma get_rooms_refuses: "refused c (get_rooms env j u c)"
  unfolding get_rooms_def
  by (rule refused_with_session) (auto simp: fetch_all_rooms_def accepted_def split: option.splits prod.splits
      intro!: accepted_refused accepted_and_then accepted_on_files)

lemma create_rooms_refuse:
  "refused c (create_group_room env name invitees rule avatar c)"
  "refused c (create_direct_room env name invitee avatar c)"
  unfolding create_group_room_def create_direct_room_def
  by (rule refused_with_session; auto intro!: accepted_refused create_room_accepted
      split: option.splits sum.splits)+

lemma room_changes_accepted:
  "accepted (change_name env r name c)" "accepted (change_join_rule env r rule c)"
  "accepted (change_avatar env r path c)" "accepted (change_favourite env r b c)"
  "accepted (change_conference env r url c)"
  by (auto simp: change_name_def change_join_rule_def change_avatar_def change_favourite_def
      change_conference_def room_calls_accepted intro!: accepted_and_then split: option.splits prod.splits)

lemma change_room_refuses: "refused c (change_room env rq c)"
  unfolding change_room_def
  by (intro refused_with_session refused_with_room accepted_refused accepted_and_then accepted_if_set
      room_changes_accepted) simp

lemma leave_join_knock_refuse:
  "refused c (leave_room env rid c)" "refused c (join_room env rid c)" "refused c (knock_room env rid msg c)"
  unfolding leave_room_def join_room_def knock_room_def Let_def
  by (rule refused_with_room refused_with_session; auto intro!: accepted_refused accepted_and_then
      assemble_room_accepted split: sum.splits)+

lemmas room_requests_refuse = get_rooms_refuses create_rooms_refuse change_room_refuses leave_join_knock_refuse

lemma call_requests_refuse:
  "refused c (mark_as_read env rid c)"
  "refused c (pin_unpin_message env rid i b c)"
  "refused c (remove_message env rid i reason c)"
  "refused c (create_reaction env rid i emoji c)"
  unfolding mark_as_read_def pin_unpin_message_def remove_message_def create_reaction_def Let_def
  by (intro refused_with_session refused_with_room refused_and_then;
      auto intro!: accepted_refused accepted_and_then split: option.splits sum.splits prod.splits)+

lemma activate_typing_notice_refuses: "refused c (activate_typing_notice env rid c)"
  unfolding activate_typing_notice_def ignore_typing_notice_connection_error_def
  by (rule refused_with_room) (auto simp: refused_def split: sum.splits call_error.splits if_splits)

lemma send_message_request_refuses: "refused c (send_message_request env srq c)"
  unfolding send_message_request_def
  by (cases "message_builder_of env srq"; simp;
      intro refused_with_session refused_with_room accepted_refused accepted_on_files send_message_accepted)

lemma changed_text_accepted: "accepted (changed_text env rid rq mentioned body, c)"
  by (simp add: changed_text_def proto_mentions_to_matrix_mentions_def Let_def)

lemma change_message_refuses: "refused c (change_message env crq c)"
  unfolding change_message_def Let_def
  by (intro refused_with_room refused_and_then; cases "mq_content crq"; simp; rule refused_and_then;
      rule accepted_refused) (auto intro!: accepted_and_then changed_text_accepted split: send_content.split sum.split)

lemma remove_reaction_refuses: "refused c (remove_reaction env rx c)"
  unfolding remove_reaction_def Let_def
  by (intro refused_with_session refused_with_room accepted_refused)
    (auto simp: parse_event_id_def intro!: accepted_and_then split: prod.split sum.split option.split)

lemma get_message_refuses: "refused c (get_message env rid i c)"
  unfolding get_message_def
  by (rule refused_with_session; cases "parse_event_id env InvalidMessageId i"; simp; rule refused_with_room)
    (auto intro!: accepted_refused split: prod.split sum.split)

lemma answer_poll_refuses: "refused c (answer_poll env rid i ids c)"
  unfolding answer_poll_def
  by (intro refused_and_then refused_with_room accepted_refused accepted_and_then)
    (simp, auto simp: accepted_def dest: assemble_poll_accepted)

lemma message_items_accepted: "message_items rs = (ms, r) \<Longrightarrow> accepted (r, c)"
  by (induction rs arbitrary: ms rule: message_items.induct) (auto split: prod.splits)

lemma get_room_messages_refuses: "get_room_messages env rq c = Some rc \<Longrightarrow> refused c rc"
  by (auto simp: get_room_messages_def intro: accepted_refused message_items_accepted
      split: sum.splits prod.splits option.splits)

lemmas message_requests_refuse = call_requests_refuse activate_typing_notice_refuses
  send_message_request_refuses change_message_refuses remove_reaction_refuses get_message_refuses
  answer_poll_refuses get_room_messages_refuses

lemma lookup_again_accepted:
  assumes "get_matrix_room env rid c = Inr r" "re_refreshed_room env rid \<noteq> None"
    "lookup_room env (re_refreshed_room env) rid c' = Inl e"
  shows "\<not> rejection e"
  using assms by (auto simp: get_matrix_room_def lookup_room_def session_of_def try_lock_accepted
      split: if_splits sum.splits)

lemma invite_refuses:
  assumes "xe_get_room (re_exec env) rid \<noteq> None \<Longrightarrow> re_refreshed_room env rid \<noteq> None"
  shows "refused c (invite env rid invitees c)"
proof (cases "get_matrix_room env rid c")
  case (Inr r)
  then have "re_refreshed_room env rid \<noteq> None"
    by (intro assms) (auto simp: get_matrix_room_ok)
  with Inr show ?thesis
    by (auto simp: invite_def with_room_def Let_def accepted_def dest: lookup_again_accepted
        intro!: accepted_refused split: sum.split)
qed (simp add: invite_def with_room_def)

datatype client_request =
  UserRequest user_request
| RoomRequest room_request
| MessageRequest message_request

fun client_handler ::
  "'m request_env \<Rightarrow> client_request \<Rightarrow> client \<Rightarrow> ((error + client_response) \<times> client) option" where
  "client_handler env (UserRequest rq) c = Some (user_handler env rq c)"
| "client_handler env (RoomRequest rq) c = Some (room_handler env rq c)"
| "client_handler env (MessageRequest rq) c = message_handler env rq c"

lemma user_handler_refuses:
  assumes "\<And>rid. xe_get_room (re_exec env) rid \<noteq> None \<Longrightarrow> re_refreshed_room env rid \<noteq> None"
  shows "refused c (user_handler env rq c)"
  by (cases rq) (simp_all add: user_requests_refuse invite_refuses assms)

lemma room_handler_refuses: "refused c (room_handler env rq c)"
  by (cases rq) (simp_all add: room_requests_refuse)

lemma message_handler_refuses: "message_handler env rq c = Some rc \<Longrightarrow> refused c rc"
  by (cases rq) (auto simp: message_requests_refuse)

lemma client_handler_refuses:
  assumes "\<And>rid. xe_get_room (re_exec env) rid \<noteq> None \<Longrightarrow> re_refreshed_room env rid \<noteq> None"
    "client_handler env rq c = Some rc"
  shows "refused c rc"
  using assms(2) user_handler_refuses [OF assms(1)]
  by (cases rq) (auto dest: message_handler_refuses simp: room_handler_refuses)

text \<open>
  Claim C16: A request about users, rooms or messages that is answered with an error for what it
  names (an ID that is none, or a room the session does not know) has had no effect at all:
  nothing was asked of the server, nothing was sent to the application, and no cache and no file
  has changed.  The room of an invitation is looked up twice, and has to be there both times.
\<close>

theorem refused_request_has_no_effect:
  assumes "\<And>rid. xe_get_room (re_exec env) rid \<noteq> None \<Longrightarrow> re_refreshed_room env rid \<noteq> None"
    and "client_handler env rq c = Some (Inl e, c')"
    and "e \<in> {InvalidRoomId, RoomNotFound, InvalidMessageId, InvalidThreadId, InvalidUserId}"
  shows "c' = c"
proof -
  have "refused c (Inl e :: error + client_response, c')"
    using client_handler_refuses assms(1,2) by blast
  moreover have "rejection e" using assms(3) by auto
  ultimately show ?thesis by (simp add: refused_def)
qed

theorem refused_request_has_no_effect_witness:
  "\<forall>env r mm. let env = (answering r (Inr ()) env)\<lparr>re_refreshed_room := \<lambda>_. Some r\<rparr>;
       env = env\<lparr>re_client := (re_client env)\<lparr>ce_user_id_ok := \<lambda>i. i \<noteq> ''bob''\<rparr>\<rparr>
     in user_handler env (Invite ''!r'' [''@a:x'', ''bob'']) (toy_client mm) =
       (Inl InvalidUserId, toy_client mm)"
proof (intro allI)
  fix env :: "'a request_env" and r :: sdk_room and mm :: media_manager
  let ?env = "(answering r (Inr ()) env)\<lparr>re_refreshed_room := \<lambda>_. Some r\<rparr>"
  let ?env = "?env\<lparr>re_client := (re_client ?env)\<lparr>ce_user_id_ok := \<lambda>i. i \<noteq> ''bob''\<rparr>\<rparr>"
  let ?rc = "user_handler ?env (Invite ''!r'' [''@a:x'', ''bob'']) (toy_client mm)"
  have "get_matrix_room ?env ''!r'' (toy_client mm) = Inr r"
    by (simp add: get_matrix_room_ok answering_def re_exec_def serves_reaction_def toy_client_def)
  then have rc: "fst ?rc = Inl InvalidUserId"
    by (simp add: invite_def with_room_def parse_user_ids_def respond_def)
  then have "client_handler ?env (UserRequest (Invite ''!r'' [''@a:x'', ''bob''])) (toy_client mm) =
      Some (Inl InvalidUserId, snd ?rc)"
    by (simp add: prod_eq_iff)
  then have "snd ?rc = toy_client mm" by (rule refused_request_has_no_effect [rotated]) simp_all
  with rc show "let env = (answering r (Inr ()) env)\<lparr>re_refreshed_room := \<lambda>_. Some r\<rparr>;
       env = env\<lparr>re_client := (re_client env)\<lparr>ce_user_id_ok := \<lambda>i. i \<noteq> ''bob''\<rparr>\<rparr>
     in user_handler env (Invite ''!r'' [''@a:x'', ''bob'']) (toy_client mm) =
       (Inl InvalidUserId, toy_client mm)"
    by (simp add: Let_def prod_eq_iff)
qed

section \<open>Refused logins\<close>

text \<open>
  The answers to the question who is logged in on which a login gives up the session: the status
  401 Unauthorized, of a Matrix error or of any other response, and no answer because the SDK had
  no access token to ask with.
\<close>

fun status_of :: "http_variant \<Rightarrow> nat option" where
  "status_of (HeReqwest e) = rq_status e"
| "status_of (HeApi status) = status"
| "status_of _ = None"

definition unauthorized :: "http_error \<Rightarrow> bool" where
  "unauthorized err \<longleftrightarrow> status_of (he_variant err) = Some 401"

definition no_token_to_ask_with :: "http_error \<Rightarrow> bool" where
  "no_token_to_ask_with err \<longleftrightarrow> he_variant err = HeIntoHttp IntoHttpAuthentication"

lemma auth_error_iff: "is_auth_err_matrix_http err \<longleftrightarrow> unauthorized err \<or> no_token_to_ask_with err"
  by (cases "he_variant err") (auto simp: is_auth_err_matrix_http_def unauthorized_def no_token_to_ask_with_def)

text \<open>
  Claim C22: A login never gives up a session that may still be good.  Unless the question who is logged
  in is answered with the status 401, or cannot be asked for want of an access token, both logins
  are refused, and all they have done is to ask; no file, no cache and no other part of the client has
  changed.  A session that is still valid is answered as such; a lost network, a timeout, and
  any other failure are answered with the error.
\<close>

theorem login_keeps_unrejected_session:
  assumes "\<not> mtx_poisoned (cl_session c)"
    and "\<And>err. ce_whoami env = Inl err \<Longrightarrow> \<not> unauthorized err \<and> \<not> no_token_to_ask_with err"
    and "e = (case ce_whoami env of Inl err \<Rightarrow> MatrixSdkHttpError err | Inr _ \<Rightarrow> AlreadyLoggedIn)"
  shows "login_username_password env username password c = (Inl e, record_call CallWhoami c) \<and>
    login_sso env identity_provider c = (Inl e, record_call CallWhoami c)"
  using assms
  by (auto simp: login_username_password_def login_sso_def prepare_login_def is_logged_in_def session_of_ok
      auth_error_iff split: sum.splits)

text \<open>The server does not answer in time.\<close>

definition timed_out :: http_error where
  "timed_out = \<lparr>he_client_api = None, he_variant = HeReqwest \<lparr>rq_is_request = True, rq_is_connect = False,
     rq_is_timeout = True, rq_status = None\<rparr>\<rparr>"

theorem login_keeps_unrejected_session_witness:
  "\<forall>env mm. login_username_password (env\<lparr>ce_whoami := Inl timed_out\<rparr>) ''u'' ''p'' (toy_client mm) =
       (Inl (MatrixSdkHttpError timed_out), record_call CallWhoami (toy_client mm)) \<and>
     login_username_password (env\<lparr>ce_whoami := Inr ()\<rparr>) ''u'' ''p'' (toy_client mm) =
       (Inl AlreadyLoggedIn, record_call CallWhoami (toy_client mm))"
proof (intro allI)
  fix env :: "'a client_env" and mm
  have c: "\<not> mtx_poisoned (cl_session (toy_client mm))" by (simp add: toy_client_def)
  have t: "\<not> unauthorized timed_out \<and> \<not> no_token_to_ask_with timed_out"
    by (simp add: unauthorized_def no_token_to_ask_with_def timed_out_def)
  show "login_username_password (env\<lparr>ce_whoami := Inl timed_out\<rparr>) ''u'' ''p'' (toy_client mm) =
       (Inl (MatrixSdkHttpError timed_out), record_call CallWhoami (toy_client mm)) \<and>
     login_username_password (env\<lparr>ce_whoami := Inr ()\<rparr>) ''u'' ''p'' (toy_client mm) =
       (Inl AlreadyLoggedIn, record_call CallWhoami (toy_client mm))"
    using login_keeps_unrejected_session [OF c, of "env\<lparr>ce_whoami := Inl timed_out\<rparr>" "MatrixSdkHttpError timed_out" "''u''" "''p''"]
      login_keeps_unrejected_session [OF c, of "env\<lparr>ce_whoami := Inr ()\<rparr>" AlreadyLoggedIn "''u''" "''p''"] t
    by simp
qed

section \<open>Identity providers\<close>

text \<open>
  Identity providers that have been found are answered from the cache from then on, without
  asking the server again.
\<close>

lemma identity_providers_asked_once:
  assumes "get_identity_providers env c = (Inr idps, c')" "idps \<noteq> []"
  shows "get_identity_providers env' c' = (Inr idps, c')"
  using assms
  by (auto simp: get_identity_providers_def and_then_def split: sum.splits option.splits prod.splits)

end
