(* ===== verification/ClientSystem.thy ===== *)
theory ClientSystem
  imports ClientRejects TidyRooms EventDispatch
begin

text \<open>
  The client as a whole: its requests, the tasks they leave behind, the responses that pass
  through it, the SDK's events on their way through the queue and the saving of the caches, as
  steps that interleave in any order.  The contract \<open>session_invariant\<close> lifts a predicate on the
  event queue with its executor from the few things the handlers do to it to every step and every
  run; it is interpreted for the queue's counter, the executor's tables, the rooms of the memory
  cache and what each of them holds.
\<close>

section \<open>Steps\<close>

text \<open>The event queue of the session, on the files of the client.\<close>

definition client_queue :: "client \<Rightarrow> event_queue" where
  "client_queue c = (sx_queue (mtx_data (cl_session c)))\<lparr>eq_executor := client_executor c\<rparr>"

definition put_queue :: "event_queue \<Rightarrow> client \<Rightarrow> client" where
  "put_queue q c =
     (put_session ((mtx_data (cl_session c))\<lparr>sx_queue := q\<rparr>) c)
       \<lparr>cl_world := (cl_world c)\<lparr>w_fs := ex_fs (eq_executor q)\<rparr>\<rparr>"

text \<open>The task that retries the encrypted events of a room which the memory cache knows.\<close>

definition retry_task :: "'m client_env \<Rightarrow> string \<Rightarrow> string list option \<Rightarrow> client \<Rightarrow> client" where
  "retry_task env rid events c =
     (case get_room rid (ex_memory (client_executor c)) of
        Inr (Some room) \<Rightarrow> snd (on_executor (on_cached_room room (retry_decryption (ce_room_env env) events)) c)
      | _ \<Rightarrow> c)"

text \<open>
  One round of a background sync, which has the session and whether the network was unavailable
  to itself and works on the context it was started on: the current one, or an earlier one of
  which a reset has only left the cache.
\<close>

definition sync_process_of :: "'m session \<Rightarrow> bool \<Rightarrow> proto_cache_inner \<Rightarrow> client \<Rightarrow> 'm sync_process" where
  "sync_process_of s unavailable cache c =
     \<lparr>sp_session = s, sp_network_was_unavailable = unavailable, sp_cache = cache,
      sp_world = cl_world c, sp_log = client_log c\<rparr>"

definition put_process :: "'m sync_process \<Rightarrow> client \<Rightarrow> client" where
  "put_process sp c =
     (let c = c\<lparr>cl_world := sp_world sp\<rparr>
      in put_executor ((client_executor c)\<lparr>ex_sent := sp_log sp\<rparr>) c)"

definition sync_round_task ::
  "'m client_env \<Rightarrow> 'm session \<Rightarrow> bool \<Rightarrow> 'm sync_round \<Rightarrow> client \<Rightarrow> client" where
  "sync_round_task env s unavailable rn c =
     (let sx = mtx_data (cl_session c);
          (_, sp) = background_sync (ce_session_env env) [rn] (sync_process_of s unavailable (sx_proto sx) c)
      in put_process sp (put_session (sx\<lparr>sx_proto := sp_cache sp\<rparr>) c))"

definition old_sync_round_task ::
  "'m client_env \<Rightarrow> nat \<Rightarrow> 'm session \<Rightarrow> bool \<Rightarrow> 'm sync_round \<Rightarrow> client \<Rightarrow> client" where
  "old_sync_round_task env i s unavailable rn c =
     (if i < length (cl_old_caches c)
      then (let (_, sp) = background_sync (ce_session_env env) [rn]
                  (sync_process_of s unavailable (cl_old_caches c ! i) c)
            in put_process sp (c\<lparr>cl_old_caches := (cl_old_caches c)[i := sp_cache sp]\<rparr>))
      else c)"

text \<open>
  The steps, each with what the SDK and the server answer: the requests; the tasks of a login
  over the browser, of a user that is synced and of encrypted events that are retried; a round of
  a background sync, of whatever session and on the current or an earlier context; a response
  on its way to the application; an event of the SDK with the time of its arrival, a batch of
  updates of the joined rooms and of the SDK's event cache, the sender at the given place getting
  its slot, and the executor receiving an action; the saving of the session's cache and of an earlier
  one.
\<close>

datatype 'm client_event =
  SessionRequested "'m request_env" session_request
| Requested "'m request_env" client_request
| LoginSsoTask "'m client_env"
| SyncUserTask "user \<Rightarrow> user \<Rightarrow> string \<times> user_change list" "'m request_env" string
| RetryTask "'m client_env" string "string list option"
| SyncRound "'m client_env" "'m session" bool "'m sync_round"
| OldSyncRound "'m client_env" nat "'m session" bool "'m sync_round"
| Responded "'m client_env" "response option"
| Arrived u64 sdk_event
| RoomsUpdated "(string \<times> raw list) list"
| EventCacheUpdated "string list"
| Delivered nat
| Received exec_env
| Saved "'m client_env"
| OldSaved "'m client_env" nat

definition deliver_action :: "nat \<Rightarrow> event_queue \<Rightarrow> event_queue option" where
  "deliver_action i q =
     (if length (eq_channel q) < event_channel_capacity \<and> i < length (eq_waiting q)
      then Some (q\<lparr>eq_waiting := take i (eq_waiting q) @ drop (Suc i) (eq_waiting q),
                   eq_channel := eq_channel q @ [eq_waiting q ! i]\<rparr>)
      else None)"

fun client_step :: "'m client_event \<Rightarrow> client \<Rightarrow> client option" where
  "client_step (SessionRequested env rq) c = Some (snd (session_handler env rq c))"
| "client_step (Requested env rq) c = map_option snd (client_handler env rq c)"
| "client_step (LoginSsoTask env) c = Some (login_sso_task env c)"
| "client_step (SyncUserTask compare_users env user_id) c = Some (sync_user_task compare_users env user_id c)"
| "client_step (RetryTask env rid events) c = Some (retry_task env rid events c)"
| "client_step (SyncRound env s unavailable rn) c = Some (sync_round_task env s unavailable rn c)"
| "client_step (OldSyncRound env i s unavailable rn) c = Some (old_sync_round_task env i s unavailable rn c)"
| "client_step (Responded env response) c = Some (on_response env response c)"
| "client_step (Arrived now e) c = Some (put_queue (handle_sdk_event now e (client_queue c)) c)"
| "client_step (RoomsUpdated updates) c = Some (put_queue (room_updates updates (client_queue c)) c)"
| "client_step (EventCacheUpdated rids) c = Some (put_queue (event_cache_updates rids (client_queue c)) c)"
| "client_step (Delivered i) c = map_option (\<lambda>q. put_queue q c) (deliver_action i (client_queue c))"
| "client_step (Received env) c = Some (put_queue (receive_action env (client_queue c)) c)"
| "client_step (Saved env) c = Some (save_session_cache env c)"
| "client_step (OldSaved env i) c = Some (save_old_cache env i c)"

text \<open>A run; there is none when a step is not possible, or still waits for the server.\<close>

fun client_run :: "'m client_event list \<Rightarrow> client \<Rightarrow> client option" where
  "client_run [] c = Some c"
| "client_run (e # es) c = (case client_step e c of None \<Rightarrow> None | Some c \<Rightarrow> client_run es c)"

section \<open>What the steps do to the queue\<close>

text \<open>
  What a handler can do to the executor; a room it puts into the memory cache is tidy if those
  that were there are.
\<close>

inductive executor_step :: "executor \<Rightarrow> executor \<Rightarrow> bool" where
  sent: "executor_step ex (ex\<lparr>ex_sent := log\<rparr>)"
| files: "executor_step ex (ex\<lparr>ex_fs := fs\<rparr>)"
| create: "executor_step ex (ex\<lparr>ex_memory := snd (get_or_create_room rid (ex_memory ex))\<rparr>)"
| put: "tidy_rooms (ex_memory ex) \<longrightarrow> tidy_room room \<Longrightarrow>
    executor_step ex (ex\<lparr>ex_memory := put_room room (ex_memory ex)\<rparr>)"

abbreviation executor_steps :: "executor \<Rightarrow> executor \<Rightarrow> bool" where
  "executor_steps \<equiv> executor_step\<^sup>*\<^sup>*"

lemma steps_send: "executor_steps ex (send_event e ex)"
  unfolding send_event_def by (rule r_into_rtranclp) (rule sent)

lemma steps_on_fs: "executor_steps ex (snd (on_fs f ex))"
  unfolding on_fs_eq by simp (rule r_into_rtranclp, rule files)

lemma created_room: "get_or_create_room rid mc = (Inr room, mc') \<Longrightarrow> get_room rid mc' = Inr (Some room)"
  by (auto simp: get_or_create_room_def get_room_def Let_def lock_def put_guard_def split: option.splits if_splits)

lemma steps_in_room:
  assumes "\<And>room. tidy_room room \<Longrightarrow> tidy_room (snd (f room))"
  shows "executor_steps ex (snd (on_memory (in_room f rid) ex))"
proof -
  let ?ex = "ex\<lparr>ex_memory := snd (get_or_create_room rid (ex_memory ex))\<rparr>"
  have create: "executor_steps ex ?ex" by (rule r_into_rtranclp) (rule create)
  obtain r mc where g: "get_or_create_room rid (ex_memory ex) = (r, mc)"
    by (cases "get_or_create_room rid (ex_memory ex)")
  show ?thesis
  proof (cases r)
    case (Inl e)
    with g create show ?thesis by (simp add: on_memory_eq in_room_def)
  next
    case (Inr room)
    then have "tidy_rooms (ex_memory ?ex) \<longrightarrow> tidy_room (snd (f room))"
      using assms tidy_rooms_get created_room g by (metis executor.select_convs(1) executor.surjective
          executor.update_convs(1) snd_conv)
    from rtranclp.rtrancl_into_rtrancl [OF create executor_step.put [OF this]] g Inr show ?thesis
      by (cases "f room") (simp add: on_memory_eq in_room_def)
  qed
qed

lemma steps_in_known_room:
  assumes "\<And>room. tidy_room room \<Longrightarrow> tidy_room (snd (f room))"
  shows "executor_steps ex (snd (on_memory (in_known_room d f rid) ex))"
proof -
  have "executor_steps ex (ex\<lparr>ex_memory := put_room room' (ex_memory ex)\<rparr>)"
    if "get_room rid (ex_memory ex) = Inr (Some room)" "f room = (r, room')" for room r room'
    using assms [of room] that tidy_rooms_get [of "ex_memory ex" rid room]
    by (intro r_into_rtranclp executor_step.put) simp
  then show ?thesis
    by (auto simp: on_memory_eq in_known_room_def split: sum.split option.split prod.split)
qed

lemma steps_on_cached_room:
  assumes "tidy_rooms (ex_memory ex) \<Longrightarrow>
    tidy_room (st_room (snd (f \<lparr>st_room = room, st_fs = ex_fs ex, st_log = ex_sent ex\<rparr>)))"
  shows "executor_steps ex (snd (on_cached_room room f ex))"
proof -
  obtain r st where f: "f \<lparr>st_room = room, st_fs = ex_fs ex, st_log = ex_sent ex\<rparr> = (r, st)"
    by (cases "f \<lparr>st_room = room, st_fs = ex_fs ex, st_log = ex_sent ex\<rparr>")
  let ?ex = "ex\<lparr>ex_memory := put_room (st_room st) (ex_memory ex)\<rparr>"
  have "executor_steps ex ?ex" using assms f by (intro r_into_rtranclp executor_step.put) simp
  also have "executor_step ?ex (?ex\<lparr>ex_fs := st_fs st\<rparr>)" by (rule files)
  also have "executor_step (?ex\<lparr>ex_fs := st_fs st\<rparr>) (?ex\<lparr>ex_fs := st_fs st, ex_sent := st_log st\<rparr>)"
    by (rule sent)
  finally show ?thesis by (simp add: on_cached_room_def f)
qed

lemma steps_on_known_room:
  assumes "get_room rid (ex_memory ex) = Inr (Some room)"
    and "\<And>st. tidy_room (st_room st) \<Longrightarrow> tidy_room (st_room (snd (f st)))"
  shows "executor_steps ex (snd (on_cached_room room f ex))"
  using assms tidy_rooms_get [OF _ assms(1)] by (intro steps_on_cached_room) simp

lemma steps_create: "executor_steps ex (snd (on_memory (get_or_create_room rid) ex))"
  unfolding on_memory_eq by simp (rule r_into_rtranclp, rule create)

lemma steps_fetch_messages: "executor_steps ex (snd (on_memory (mc_fetch_messages ewc acc rid opts) ex))"
proof -
  have "snd (mc_fetch_messages ewc acc rid opts (ex_memory ex)) = ex_memory ex \<or>
      snd (mc_fetch_messages ewc acc rid opts (ex_memory ex)) = snd (get_or_create_room rid (ex_memory ex))"
    by (cases "get_or_create_room rid (ex_memory ex)")
      (auto simp: mc_fetch_messages_def Let_def and_then_def split: sum.split)
  then show ?thesis
    using steps_create [of ex rid] by (auto simp: on_memory_eq)
qed

lemma steps_fetch_message: "executor_steps ex (snd (fetch_message env rid i ex))"
proof -
  obtain r ex' where g: "on_memory (get_or_create_room rid) ex = (r, ex')"
    by (cases "on_memory (get_or_create_room rid) ex")
  then have create: "executor_steps ex ex'" using steps_create [of ex rid] by simp
  show ?thesis
  proof (cases r)
    case (Inr room)
    have "get_or_create_room rid (ex_memory ex) = (Inr room, ex_memory ex')"
      using g Inr by (auto simp: on_memory_eq prod_eq_iff)
    then have known: "get_room rid (ex_memory ex') = Inr (Some room)" by (rule created_room)
    have "executor_steps ex' (snd (on_cached_room room (message_fetcher_run e q) ex'))" for e q
      by (rule steps_on_known_room [OF known]) (rule tidy_runs(2))
    with g Inr show ?thesis by (simp add: fetch_message_def rtranclp_trans [OF create])
  qed (simp add: fetch_message_def g create)
qed

lemma steps_run_fetcher:
  assumes "run_fetcher env rid f ex = Some (f', ex')"
  shows "executor_steps ex ex'"
proof (cases "\<exists>room. get_room rid (ex_memory ex) = Inr (Some room)")
  case True
  then obtain room where room: "get_room rid (ex_memory ex) = Inr (Some room)" by blast
  let ?run = "fetcher_run (ce_room_env (re_client env)) (re_chunks env) f
      \<lparr>st_room = room, st_fs = ex_fs ex, st_log = ex_sent ex\<rparr>"
  obtain g st where run: "?run = Some (g, st)"
    using assms room by (cases ?run) (auto simp: run_fetcher_def)
  with assms room have ex': "(f', ex') = on_cached_room room (\<lambda>_. (g, st)) ex"
    by (simp add: run_fetcher_def)
  have "tidy_rooms (ex_memory ex) \<Longrightarrow> tidy_room (st_room st)"
    using tidy_runs(3) [OF _ run] tidy_rooms_get [OF _ room] by simp
  then have "executor_steps ex (snd (on_cached_room room (\<lambda>_. (g, st)) ex))"
    by (intro steps_on_cached_room) simp
  with ex' show ?thesis by (metis snd_conv)
next
  case False
  with assms show ?thesis by (auto simp: run_fetcher_def split: sum.splits option.splits)
qed

lemma send_action_executor [simp]:
  "eq_executor (send_action act q) = eq_executor q"
  "(send_action act q)\<lparr>eq_executor := ex\<rparr> = send_action act (q\<lparr>eq_executor := ex\<rparr>)"
  by (cases q, simp add: send_action_def)+

lemma process_room_list_response_executor [simp]:
  "eq_executor (process_room_list_response rs q) = eq_executor q"
  "(process_room_list_response rs q)\<lparr>eq_executor := ex\<rparr> = process_room_list_response rs (q\<lparr>eq_executor := ex\<rparr>)"
  by (induction rs arbitrary: q) simp_all

lemma process_response_executor:
  "eq_executor (process_response r q) = eq_executor q"
  "(process_response r q)\<lparr>eq_executor := ex\<rparr> = process_response r (q\<lparr>eq_executor := ex\<rparr>)"
  by (cases r; simp)+

section \<open>Invariants of the session\<close>

locale session_invariant =
  fixes J :: "event_queue \<Rightarrow> bool"
  assumes J_executor: "J q \<Longrightarrow> executor_step (eq_executor q) ex \<Longrightarrow> J (q\<lparr>eq_executor := ex\<rparr>)"
    and J_new: "J (event_manager_new (executor_new memory_cache_new fs))"
    and J_offer: "J q \<Longrightarrow> J (send_action act q)"
    and J_deliver: "J q \<Longrightarrow> deliver_action i q = Some q' \<Longrightarrow> J q'"
    and J_receive: "J q \<Longrightarrow> J (receive_action env q)"
begin

definition holds :: "client \<Rightarrow> bool" where
  "holds c = J (client_queue c)"

definition keeps :: "client \<Rightarrow> 'r \<times> client \<Rightarrow> bool" where
  "keeps c rc \<longleftrightarrow> (holds c \<longrightarrow> holds (snd rc))"

lemma J_executor_steps:
  "executor_steps ex ex' \<Longrightarrow> J (q\<lparr>eq_executor := ex\<rparr>) \<Longrightarrow> J (q\<lparr>eq_executor := ex'\<rparr>)"
proof (induction rule: rtranclp_induct)
  case (step y z)
  then show ?case using J_executor [of "q\<lparr>eq_executor := y\<rparr>" z] by simp
qed

lemma holds_put_executor: "holds c \<Longrightarrow> executor_steps (client_executor c) ex \<Longrightarrow> holds (put_executor ex c)"
  using J_executor_steps [of "client_executor c" ex "sx_queue (mtx_data (cl_session c))"]
  by (simp add: holds_def client_queue_def put_executor_def client_executor_def put_session_def Let_def)

lemma holds_outside:
  "mtx_data (cl_session c') = mtx_data (cl_session c) \<Longrightarrow> holds c \<Longrightarrow> holds c'"
  using J_executor [of "client_queue c", OF _ executor_step.files [where fs = "w_fs (cl_world c')"]]
  by (simp add: holds_def client_queue_def client_executor_def)

lemma keepsD: "keeps c rc \<Longrightarrow> holds c \<Longrightarrow> holds (snd rc)"
  by (simp add: keeps_def)

lemma keeps_return [simp]: "keeps c (r, c)"
  by (simp add: keeps_def)

lemma keeps_call [simp]: "keeps c (call env k c)" "keeps c (r, record_call k c)"
  by (auto simp: keeps_def call_def record_call_def intro: holds_outside [rotated])

lemma keeps_respond [simp]: "keeps c (respond f rc) \<longleftrightarrow> keeps c rc"
  by (simp add: keeps_def respond_def split: prod.split sum.split)

lemma keeps_and_then: "keeps c rc \<Longrightarrow> (\<And>x c. keeps c (k x c)) \<Longrightarrow> keeps c (and_then rc k)"
  by (cases rc; cases "fst rc") (auto simp: keeps_def)

lemma keeps_with_session: "(\<And>sx c. keeps c (f sx c)) \<Longrightarrow> keeps c (with_session f c)"
  by (simp add: with_session_def split: sum.split)

lemma keeps_with_room: "(\<And>r c. keeps c (f r c)) \<Longrightarrow> keeps c (with_room env rid f c)"
  by (simp add: with_room_def split: sum.split)

lemma keeps_on_executor:
  assumes "executor_steps (client_executor c) (snd (f (client_executor c)))"
  shows "keeps c (on_executor f c)"
  using holds_put_executor [of c "snd (f (client_executor c))"] assms
  by (cases "f (client_executor c)") (simp add: keeps_def on_executor_def)

lemma keeps_on_files: "keeps c (on_files f c)"
  unfolding on_files_def by (rule keeps_on_executor) (rule steps_on_fs)

lemma holds_send: "holds c \<Longrightarrow> holds (client_send e c)"
  unfolding client_send_def by (erule holds_put_executor) (rule steps_send)

lemma keeps_send [simp]: "keeps c (r, client_send e c)"
  by (simp add: keeps_def holds_send)

lemma holds_world: "holds c \<Longrightarrow> holds (c\<lparr>cl_world := w\<rparr>)"
  by (rule holds_outside [rotated]) simp_all

lemma holds_proto: "holds c \<Longrightarrow> holds (put_session ((mtx_data (cl_session c))\<lparr>sx_proto := p\<rparr>) c)"
  by (simp add: holds_def client_queue_def client_executor_def put_session_def)

lemma keeps_trans: "keeps c (r, c') \<Longrightarrow> keeps c' rc \<Longrightarrow> keeps c rc"
  by (simp add: keeps_def)

lemma holds_on_executor:
  "on_executor f c = (r, c') \<Longrightarrow> holds c \<Longrightarrow>
   executor_steps (client_executor c) (snd (f (client_executor c))) \<Longrightarrow> holds c'"
  using keeps_on_executor [of c f] by (auto simp: keeps_def)

lemma holds_on_files: "on_files f c = (r, c') \<Longrightarrow> holds c \<Longrightarrow> holds c'"
  using keeps_on_files [of c f] by (simp add: keeps_def)

lemma holds_record_call: "holds c \<Longrightarrow> holds (record_call k c)"
  using keeps_call(2) [of c] by (simp add: keeps_def)

lemma holds_try_call: "holds c \<Longrightarrow> holds (try_call env k c)"
  by (simp add: try_call_def call_def holds_record_call)

lemma holds_send_error: "holds c \<Longrightarrow> holds (send_error env e c)"
  by (simp add: send_error_def holds_send)

subsection \<open>Requests on users\<close>

lemma keeps_verifications:
  "keeps c (cleanup_verifications c)" "keeps c (push_verification_request m c)"
  "keeps c (on_verification flow_id f c)" "keeps c (abort_verification flow_id c)"
proof -
  have verifications: "keeps c (r, c\<lparr>cl_verifications := v\<rparr>)"
    "keeps c (r, c\<lparr>cl_verifications := v, cl_aborted := a\<rparr>)" for c v a and r :: "error + 'x"
    by (auto simp: keeps_def intro: holds_outside [rotated])
  show cleanup: "keeps c (cleanup_verifications c)" for c
    by (auto simp: cleanup_verifications_def verifications split: sum.split)
  show "keeps c (push_verification_request m c)" "keeps c (on_verification flow_id f c)"
    by (auto simp: push_verification_request_def on_verification_def verifications
        split: sum.split option.split)
  show "keeps c (abort_verification flow_id c)"
    unfolding abort_verification_def
    by (rule keeps_and_then [OF cleanup]) (auto simp: verifications split: sum.split option.split)
qed

lemma keeps_cross_signing:
  "keeps c (cross_signing_start env ms c)" "keeps c (cross_signing_select_method flow_id m c)"
  "keeps c (cross_signing_confirm flow_id c)" "keeps c (recovery_key_verification env k c)"
  unfolding cross_signing_start_def cross_signing_select_method_def cross_signing_confirm_def
    recovery_key_verification_def Let_def
  by (intro keeps_and_then keeps_with_session keeps_verifications;
      auto intro: keeps_trans [OF keeps_call(2)] intro!: keeps_and_then keeps_verifications
      split: option.split sum.split bool.split)+

lemma keeps_get_user: "keeps c (get_user env uid c)"
proof -
  have "keeps c (case on_files (get_and_sync_user me mm server cache uid) c of
      ((Inl e, _), c) \<Rightarrow> (Inl e, c) | ((Inr u, synced), c) \<Rightarrow> (Inr (u, synced), c))" for me mm server cache c
    by (auto simp: keeps_def dest: holds_on_files split: prod.splits sum.splits)
  then show ?thesis by (auto simp: get_user_def intro: keeps_with_session)
qed

lemma keeps_search_users: "keeps c (search_users env query limit c)"
  unfolding search_users_def
  by (rule keeps_with_session) (auto simp: Let_def keeps_def holds_record_call
      dest: holds_on_files [OF _ holds_record_call] split: sum.splits prod.splits)

lemma keeps_set_status: "keeps c (set_status env status c)"
proof -
  have "keeps c (r, put_session ((mtx_data (cl_session c))\<lparr>sx_proto := p\<rparr>) c)" for c p and r :: "error + 'x"
    by (simp add: keeps_def holds_proto)
  then show ?thesis
    unfolding set_status_def Let_def
    by (intro keeps_with_session) (auto intro!: keeps_and_then split: option.splits sum.splits)
qed

lemma holds_invite_all: "holds c \<Longrightarrow> holds (invite_all env rid us c)"
  by (induction us arbitrary: c) (simp_all add: holds_try_call)

lemma keeps_assemble_room: "keeps c (assemble_room env r c)"
  unfolding assemble_room_def by (rule keeps_on_files)

lemma keeps_invite: "keeps c (invite env rid us c)"
  unfolding invite_def Let_def
  by (rule keeps_with_room) (auto simp: keeps_def holds_invite_all split: sum.split)

lemma keeps_invitation_reply: "keeps c (invitation_reply env rid accept c)"
  unfolding invitation_reply_def
  by (intro keeps_with_session keeps_with_room)
    (auto intro!: keeps_and_then keeps_assemble_room)

lemma keeps_plain_requests:
  "keeps c (get_global_settings env c)" "keeps c (get_public_rooms env l since term c)"
  unfolding get_global_settings_def get_public_rooms_def
  by (intro keeps_with_session; simp)+

lemmas keeps_user_requests = keeps_verifications(4) keeps_get_user keeps_search_users keeps_set_status
  keeps_invite keeps_invitation_reply keeps_plain_requests

subsection \<open>Requests on rooms\<close>

lemma keeps_get_rooms: "keeps c (get_rooms env j u c)"
  unfolding get_rooms_def
  by (rule keeps_with_session) (auto intro!: keeps_and_then keeps_on_files split: option.split)

lemma keeps_upload_avatar: "keeps c (upload_avatar env r p c)"
  by (auto simp: upload_avatar_def keeps_def holds_send_error dest: holds_on_files split: prod.split sum.split)

lemma holds_upload_avatar: "upload_avatar env r p c = (b, c') \<Longrightarrow> holds c \<Longrightarrow> holds c'"
  using keeps_upload_avatar [of c env r p] by (simp add: keeps_def)

lemma keeps_create_room: "keeps c (create_room env rq a c)"
proof -
  have "holds c \<Longrightarrow> holds (snd (assemble_room env r c))" for r c
    using keeps_assemble_room [of c env r] by (simp add: keeps_def)
  moreover have "holds c \<Longrightarrow> holds (snd (upload_avatar env r p c))" for r p c
    using keeps_upload_avatar [of c env r p] by (simp add: keeps_def)
  ultimately show ?thesis
    by (simp add: keeps_def create_room_def Let_def holds_record_call split: sum.split option.split)
qed

lemma keeps_create_rooms:
  "keeps c (create_group_room env name invitees rule avatar c)"
  "keeps c (create_direct_room env name invitee avatar c)"
  unfolding create_group_room_def create_direct_room_def
  by (rule keeps_with_session; auto intro!: keeps_create_room split: option.splits sum.splits)+

lemma keeps_room_calls: "keeps c (room_calls rid answered c)"
  by (auto simp: room_calls_def keeps_def split: prod.split intro: holds_outside [rotated])

lemma keeps_room_changes:
  "keeps c (change_name env r name c)" "keeps c (change_join_rule env r rule c)"
  "keeps c (change_avatar env r path c)" "keeps c (change_favourite env r b c)"
  "keeps c (change_conference env r url c)"
  unfolding change_name_def change_join_rule_def change_favourite_def change_conference_def
  by (auto intro!: keeps_and_then keeps_room_calls split: option.split)
    (auto simp: change_avatar_def keeps_def dest: holds_upload_avatar split: prod.split)

lemma keeps_if_set: "(\<And>x c. keeps c (f x c)) \<Longrightarrow> keeps c (if_set v f c)"
  by (simp add: if_set_def split: option.split)

lemma keeps_change_room: "keeps c (change_room env rq c)"
  unfolding change_room_def
  by (intro keeps_with_session keeps_with_room keeps_and_then keeps_if_set keeps_room_changes) simp

lemma keeps_join_room: "keeps c (join_room env rid c)"
  unfolding join_room_def Let_def
  by (rule keeps_with_session) (auto intro: keeps_trans [OF keeps_call(2) keeps_assemble_room] split: sum.split)

lemma keeps_leave_knock: "keeps c (leave_room env rid c)" "keeps c (knock_room env rid msg c)"
  unfolding leave_room_def knock_room_def
  by (rule keeps_with_room keeps_with_session; auto intro!: keeps_and_then)+

lemmas keeps_room_requests = keeps_get_rooms keeps_create_rooms keeps_change_room keeps_join_room keeps_leave_knock

subsection \<open>Requests on messages\<close>

lemma keeps_mark_as_read: "keeps c (mark_as_read env rid c)"
proof -
  have "keeps c (let (_, c) = on_executor (on_memory (mc_mark_room_as_read i ts)) c in (r, c))"
    for i ts c and r :: "error + 'x"
    by (auto simp: keeps_def mc_mark_room_as_read_def steps_in_room tidy_marked dest: holds_on_executor
        split: prod.split)
  then show ?thesis
    unfolding mark_as_read_def
    by (intro keeps_with_session keeps_with_room) (auto intro!: keeps_and_then split: option.split)
qed

lemma keeps_message_calls:
  "keeps c (activate_typing_notice env rid c)" "keeps c (pin_unpin_message env rid i b c)"
  "keeps c (remove_message env rid i reason c)" "keeps c (create_reaction env rid i emoji c)"
  unfolding activate_typing_notice_def pin_unpin_message_def remove_message_def create_reaction_def
  by (rule keeps_with_room; auto intro!: keeps_and_then split: sum.split option.split)+

lemma keeps_send_message: "keeps c (send_message_request env rq c)"
proof -
  have "keeps c (on_files f (try_call env k c))" for f k c and env :: "'x request_env"
    using keeps_on_files [of "try_call env k c" f] holds_try_call [of c env k] by (simp add: keeps_def)
  then show ?thesis
    by (auto simp: send_message_request_def split: sum.split intro!: keeps_with_session keeps_with_room)
qed

lemma keeps_try_call [simp]: "keeps c (r, try_call env k c)"
  by (simp add: keeps_def holds_try_call)

lemma keeps_change_message: "keeps c (change_message env rq c)"
  unfolding change_message_def Let_def
  by (intro keeps_with_room keeps_and_then)
    (auto intro!: keeps_and_then split: option.split send_content.split sum.split)

lemma keeps_redact_reaction:
  "keeps c (and_then (i, c) (\<lambda>event_id c. and_then (call env (k event_id) c)
    (\<lambda>_ c. (Inr (), client_send e c))))"
  by (intro keeps_and_then) simp_all

lemma holds_remove_by_emoji:
  assumes "on_executor (on_memory (mc_remove_reaction_by_emoji rid mid u emoji)) c = (r, c')" "holds c"
  shows "holds c'"
  by (rule holds_on_executor [OF assms]) (simp add: mc_remove_reaction_by_emoji_def steps_in_known_room tidy_remove_by_emoji)

lemma keeps_remove_reaction: "keeps c (remove_reaction env rq c)"
proof -
  have redact: "holds c \<Longrightarrow> holds (snd (and_then (i, c) (\<lambda>event_id c. and_then (call (re_client env) (k event_id) c)
    (\<lambda>_ c. (Inr (), client_send e c)))))" for i k e c
    using keeps_redact_reaction [unfolded keeps_def] by blast
  show ?thesis
    unfolding remove_reaction_def Let_def
    by (intro keeps_with_session keeps_with_room)
      (auto simp: keeps_def intro!: redact dest: holds_remove_by_emoji split: prod.splits sum.splits option.splits)
qed

lemma keeps_get_message: "keeps c (get_message env rid i c)"
proof -
  have "keeps c (case on_executor (fetch_message env rid i) c of
      (Inl e, c) \<Rightarrow> (Inl (MemoryCacheError e), c) | (Inr m, c) \<Rightarrow> (Inr m, c))" for rid i c
    by (auto simp: keeps_def steps_fetch_message dest: holds_on_executor split: prod.split sum.split)
  then show ?thesis
    unfolding get_message_def by (intro keeps_with_session) (auto intro!: keeps_with_room split: sum.split)
qed

lemma keeps_answer_poll: "keeps c (answer_poll env rid i ids c)"
  unfolding answer_poll_def by (intro keeps_and_then keeps_with_room) simp_all

lemma keeps_get_room_messages: "get_room_messages env rq c = Some rc \<Longrightarrow> keeps c rc"
proof -
  have "holds (send_items ms (put_executor ex c'))"
    if "on_executor (on_memory (mc_fetch_messages ewc acc i opts)) c = (Inr f, c')"
      "run_fetcher env i f (client_executor c') = Some (f', ex)" "holds c" for ms ewc acc i opts f f' ex c'
  proof -
    have "holds c'" using holds_on_executor [OF that(1,3)] steps_fetch_messages by blast
    then have "holds (put_executor ex c')" using steps_run_fetcher [OF that(2)] by (rule holds_put_executor)
    then show ?thesis by (rule holds_outside [rotated]) (simp add: send_items_def)
  qed
  then show "get_room_messages env rq c = Some rc \<Longrightarrow> keeps c rc"
    by (auto simp: get_room_messages_def keeps_def steps_fetch_messages dest: holds_on_executor
        split: sum.splits prod.splits option.splits)
qed

lemma user_handler_keeps: "keeps c (user_handler env rq c)"
  by (cases rq) (simp_all add: keeps_user_requests)

lemma room_handler_keeps: "keeps c (room_handler env rq c)"
  by (cases rq) (simp_all add: keeps_room_requests)

lemmas keeps_message_requests = keeps_mark_as_read keeps_message_calls keeps_send_message keeps_change_message
  keeps_remove_reaction keeps_get_message keeps_answer_poll keeps_get_room_messages

lemma message_handler_keeps: "message_handler env rq c = Some rc \<Longrightarrow> keeps c rc"
  by (cases rq) (auto simp: keeps_message_requests)

lemma client_handler_keeps: "client_handler env rq c = Some rc \<Longrightarrow> keeps c rc"
  by (cases rq) (auto simp: message_handler_keeps user_handler_keeps room_handler_keeps)

subsection \<open>Requests on the session\<close>

lemma keeps_push_login_flows: "keeps c (push_login_flows flows response c)"
proof (induction flows response c rule: push_login_flows.induct)
  case (3 idps flows response c)
  have "keeps c (cache_idps idps c)"
    by (auto simp: cache_idps_def keeps_def split: sum.split intro: holds_outside [rotated])
  with 3 show ?case by (cases "cache_idps idps c"; cases "fst (cache_idps idps c)") (auto simp: keeps_def)
qed simp_all

lemma keeps_get_login_flows: "keeps c (get_login_flows env c)"
  by (auto simp: get_login_flows_def split: sum.split
      intro: keeps_trans [OF keeps_call(2) keeps_push_login_flows])

lemma keeps_get_identity_providers: "keeps c (get_identity_providers env c)"
  unfolding get_identity_providers_def
  by (auto intro!: keeps_and_then keeps_get_login_flows split: sum.split option.split)

lemma holds_new_session:
  assumes "session_context_new env h d e s v log w = (Inr sx, w')"
  shows "J ((sx_queue sx)\<lparr>eq_executor := (eq_executor (sx_queue sx))\<lparr>ex_fs := fs\<rparr>\<rparr>)"
proof -
  let ?ex = "executor_new memory_cache_new fs"
  have ex: "(executor_new memory_cache_new fs')\<lparr>ex_sent := log, ex_fs := fs\<rparr> = ?ex\<lparr>ex_sent := log\<rparr>" for fs'
    by (simp add: executor_new_def)
  have "J ((event_manager_new ?ex)\<lparr>eq_executor := ?ex\<lparr>ex_sent := log\<rparr>\<rparr>)"
    by (rule J_executor [OF J_new]) (simp add: event_manager_new_def executor_step.sent)
  with assms ex show ?thesis
    by (auto simp: session_context_new_def event_manager_new_def Let_def split: sum.splits prod.splits)
qed

lemma keeps_reset_session: "keeps c (reset_session env c)"
proof -
  have new: "holds ((put_session sx c')\<lparr>cl_world := w', cl_old_caches := cs\<rparr>)"
    if "session_context_new env h d e s v log w = (Inr sx, w')" for h d e s v log w sx w' c' cs
    using holds_new_session [OF that]
    by (simp add: holds_def client_queue_def client_executor_def put_session_def)
  show ?thesis
    by (auto simp: reset_session_def keeps_def Let_def new holds_world intro: holds_outside [rotated]
        split: sum.splits prod.splits)
qed

lemma keeps_sync_session: "keeps c (sync_session env s c)"
proof -
  have "holds c \<Longrightarrow> holds (put_executor ((client_executor c)\<lparr>ex_sent := log\<rparr>) c)" for c log
    by (erule holds_put_executor) (rule r_into_rtranclp, rule executor_step.sent)
  then show ?thesis
    by (simp add: sync_session_def keeps_def Let_def holds_world holds_proto split: prod.split)
qed

lemma keeps_start_session: "keeps c (start_session env s c)"
proof -
  have "holds c \<Longrightarrow> holds (snd (sync_session env s (c\<lparr>cl_world := w\<rparr>)))" for w
    by (intro keepsD [OF keeps_sync_session] holds_world)
  then show ?thesis by (auto simp: start_session_def keeps_def holds_world split: prod.split sum.split)
qed

lemma keeps_prepare_login: "keeps c (prepare_login env c)"
  unfolding prepare_login_def
  by (intro keeps_and_then) (auto simp: is_logged_in_def intro!: keeps_and_then keeps_reset_session split: sum.split)

lemma keeps_logins:
  "keeps c (login_username_password env username password c)" "keeps c (login_sso env idp c)"
  unfolding login_username_password_def login_sso_def
  by (auto intro!: keeps_and_then keeps_prepare_login keeps_start_session split: sum.split)

lemma session_handler_keeps: "keeps c (session_handler env rq c)"
  by (cases rq) (simp_all add: keeps_get_login_flows keeps_get_identity_providers keeps_logins keeps_cross_signing)

subsection \<open>Steps and runs\<close>

lemma holds_login_sso_task: "holds c \<Longrightarrow> holds (login_sso_task env c)"
proof -
  have "holds c \<Longrightarrow> start_session env s c = (r, c') \<Longrightarrow> holds c'" for s r c'
    using keepsD [OF keeps_start_session, of c env s] by simp
  then show "holds c \<Longrightarrow> holds (login_sso_task env c)"
    by (auto simp: login_sso_task_def split: sum.split prod.split intro!: holds_send_error holds_send)
qed

lemma holds_put_process: "holds c \<Longrightarrow> holds (put_process sp c)"
  unfolding put_process_def Let_def
  by (rule holds_put_executor [OF holds_world]) (assumption, rule r_into_rtranclp, rule executor_step.sent)

lemma holds_sync_round:
  "holds c \<Longrightarrow> holds (sync_round_task env s unavailable rn c)"
  "holds c \<Longrightarrow> holds (old_sync_round_task env i s unavailable rn c)"
  by (auto simp: sync_round_task_def old_sync_round_task_def Let_def split: prod.split
      intro!: holds_put_process holds_proto intro: holds_outside [rotated])

lemma holds_send_all: "holds c \<Longrightarrow> holds (send_all es c)"
  by (induction es arbitrary: c) (simp_all add: holds_send)

lemma holds_sync_user_task: "holds c \<Longrightarrow> holds (sync_user_task compare_users env uid c)"
  by (auto simp: sync_user_task_def Let_def split: prod.split intro: holds_send_all dest: holds_on_files)

lemma holds_retry_task: "holds c \<Longrightarrow> holds (retry_task env rid events c)"
proof -
  have "keeps c (on_executor (on_cached_room room (retry_decryption e events)) c)"
    if "get_room rid (ex_memory (client_executor c)) = Inr (Some room)" for room e
    by (rule keeps_on_executor, rule steps_on_known_room [OF that], rule tidy_runs(1))
  then show "holds c \<Longrightarrow> holds (retry_task env rid events c)"
    by (auto simp: retry_task_def keeps_def split: sum.split option.split)
qed

lemma J_process_response: "J q \<Longrightarrow> J (process_response r q)"
proof -
  have "J q \<Longrightarrow> J (process_room_list_response rooms q)" for rooms q
    by (induction rooms arbitrary: q) (simp_all add: J_offer)
  then show "J q \<Longrightarrow> J (process_response r q)"
    by (cases r) (simp_all add: J_offer)
qed

lemma holds_on_response: "holds c \<Longrightarrow> holds (on_response env r c)"
  by (auto simp: on_response_def session_of_def try_lock_def lock_def holds_def client_queue_def
      client_executor_def put_session_def process_response_executor dest: J_process_response
      split: sum.splits option.splits if_splits)

lemma holds_put_queue: "J q \<Longrightarrow> holds (put_queue q c)"
  by (simp add: holds_def client_queue_def client_executor_def put_queue_def put_session_def)

lemma J_offers:
  "J q \<Longrightarrow> J (handle_sdk_event now e q)" "J q \<Longrightarrow> J (room_updates updates q)"
  "J q \<Longrightarrow> J (event_cache_updates rids q)"
proof -
  have "J q \<Longrightarrow> J (fold (\<lambda>x. send_action (f x)) xs q)" for f :: "'x \<Rightarrow> action" and xs
    by (induction xs arbitrary: q) (simp_all add: J_offer)
  note offers = this
  show "J q \<Longrightarrow> J (handle_sdk_event now e q)"
    using offers [of "\<lambda>act. act" "actions_of now e"] by (simp add: handle_sdk_event_actions)
  show "J q \<Longrightarrow> J (room_updates updates q)"
    using offers [of "\<lambda>u. JoinedRoomUpdate (fst u) (snd u)" updates] by (simp add: room_updates_actions)
  show "J q \<Longrightarrow> J (event_cache_updates rids q)"
    using offers [of EventCacheGenericUpdate rids] by (simp add: event_cache_updates_actions)
qed

lemma client_step_holds: "client_step e c = Some c' \<Longrightarrow> holds c \<Longrightarrow> holds c'"
proof (cases e)
  case (Requested env rq)
  then show "client_step e c = Some c' \<Longrightarrow> holds c \<Longrightarrow> holds c'" by (auto dest!: client_handler_keeps keepsD)
next
  case (Delivered i)
  then show "client_step e c = Some c' \<Longrightarrow> holds c \<Longrightarrow> holds c'"
    by (auto intro: holds_put_queue J_deliver simp: holds_def [of c])
next
  case (Saved env)
  then show "client_step e c = Some c' \<Longrightarrow> holds c \<Longrightarrow> holds c'"
    by (auto simp: save_session_cache_def holds_world)
next
  case (OldSaved env i)
  then show "client_step e c = Some c' \<Longrightarrow> holds c \<Longrightarrow> holds c'"
    by (auto simp: save_old_cache_def holds_world)
qed (auto simp: holds_login_sso_task holds_sync_round holds_sync_user_task holds_retry_task holds_on_response
    intro: keepsD [OF session_handler_keeps] intro!: holds_put_queue J_offers J_receive
    simp flip: holds_def)

lemma client_run_holds: "client_run es c = Some c' \<Longrightarrow> holds c \<Longrightarrow> holds c'"
  by (induction es arbitrary: c) (auto dest: client_step_holds split: option.splits)

lemma keeps_restore_session: "keeps c (restore_session env c)"
proof -
  have "holds c \<Longrightarrow> holds (snd (sync_session env s (record_call k c)))" for c s k
    by (intro keepsD [OF keeps_sync_session] holds_record_call)
  then have sync: "sync_session env s (record_call k c) = (r, c') \<Longrightarrow> holds c \<Longrightarrow> holds c'" for c s k r c'
    by (metis snd_conv)
  show ?thesis
    by (auto simp: restore_session_def keeps_def Let_def split: prod.splits sum.splits
        intro: holds_record_call holds_world sync)
qed

lemma client_new_holds:
  assumes "client_new env rq w = Inr (c, status)"
  shows "holds c"
proof -
  have new: "holds obj"
    if "session_context_new env h d e s v log w = (Inr sx, w')" "mtx_data (cl_session obj) = sx"
    for h d e s v log w sx w' obj
    using holds_new_session [OF that(1)] that(2) by (simp add: holds_def client_queue_def client_executor_def)
  have "\<exists>obj. restore_session env obj = (Inr status, c) \<and> holds obj"
    using assms
    by (auto simp: client_new_def Let_def split: if_splits sum.splits prod.splits intro!: exI intro: new)
  then obtain obj where "restore_session env obj = (Inr status, c)" "holds obj" by blast
  then show ?thesis using keepsD [OF keeps_restore_session, of obj env] by simp
qed

end

section \<open>The invariants of the client\<close>

definition queue_counted :: "event_queue \<Rightarrow> bool" where
  "queue_counted q \<longleftrightarrow> length (eq_channel q) \<le> event_channel_capacity \<and>
     eq_counter q = of_nat (length (eq_waiting q) + length (eq_channel q))"

definition rooms_ok :: "memory_cache \<Rightarrow> bool" where
  "rooms_ok mc \<longleftrightarrow> hm_wf (mtx_data (mc_rooms mc)) \<and> rooms_keyed mc"

lemma hm_wf_in_room:
  assumes "hm_wf (mtx_data (mc_rooms mc))"
  shows "hm_wf (mtx_data (mc_rooms (snd (in_room f rid mc))))"
    and "hm_wf (mtx_data (mc_rooms (snd (in_known_room d g rid mc))))"
  using assms
  by (auto simp: in_room_def in_known_room_def and_then_def get_or_create_room_def put_room_def Let_def lock_def
      split: sum.splits prod.splits option.splits)

interpretation unique_rooms: executor_relation
  "\<lambda>st st'. hm_wf (mtx_data (mc_rooms (ex_memory st))) \<longrightarrow> hm_wf (mtx_data (mc_rooms (ex_memory st')))"
  by unfold_locales
    (simp_all add: mc_set_read_marker_def mc_cache_reaction_def mc_remove_reaction_by_id_def
      mc_mark_room_as_unread_def hm_wf_in_room)

lemma rooms_ok_steps:
  assumes "rooms_ok mc"
  shows "rooms_ok (snd (get_or_create_room rid mc))" "rooms_ok (put_room room mc)"
  using assms
  by (auto simp: rooms_ok_def rooms_keyed_def get_or_create_room_def put_room_def Let_def lock_def
      cached_room_new_def split: option.splits)

interpretation counted: session_invariant queue_counted
proof
  show "queue_counted q \<Longrightarrow> deliver_action i q = Some q' \<Longrightarrow> queue_counted q'" for q i q'
    by (auto simp: queue_counted_def deliver_action_def split: if_splits)
  show "queue_counted q \<Longrightarrow> queue_counted (receive_action env q)" for q env
    by (cases "eq_channel q") (auto simp: queue_counted_def receive_action_def update_queue_counter_def Let_def)
qed (simp_all add: queue_counted_def event_manager_new_def send_action_def)

lemma deliver_action_executor: "deliver_action i q = Some q' \<Longrightarrow> eq_executor q' = eq_executor q"
  by (auto simp: deliver_action_def split: if_splits)

lemma receive_action_executor:
  "eq_executor (receive_action env q) = eq_executor q \<or>
   (\<exists>act. eq_executor (receive_action env q) = exec_action env act (eq_executor q))"
  by (cases "eq_channel q") (auto simp: receive_action_def update_queue_counter_def Let_def)

interpretation tables: session_invariant "\<lambda>q. executor_ok (eq_executor q)"
proof
  show "executor_ok (eq_executor q) \<Longrightarrow> executor_step (eq_executor q) ex \<Longrightarrow>
      executor_ok (eq_executor (q\<lparr>eq_executor := ex\<rparr>))" for q ex
    by (auto elim!: executor_step.cases simp: executor_ok_def)
  show "executor_ok (eq_executor q) \<Longrightarrow> executor_ok (eq_executor (receive_action env q))" for q env
    using receive_action_executor [of env q] queues.exec_action_R by auto
qed (simp_all add: executor_ok_new event_manager_new_def deliver_action_executor)

interpretation rooms: session_invariant "\<lambda>q. rooms_ok (ex_memory (eq_executor q))"
proof
  show "rooms_ok (ex_memory (eq_executor q)) \<Longrightarrow> executor_step (eq_executor q) ex \<Longrightarrow>
      rooms_ok (ex_memory (eq_executor (q\<lparr>eq_executor := ex\<rparr>)))" for q ex
    by (auto elim!: executor_step.cases simp: rooms_ok_steps)
  show "rooms_ok (ex_memory (eq_executor q)) \<Longrightarrow> rooms_ok (ex_memory (eq_executor (receive_action env q)))" for q env
    using receive_action_executor [of env q] keyed.exec_action_R unique_rooms.exec_action_R
    by (auto simp: rooms_ok_def)
qed (simp_all add: rooms_ok_def event_manager_new_def executor_new_def memory_cache_new_def deliver_action_executor
    rooms_keyed_def)

interpretation tidy_memory: executor_relation
  "\<lambda>st st'. tidy_rooms (ex_memory st) \<longrightarrow> tidy_rooms (ex_memory st')"
  by unfold_locales (simp_all add: tidy_operations)

interpretation tidy_client: session_invariant "\<lambda>q. tidy_rooms (ex_memory (eq_executor q))"
proof
  show "tidy_rooms (ex_memory (eq_executor q)) \<Longrightarrow> executor_step (eq_executor q) ex \<Longrightarrow>
      tidy_rooms (ex_memory (eq_executor (q\<lparr>eq_executor := ex\<rparr>)))" for q ex
    by (auto elim!: executor_step.cases simp: tidy_rooms_create(1) tidy_rooms_put)
  show "tidy_rooms (ex_memory (eq_executor q)) \<Longrightarrow> tidy_rooms (ex_memory (eq_executor (receive_action env q)))" for q env
    using receive_action_executor [of env q] tidy_memory.exec_action_R by auto
qed (simp_all add: event_manager_new_def executor_new_def deliver_action_executor)

text \<open>
  Claim C2: Whatever the application requests, whatever the server and the SDK answer and however the
  requests, the tasks, the rounds of background syncs, the SDK's events, the senders and the
  executor are interleaved, with any number of logins and resets in between: the event channel never holds more than a hundred
  actions and the counter is the number of actions sent and not yet received; the tables of the
  executor are well formed, the queue of a room holds at most its limit of live changes, all of
  that room and no two alike in a row; the memory cache holds each room once and under its own
  ID; and in each of its rooms no lock is poisoned, a message holds a reaction once, and every
  reaction that the index names is held by the message it names.
\<close>

theorem client_stays_consistent:
  assumes "client_new env request w = Inr (c0, status)" and "client_run es c0 = Some c"
  shows "length (eq_channel (client_queue c)) \<le> 100 \<and>
    eq_counter (client_queue c) = of_nat (length (eq_waiting (client_queue c)) + length (eq_channel (client_queue c))) \<and>
    executor_ok (client_executor c) \<and> rooms_ok (ex_memory (client_executor c)) \<and>
    tidy_rooms (ex_memory (client_executor c))"
proof -
  have q: "eq_executor (client_queue c) = client_executor c" by (simp add: client_queue_def)
  have "queue_counted (client_queue c)"
    using counted.client_run_holds [OF assms(2) counted.client_new_holds [OF assms(1)]]
    by (simp add: counted.holds_def)
  moreover have "executor_ok (client_executor c)"
    using tables.client_run_holds [OF assms(2) tables.client_new_holds [OF assms(1)]] q
    by (simp add: tables.holds_def)
  moreover have "rooms_ok (ex_memory (client_executor c))"
    using rooms.client_run_holds [OF assms(2) rooms.client_new_holds [OF assms(1)]] q
    by (simp add: rooms.holds_def)
  moreover have "tidy_rooms (ex_memory (client_executor c))"
    using tidy_client.client_run_holds [OF assms(2) tidy_client.client_new_holds [OF assms(1)]] q
    by (simp add: tidy_client.holds_def)
  ultimately show ?thesis by (simp add: queue_counted_def event_channel_capacity_def)
qed

text \<open>A client on an empty file system: whatever fails, it is initialised, with no session to restore.\<close>

definition toy_request :: initialization_request where
  "toy_request = \<lparr>ir_backend_url = '''', ir_data_root_path = ''/data'', ir_device_display_name = '''',
     ir_encryption_secret = ''p'', ir_persistent_storage_secret = '''', ir_verify_certificates = True\<rparr>"

definition no_files :: "fs \<Rightarrow> bool" where
  "no_files fs \<longleftrightarrow> fs_files fs = []"

lemma no_files_create [simp]: "no_files fs \<Longrightarrow> no_files (snd (fs_create_dir_all p fs))"
  by (simp add: no_files_def fs_create_dir_all_def next_outcome_def split: list.split outcome.split)

lemma no_files_exists: "no_files fs \<Longrightarrow> fs_exists p fs = (b, fs') \<Longrightarrow> no_files fs'"
  by (auto simp: no_files_def fs_exists_def next_outcome_def split: list.splits outcome.splits)

lemma no_files_decrypt:
  assumes "no_files (w_fs w)"
  shows "\<exists>e w'. decrypt_file env p pw w = (Inl e, w') \<and> no_files (w_fs w')"
  using assms by (simp add: decrypt_file_def FileSystem.on_fs_def fs_read_def no_files_def file_at_def
      next_outcome_def split: list.split outcome.split)

lemma no_files_open:
  assumes "no_files (w_fs w)"
  shows "no_files (w_fs (snd (from_directory cd dir pw w)))"
proof -
  have "no_files (w_fs (initialize_directory dir w))"
    using no_files_create [OF assms, of dir]
    by (cases "fs_create_dir_all dir (w_fs w)") (simp add: initialize_directory_def FileSystem.on_fs_def)
  from no_files_decrypt [OF this] obtain e w1 where 1: "decrypt_file (cd_crypto cd)
      (path_join dir (parse_path ''info'')) pw (initialize_directory dir w) = (Inl e, w1)" "no_files (w_fs w1)"
    by blast
  from no_files_decrypt [OF this(2)] obtain e' w2 where "decrypt_file (cd_crypto cd)
      (path_join dir (parse_path ''users'')) pw w1 = (Inl e', w2)" "no_files (w_fs w2)"
    by blast
  with 1 show ?thesis
    by (simp add: from_directory_def Let_def read_from_file_system_def read_info_def read_users_def)
qed

lemma no_files_restore:
  assumes "no_files (w_fs (cl_world c))"
  shows "\<exists>status c'. restore_session env c = (Inr status, c')"
proof -
  obtain b fs where e: "fs_exists (get_auth_file (cl_data_root c)) (w_fs (cl_world c)) = (b, fs)"
    by (cases "fs_exists (get_auth_file (cl_data_root c)) (w_fs (cl_world c))")
  have "no_files (w_fs ((cl_world c)\<lparr>w_fs := fs\<rparr>))" using no_files_exists [OF assms e] by simp
  from no_files_decrypt [OF this] obtain x w where "decrypt_file (sv_crypto (ce_session_env env))
      (get_auth_file (cl_data_root c)) (cl_encryption_secret c) ((cl_world c)\<lparr>w_fs := fs\<rparr>) = (Inl x, w)"
    by blast
  with e show ?thesis by (simp add: restore_session_def Let_def read_from_file_def)
qed

lemma toy_client_new:
  assumes "no_files (w_fs w)"
  shows "\<exists>c status. client_new (env\<lparr>ce_build := \<lambda>_ fs. (Inr (), fs), ce_url_ok := \<lambda>_. True\<rparr>) rq w = Inr (c, status)"
proof -
  let ?dir = "get_cache_dir (parse_path (ir_data_root_path rq))" and ?pw = "ir_encryption_secret rq"
  let ?env = "env\<lparr>ce_build := \<lambda>_ fs. (Inr (), fs), ce_url_ok := \<lambda>_. True\<rparr>"
  obtain p w1 where d: "from_directory (ce_codecs env) ?dir ?pw w = (p, w1)"
    by (cases "from_directory (ce_codecs env) ?dir ?pw w")
  then have "no_files (w_fs w1)" using no_files_open [OF assms, of "ce_codecs env" ?dir ?pw] by simp
  then have dirs: "no_files (init_dirs mm (w_fs w1))" for mm by (simp add: init_dirs_def init_dir_relative_def)
  have restore: "restore_session ?env c \<noteq> (Inl e, c')"
    if "w_fs (cl_world c) = init_dirs mm (w_fs w1)" for c e c' mm
    using no_files_restore [of c ?env] dirs [of mm] that by auto
  show ?thesis
    by (auto simp: client_new_def session_context_new_def build_client_def d media_manager_new_def Let_def restore
        split: prod.split sum.split)
qed

theorem client_stays_consistent_witness:
  "\<forall>env env' xenv now e rq. \<exists>c0 status c.
     client_new (env\<lparr>ce_build := \<lambda>_ fs. (Inr (), fs), ce_url_ok := \<lambda>_. True\<rparr>) toy_request toy_world = Inr (c0, status) \<and>
     client_run [Arrived now e, SessionRequested env' rq, Received xenv, Saved env] c0 = Some c \<and>
     executor_ok (client_executor c) \<and> rooms_ok (ex_memory (client_executor c)) \<and>
     tidy_rooms (ex_memory (client_executor c))"
proof (intro allI)
  fix env env' xenv now e rq
  have "no_files (w_fs toy_world)" by (simp add: no_files_def toy_world_def)
  from toy_client_new [OF this, of env toy_request] obtain c0 status where
    c0: "client_new (env\<lparr>ce_build := \<lambda>_ fs. (Inr (), fs), ce_url_ok := \<lambda>_. True\<rparr>) toy_request toy_world = Inr (c0, status)"
    by blast
  obtain c where "client_run [Arrived now e, SessionRequested env' rq, Received xenv, Saved env] c0 = Some c"
    by simp
  with c0 client_stays_consistent [OF c0 this]
  show "\<exists>c0 status c.
     client_new (env\<lparr>ce_build := \<lambda>_ fs. (Inr (), fs), ce_url_ok := \<lambda>_. True\<rparr>) toy_request toy_world = Inr (c0, status) \<and>
     client_run [Arrived now e, SessionRequested env' rq, Received xenv, Saved env] c0 = Some c \<and>
     executor_ok (client_executor c) \<and> rooms_ok (ex_memory (client_executor c)) \<and>
     tidy_rooms (ex_memory (client_executor c))"
    by blast
qed

end
