(* ===== verification/ClientLifecycle.thy ===== *)
theory ClientLifecycle
  imports ClientSystem
begin

text \<open>
  The client as the application sees it, through its cell: initialisations that may overlap,
  requests before and after them, and the steps of the client that the cell holds.
\<close>

section \<open>Steps\<close>

text \<open>
  An initialisation looks at the cell and builds a client; the place of the built client is named
  when it is put into the cell.  \<open>Internal\<close> is a step of the client in the cell.
\<close>

datatype 'm api_event =
  Initialize "'m client_env" initialization_request world
| Finish "'m client_env" nat
| AskSession "'m request_env" session_request
| AskUser "'m request_env" user_request
| AskRoom "'m request_env" room_request
| AskMessage "'m request_env" message_request
| Respond "'m client_env" "response option"
| Internal "'m client_event"

datatype api_answer = Initialized "chat_error + status_code" | Answered "chat_error + client_response"

record api =
  ap_client :: matrix_client
  ap_built :: "(client \<times> status_code) list"
  ap_answers :: "api_answer list"

definition api_new :: api where
  "api_new = \<lparr>ap_client = matrix_client_new, ap_built = [], ap_answers = []\<rparr>"

definition tell :: "api_answer \<Rightarrow> api \<Rightarrow> api" where
  "tell x a = a\<lparr>ap_answers := ap_answers a @ [x]\<rparr>"

definition ask :: "(matrix_client \<Rightarrow> (chat_error + client_response) \<times> matrix_client) \<Rightarrow> api \<Rightarrow> api" where
  "ask f a = (case f (ap_client a) of (r, mc) \<Rightarrow> tell (Answered r) (a\<lparr>ap_client := mc\<rparr>))"

definition finish :: "'m client_env \<Rightarrow> client \<Rightarrow> status_code \<Rightarrow> api \<Rightarrow> api" where
  "finish env c status a =
     (case initialize_set c status (ap_client a) of
        (Inl e, mc) \<Rightarrow> tell (Initialized (Inl (error_into_chat_error (ce_displays env) e))) (a\<lparr>ap_client := mc\<rparr>)
      | (Inr status, mc) \<Rightarrow> tell (Initialized (Inr status)) (a\<lparr>ap_client := mc\<rparr>))"

fun api_step :: "'m api_event \<Rightarrow> api \<Rightarrow> api option" where
  "api_step (Initialize env request w) a =
     Some (case initialize_client env request w (ap_client a) of
         Inl e \<Rightarrow> tell (Initialized (Inl (error_into_chat_error (ce_displays env) e))) a
       | Inr q \<Rightarrow> a\<lparr>ap_built := ap_built a @ [q]\<rparr>)"
| "api_step (Finish env i) a =
     (if i < length (ap_built a)
      then Some (case ap_built a ! i of (c, status) \<Rightarrow>
             finish env c status (a\<lparr>ap_built := take i (ap_built a) @ drop (Suc i) (ap_built a)\<rparr>))
      else None)"
| "api_step (AskSession env rq) a = Some (ask (handle_session_request env rq) a)"
| "api_step (AskUser env rq) a = Some (ask (handle_user_request env rq) a)"
| "api_step (AskRoom env rq) a = Some (ask (handle_room_request env rq) a)"
| "api_step (AskMessage env rq) a =
     map_option (\<lambda>rc. ask (\<lambda>_. rc) a) (handle_message_request env rq (ap_client a))"
| "api_step (Respond env response) a = Some (a\<lparr>ap_client := client_on_response env response (ap_client a)\<rparr>)"
| "api_step (Internal e) a =
     (case ap_client a of
        None \<Rightarrow> None
      | Some c \<Rightarrow> map_option (\<lambda>c. a\<lparr>ap_client := Some c\<rparr>) (client_step e c))"

fun api_run :: "'m api_event list \<Rightarrow> api \<Rightarrow> api option" where
  "api_run [] a = Some a"
| "api_run (e # es) a = (case api_step e a of None \<Rightarrow> None | Some a \<Rightarrow> api_run es a)"

text \<open>The two steps of an initialisation in a row are the operation of the code.\<close>

lemma initialize_in_one_go:
  "case initialize env request w (ap_client a) of (r, mc) \<Rightarrow> \<exists>es.
     api_run (Initialize env request w # es) a =
       Some (tell (Initialized r) (a\<lparr>ap_client := mc\<rparr>)) \<and> set es \<subseteq> {Finish env (length (ap_built a))}"
proof (cases "initialize_client env request w (ap_client a)")
  case (Inl e)
  then show ?thesis by (auto simp: initialize_def tell_def intro!: exI [of _ "[]"])
next
  case (Inr q)
  obtain c status where q: "q = (c, status)" by (cases q)
  from Inr q have "api_run [Initialize env request w, Finish env (length (ap_built a))] a =
      Some (finish env c status a)"
    by (simp add: finish_def split: sum.split prod.split)
  then show ?thesis
    by (auto simp: initialize_def Inr q finish_def tell_def split: sum.split prod.split
        intro!: exI [of _ "[Finish env (length (ap_built a))]"])
qed

section \<open>One client is served\<close>

fun initialised :: "api_answer \<Rightarrow> bool" where
  "initialised (Initialized (Inr _)) \<longleftrightarrow> True"
| "initialised _ \<longleftrightarrow> False"

fun refused_early :: "api_answer \<Rightarrow> bool" where
  "refused_early (Answered r) \<longleftrightarrow> r = Inl (chat_err ENotInitialized)"
| "refused_early (Initialized r) \<longleftrightarrow> isl r"

text \<open>A client that an initialisation of the run has built, after some of its steps.\<close>

definition served :: "'m api_event list \<Rightarrow> client \<Rightarrow> bool" where
  "served es c \<longleftrightarrow> (\<exists>env request w c0 status run. Initialize env request w \<in> set es \<and>
     client_new env request w = Inr (c0, status) \<and> client_run (run :: 'm client_event list) c0 = Some c)"

definition api_ok :: "'m api_event list \<Rightarrow> api \<Rightarrow> bool" where
  "api_ok es a \<longleftrightarrow> list_all (\<lambda>(c, _). served es c) (ap_built a) \<and>
     list_all refused_early (takeWhile (\<lambda>x. \<not> initialised x) (ap_answers a)) \<and>
     length (filter initialised (ap_answers a)) = (if ap_client a = None then 0 else 1) \<and>
     (\<forall>c. ap_client a = Some c \<longrightarrow> served es c)"

lemma client_run_append:
  "client_run (es @ es') c = (case client_run es c of None \<Rightarrow> None | Some c \<Rightarrow> client_run es' c)"
  by (induction es arbitrary: c) (auto split: option.split)

lemma served_step:
  fixes es :: "'m api_event list" and e :: "'m client_event"
  assumes "served es c" and e: "client_step e c = Some c'"
  shows "served es c'"
proof -
  from assms(1)
  obtain env request w c0 status and run :: "'m client_event list" where "Initialize env request w \<in> set es"
    "client_new env request w = Inr (c0, status)" "client_run run c0 = Some c"
    unfolding served_def by blast
  moreover from this(3) e have "client_run (run @ [e]) c0 = Some c'" by (simp add: client_run_append)
  ultimately show ?thesis unfolding served_def by blast
qed

lemma served_more: "served es c \<Longrightarrow> served (es @ es') c"
  unfolding served_def set_append by blast

lemma api_ok_more: "api_ok es a \<Longrightarrow> api_ok (es @ es') a"
  by (auto simp: api_ok_def list_all_iff intro: served_more)

lemma takeWhile_snoc_list_all:
  "list_all P (takeWhile Q xs) \<Longrightarrow> (filter (\<lambda>x. \<not> Q x) xs = [] \<Longrightarrow> Q x \<Longrightarrow> P x) \<Longrightarrow> list_all P (takeWhile Q (xs @ [x]))"
  by (induction xs) auto

lemma api_ok_tell:
  assumes "api_ok es a" "\<not> initialised x" "ap_client a = None \<Longrightarrow> refused_early x"
  shows "api_ok es (tell x a)"
proof -
  have "list_all refused_early (takeWhile (\<lambda>x. \<not> initialised x) (ap_answers a @ [x]))"
    using assms by (intro takeWhile_snoc_list_all) (auto simp: api_ok_def split: if_splits)
  with assms show ?thesis by (simp add: api_ok_def tell_def)
qed

lemma api_ok_client:
  fixes es :: "'m api_event list" and e :: "'m client_event"
  assumes "api_ok es a" "ap_client a = Some c" "client_step e c = Some c'"
  shows "api_ok es (a\<lparr>ap_client := Some c'\<rparr>)"
proof -
  have "served es c" using assms(1,2) by (simp add: api_ok_def)
  from served_step [OF this assms(3)] assms(1,2) show ?thesis by (simp add: api_ok_def)
qed

lemma api_ok_ask:
  fixes es :: "'m api_event list"
  assumes "api_ok es a" "\<And>c. \<exists>e :: 'm client_event. client_step e c = Some (snd (f c))"
  shows "api_ok es (ask (with_inner d f) a)"
proof (cases "ap_client a")
  case None
  then have "ask (with_inner d f) a = tell (Answered (Inl (chat_err ENotInitialized))) a"
    by (cases a) (simp add: ask_def with_inner_def inner_def tell_def)
  with assms(1) show ?thesis by (simp add: api_ok_tell)
next
  case (Some c)
  obtain e :: "'m client_event" where "client_step e c = Some (snd (f c))" using assms(2) by blast
  from api_ok_client [OF assms(1) Some this] Some show ?thesis
    by (auto simp: ask_def with_inner_def inner_def split: prod.split sum.split intro!: api_ok_tell)
qed

lemma api_ok_finish:
  assumes "api_ok es a" "served es c"
  shows "api_ok es (finish env c status a)"
proof (cases "ap_client a")
  case None
  then have "filter initialised (ap_answers a) = []" using assms(1) by (simp add: api_ok_def)
  then have "takeWhile (\<lambda>x. \<not> initialised x) (ap_answers a) = ap_answers a"
    by (simp add: takeWhile_eq_all_conv filter_empty_conv)
  with assms None show ?thesis by (simp add: finish_def initialize_set_def tell_def api_ok_def)
next
  case (Some c')
  with assms(1) have "api_ok es (a\<lparr>ap_client := Some c'\<rparr>)" by (simp add: api_ok_def)
  with Some show ?thesis by (simp add: finish_def initialize_set_def api_ok_tell)
qed

lemma api_ok_initialize:
  fixes es :: "'m api_event list"
  assumes ok: "api_ok es a" and e: "Initialize env request w \<in> set es"
    and a': "api_step (Initialize env request w) a = Some a'"
  shows "api_ok es a'"
proof (cases "initialize_client env request w (ap_client a)")
  case (Inl x)
  with ok a' show ?thesis by (auto intro!: api_ok_tell simp: initialize_client_def split: if_splits)
next
  case (Inr q)
  obtain c status where q: "q = (c, status)" by (cases q)
  have "client_new env request w = Inr (c, status)" using Inr q by (simp add: initialize_client_def split: if_splits)
  moreover have "client_run ([] :: 'm client_event list) c = Some c" by simp
  ultimately have "served es c" using e unfolding served_def by blast
  with Inr q a' ok show ?thesis by (auto simp: api_ok_def)
qed

lemma api_ok_take:
  assumes ok: "api_ok es a" and a': "api_step (Finish env i) a = Some a'"
  shows "api_ok es a'"
proof -
  let ?a = "a\<lparr>ap_built := take i (ap_built a) @ drop (Suc i) (ap_built a)\<rparr>"
  obtain c status where c: "ap_built a ! i = (c, status)" by (cases "ap_built a ! i")
  from a' c have i: "i < length (ap_built a)" "a' = finish env c status ?a" by (auto split: if_splits)
  from i(1) c have "(c, status) \<in> set (ap_built a)" by (metis nth_mem)
  with ok have "served es c" by (auto simp: api_ok_def list_all_iff)
  moreover have "api_ok es ?a" using ok by (auto simp: api_ok_def list_all_iff dest: in_set_takeD in_set_dropD)
  ultimately show ?thesis unfolding i(2) by (intro api_ok_finish)
qed

text \<open>The other steps are steps of the client in the cell; without one they are refused.\<close>

lemma handlers_are_steps:
  "\<exists>e :: 'm client_event. client_step e c = Some (snd (session_handler (env :: 'm request_env) srq c))"
  "\<exists>e :: 'm client_event. client_step e c = Some (snd (user_handler env urq c))"
  "\<exists>e :: 'm client_event. client_step e c = Some (snd (room_handler env rrq c))"
proof -
  show "\<exists>e :: 'm client_event. client_step e c = Some (snd (session_handler env srq c))"
    by (rule exI [of _ "SessionRequested env srq"]) simp
  show "\<exists>e :: 'm client_event. client_step e c = Some (snd (user_handler env urq c))"
    by (rule exI [of _ "Requested env (UserRequest urq)"]) simp
  show "\<exists>e :: 'm client_event. client_step e c = Some (snd (room_handler env rrq c))"
    by (rule exI [of _ "Requested env (RoomRequest rrq)"]) simp
qed

lemma api_ok_message:
  fixes es :: "'m api_event list" and env :: "'m request_env"
  assumes ok: "api_ok es a" and a': "api_step (AskMessage env rq) a = Some a'"
  shows "api_ok es a'"
proof (cases "ap_client a")
  case None
  with a' have "a' = tell (Answered (Inl (chat_err ENotInitialized))) a"
    by (cases a) (auto simp: handle_message_request_def inner_def ask_def tell_def)
  with ok show ?thesis by (simp add: api_ok_tell)
next
  case (Some c)
  with a' obtain rc where rc: "message_handler env rq c = Some rc"
    "a' = ask (\<lambda>_. with_inner (re_displays env) (\<lambda>_. rc) (ap_client a)) a"
    by (auto simp: handle_message_request_def inner_def split: option.splits)
  have "client_step (Requested env (MessageRequest rq)) c = Some (snd rc)" using rc(1) by simp
  from api_ok_client [OF ok Some this] Some show ?thesis
    by (auto simp: rc(2) ask_def with_inner_def inner_def split: prod.split sum.split intro!: api_ok_tell)
qed

lemma api_ok_respond:
  fixes es :: "'m api_event list" and env :: "'m client_env"
  assumes ok: "api_ok es a"
  shows "api_ok es (a\<lparr>ap_client := client_on_response env response (ap_client a)\<rparr>)"
proof (cases "ap_client a")
  case None
  then have "a\<lparr>ap_client := client_on_response env response (ap_client a)\<rparr> = a"
    by (cases a) (simp add: client_on_response_def inner_def)
  with ok show ?thesis by simp
next
  case (Some c)
  have "client_step (Responded env response) c = Some (on_response env response c)" by simp
  from api_ok_client [OF ok Some this] Some show ?thesis by (simp add: client_on_response_def inner_def)
qed

lemma api_ok_internal:
  fixes es :: "'m api_event list" and x :: "'m client_event"
  assumes ok: "api_ok es a" and a': "api_step (Internal x) a = Some a'"
  shows "api_ok es a'"
proof -
  from a' obtain c c' where c: "ap_client a = Some c" "client_step x c = Some c'" "a' = a\<lparr>ap_client := Some c'\<rparr>"
    by (auto split: option.splits)
  from api_ok_client [OF ok c(1,2)] c(3) show ?thesis by simp
qed

lemma api_step_ok:
  assumes "api_ok es a" "api_step e a = Some a'"
  shows "api_ok (es @ [e]) a'"
proof -
  have ok: "api_ok (es @ [e]) a" by (rule api_ok_more [OF assms(1)])
  show ?thesis
    using assms(2) api_ok_initialize [OF ok] api_ok_take [OF ok] api_ok_message [OF ok]
      api_ok_respond [OF ok] api_ok_internal [OF ok]
      api_ok_ask [OF ok handlers_are_steps(1)] api_ok_ask [OF ok handlers_are_steps(2)]
      api_ok_ask [OF ok handlers_are_steps(3)]
    by (cases e) (auto simp: handle_session_request_def handle_user_request_def handle_room_request_def
        simp del: api_step.simps(1,2,6,8))
qed

lemma api_run_ok: "api_run es a = Some a' \<Longrightarrow> api_ok past a \<Longrightarrow> api_ok (past @ es) a'"
proof (induction es arbitrary: past a)
  case (Cons e es)
  then obtain a1 where "api_step e a = Some a1" "api_run es a1 = Some a'" by (auto split: option.splits)
  with Cons.IH [of a1 "past @ [e]"] api_step_ok [OF Cons.prems(2)] show ?case by simp
qed simp

text \<open>
  Claim C3: However initialisations overlap with each other, with requests and with what a client
  does, at most one initialisation succeeds, and exactly one when there is a client; until then
  every request is answered with the error that the client is not initialised; and the client that
  is served has been built by an initialisation of the run and has got where it is by its own
  steps, so that what holds in every run of a client holds of it.
\<close>

theorem one_client_is_served:
  fixes es :: "'m api_event list"
  assumes "api_run es api_new = Some a"
  shows "length (filter initialised (ap_answers a)) = (if ap_client a = None then 0 else 1) \<and>
    list_all refused_early (takeWhile (\<lambda>x. \<not> initialised x) (ap_answers a)) \<and>
    (\<forall>c. ap_client a = Some c \<longrightarrow> (\<exists>env request w c0 status run. Initialize env request w \<in> set es \<and>
       client_new env request w = Inr (c0, status) \<and> client_run (run :: 'm client_event list) c0 = Some c))"
proof -
  have "api_ok [] api_new" by (simp add: api_ok_def api_new_def matrix_client_new_def)
  from api_run_ok [OF assms this] show ?thesis by (simp add: api_ok_def served_def)
qed

text \<open>Two initialisations that overlap, with a request before the first one ends: the second one fails.\<close>

theorem one_client_is_served_witness:
  "\<forall>env xenv rq. let e = env\<lparr>ce_build := \<lambda>_ fs. (Inr (), fs), ce_url_ok := \<lambda>_. True\<rparr> in \<exists>a.
     api_run [Initialize e toy_request toy_world, AskUser xenv rq, Initialize e toy_request toy_world,
       Finish e 1, Finish e 0] api_new = Some a \<and>
     length (ap_answers a) = 3 \<and> length (filter initialised (ap_answers a)) = 1 \<and> refused_early (hd (ap_answers a))"
proof (intro allI)
  fix env :: "'m client_env" and xenv :: "'m request_env" and rq
  let ?e = "env\<lparr>ce_build := \<lambda>_ fs. (Inr (), fs), ce_url_ok := \<lambda>_. True\<rparr>"
  have "no_files (w_fs toy_world)" by (simp add: no_files_def toy_world_def)
  from toy_client_new [OF this, of env toy_request] obtain c status where
    c: "client_new ?e toy_request toy_world = Inr (c, status)" by blast
  let ?es = "[Initialize ?e toy_request toy_world, AskUser xenv rq, Initialize ?e toy_request toy_world,
      Finish ?e 1, Finish ?e 0]"
  let ?answers = "[Answered (Inl (chat_err ENotInitialized)), Initialized (Inr status),
      Initialized (Inl (error_into_chat_error (ce_displays ?e) (InternalError ''Unknown error initializing client'')))]"
  have run: "api_run ?es api_new = Some \<lparr>ap_client = Some c, ap_built = [], ap_answers = ?answers\<rparr>"
    by (simp add: c initialize_client_def api_new_def matrix_client_new_def ask_def handle_user_request_def
        with_inner_def inner_def tell_def finish_def initialize_set_def)
  from one_client_is_served [OF run] run
  show "let e = ?e in \<exists>a. api_run [Initialize e toy_request toy_world, AskUser xenv rq,
      Initialize e toy_request toy_world, Finish e 1, Finish e 0] api_new = Some a \<and>
    length (ap_answers a) = 3 \<and> length (filter initialised (ap_answers a)) = 1 \<and> refused_early (hd (ap_answers a))"
    by (auto simp: Let_def)
qed

end
