(* ===== verification/LiveAndFetched.thy ===== *)
theory LiveAndFetched
  imports RoomIsolation EventDispatch ClientRequests
begin

text \<open>
  A message on its two ways to the application: live, as the executor tells of it and of the edits
  and reactions that follow, and fetched, as the memory cache builds it from the events the server
  has.  What the application has in view after the live events is compared with the message that
  is fetched then.
\<close>

section \<open>The message in view\<close>

text \<open>What the application shows of a message, from the responses it has received.\<close>

fun apply_message_change :: "message_change \<Rightarrow> message \<Rightarrow> message" where
  "apply_message_change (McContent c) m = m\<lparr>m_content := Some c\<rparr>"
| "apply_message_change (McEncrypted b) m = m\<lparr>m_is_encrypted := b\<rparr>"
| "apply_message_change (McMentions ids) m = m\<lparr>m_mentions := ids\<rparr>"
| "apply_message_change (McEdited b) m = m\<lparr>m_edited := b\<rparr>"

fun show_response :: "string \<Rightarrow> response \<Rightarrow> message option \<Rightarrow> message option" where
  "show_response i (MessageReceivedEvent m) v = (if m_id m = i then Some m else v)"
| "show_response i (MessageChangeEvent _ j cs) v =
     (if j = i then map_option (fold apply_message_change cs) v else v)"
| "show_response i (MessageRemoveEvent _ j) v = (if j = i then None else v)"
| "show_response i (ReactionCreatedEvent r) v =
     (if r_message_id r = i then map_option (\<lambda>m. m\<lparr>m_reactions := m_reactions m @ [r]\<rparr>) v else v)"
| "show_response i (ReactionRemovedEvent r) v =
     (if r_message_id r = i then map_option (\<lambda>m. m\<lparr>m_reactions := remove1 r (m_reactions m)\<rparr>) v else v)"
| "show_response i _ v = v"

definition in_view :: "string \<Rightarrow> response list \<Rightarrow> message option" where
  "in_view i log = fold (show_response i) log None"

section \<open>A message and what follows it\<close>

text \<open>The content of a message that is not in a file.\<close>

fun plain_content :: "message_type \<Rightarrow> content option" where
  "plain_content (MtEmote body) = Some (CText body)"
| "plain_content (MtNotice body) = Some (CText body)"
| "plain_content (MtServerNotice body) = Some (CText body)"
| "plain_content (MtText body) = Some (CText body)"
| "plain_content (MtLocation geo_uri location) = convert_location geo_uri location"
| "plain_content _ = None"

lemma plain_content_generated: "plain_content t = Some c \<Longrightarrow> generate_message_content env rid i t fs = (Some c, fs)"
  by (cases t) simp_all

lemma plain_content_text: "plain_content t = Some c \<Longrightarrow> \<exists>s. c = CText s"
  by (cases t) (auto simp: convert_location_def)

text \<open>The original message, an edit of it with its new content and mentions, and a reaction to it.\<close>

definition original_content :: "sync_event \<Rightarrow> (room_message_content \<times> content) option" where
  "original_content e =
     (case ev_body e of
        MessageLike (RoomMessage (Original c)) \<Rightarrow>
          (case (rmc_relates_to c, plain_content (rmc_msgtype c)) of
             (Some (RelReplacement _ _), _) \<Rightarrow> None
           | (_, Some content) \<Rightarrow> Some (c, content)
           | _ \<Rightarrow> None)
      | _ \<Rightarrow> None)"

definition edit_on :: "string \<Rightarrow> sync_event \<Rightarrow> (content \<times> string list) option" where
  "edit_on i e =
     (case ev_body e of
        MessageLike (RoomMessage (Original c)) \<Rightarrow>
          (case rmc_relates_to c of
             Some (RelReplacement j new) \<Rightarrow>
               if j = i
               then map_option (\<lambda>c. (c, matrix_mentions_to_proto_mentions (nc_mentions new)))
                 (plain_content (nc_msgtype new))
               else None
           | _ \<Rightarrow> None)
      | _ \<Rightarrow> None)"

definition reaction_on :: "string \<Rightarrow> sync_event \<Rightarrow> cached_reaction option" where
  "reaction_on i e =
     (case ev_body e of
        MessageLike (ReactionEvent (Original a)) \<Rightarrow>
          if an_event_id a = i then Some \<lparr>rx_user_id = ev_sender e, rx_emoji = an_key a\<rparr> else None
      | _ \<Rightarrow> None)"

definition follows :: "string \<Rightarrow> sync_event \<Rightarrow> bool" where
  "follows i e \<longleftrightarrow> edit_on i e \<noteq> None \<or> reaction_on i e \<noteq> None"

definition first_shown :: "string \<Rightarrow> sync_event \<Rightarrow> room_message_content \<Rightarrow> content \<Rightarrow> message" where
  "first_shown rid e c content =
     \<lparr>m_id = ev_id e, m_room_id = rid, m_sender_id = ev_sender e, m_timestamp = ev_ts e,
      m_content = Some content, m_related_id = get_related_message_id c, m_is_encrypted = False,
      m_reactions = [], m_mentions = matrix_mentions_to_proto_mentions (rmc_mentions c),
      m_room_mentioned = (case rmc_mentions c of None \<Rightarrow> False | Some m \<Rightarrow> mn_room m),
      m_thread_id = get_thread_id c, m_edited = False\<rparr>"

definition follow :: "string \<Rightarrow> string \<Rightarrow> sync_event \<Rightarrow> message \<Rightarrow> message" where
  "follow rid i e m =
     (case edit_on i e of
        Some (c, mentions) \<Rightarrow> m\<lparr>m_content := Some c, m_mentions := mentions, m_edited := True\<rparr>
      | None \<Rightarrow>
          (case reaction_on i e of
             Some x \<Rightarrow> m\<lparr>m_reactions := m_reactions m @
               [\<lparr>r_message_id = i, r_room_id = rid, r_reaction = rx_emoji x, r_user_id = Some (rx_user_id x)\<rparr>]\<rparr>
           | None \<Rightarrow> m))"

lemma original_content_Some:
  assumes "original_content e = Some (c, content)"
  shows "ev_body e = MessageLike (RoomMessage (Original c))" "plain_content (rmc_msgtype c) = Some content"
    "\<nexists>j new. rmc_relates_to c = Some (RelReplacement j new)"
  using assms
  by (auto simp: original_content_def split: event_body.splits message_like.splits event_content.splits
      option.splits relation.splits)

lemma edit_on_Some:
  assumes "edit_on i e = Some (content, mentions)"
  obtains c new where "ev_body e = MessageLike (RoomMessage (Original c))"
    "rmc_relates_to c = Some (RelReplacement i new)" "plain_content (nc_msgtype new) = Some content"
    "mentions = matrix_mentions_to_proto_mentions (nc_mentions new)"
  using assms
  by (auto simp: edit_on_def split: event_body.splits message_like.splits event_content.splits
      option.splits relation.splits if_splits)

lemma reaction_on_Some:
  assumes "reaction_on i e = Some x"
  obtains a where "ev_body e = MessageLike (ReactionEvent (Original a))" "an_event_id a = i"
    "x = \<lparr>rx_user_id = ev_sender e, rx_emoji = an_key a\<rparr>"
  using assms
  by (auto simp: reaction_on_def split: event_body.splits message_like.splits event_content.splits if_splits)

lemma follows_cases:
  assumes "follows i e"
  obtains (Edit) content mentions where "edit_on i e = Some (content, mentions)" "reaction_on i e = None"
  | (Reaction) x where "edit_on i e = None" "reaction_on i e = Some x"
  using assms
  by (auto simp: follows_def edit_on_def reaction_on_def split: event_body.splits message_like.splits
      event_content.splits option.splits relation.splits if_splits)

section \<open>What the cache holds of the message\<close>

definition replacement_on :: "string \<Rightarrow> sync_event \<Rightarrow> cached_replacement option" where
  "replacement_on i e =
     map_option (\<lambda>(c, _). \<lparr>rp_timestamp = ev_ts e, rp_new_content = c\<rparr>) (edit_on i e)"

text \<open>
  The cache holds no reaction and no edit of the message but those of the events \<open>fs\<close>, each under
  its event's ID, and all those of \<open>cached\<close>.
\<close>

definition holds_of ::
  "(sync_event \<Rightarrow> 'x option) \<Rightarrow> sync_event list \<Rightarrow> sync_event set \<Rightarrow> (string, 'x) hmap \<Rightarrow> bool" where
  "holds_of f fs cached m \<longleftrightarrow> hm_wf m \<and>
     (\<forall>k x. hm_get m k = Some x \<longrightarrow> (\<exists>e \<in> set fs. ev_id e = k \<and> f e = Some x)) \<and>
     (\<forall>e \<in> cached. f e \<noteq> None \<longrightarrow> hm_get m (ev_id e) = f e)"

definition holds_story :: "string \<Rightarrow> sync_event list \<Rightarrow> sync_event set \<Rightarrow> cached_room \<Rightarrow> bool" where
  "holds_story i fs cached room \<longleftrightarrow> unpoisoned room \<and>
     holds_of (reaction_on i) fs cached (cm_reactions (message_at room i)) \<and>
     holds_of (replacement_on i) fs cached (cm_replacements (message_at room i))"

lemma holds_of_insert:
  assumes "holds_of f fs cached m" "e \<in> set fs" "distinct (map ev_id fs)" "f e = Some x" "cached \<subseteq> set fs"
  shows "holds_of f fs (insert e cached) (hm_insert (ev_id e) x m)"
proof -
  have same: "f e' = Some x" if "e' \<in> set fs" "ev_id e' = ev_id e" for e'
    using assms(2-4) that by (auto simp: distinct_map inj_on_def)
  have "hm_wf (hm_insert (ev_id e) x m)" using assms(1) by (simp add: holds_of_def)
  moreover have "\<exists>e' \<in> set fs. ev_id e' = k \<and> f e' = Some y" if "hm_get (hm_insert (ev_id e) x m) k = Some y" for k y
    using assms(1,2,4) that by (cases "k = ev_id e") (auto simp: holds_of_def)
  moreover have "hm_get (hm_insert (ev_id e) x m) (ev_id e') = f e'"
    if "e' \<in> insert e cached" "f e' \<noteq> None" for e'
    using assms(1,4,5) that same [of e'] by (cases "ev_id e' = ev_id e") (auto simp: holds_of_def)
  ultimately show ?thesis by (auto simp: holds_of_def)
qed

lemma holds_of_none: "holds_of f fs cached m \<Longrightarrow> f e = None \<Longrightarrow> holds_of f fs (insert e cached) m"
  by (auto simp: holds_of_def)

lemma holds_of_empty: "holds_of f fs {} []"
  by (simp add: holds_of_def)

text \<open>With all events in, the values are those of the events, whatever their order.\<close>

lemma holds_of_all:
  assumes "holds_of f fs (set fs) m" "distinct (map ev_id fs)"
  shows "mset (hm_values m) = mset (List.map_filter f fs)"
proof -
  let ?g = "\<lambda>e. map_option (\<lambda>x. (ev_id e, x)) (f e)"
  have m: "distinct m" using assms(1) hm_wf_distinct by (auto simp: holds_of_def)
  have "distinct (map fst (List.map_filter ?g fs))"
    using assms(2) by (induction fs) (auto simp: List.map_filter_def split: option.splits)
  then have d: "distinct (List.map_filter ?g fs)" by (simp add: distinct_map)
  have "set m = set (List.map_filter ?g fs)"
  proof (intro set_eqI iffI)
    fix q assume q: "q \<in> set m"
    obtain k x where kx: "q = (k, x)" by (cases q)
    with q assms(1) have "hm_get m k = Some x" by (auto simp: holds_of_def hm_get_mem)
    with assms(1) obtain e where "e \<in> set fs" "ev_id e = k" "f e = Some x" by (auto simp: holds_of_def)
    with kx show "q \<in> set (List.map_filter ?g fs)" by (force simp: List.map_filter_def)
  next
    fix q assume "q \<in> set (List.map_filter ?g fs)"
    then obtain e x where "e \<in> set fs" "f e = Some x" "q = (ev_id e, x)" by (auto simp: List.map_filter_def)
    with assms(1) have "hm_get m (ev_id e) = Some x" by (auto simp: holds_of_def)
    with assms(1) \<open>q = _\<close> show "q \<in> set m" by (simp add: hm_get_in_set)
  qed
  with m d have "mset m = mset (List.map_filter ?g fs)" by (simp add: set_eq_iff_mset_eq_distinct)
  moreover have "map snd (List.map_filter ?g fs) = List.map_filter f fs"
    by (induction fs) (auto simp: List.map_filter_def split: option.splits)
  ultimately show ?thesis by (simp add: hm_values_def) (metis mset_map)
qed

section \<open>Fetching\<close>

text \<open>A room of the given ID that holds no other relations of the message, and those of \<open>cached\<close>.\<close>

definition room_holds :: "string \<Rightarrow> sync_event list \<Rightarrow> sync_event set \<Rightarrow> string \<Rightarrow> cached_room \<Rightarrow> bool" where
  "room_holds i fs cached rid room \<longleftrightarrow> cr_room_id room = rid \<and> holds_story i fs cached room"

lemma room_holds_same:
  "room_holds i fs cached rid room \<Longrightarrow> unpoisoned room' \<Longrightarrow> message_at room' = message_at room \<Longrightarrow>
   cr_room_id room' = cr_room_id room \<Longrightarrow> room_holds i fs cached rid room'"
  by (simp add: room_holds_def holds_story_def)

lemma cache_read_markers_messages:
  "unpoisoned room \<Longrightarrow> unpoisoned (snd (cache_read_markers ms room)) \<and>
     message_at (snd (cache_read_markers ms room)) = message_at room \<and>
     cr_room_id (snd (cache_read_markers ms room)) = cr_room_id room \<and>
     fst (cache_read_markers ms room) = Inr ()"
proof (induction ms room rule: cache_read_markers.induct)
  case (2 u ts ms room)
  have "\<exists>b. fst (cache_read_marker u ts room) = Inr b"
    using "2.prems" by (auto simp: cache_read_marker_def unpoisoned_def lock_ok split: option.splits)
  then obtain b where b: "cache_read_marker u ts room = (Inr b, snd (cache_read_marker u ts room))"
    by (metis prod.collapse)
  let ?room = "snd (cache_read_marker u ts room)"
  have "cache_read_markers ((u, ts) # ms) room = cache_read_markers ms ?room" by (subst cache_read_markers.simps, subst b) simp
  then show ?case
    using cache_read_marker_effect [OF 2(2), of u ts] room_id_kept(6) [of u ts room] 2(1) [of ?room] by simp
qed simp

text \<open>The event's markers and a pending decryption of it do not touch the messages.\<close>

definition process_body :: "room_env \<Rightarrow> full_event \<Rightarrow> room_state \<Rightarrow> handler_result" where
  "process_body env e st =
     (case ev_body e of
        MessageLike m \<Rightarrow> process_any_message_like_event env e m st
      | State s \<Rightarrow> process_any_state_event e s st)"

lemma process_timeline_event_body:
  assumes "room_holds i fs cached rid (st_room st)" "parsed_event env rid te = Some ev"
  obtains st1 where "process_timeline_event env te st = process_body env ev st1"
    "room_holds i fs cached rid (st_room st1)"
proof -
  have any: "\<exists>st1. process_any_timeline_event env ev st = process_body env ev st1 \<and>
      room_holds i fs cached rid (st_room st1)" if h: "room_holds i fs cached rid (st_room st)" for st
  proof -
    let ?ms = "load_event_read_markers env ev"
    have u: "unpoisoned (st_room st)" using h by (simp add: room_holds_def holds_story_def)
    show ?thesis
    proof (cases "?ms = []")
      case True
      then have "process_any_timeline_event env ev st = process_body env ev st"
        by (simp add: process_any_timeline_event_def load_and_cache_event_read_markers_def process_body_def)
      with h show ?thesis by blast
    next
      case False
      note m = cache_read_markers_messages [OF u, of ?ms]
      let ?st1 = "st\<lparr>st_room := snd (cache_read_markers ?ms (st_room st))\<rparr>"
      have "load_and_cache_event_read_markers env ev st = (Inr (), ?st1)"
        using False m by (simp add: load_and_cache_event_read_markers_def on_room_def split_beta)
      then have "process_any_timeline_event env ev st = process_body env ev ?st1"
        by (simp add: process_any_timeline_event_def process_body_def)
      moreover have "room_holds i fs cached rid (st_room ?st1)"
        using room_holds_same [OF h] m by simp
      ultimately show ?thesis by blast
    qed
  qed
  show thesis
  proof (cases "te_kind te")
    case (Decrypted raw)
    let ?room = "snd (remove_encrypted_event (ev_id ev) (st_room st))"
    have u: "unpoisoned (st_room st)" using assms(1) by (simp add: room_holds_def holds_story_def)
    have "fst (remove_encrypted_event (ev_id ev) (st_room st)) = Inr ()"
      using u by (simp add: remove_encrypted_event_def unpoisoned_def lock_ok)
    then have "process_timeline_event env te st = process_any_timeline_event env ev (st\<lparr>st_room := ?room\<rparr>)"
      using assms(2) Decrypted
      by (simp add: process_timeline_event_def process_decrypted_event_def parsed_event_def on_room_def split_beta)
    moreover have "room_holds i fs cached rid ?room"
      using room_holds_same [OF assms(1)] encrypted_events_effect(2) [OF u] room_id_kept(5) by simp
    ultimately show thesis using any [of "st\<lparr>st_room := ?room\<rparr>"] that by auto
  next
    case (PlainText raw)
    then have "process_timeline_event env te st = process_any_timeline_event env ev st"
      using assms by (auto simp: process_timeline_event_def process_plain_text_event_def parsed_event_def room_holds_def)
    then show thesis using any [OF assms(1)] that by auto
  next
    case (UnableToDecrypt raw sid)
    then show thesis using assms(2) by (simp add: parsed_event_def)
  qed
qed

text \<open>One relation, and all of them in any order.\<close>

lemma process_follow:
  assumes h: "room_holds i fs cached rid (st_room st)" and e: "follows i e" "e \<in> set fs" "distinct (map ev_id fs)" "cached \<subseteq> set fs"
    and p: "parsed_event env rid te = Some (into_full_event e rid)"
  shows "\<exists>a st'. process_timeline_event env te st = (Inr a, st') \<and> room_holds i fs (insert e cached) rid (st_room st')"
proof -
  obtain st1 where st1: "process_timeline_event env te st = process_body env (into_full_event e rid) st1"
    "room_holds i fs cached rid (st_room st1)"
    by (rule process_timeline_event_body [OF h p])
  then have u: "unpoisoned (st_room st1)" and rid: "cr_room_id (st_room st1) = rid"
    and hr: "holds_of (reaction_on i) fs cached (cm_reactions (message_at (st_room st1) i))"
    and hp: "holds_of (replacement_on i) fs cached (cm_replacements (message_at (st_room st1) i))"
    by (simp_all add: room_holds_def holds_story_def)
  from e(1) show ?thesis
  proof (cases rule: follows_cases)
    case (Edit content mentions)
    obtain c new where c: "ev_body e = MessageLike (RoomMessage (Original c))"
      "rmc_relates_to c = Some (RelReplacement i new)" "plain_content (nc_msgtype new) = Some content"
      by (rule edit_on_Some [OF Edit(1)])
    let ?rp = "\<lparr>rp_timestamp = ev_ts e, rp_new_content = content\<rparr>"
    obtain room' where r: "cache_replacement i (ev_id e) ?rp (st_room st1) = (Inr (), room')" "unpoisoned room'"
      "message_at room' = (message_at (st_room st1))(i := (message_at (st_room st1) i)
         \<lparr>cm_replacements := hm_insert (ev_id e) ?rp (cm_replacements (message_at (st_room st1) i))\<rparr>)"
      "cr_room_id room' = cr_room_id (st_room st1)"
      unfolding cache_replacement_def by (rule update_message_effect [OF u])
    have "process_timeline_event env te st = (Inr None, st1\<lparr>st_room := room'\<rparr>)"
      using st1(1) c r(1) plain_content_generated [OF c(3)]
      by (simp add: process_body_def process_any_message_like_event_def process_room_message_def
          process_original_room_message_def no_action_def on_room_def into_full_event_def)
    moreover have "holds_of (replacement_on i) fs (insert e cached) (cm_replacements (message_at room' i))"
      using holds_of_insert [OF hp e(2,3) _ e(4), of ?rp] Edit by (simp add: r(3) replacement_on_def)
    moreover have "holds_of (reaction_on i) fs (insert e cached) (cm_reactions (message_at room' i))"
      using holds_of_none [OF hr Edit(2)] by (simp add: r(3))
    ultimately show ?thesis using r(2,4) rid by (simp add: room_holds_def holds_story_def)
  next
    case (Reaction x)
    obtain a where a: "ev_body e = MessageLike (ReactionEvent (Original a))" "an_event_id a = i"
      "x = \<lparr>rx_user_id = ev_sender e, rx_emoji = an_key a\<rparr>"
      by (rule reaction_on_Some [OF Reaction(2)])
    obtain room' where r: "cache_reaction i (ev_id e) x (st_room st1) = (Inr (), room')" "unpoisoned room'"
      "message_at room' = (message_at (st_room st1))(i := (message_at (st_room st1) i)
         \<lparr>cm_reactions := hm_insert (ev_id e) x (cm_reactions (message_at (st_room st1) i))\<rparr>)"
      "cr_room_id room' = cr_room_id (st_room st1)"
      by (rule cache_reaction_effect [OF u])
    have "\<exists>a. process_timeline_event env te st = (Inr a, st1\<lparr>st_room := room'\<rparr>)"
      using st1(1) a r(1)
      by (simp add: process_body_def process_any_message_like_event_def process_reaction_event_def
          on_room_def into_full_event_def Let_def)
    moreover have "holds_of (reaction_on i) fs (insert e cached) (cm_reactions (message_at room' i))"
      using holds_of_insert [OF hr e(2,3) Reaction(2) e(4)] by (simp add: r(3))
    moreover have "holds_of (replacement_on i) fs (insert e cached) (cm_replacements (message_at room' i))"
      using holds_of_none [OF hp] Reaction(1) by (simp add: r(3) replacement_on_def)
    ultimately show ?thesis using r(2,4) rid by (auto simp: room_holds_def holds_story_def)
  qed
qed

lemma process_follows:
  assumes "list_all2 (\<lambda>te e. parsed_event env rid te = Some (into_full_event e rid)) tes es"
    "\<forall>e \<in> set es. follows i e" "set es \<subseteq> set fs" "distinct (map ev_id fs)" "cached \<subseteq> set fs"
    "room_holds i fs cached rid (st_room st)"
  shows "\<exists>st'. process_relations env tes st = (Inr (), st') \<and> room_holds i fs (cached \<union> set es) rid (st_room st')"
  using assms
proof (induction tes es arbitrary: cached st rule: list_all2_induct)
  case (Cons te tes e es)
  obtain a st1 where st1: "process_timeline_event env te st = (Inr a, st1)"
    "room_holds i fs (insert e cached) rid (st_room st1)"
    using process_follow [OF Cons.prems(5) _ _ Cons.prems(3,4) Cons.hyps(1)] Cons.prems(1,2) by auto
  then show ?case using Cons.IH [of "insert e cached" st1] Cons.prems(1-4) by simp
qed simp

text \<open>The message itself, built from what the cache holds by then.\<close>

lemma process_original:
  assumes h: "room_holds (ev_id e) fs (set fs) rid (st_room st)" and o: "original_content e = Some (c, content)"
    and p: "parsed_event env rid te = Some (into_full_event e rid)"
  obtains cm st' where
    "process_timeline_event env te st = (Inr (Some (MessageAction (build_other cm (first_shown rid e c content)))), st')"
    "holds_of (reaction_on (ev_id e)) fs (set fs) (cm_reactions cm)"
    "holds_of (replacement_on (ev_id e)) fs (set fs) (cm_replacements cm)"
proof -
  obtain st1 where st1: "process_timeline_event env te st = process_body env (into_full_event e rid) st1"
    "room_holds (ev_id e) fs (set fs) rid (st_room st1)"
    by (rule process_timeline_event_body [OF h p])
  then have u: "unpoisoned (st_room st1)" and rid: "cr_room_id (st_room st1) = rid"
    by (simp_all add: room_holds_def holds_story_def)
  note c = original_content_Some [OF o]
  let ?msg = "first_shown rid e c content" and ?cm = "message_at (st_room st1) (ev_id e)"
  let ?cm' = "?cm\<lparr>cm_original := Some ?msg\<rparr>"
  have body: "process_body env (into_full_event e rid) st1 = message_action ?msg st1"
    using c rid plain_content_generated [OF c(2)]
    by (auto simp: process_body_def process_any_message_like_event_def process_room_message_def
        process_original_room_message_def message_from_event_def into_full_event_def first_shown_def Let_def
        split: option.splits relation.splits)
  obtain room' m where r: "assemble_message ?msg (st_room st1) = (Inr m, room')"
    "m = fst (build_from_original ?msg (message_at (st_room st1) (m_id ?msg)))"
    by (rule assemble_message_effect [OF u])
  obtain s where "content = CText s" using plain_content_text [OF c(2)] by blast
  then have "m = build_other ?cm' ?msg"
    by (simp add: r(2) build_from_original_def first_shown_def Let_def)
  then have "process_timeline_event env te st =
      (Inr (Some (MessageAction (build_other ?cm' ?msg))), st1\<lparr>st_room := room'\<rparr>)"
    using st1(1) body r(1) by (simp add: message_action_def on_room_def)
  moreover have "holds_of (reaction_on (ev_id e)) fs (set fs) (cm_reactions ?cm')"
    "holds_of (replacement_on (ev_id e)) fs (set fs) (cm_replacements ?cm')"
    using st1(2) by (simp_all add: room_holds_def holds_story_def)
  ultimately show thesis by (rule that)
qed

section \<open>What both sides show\<close>

definition shown_reaction :: "string \<Rightarrow> string \<Rightarrow> cached_reaction \<Rightarrow> reaction" where
  "shown_reaction rid i x =
     \<lparr>r_message_id = i, r_room_id = rid, r_reaction = rx_emoji x, r_user_id = Some (rx_user_id x)\<rparr>"

abbreviation edits_on :: "string \<Rightarrow> sync_event list \<Rightarrow> (content \<times> string list) list" where
  "edits_on i fs \<equiv> List.map_filter (edit_on i) fs"

lemma map_filter_snoc: "List.map_filter f (xs @ [x]) = List.map_filter f xs @ (case f x of None \<Rightarrow> [] | Some y \<Rightarrow> [y])"
  by (simp add: List.map_filter_def split: option.split)

lemma follow_eq:
  "follow rid i e m =
     m\<lparr>m_content := case edit_on i e of None \<Rightarrow> m_content m | Some (c, _) \<Rightarrow> Some c,
       m_mentions := case edit_on i e of None \<Rightarrow> m_mentions m | Some (_, mentions) \<Rightarrow> mentions,
       m_edited := m_edited m \<or> edit_on i e \<noteq> None,
       m_reactions := m_reactions m @
         map (shown_reaction rid i) (List.map_filter (\<lambda>e. if edit_on i e = None then reaction_on i e else None) [e])\<rparr>"
  by (auto simp: follow_def shown_reaction_def List.map_filter_def split: option.split)

lemma fold_follow:
  "fold (follow rid i) fs m =
     m\<lparr>m_content := if edits_on i fs = [] then m_content m else Some (fst (last (edits_on i fs))),
       m_mentions := if edits_on i fs = [] then m_mentions m else snd (last (edits_on i fs)),
       m_edited := m_edited m \<or> edits_on i fs \<noteq> [],
       m_reactions := m_reactions m @
         map (shown_reaction rid i) (List.map_filter (\<lambda>e. if edit_on i e = None then reaction_on i e else None) fs)\<rparr>"
proof (induction fs rule: rev_induct)
  case (snoc e fs)
  have "fold (follow rid i) (fs @ [e]) m = follow rid i e (fold (follow rid i) fs m)" by simp
  then show ?case
    unfolding snoc follow_eq [of rid i e]
    by (simp add: map_filter_snoc split: option.split)
qed (simp add: List.map_filter_def)

lemma replacements_of_edits:
  "map rp_new_content (List.map_filter (replacement_on i) fs) = map fst (edits_on i fs)"
  "map rp_timestamp (List.map_filter (replacement_on i) fs) = map ev_ts (filter (\<lambda>e. edit_on i e \<noteq> None) fs)"
  by (induction fs) (auto simp: List.map_filter_def replacement_on_def)

lemma sorted_replacements:
  assumes "holds_of (replacement_on i) fs (set fs) (cm_replacements cm)" "distinct (map ev_id fs)"
    "sorted_wrt (<) (map ev_ts (filter (\<lambda>e. edit_on i e \<noteq> None) fs))"
  shows "sort_key rp_timestamp (hm_values (cm_replacements cm)) = List.map_filter (replacement_on i) fs"
proof -
  let ?rs = "List.map_filter (replacement_on i) fs"
  have s: "sorted_wrt (<) (map rp_timestamp ?rs)" using assms(3) by (simp add: replacements_of_edits)
  have m: "mset (hm_values (cm_replacements cm)) = mset ?rs" by (rule holds_of_all [OF assms(1,2)])
  have "sorted (map rp_timestamp ?rs)" "distinct (map rp_timestamp ?rs)"
    using s by (simp_all add: strict_sorted_iff)
  then show ?thesis
    using m by (intro sort_key_inj_key_eq) (auto simp: distinct_map dest: mset_eq_setD)
qed

lemma edits_and_reactions: "follows i e \<Longrightarrow> (if edit_on i e = None then reaction_on i e else None) = reaction_on i e"
  by (erule follows_cases) auto

text \<open>The message that is built and the one that is followed, mentions and the order of reactions aside.\<close>

lemma built_and_followed:
  assumes "holds_of (reaction_on i) fs (set fs) (cm_reactions cm)"
    "holds_of (replacement_on i) fs (set fs) (cm_replacements cm)" "distinct (map ev_id fs)"
    "sorted_wrt (<) (map ev_ts (filter (\<lambda>e. edit_on i e \<noteq> None) fs))" "\<forall>e \<in> set fs. follows i e"
    "m_id m = i" "m_room_id m = rid"
  defines "built \<equiv> build_other cm m" and "followed \<equiv> fold (follow rid i) fs m"
  shows "built\<lparr>m_reactions := [], m_mentions := []\<rparr> = followed\<lparr>m_reactions := [], m_mentions := []\<rparr>"
    "mset (m_reactions built) = mset (m_reactions followed)" "m_mentions built = m_mentions m"
    "m_mentions followed = (if edits_on i fs = [] then m_mentions m else snd (last (edits_on i fs)))"
    "m_content built = (if edits_on i fs = [] then m_content m else Some (fst (last (edits_on i fs))))"
    "m_edited built \<longleftrightarrow> m_edited m \<or> edits_on i fs \<noteq> []"
proof -
  let ?rs = "List.map_filter (replacement_on i) fs"
  have nil: "?rs = [] \<longleftrightarrow> edits_on i fs = []" using replacements_of_edits(1) [of i fs] by (metis Nil_is_map_conv)
  have last: "rp_new_content (last ?rs) = fst (last (edits_on i fs))" if "?rs \<noteq> []"
    using that nil replacements_of_edits(1) [of i fs] by (metis last_map)
  note s = sorted_replacements [OF assms(2-4)]
  have b: "built = (apply_reactions cm m)\<lparr>m_content := if ?rs = [] then m_content m else Some (rp_new_content (last ?rs)),
      m_edited := m_edited m \<or> ?rs \<noteq> []\<rparr>"
    unfolding built_def build_other_def apply_replacements_def s by (simp add: apply_reactions_def Let_def)
  show "built\<lparr>m_reactions := [], m_mentions := []\<rparr> = followed\<lparr>m_reactions := [], m_mentions := []\<rparr>"
    using nil last by (simp add: b followed_def fold_follow apply_reactions_def)
  have "List.map_filter (\<lambda>e. if edit_on i e = None then reaction_on i e else None) fs = List.map_filter (reaction_on i) fs"
    using assms(5) by (induction fs) (auto simp: List.map_filter_def edits_and_reactions)
  moreover have "mset (hm_values (cm_reactions cm)) = mset (List.map_filter (reaction_on i) fs)"
    by (rule holds_of_all [OF assms(1,3)])
  moreover have "reaction_of m = shown_reaction rid i"
    using assms(6,7) by (simp add: fun_eq_iff reaction_of_def shown_reaction_def)
  ultimately show "mset (m_reactions built) = mset (m_reactions followed)"
    by (simp add: b followed_def fold_follow apply_reactions_def)
  show "m_mentions built = m_mentions m" by (simp add: b apply_reactions_def)
  show "m_mentions followed = (if edits_on i fs = [] then m_mentions m else snd (last (edits_on i fs)))"
    by (simp add: followed_def fold_follow)
  show "m_content built = (if edits_on i fs = [] then m_content m else Some (fst (last (edits_on i fs))))"
    "m_edited built \<longleftrightarrow> m_edited m \<or> edits_on i fs \<noteq> []"
    using nil last by (simp_all add: b apply_reactions_def)
qed

section \<open>Live\<close>

text \<open>
  The memory cache is usable and holds, in the room \<open>rid\<close>, no relations of the message but those of
  \<open>fs\<close>; the second definition adds what the application has in view.
\<close>

definition cached_or_new :: "string \<Rightarrow> memory_cache \<Rightarrow> cached_room" where
  "cached_or_new rid mc = (case snd (cell rid mc) of None \<Rightarrow> cached_room_new rid | Some room \<Rightarrow> room)"

definition memory_holds :: "string \<Rightarrow> sync_event list \<Rightarrow> string \<Rightarrow> memory_cache \<Rightarrow> bool" where
  "memory_holds i fs rid mc \<longleftrightarrow>
     rooms_keyed mc \<and> \<not> fst (cell rid mc) \<and> holds_story i fs {} (cached_or_new rid mc)"

definition watched :: "string \<Rightarrow> sync_event list \<Rightarrow> string \<Rightarrow> message option \<Rightarrow> executor \<Rightarrow> bool" where
  "watched i fs rid v st \<longleftrightarrow> memory_holds i fs rid (ex_memory st) \<and> in_view i (ex_sent st) = v"

definition keeps_story :: "string \<Rightarrow> sync_event list \<Rightarrow> (cached_room \<Rightarrow> 'r \<times> cached_room) \<Rightarrow> bool" where
  "keeps_story i fs f \<longleftrightarrow> (\<forall>room. holds_story i fs {} room \<longrightarrow> holds_story i fs {} (snd (f room)))"

lemma keeps_story_operations:
  "keeps_story i fs (cache_read_marker u ts)" "keeps_story i fs (set_marked_ts t)"
  using cache_read_marker_effect
  by (auto simp: keeps_story_def set_marked_ts_def lock_def unpoisoned_def message_at_def fun_eq_iff
      holds_story_def split: sum.split)

lemma keeps_story_other_reaction:
  assumes "j \<noteq> i"
  shows "keeps_story i fs (cache_reaction j k x)"
  unfolding keeps_story_def
proof (intro allI impI)
  fix room assume h: "holds_story i fs {} room"
  then have u: "unpoisoned room" by (simp add: holds_story_def)
  obtain room' where "cache_reaction j k x room = (Inr (), room')" "unpoisoned room'"
    "message_at room' = (message_at room)(j := (message_at room j)
       \<lparr>cm_reactions := hm_insert k x (cm_reactions (message_at room j))\<rparr>)"
    by (rule cache_reaction_effect [OF u])
  with h assms show "holds_story i fs {} (snd (cache_reaction j k x room))" by (simp add: holds_story_def)
qed

lemma keeps_story_reaction:
  assumes "reaction_on i e = Some x" "e \<in> set fs" "distinct (map ev_id fs)"
  shows "keeps_story i fs (cache_reaction i (ev_id e) x)"
  unfolding keeps_story_def
proof (intro allI impI)
  fix room assume h: "holds_story i fs {} room"
  then have u: "unpoisoned room" by (simp add: holds_story_def)
  obtain room' where r: "cache_reaction i (ev_id e) x room = (Inr (), room')" "unpoisoned room'"
    "message_at room' = (message_at room)(i := (message_at room i)
       \<lparr>cm_reactions := hm_insert (ev_id e) x (cm_reactions (message_at room i))\<rparr>)"
    by (rule cache_reaction_effect [OF u])
  have "holds_of (reaction_on i) fs {e} (cm_reactions (message_at room' i))"
    using holds_of_insert [where f = "reaction_on i" and cached = "{}", OF _ assms(2,3,1)] h
    by (simp add: holds_story_def r(3))
  with h r show "holds_story i fs {} (snd (cache_reaction i (ev_id e) x room))"
    by (simp add: holds_story_def) (simp add: holds_of_def)
qed

lemma memory_holds_in_room:
  assumes "memory_holds i fs rid mc" "keeps_id f" "keeps_story i fs f"
  shows "memory_holds i fs rid (snd (in_room f j mc))"
proof (cases "j = rid")
  case False
  then show ?thesis
    using assms(1) in_room_cell(2) [OF assms(2), of mc rid j] keyed_kept(1) [OF assms(2), of mc]
    by (simp add: memory_holds_def cached_or_new_def)
next
  case True
  have k: "rooms_keyed mc" and u: "\<not> fst (cell rid mc)" and h: "holds_story i fs {} (cached_or_new rid mc)"
    using assms(1) by (simp_all add: memory_holds_def)
  have "cell rid (snd (in_room f rid mc)) = (False, Some (snd (f (cached_or_new rid mc))))"
    using in_room_cell(1) [OF assms(2) k, of rid] u by (simp add: in_cell_def cached_or_new_def split_beta)
  then show ?thesis
    using assms(3) h keyed_kept(1) [OF assms(2) k] True by (simp add: memory_holds_def cached_or_new_def keeps_story_def)
qed

lemma memory_holds_in_known_room:
  assumes "memory_holds i fs rid mc" "keeps_id f" "keeps_story i fs f"
  shows "memory_holds i fs rid (snd (in_known_room d f j mc))"
proof (cases "j = rid")
  case False
  then show ?thesis
    using assms(1) in_known_room_cell(2) [OF assms(2), of mc rid j] keyed_kept(2) [OF assms(2), of mc]
    by (simp add: memory_holds_def cached_or_new_def)
next
  case True
  have k: "rooms_keyed mc" and u: "\<not> fst (cell rid mc)" and h: "holds_story i fs {} (cached_or_new rid mc)"
    using assms(1) by (simp_all add: memory_holds_def)
  have "cell rid (snd (in_known_room d f rid mc)) = (False, map_option (\<lambda>room. snd (f room)) (snd (cell rid mc)))"
    using in_known_room_cell(1) [OF assms(2) k, of d rid] u
    by (cases "cell rid mc") (auto simp: in_known_cell_def split: option.splits prod.splits)
  then show ?thesis
    using assms(3) h keyed_kept(2) [OF assms(2) k] True
    by (auto simp: memory_holds_def cached_or_new_def keeps_story_def split: option.splits)
qed

lemma in_view_snoc: "in_view i (log @ [x]) = show_response i x (in_view i log)"
  by (simp add: in_view_def)

lemma watched_send: "watched i fs rid v st \<Longrightarrow> watched i fs rid (show_response i x v) (send_event x st)"
  by (simp add: watched_def send_event_def in_view_snoc)

lemma watched_memory:
  assumes "watched i fs rid v st" "keeps_id f" "keeps_story i fs f"
  shows "watched i fs rid v (snd (on_memory (in_room f j) st))"
    and "watched i fs rid v (snd (on_memory (in_known_room d f j) st))"
  using assms by (simp_all add: watched_def on_memory_eq memory_holds_in_room memory_holds_in_known_room)

lemma watched_change: "watched i fs rid v st \<Longrightarrow> watched i fs rid v (send_event (RoomChangeEvent j cs) st)"
  using watched_send [of i fs rid v st "RoomChangeEvent j cs"] by simp

lemma watched_any:
  assumes "watched i fs rid v st"
  shows "watched i fs rid v (exec_any_message_like_event r e st)"
proof -
  let ?f = "mc_set_read_marker (sr_id r) (ev_sender e) (ev_ts e)"
  have w: "watched i fs rid v (snd (on_memory ?f st))"
    unfolding mc_set_read_marker_def by (rule watched_memory [OF assms keeps_id_operations(1) keeps_story_operations(1)])
  obtain a st' where m: "on_memory ?f st = (a, st')" by (cases "on_memory ?f st")
  with w show ?thesis by (auto simp: exec_any_message_like_event_def watched_change split: sum.split)
qed

lemma watched_unread:
  assumes "watched i fs rid v st"
  shows "watched i fs rid v (maybe_mark_room_as_unread r ts st)"
proof -
  have "watched i fs rid v (snd (on_memory (mc_mark_room_as_unread (sr_id r)) st))"
    unfolding mc_mark_room_as_unread_def
    by (rule watched_memory [OF assms keeps_id_operations(2) keeps_story_operations(2)])
  with assms show ?thesis by (simp add: maybe_mark_room_as_unread_def split: sum.split option.split)
qed

lemma on_fs_same: "g (ex_fs st) = (x, ex_fs st) \<Longrightarrow> Events.on_fs g st = (x, st)"
  by (simp add: Events.on_fs_def)

text \<open>The three kinds of events, each with the actions the manager makes of it.\<close>

lemma run_original:
  assumes "sr_is_joined r" "original_content e = Some (c, content)"
    "map snd acts = actions_of now (MessageLikeReceived r e)"
  defines "msg \<equiv> first_shown (sr_id r) e c content"
  shows "run_actions acts st = send_event (MessageReceivedEvent msg)
    (maybe_mark_room_as_unread r (m_timestamp msg) (exec_any_message_like_event r e st))"
proof -
  note c = original_content_Some [OF assms(2)]
  obtain env1 env2 where acts: "acts = [(env1, AnyMessageLikeAction r e), (env2, RoomMessageAction r e c)]"
    using assms(3) c(1) by (auto simp: map_eq_Cons_conv)
  have "message_from_event (xe_messages env2) (sr_id r) (into_full_event e (sr_id r)) c f = (msg, f)" for f
    using plain_content_generated [OF c(2)]
    by (simp add: message_from_event_def into_full_event_def first_shown_def msg_def)
  then have "exec_room_message_event env2 r e c st1 =
      send_event (MessageReceivedEvent msg) (maybe_mark_room_as_unread r (m_timestamp msg) st1)" for st1
    using assms(1) c(3)
    by (auto simp: exec_room_message_event_def process_new_message_def on_fs_same split: option.split relation.split)
  then show ?thesis by (simp add: acts)
qed

lemma watched_original:
  assumes "watched (ev_id e) fs (sr_id r) v st" "sr_is_joined r" "original_content e = Some (c, content)"
    "map snd acts = actions_of now (MessageLikeReceived r e)"
  shows "watched (ev_id e) fs (sr_id r) (Some (first_shown (sr_id r) e c content)) (run_actions acts st)"
proof -
  let ?msg = "first_shown (sr_id r) e c content"
  have "m_id ?msg = ev_id e" by (simp add: first_shown_def)
  then show ?thesis
    unfolding run_original [OF assms(2-4)]
    using watched_send [OF watched_unread [OF watched_any [OF assms(1)]], where x = "MessageReceivedEvent ?msg"]
    by simp
qed

lemma watched_follow:
  assumes "watched i fs (sr_id r) (Some m) st" "sr_is_joined r" "follows i e" "e \<in> set fs" "distinct (map ev_id fs)"
    "map snd acts = actions_of now (MessageLikeReceived r e)"
  shows "watched i fs (sr_id r) (Some (follow (sr_id r) i e m)) (run_actions acts st)"
  using assms(3)
proof (cases rule: follows_cases)
  case (Edit content mentions)
  obtain c new where c: "ev_body e = MessageLike (RoomMessage (Original c))"
    "rmc_relates_to c = Some (RelReplacement i new)" "plain_content (nc_msgtype new) = Some content"
    "mentions = matrix_mentions_to_proto_mentions (nc_mentions new)"
    by (rule edit_on_Some [OF Edit(1)])
  obtain env1 env2 where acts: "acts = [(env1, AnyMessageLikeAction r e), (env2, RoomMessageAction r e c)]"
    using assms(6) c(1) by (auto simp: map_eq_Cons_conv)
  let ?st1 = "exec_any_message_like_event r e st"
  let ?change = "MessageChangeEvent (sr_id r) i [McContent content, McMentions mentions, McEdited True]"
  have "exec_room_message_event env2 r e c ?st1 = send_event ?change ?st1"
    using assms(2) c plain_content_generated [OF c(3)]
    by (simp add: exec_room_message_event_def process_replacement_message_def on_fs_same)
  then show ?thesis
    using watched_send [OF watched_any [OF assms(1)], where x = ?change]
    by (simp add: acts follow_def Edit(1))
next
  case (Reaction x)
  obtain a where a: "ev_body e = MessageLike (ReactionEvent (Original a))" "an_event_id a = i"
    "x = \<lparr>rx_user_id = ev_sender e, rx_emoji = an_key a\<rparr>"
    by (rule reaction_on_Some [OF Reaction(2)])
  obtain env1 env2 where acts: "acts = [(env1, AnyMessageLikeAction r e), (env2, ReactionAction r e a)]"
    using assms(6) a(1) by (auto simp: map_eq_Cons_conv)
  let ?st1 = "exec_any_message_like_event r e st" and ?f = "mc_cache_reaction (sr_id r) e a"
  let ?rx = "\<lparr>r_message_id = i, r_room_id = sr_id r, r_reaction = rx_emoji x, r_user_id = Some (rx_user_id x)\<rparr>"
  have "watched i fs (sr_id r) (Some m) (snd (on_memory ?f ?st1))"
    using watched_memory(1) [OF watched_any [OF assms(1)] keeps_id_operations(4) keeps_story_reaction [OF Reaction(2) assms(4,5)]]
    by (simp add: mc_cache_reaction_def a)
  moreover have "exec_reaction_event r e a ?st1 = send_event (ReactionCreatedEvent ?rx) (snd (on_memory ?f ?st1))"
    by (simp add: exec_reaction_event_def a split_beta)
  ultimately show ?thesis
    using watched_send [where x = "ReactionCreatedEvent ?rx" and v = "Some m" and i = i]
    by (simp add: acts follow_def Reaction)
qed

text \<open>
  The events that may change what is shown of the message: those that name it and, since they name
  an event that has to be looked up, redactions.  Any other event leaves it alone, in any room.
\<close>

definition names_message :: "string \<Rightarrow> sync_event \<Rightarrow> bool" where
  "names_message i e \<longleftrightarrow>
     (case ev_body e of
        MessageLike (RoomMessage (Original c)) \<Rightarrow>
          (case rmc_relates_to c of Some (RelReplacement j _) \<Rightarrow> j = i | _ \<Rightarrow> ev_id e = i)
      | MessageLike (RoomRedaction (Original _)) \<Rightarrow> True
      | MessageLike (ReactionEvent (Original a)) \<Rightarrow> an_event_id a = i
      | MessageLike (UnstablePollStart (Original c)) \<Rightarrow>
          (case c of PsReplacement j _ _ \<Rightarrow> j = i | _ \<Rightarrow> ev_id e = i)
      | MessageLike (UnstablePollResponse (Original c)) \<Rightarrow> pr_poll_id c = i
      | MessageLike (UnstablePollEnd (Original j)) \<Rightarrow> j = i
      | _ \<Rightarrow> False)"

lemma watched_fs: "watched i fs rid v st \<Longrightarrow> watched i fs rid v (snd (Events.on_fs g st))"
  by (simp add: watched_def Events.on_fs_def split_beta)

lemma watched_other_send:
  "watched i fs rid v st \<Longrightarrow> m_id m \<noteq> i \<Longrightarrow> watched i fs rid v (send_event (MessageReceivedEvent m) st)"
  "watched i fs rid v st \<Longrightarrow> j \<noteq> i \<Longrightarrow> watched i fs rid v (send_event (MessageChangeEvent k j cs) st)"
  "watched i fs rid v st \<Longrightarrow> r_message_id x \<noteq> i \<Longrightarrow> watched i fs rid v (send_event (ReactionCreatedEvent x) st)"
  using watched_send [of i fs rid v st] by (metis show_response.simps)+

lemma message_from_event_id: "m_id (fst (message_from_event env rid e c f)) = ev_id e"
  by (simp add: message_from_event_def split_beta)

lemma watched_other_new:
  assumes "watched i fs rid v st" "ev_id e \<noteq> i"
  shows "watched i fs rid v (process_new_message env r e c st)"
proof -
  let ?g = "message_from_event (xe_messages env) (sr_id r) (into_full_event e (sr_id r)) c"
  obtain msg st' where g: "Events.on_fs ?g st = (msg, st')" by (cases "Events.on_fs ?g st")
  then have "msg = fst (?g (ex_fs st))" by (simp add: Events.on_fs_def split_beta)
  then have "m_id msg \<noteq> i" using assms(2) by (simp add: message_from_event_id into_full_event_def)
  moreover have "watched i fs rid v st'" using watched_fs [OF assms(1), of ?g] g by simp
  ultimately show ?thesis
    by (simp add: process_new_message_def g watched_other_send watched_unread)
qed

lemma watched_other_replacement:
  assumes "watched i fs rid v st" "j \<noteq> i"
  shows "watched i fs rid v (process_replacement_message env r j new st)"
proof -
  let ?g = "generate_message_content (xe_messages env) (sr_id r) j (nc_msgtype new)"
  obtain content st' where g: "Events.on_fs ?g st = (content, st')" by (cases "Events.on_fs ?g st")
  have "watched i fs rid v st'" using watched_fs [OF assms(1), of ?g] g by simp
  with assms(2) show ?thesis
    by (simp add: process_replacement_message_def g watched_other_send split: option.split)
qed

lemma watched_other_message:
  assumes "watched i fs rid v st" "\<not> names_message i e" "ev_body e = MessageLike (RoomMessage (Original c))"
  shows "watched i fs rid v (exec_room_message_event env r e c st)"
  using assms watched_other_new [OF assms(1)] watched_other_replacement [OF assms(1)]
  by (auto simp: exec_room_message_event_def names_message_def split: option.splits relation.splits)

lemma watched_other_reaction:
  assumes "watched i fs rid v st" "an_event_id a \<noteq> i"
  shows "watched i fs rid v (exec_reaction_event r e a st)"
proof -
  have "watched i fs rid v (snd (on_memory (mc_cache_reaction (sr_id r) e a) st))"
    unfolding mc_cache_reaction_def
    by (rule watched_memory [OF assms(1) keeps_id_operations(4) keeps_story_other_reaction [OF assms(2)]])
  with assms(2) show ?thesis by (simp add: exec_reaction_event_def split_beta watched_other_send)
qed

lemma watched_other_poll:
  assumes "watched i fs rid v st"
  shows "ev_id e \<noteq> i \<Longrightarrow> watched i fs rid v (exec_unstable_poll_start_event env r e (PsNew block) st)"
    and "j \<noteq> i \<Longrightarrow> watched i fs rid v (exec_unstable_poll_start_event env r e (PsReplacement j b new) st)"
    and "watched i fs rid v (exec_unstable_poll_start_event env r e (PsOther b') st)"
    and "pr_poll_id c \<noteq> i \<Longrightarrow> watched i fs rid v (exec_unstable_poll_response_event env r e c st)"
    and "j \<noteq> i \<Longrightarrow> watched i fs rid v (exec_unstable_poll_end_event env r j st)"
  using assms
  by (simp_all add: exec_new_unstable_poll_start_event_def exec_replacement_unstable_poll_start_event_def
      exec_unstable_poll_response_event_def exec_unstable_poll_end_event_def send_poll_def watched_other_send Let_def
      split: sum.split)

lemma watched_other:
  assumes w: "watched i fs rid v st" and n: "\<not> names_message i e" and acts: "map snd acts = actions_of now (MessageLikeReceived r e)"
  shows "watched i fs rid v (run_actions acts st)"
proof -
  let ?st1 = "exec_any_message_like_event r e st"
  have w1: "watched i fs rid v ?st1" by (rule watched_any [OF w])
  obtain env1 acts2 where a: "acts = (env1, AnyMessageLikeAction r e) # acts2"
    "map snd acts2 = (case ev_body e of MessageLike m \<Rightarrow> message_like_actions r e m | State _ \<Rightarrow> [])"
    using acts by (auto simp: map_eq_Cons_conv)
  have "watched i fs rid v (run_actions acts2 ?st1)"
  proof (cases "ev_body e")
    case (State s)
    then show ?thesis using a(2) w1 by simp
  next
    case (MessageLike m)
    then have a2: "map snd acts2 = message_like_actions r e m" using a(2) by simp
    show ?thesis
    proof (cases "message_like_actions r e m")
      case Nil
      then show ?thesis using a2 w1 by simp
    next
      case (Cons act rest)
      have one: "rest = []" using Cons by (cases "(r, e, m)" rule: message_like_actions.cases) auto
      then obtain env2 where e2: "acts2 = [(env2, act)]" using a2 Cons by (auto simp: map_eq_Cons_conv)
      have "watched i fs rid v (exec_action env2 act ?st1)"
      proof (cases "(r, e, m)" rule: message_like_actions.cases)
        case (4 r' e' c)
        with Cons MessageLike n w1 show ?thesis
          by (cases c) (auto simp: names_message_def watched_other_poll simp del: exec_unstable_poll_start_event.simps)
      qed (use Cons MessageLike n w1 in \<open>auto simp: names_message_def watched_other_reaction watched_other_poll
          intro!: watched_other_message\<close>)
      then show ?thesis by (simp add: e2)
    qed
  qed
  then show ?thesis by (simp add: a(1))
qed

definition live_actions :: "u64 \<Rightarrow> (sdk_room \<times> sync_event) list \<Rightarrow> action list" where
  "live_actions now evs = concat (map (\<lambda>(r, e). actions_of now (MessageLikeReceived r e)) evs)"

lemma live_actions_Cons:
  assumes "map snd acts = live_actions now ((r, e) # evs)"
  obtains as bs where "acts = as @ bs" "map snd as = actions_of now (MessageLikeReceived r e)"
    "map snd bs = live_actions now evs"
  using assms by (auto simp: live_actions_def map_eq_append_conv simp del: actions_of.simps)

text \<open>The events of a story that concern the message, in their order.\<close>

definition concerning :: "string \<Rightarrow> (sdk_room \<times> sync_event) list \<Rightarrow> (sdk_room \<times> sync_event) list" where
  "concerning i evs = filter (\<lambda>(r, e). names_message i e) evs"

lemma watched_follows:
  assumes "watched i fs rid (Some m) st" "\<forall>(r, e) \<in> set (concerning i evs). sr_id r = rid \<and> sr_is_joined r"
    "map snd (concerning i evs) = es" "\<forall>e \<in> set es. follows i e" "set es \<subseteq> set fs" "distinct (map ev_id fs)"
    "map snd acts = live_actions now evs"
  shows "watched i fs rid (Some (fold (follow rid i) es m)) (run_actions acts st)"
  using assms
proof (induction evs arbitrary: m st acts es)
  case (Cons x evs)
  obtain r e where x: "x = (r, e)" by (cases x)
  obtain as bs where acts: "acts = as @ bs" "map snd as = actions_of now (MessageLikeReceived r e)"
    "map snd bs = live_actions now evs"
    using Cons.prems(7) by (auto simp: x elim: live_actions_Cons)
  show ?case
  proof (cases "names_message i e")
    case False
    then have "watched i fs rid (Some m) (run_actions as st)" using watched_other [OF Cons.prems(1) _ acts(2)] by blast
    from Cons.IH [OF this _ _ Cons.prems(4-6) acts(3)] Cons.prems(2,3) False show ?thesis
      by (simp add: acts(1) run_actions_append x concerning_def)
  next
    case True
    then obtain es' where es: "es = e # es'" "map snd (concerning i evs) = es'"
      using Cons.prems(3) by (auto simp: x concerning_def)
    have r: "sr_id r = rid" "sr_is_joined r" "follows i e" "e \<in> set fs"
      using Cons.prems(2,4,5) True by (auto simp: x concerning_def es(1))
    have "watched i fs rid (Some (follow rid i e m)) (run_actions as st)"
      using watched_follow [where r = r, OF _ r(2-4) Cons.prems(6) acts(2), of m st] Cons.prems(1) by (simp add: r(1))
    from Cons.IH [OF this _ es(2) _ _ Cons.prems(6) acts(3)] Cons.prems(2,4,5) show ?thesis
      by (simp add: acts(1) run_actions_append x concerning_def es(1))
  qed
qed (simp add: concerning_def live_actions_def)

section \<open>The message live and fetched\<close>

text \<open>The server's events, as they are parsed in the room, are the events \<open>es\<close>.\<close>

definition are_events :: "room_env \<Rightarrow> string \<Rightarrow> timeline_event list \<Rightarrow> sync_event list \<Rightarrow> bool" where
  "are_events env rid tes es \<longleftrightarrow> map (parsed_event env rid) tes = map (\<lambda>e. Some (into_full_event e rid)) es"

lemma are_events_Cons [simp]:
  "are_events env rid (te # tes) (e # es) \<longleftrightarrow>
     parsed_event env rid te = Some (into_full_event e rid) \<and> are_events env rid tes es"
  by (simp add: are_events_def)

lemma are_events_all2:
  "are_events env rid tes es = list_all2 (\<lambda>te e. parsed_event env rid te = Some (into_full_event e rid)) tes es"
  by (simp add: are_events_def list_eq_iff_nth_eq list_all2_conv_all_nth) (metis nth_map)

lemma fetched_message:
  assumes "memory_holds (ev_id e) fs rid (ex_memory ex)" "original_content e = Some (c, content)"
    "xe_relations (re_exec env) rid (ev_id e) = Inr (te, tes)"
    "are_events (ce_room_env (re_client env)) rid (te # tes) (e # es)" "mset es = mset fs"
    "\<forall>e' \<in> set fs. follows (ev_id e) e'" "distinct (map ev_id fs)"
  obtains cm where
    "fst (fetch_message env rid (ev_id e) ex) = Inr (build_other cm (first_shown rid e c content))"
    "holds_of (reaction_on (ev_id e)) fs (set fs) (cm_reactions cm)"
    "holds_of (replacement_on (ev_id e)) fs (set fs) (cm_replacements cm)"
proof -
  let ?env = "ce_room_env (re_client env)" and ?room = "cached_or_new rid (ex_memory ex)"
  have k: "rooms_keyed (ex_memory ex)" and u: "\<not> fst (cell rid (ex_memory ex))"
    and h: "holds_story (ev_id e) fs {} ?room"
    using assms(1) by (simp_all add: memory_holds_def)
  obtain mc where mc: "get_or_create_room rid (ex_memory ex) = (Inr ?room, mc)"
    using get_or_create_room_cell(1) [of rid "ex_memory ex"] u by (auto simp: cached_or_new_def)
  let ?ex = "ex\<lparr>ex_memory := mc\<rparr>"
  let ?st = "\<lparr>st_room = ?room, st_fs = ex_fs ?ex, st_log = ex_sent ?ex\<rparr>"
  have room: "room_holds (ev_id e) fs {} rid (st_room ?st)"
    using keyed_room [OF k, of rid] h by (simp add: room_holds_def cached_or_new_def)
  have es: "set es = set fs" using assms(5) by (rule mset_eq_setD)
  have tes: "list_all2 (\<lambda>te e. parsed_event ?env rid te = Some (into_full_event e rid)) tes es"
    using assms(4) by (simp add: are_events_all2)
  obtain st1 where st1: "process_relations ?env tes ?st = (Inr (), st1)" "room_holds (ev_id e) fs (set fs) rid (st_room st1)"
    using process_follows [OF tes _ _ assms(7) _ room] assms(6) es by auto
  have p: "parsed_event ?env rid te = Some (into_full_event e rid)" using assms(4) by simp
  obtain cm st2 where cm:
    "process_timeline_event ?env te st1 = (Inr (Some (MessageAction (build_other cm (first_shown rid e c content)))), st2)"
    "holds_of (reaction_on (ev_id e)) fs (set fs) (cm_reactions cm)"
    "holds_of (replacement_on (ev_id e)) fs (set fs) (cm_replacements cm)"
    by (rule process_original [OF st1(2) assms(2) p])
  have "message_fetcher_run ?env (Inr (te, tes)) ?st = (Inr (build_other cm (first_shown rid e c content)), st2)"
    by (simp only: message_fetcher_run_def sum.case prod.case st1(1) and_then_Inr cm(1) option.case cached_room_action.case)
  then have "fst (fetch_message env rid (ev_id e) ex) = Inr (build_other cm (first_shown rid e c content))"
    by (simp add: fetch_message_def on_memory_def mc assms(3) on_cached_room_def)
  then show thesis using cm(2,3) by (rule that)
qed

lemma live_message:
  assumes "memory_holds (ev_id e) fs rid (ex_memory ex)" "original_content e = Some (c, content)"
    "map snd (concerning (ev_id e) evs) = e # fs"
    "\<forall>(r, e') \<in> set (concerning (ev_id e) evs). sr_id r = rid \<and> sr_is_joined r"
    "map snd acts = live_actions now evs" "\<forall>e' \<in> set fs. follows (ev_id e) e'" "distinct (map ev_id fs)"
  shows "watched (ev_id e) fs rid (Some (fold (follow rid (ev_id e)) fs (first_shown rid e c content))) (run_actions acts ex)"
proof -
  have "watched (ev_id e) fs rid (in_view (ev_id e) (ex_sent ex)) ex" using assms(1) by (simp add: watched_def)
  then show ?thesis
    using assms(3-5)
  proof (induction evs arbitrary: acts ex)
    case (Cons x evs)
    obtain r e' where x: "x = (r, e')" by (cases x)
    obtain as bs where acts: "acts = as @ bs" "map snd as = actions_of now (MessageLikeReceived r e')"
      "map snd bs = live_actions now evs"
      using Cons.prems(4) by (auto simp: x elim: live_actions_Cons)
    show ?case
    proof (cases "names_message (ev_id e) e'")
      case False
      have w: "watched (ev_id e) fs rid (in_view (ev_id e) (ex_sent ex)) (run_actions as ex)"
        by (rule watched_other [OF Cons.prems(1) False acts(2)])
      then have "watched (ev_id e) fs rid (in_view (ev_id e) (ex_sent (run_actions as ex))) (run_actions as ex)"
        by (simp add: watched_def)
      from Cons.IH [OF this _ _ acts(3)] Cons.prems(2,3) False show ?thesis
        by (simp add: acts(1) run_actions_append x concerning_def)
    next
      case True
      then have e: "e' = e" and fs: "map snd (concerning (ev_id e) evs) = fs"
        and r: "sr_id r = rid" "sr_is_joined r"
        using Cons.prems(2,3) by (simp_all add: x concerning_def)
      have "watched (ev_id e) fs (sr_id r) (in_view (ev_id e) (ex_sent ex)) ex" using Cons.prems(1) r(1) by simp
      from watched_original [OF this r(2) assms(2) acts(2) [unfolded e]]
      have "watched (ev_id e) fs rid (Some (first_shown rid e c content)) (run_actions as ex)" by (simp add: r(1))
      from watched_follows [OF this _ fs assms(6) order.refl assms(7) acts(3)] Cons.prems(3) True show ?thesis
        by (simp add: acts(1) run_actions_append x concerning_def)
    qed
  qed (simp add: concerning_def)
qed

text \<open>
  Claim C9: Among any live events like messages, of this and of other rooms, a message of text arrives,
  then edits of it, each later than the one before, and reactions to it, in a joined room; no
  other event names the message and none redacts anything.  Then the message in the application's
  view is what a fetch of it gives, in whatever order the server lists its relations: the
  same content (that of the last edit, whoever has sent it), sender, time and flags, and the same
  reactions up to their order.  Only the mentions differ: the application has been told those of
  the last edit, and the fetched message has those of the original.
\<close>

theorem fetched_message_agrees_with_live_view:
  assumes "original_content e = Some (c, content)" "\<forall>e' \<in> set fs. follows (ev_id e) e'" "distinct (map ev_id fs)"
    "sorted_wrt (<) (map ev_ts (filter (\<lambda>e'. edit_on (ev_id e) e' \<noteq> None) fs))"
    and "map snd (concerning (ev_id e) evs) = e # fs"
    "\<forall>(r, e') \<in> set (concerning (ev_id e) evs). sr_id r = rid \<and> sr_is_joined r"
    and "map snd acts = live_actions now evs" "memory_holds (ev_id e) fs rid (ex_memory ex)"
    and "xe_relations (re_exec env) rid (ev_id e) = Inr (te, tes)"
    "are_events (ce_room_env (re_client env)) rid (te # tes) (e # es)" "mset es = mset fs"
  shows "\<exists>m shown. fst (fetch_message env rid (ev_id e) (run_actions acts ex)) = Inr m \<and>
    in_view (ev_id e) (ex_sent (run_actions acts ex)) = Some shown \<and>
    m\<lparr>m_reactions := [], m_mentions := []\<rparr> = shown\<lparr>m_reactions := [], m_mentions := []\<rparr> \<and>
    mset (m_reactions m) = mset (m_reactions shown) \<and>
    m_content m = Some (if edits_on (ev_id e) fs = [] then content else fst (last (edits_on (ev_id e) fs))) \<and>
    (m_edited m \<longleftrightarrow> edits_on (ev_id e) fs \<noteq> []) \<and>
    m_mentions m = matrix_mentions_to_proto_mentions (rmc_mentions c) \<and>
    m_mentions shown = (if edits_on (ev_id e) fs = [] then m_mentions m else snd (last (edits_on (ev_id e) fs)))"
proof -
  let ?m = "first_shown rid e c content"
  have w: "watched (ev_id e) fs rid (Some (fold (follow rid (ev_id e)) fs ?m)) (run_actions acts ex)"
    by (rule live_message [OF assms(8,1,5,6,7,2,3)])
  then obtain cm where cm: "fst (fetch_message env rid (ev_id e) (run_actions acts ex)) = Inr (build_other cm ?m)"
    "holds_of (reaction_on (ev_id e)) fs (set fs) (cm_reactions cm)"
    "holds_of (replacement_on (ev_id e)) fs (set fs) (cm_replacements cm)"
    unfolding watched_def by (blast intro: fetched_message [OF _ assms(1,9-11,2,3)])
  have id: "m_id ?m = ev_id e" "m_room_id ?m = rid" "m_mentions ?m = matrix_mentions_to_proto_mentions (rmc_mentions c)"
    "m_content ?m = Some content" "\<not> m_edited ?m"
    by (simp_all add: first_shown_def)
  note b = built_and_followed [OF cm(2,3) assms(3,4,2) id(1,2)]
  show ?thesis
    by (rule exI [of _ "build_other cm ?m"], rule exI [of _ "fold (follow rid (ev_id e)) fs ?m"])
      (use cm(1) w b id(3-5) in \<open>simp add: watched_def\<close>)
qed

lemma same_but_mentions:
  assumes "m\<lparr>m_reactions := [], m_mentions := []\<rparr> = n\<lparr>m_reactions := [], m_mentions := []\<rparr>"
  shows "m_content n = m_content m"
  using arg_cong [OF assms, of m_content] by simp

text \<open>A message that mentions one user, a reaction to it, and an edit of it that mentions another.\<close>

definition example_text :: sync_event where
  "example_text = \<lparr>ev_id = ''$m'', ev_sender = ''@a:x'', ev_ts = 1, ev_body = MessageLike (RoomMessage (Original
     \<lparr>rmc_msgtype = MtText ''hi'', rmc_relates_to = None,
      rmc_mentions = Some \<lparr>mn_user_ids = [''@b:x''], mn_room = False\<rparr>\<rparr>))\<rparr>"

definition example_like :: sync_event where
  "example_like = \<lparr>ev_id = ''$l'', ev_sender = ''@b:x'', ev_ts = 2,
     ev_body = MessageLike (ReactionEvent (Original \<lparr>an_event_id = ''$m'', an_key = ''+''\<rparr>))\<rparr>"

definition example_edit :: sync_event where
  "example_edit = \<lparr>ev_id = ''$e'', ev_sender = ''@a:x'', ev_ts = 3, ev_body = MessageLike (RoomMessage (Original
     \<lparr>rmc_msgtype = MtText ''* ho'', rmc_relates_to = Some (RelReplacement ''$m''
        \<lparr>nc_msgtype = MtText ''ho'', nc_mentions = Some \<lparr>mn_user_ids = [''@c:x''], mn_room = False\<rparr>\<rparr>),
      rmc_mentions = None\<rparr>))\<rparr>"

text \<open>The server with these events, the relations listed in the other order.\<close>

definition example_raws :: "raw \<Rightarrow> sync_event option" where
  "example_raws raw = (if raw = ''m'' then Some example_text else if raw = ''l'' then Some example_like else Some example_edit)"

definition example_server :: "'m request_env \<Rightarrow> 'm request_env" where
  "example_server env =
     (let cl = re_client env;
          ex = (ce_exec cl)\<lparr>xe_relations := \<lambda>_ _. Inr (example_timeline ''m'' ''@a:x'' 1,
            [example_timeline ''e'' ''@a:x'' 3, example_timeline ''l'' ''@b:x'' 2])\<rparr>;
          room = (ce_room_env cl)\<lparr>en_parsers := example_parsers\<lparr>parse_sync := example_raws\<rparr>\<rparr>
      in env\<lparr>re_client := cl\<lparr>ce_exec := ex, ce_room_env := room\<rparr>\<rparr>)"

definition example_other :: sync_event where
  "example_other = \<lparr>ev_id = ''$o'', ev_sender = ''@b:x'', ev_ts = 2, ev_body = MessageLike (RoomMessage (Original
     \<lparr>rmc_msgtype = MtText ''other'', rmc_relates_to = None, rmc_mentions = None\<rparr>))\<rparr>"

definition example_live :: "exec_env \<Rightarrow> sdk_room \<Rightarrow> fs \<Rightarrow> executor" where
  "example_live env r fs =
     run_actions (map (Pair env) (live_actions 5 [(r, example_text), (r, example_like), (r\<lparr>sr_id := ''!o''\<rparr>, example_other), (r, example_edit)]))
       (executor_new memory_cache_new fs)"

theorem fetched_message_agrees_with_live_view_witness:
  "\<forall>(env :: unit request_env) r fs.
     let ex = example_live (re_exec env) (r\<lparr>sr_id := ''!r'', sr_is_joined := True\<rparr>) fs
     in case (fst (fetch_message (example_server env) ''!r'' ''$m'' ex), in_view ''$m'' (ex_sent ex)) of
          (Inr m, Some shown) \<Rightarrow> m_content m = Some (CText ''ho'') \<and> m_content shown = Some (CText ''ho'') \<and>
            mset (m_reactions m) = mset (m_reactions shown) \<and> m_mentions m = [''@b:x''] \<and> m_mentions shown = [''@c:x'']
        | _ \<Rightarrow> False"
proof (intro allI)
  fix env :: "unit request_env" and r :: sdk_room and fs
  let ?r = "r\<lparr>sr_id := ''!r'', sr_is_joined := True\<rparr>" and ?fs = "[example_like, example_edit]"
  let ?evs = "[(?r, example_text), (?r, example_like), (?r\<lparr>sr_id := ''!o''\<rparr>, example_other), (?r, example_edit)]"
  let ?acts = "map (Pair (re_exec env)) (live_actions 5 ?evs)" and ?ex = "executor_new memory_cache_new fs"
  note defs = example_text_def example_like_def example_edit_def
  have o: "original_content example_text = Some (\<lparr>rmc_msgtype = MtText ''hi'', rmc_relates_to = None,
      rmc_mentions = Some \<lparr>mn_user_ids = [''@b:x''], mn_room = False\<rparr>\<rparr>, CText ''hi'')"
    by (simp add: original_content_def defs)
  have i: "ev_id example_text = ''$m''" by (simp add: defs)
  have f: "edit_on ''$m'' example_like = None" "reaction_on ''$m'' example_like = Some \<lparr>rx_user_id = ''@b:x'', rx_emoji = ''+''\<rparr>"
    "edit_on ''$m'' example_edit = Some (CText ''ho'', [''@c:x''])"
    by (simp_all add: edit_on_def reaction_on_def defs matrix_mentions_to_proto_mentions_def)
  have fs: "\<forall>e' \<in> set ?fs. follows (ev_id example_text) e'" "distinct (map ev_id ?fs)"
    "sorted_wrt (<) (map ev_ts (filter (\<lambda>e'. edit_on (ev_id example_text) e' \<noteq> None) ?fs))"
    using f by (simp_all add: follows_def i) (simp add: defs)
  have "names_message ''$m'' example_text" "names_message ''$m'' example_like" "names_message ''$m'' example_edit"
    "\<not> names_message ''$m'' example_other"
    by (simp_all add: names_message_def defs example_other_def)
  then have conc: "concerning (ev_id example_text) ?evs = [(?r, example_text), (?r, example_like), (?r, example_edit)]"
    by (simp add: concerning_def i)
  have evs: "map snd (concerning (ev_id example_text) ?evs) = example_text # ?fs"
    "\<forall>(r, e') \<in> set (concerning (ev_id example_text) ?evs). sr_id r = ''!r'' \<and> sr_is_joined r"
    "map snd ?acts = live_actions 5 ?evs"
    unfolding conc by (simp_all add: comp_def)
  have "unpoisoned (cached_room_new ''!r'')" by (simp add: unpoisoned_def cached_room_new_def)
  then have mem: "memory_holds (ev_id example_text) ?fs ''!r'' (ex_memory ?ex)"
    by (simp add: memory_holds_def cached_or_new_def cell_def memory_cache_new_def executor_new_def
        rooms_keyed_def holds_story_def default_cached_message_def holds_of_empty)
  have rel: "xe_relations (re_exec (example_server env)) ''!r'' (ev_id example_text) =
      Inr (example_timeline ''m'' ''@a:x'' 1, [example_timeline ''e'' ''@a:x'' 3, example_timeline ''l'' ''@b:x'' 2])"
    by (simp add: example_server_def re_exec_def Let_def)
  have parsed: "are_events (ce_room_env (re_client (example_server env))) ''!r''
      (example_timeline ''m'' ''@a:x'' 1 # [example_timeline ''e'' ''@a:x'' 3, example_timeline ''l'' ''@b:x'' 2])
      (example_text # [example_edit, example_like])"
    by (simp add: are_events_def example_server_def Let_def parsed_event_def example_timeline_def example_raws_def)
  have "mset [example_edit, example_like] = mset ?fs" by simp
  from fetched_message_agrees_with_live_view [OF o fs evs mem rel parsed this]
  show "let ex = example_live (re_exec env) ?r fs
     in case (fst (fetch_message (example_server env) ''!r'' ''$m'' ex), in_view ''$m'' (ex_sent ex)) of
          (Inr m, Some shown) \<Rightarrow> m_content m = Some (CText ''ho'') \<and> m_content shown = Some (CText ''ho'') \<and>
            mset (m_reactions m) = mset (m_reactions shown) \<and> m_mentions m = [''@b:x''] \<and> m_mentions shown = [''@c:x'']
        | _ \<Rightarrow> False"
    unfolding example_live_def [symmetric] i
    by (auto simp: Let_def List.map_filter_def f matrix_mentions_to_proto_mentions_def dest: same_but_mentions)
qed

end
