(* ===== verification/SentMessages.thy ===== *)
theory SentMessages
  imports LiveAndFetched ClientProperties
begin

text \<open>
  A text that the application sends (client.rs, messages.rs), as it is announced when the server
  delivers it (events.rs).  Between the two are the SDK, which makes the content of the event, and the server.
\<close>

section \<open>The text on its way\<close>

text \<open>
  What the SDK documents of the content it makes: \<open>text_markdown\<close> keeps the body;
  \<open>make_reply_to\<close> relates it to the message that is replied to, or forwards that message's thread;
  \<open>make_for_thread\<close> relates it to the thread of the message, or to the message as its root; both may add
  the sender of that message to the mentions, and \<open>add_mentions\<close> adds the given ones.
\<close>

fun sent_relation :: "out_relation \<Rightarrow> relation option" where
  "sent_relation NoRelation = None"
| "sent_relation (ReplyTo md) =
     Some (case rm_thread md of None \<Rightarrow> RelReply (rm_event_id md) | Some t \<Rightarrow> RelThread (th_event_id t))"
| "sent_relation (InThread md _) =
     Some (RelThread (case rm_thread md of None \<Rightarrow> rm_event_id md | Some t \<Rightarrow> th_event_id t))"

fun replied_senders :: "out_relation \<Rightarrow> string list" where
  "replied_senders NoRelation = []"
| "replied_senders (ReplyTo md) = [rm_sender_id md]"
| "replied_senders (InThread md _) = [rm_sender_id md]"

definition room_flag :: "mentions option \<Rightarrow> bool" where
  "room_flag ms = (case ms of None \<Rightarrow> False | Some m \<Rightarrow> mn_room m)"

definition made_of :: "out_text \<Rightarrow> room_message_content \<Rightarrow> bool" where
  "made_of t c \<longleftrightarrow>
     rmc_msgtype c = MtText (ot_body t) \<and> rmc_relates_to c = sent_relation (ot_relation t) \<and>
     set (matrix_mentions_to_proto_mentions (ot_mentions t)) \<subseteq> set (matrix_mentions_to_proto_mentions (rmc_mentions c)) \<and>
     set (matrix_mentions_to_proto_mentions (rmc_mentions c)) \<subseteq>
       set (matrix_mentions_to_proto_mentions (ot_mentions t)) \<union> set (replied_senders (ot_relation t)) \<and>
     room_flag (rmc_mentions c) = room_flag (ot_mentions t)"

text \<open>The event is that of the text for which the SDK has answered with the event's ID.\<close>

definition delivers :: "room_sdk \<Rightarrow> sync_event \<Rightarrow> room_message_content \<Rightarrow> bool" where
  "delivers sdk e c \<longleftrightarrow> ev_body e = MessageLike (RoomMessage (Original c)) \<and>
     (\<forall>t. sdk_send sdk (OutText t) = Inr (ev_id e) \<longrightarrow> made_of t c)"

section \<open>Sending\<close>

text \<open>The thread wins over the message that is replied to.\<close>

definition asked_relation :: "string option \<Rightarrow> string option \<Rightarrow> relation option" where
  "asked_relation thread related =
     (case thread of Some t \<Rightarrow> Some (RelThread t) | None \<Rightarrow> map_option RelReply related)"

lemma text_event_made:
  assumes "text_event p sdk b body = Inr t"
  shows "ot_body t = body" "sent_relation (ot_relation t) = asked_relation (mb_thread b) (mb_related b)"
    "set (matrix_mentions_to_proto_mentions (ot_mentions t)) = set (mb_mentioned b)"
    "room_flag (ot_mentions t) = mb_room_mentioned b"
  using assms
  by (auto simp: text_event_def Let_def add_thread_metadata_def add_reply_metadata_def get_thread_reply_metadata_def
      get_main_reply_metadata_def proto_mentions_to_matrix_mentions_def asked_relation_def room_flag_def
      matrix_mentions_to_proto_mentions_def
      split: option.splits sum.splits if_splits)

lemma message_builder_of_request:
  assumes "message_builder_of env rq = Inr b"
  shows "ms_content rq = Some (mb_content b)" "mb_related b = ms_related_message_id rq" "mb_thread b = ms_thread_id rq"
    "mb_mentioned b = ms_mentioned_user_ids rq" "mb_room_mentioned b = ms_room_mentioned rq"
  using assms
  by (auto simp: message_builder_of_def parse_optional_event_id_def parse_event_id_def parse_user_ids_def
      message_builder_new_def split: option.splits sum.splits if_splits)

lemma on_files_result: "fst (on_files f c) = fst (f (ex_fs (client_executor c)))"
  by (simp add: on_files_def on_executor_def Events.on_fs_def split_beta)

lemma sent_text:
  assumes "send_message_request env rq cl = (Inr i, cl')" "ms_content rq = Some (SendText body)"
  obtains r t where "get_matrix_room env (ms_room_id rq) cl = Inr r"
    "sdk_send (re_message_sdk env (sr_id r)) (OutText t) = Inr i" "ot_body t = body"
    "sent_relation (ot_relation t) = asked_relation (ms_thread_id rq) (ms_related_message_id rq)"
    "set (matrix_mentions_to_proto_mentions (ot_mentions t)) = set (ms_mentioned_user_ids rq)"
    "room_flag (ot_mentions t) = ms_room_mentioned rq"
proof -
  obtain b where b: "message_builder_of env rq = Inr b"
    using assms(1) by (cases "message_builder_of env rq") (auto simp: send_message_request_def)
  note bf = message_builder_of_request [OF b]
  obtain sx where sx: "session_of cl = Inr sx"
    using assms(1) b by (cases "session_of cl") (auto simp: send_message_request_def with_session_def)
  obtain r where r: "get_matrix_room env (ms_room_id rq) cl = Inr r"
    using assms(1) b sx
    by (cases "get_matrix_room env (ms_room_id rq) cl") (auto simp: send_message_request_def with_session_def with_room_def)
  let ?sdk = "re_message_sdk env (sr_id r)" and ?p = "xe_parsers (re_exec env)"
  have "mb_content b = SendText body" using bf(1) assms(2) by simp
  then have "fst (send_message_request env rq cl) = send_text ?p ?sdk b body"
    by (simp add: send_message_request_def b with_session_def sx with_room_def r on_files_result send_message_def)
  then have "send_text ?p ?sdk b body = Inr i" using assms(1) by simp
  then obtain t where t: "text_event ?p ?sdk b body = Inr t" "sdk_send ?sdk (OutText t) = Inr i"
    by (auto simp: send_text_def Messages.send_event_def split: sum.splits)
  show thesis
    using that [OF r t(2)] text_event_made [OF t(1)] bf by simp
qed

section \<open>Announcing\<close>

text \<open>
  Claim C10: A text that the application has sent is announced as it was composed.  When the request has been
  answered with an ID and the event of this ID arrives in the joined room, the application is shown a message
  of this ID with the text, the thread and the mention of the room that were asked for, and with every
  user that was to be mentioned; the message it replies to is named exactly when the request named
  no thread: a reply inside a thread arrives without it.
\<close>

theorem sent_text_is_announced:
  assumes "send_message_request env rq cl = (Inr i, cl')" "ms_content rq = Some (SendText body)"
    and "get_matrix_room env (ms_room_id rq) cl = Inr r" "delivers (re_message_sdk env (sr_id r)) e c" "ev_id e = i"
    and "sr_id r' = sr_id r" "sr_is_joined r'" "map snd acts = actions_of now (MessageLikeReceived r' e)"
  shows "\<exists>m. in_view i (ex_sent (run_actions acts ex)) = Some m \<and>
    m_room_id m = sr_id r \<and> m_sender_id m = ev_sender e \<and> m_content m = Some (CText body) \<and>
    m_thread_id m = ms_thread_id rq \<and>
    m_related_id m = (if ms_thread_id rq = None then ms_related_message_id rq else None) \<and>
    set (ms_mentioned_user_ids rq) \<subseteq> set (m_mentions m) \<and> m_room_mentioned m = ms_room_mentioned rq"
proof -
  obtain t where t: "sdk_send (re_message_sdk env (sr_id r)) (OutText t) = Inr i" "ot_body t = body"
    "sent_relation (ot_relation t) = asked_relation (ms_thread_id rq) (ms_related_message_id rq)"
    "set (matrix_mentions_to_proto_mentions (ot_mentions t)) = set (ms_mentioned_user_ids rq)"
    "room_flag (ot_mentions t) = ms_room_mentioned rq"
    by (rule sent_text [OF assms(1,2)]) (use assms(3) in simp)
  have body: "ev_body e = MessageLike (RoomMessage (Original c))" and made: "made_of t c"
    using assms(4,5) t(1) by (auto simp: delivers_def)
  have rel: "rmc_relates_to c = asked_relation (ms_thread_id rq) (ms_related_message_id rq)"
    using made t(3) by (simp add: made_of_def)
  have "rmc_msgtype c = MtText body" using made t(2) by (simp add: made_of_def)
  then have "original_content e = Some (c, CText body)"
    using rel body by (cases "ms_thread_id rq"; cases "ms_related_message_id rq")
      (simp_all add: original_content_def asked_relation_def)
  from run_original [OF assms(7) this assms(8)]
  have "in_view i (ex_sent (run_actions acts ex)) = Some (first_shown (sr_id r') e c (CText body))"
    using assms(5) by (simp add: send_event_def in_view_snoc first_shown_def)
  moreover have "get_thread_id c = ms_thread_id rq"
    "get_related_message_id c = (if ms_thread_id rq = None then ms_related_message_id rq else None)"
    by (cases "ms_thread_id rq"; cases "ms_related_message_id rq";
        simp add: get_thread_id_def get_related_message_id_def rel asked_relation_def)+
  moreover have "set (ms_mentioned_user_ids rq) \<subseteq> set (matrix_mentions_to_proto_mentions (rmc_mentions c))"
    "room_flag (rmc_mentions c) = ms_room_mentioned rq"
    using made t(4,5) by (auto simp: made_of_def)
  ultimately show ?thesis using assms(6) by (simp add: first_shown_def room_flag_def)
qed

text \<open>A reply in a thread that mentions a user: what the SDK is given, and the event the server delivers.\<close>

definition example_reply :: message_send_request where
  "example_reply = \<lparr>ms_room_id = ''!r'', ms_related_message_id = Some ''$r'', ms_mentioned_user_ids = [''@c:x''],
     ms_room_mentioned = False, ms_content = Some (SendText ''hi''), ms_thread_id = Some ''$t''\<rparr>"

definition example_out :: out_text where
  "example_out = \<lparr>ot_body = ''hi'', ot_formatted = Some ''hi'',
     ot_relation = InThread \<lparr>rm_event_id = ''$r'', rm_sender_id = ''@b:x'',
        rm_thread = Some \<lparr>th_event_id = ''$t'', th_in_reply_to = Some ''$r''\<rparr>\<rparr> True,
     ot_mentions = Some \<lparr>mn_user_ids = [''@c:x''], mn_room = False\<rparr>\<rparr>"

definition example_content :: room_message_content where
  "example_content = \<lparr>rmc_msgtype = MtText ''hi'', rmc_relates_to = Some (RelThread ''$t''),
     rmc_mentions = Some \<lparr>mn_user_ids = [''@b:x'', ''@c:x''], mn_room = False\<rparr>\<rparr>"

definition example_delivered :: sync_event where
  "example_delivered = \<lparr>ev_id = ''$m'', ev_sender = ''@a:x'', ev_ts = 7,
     ev_body = MessageLike (RoomMessage (Original example_content))\<rparr>"

definition sending_sdk :: room_sdk where
  "sending_sdk = example_sdk\<lparr>sdk_send := \<lambda>e. Inr (if e = OutText example_out then ''$m'' else ''$n'')\<rparr>"

definition sending :: "sdk_room \<Rightarrow> 'm request_env \<Rightarrow> 'm request_env" where
  "sending r env =
     (let env = answering r (Inr ()) env; cl = re_client env
      in env\<lparr>re_message_sdk := \<lambda>_. sending_sdk, re_client := cl\<lparr>ce_exec :=
           (ce_exec cl)\<lparr>xe_parsers := example_parsers\<lparr>parse_sync := \<lambda>_. Some example_like\<rparr>\<rparr>\<rparr>\<rparr>)"

theorem sent_text_is_announced_witness:
  "\<forall>(env :: unit request_env) r mm ex.
     let r = r\<lparr>sr_id := ''!r'', sr_is_joined := True\<rparr>;
         env = sending r env;
         acts = map (Pair (re_exec env)) (actions_of 9 (MessageLikeReceived r example_delivered))
     in fst (send_message_request env example_reply (toy_client mm)) = Inr ''$m'' \<and>
       (case in_view ''$m'' (ex_sent (run_actions acts ex)) of
          None \<Rightarrow> False
        | Some m \<Rightarrow> m_content m = Some (CText ''hi'') \<and> m_thread_id m = Some ''$t'' \<and> m_related_id m = None \<and>
            ''@c:x'' \<in> set (m_mentions m))"
proof (intro allI)
  fix env :: "unit request_env" and r :: sdk_room and mm ex
  let ?r = "r\<lparr>sr_id := ''!r'', sr_is_joined := True\<rparr>" and ?c = "toy_client mm"
  let ?env = "sending ?r env"
  let ?acts = "map (Pair (re_exec ?env)) (actions_of 9 (MessageLikeReceived ?r example_delivered))"
  have room: "get_matrix_room ?env (ms_room_id example_reply) ?c = Inr ?r"
    by (simp add: get_matrix_room_ok sending_def answering_def re_exec_def serves_reaction_def toy_client_def Let_def)
  have session: "\<exists>sx. session_of ?c = Inr sx"
    by (simp add: session_of_def toy_client_def try_lock_def lock_def)
  have builder: "message_builder_of ?env example_reply = Inr \<lparr>mb_content = SendText ''hi'', mb_related = Some ''$r'',
      mb_mentioned = [''@c:x''], mb_room_mentioned = False, mb_thread = Some ''$t''\<rparr>"
    by (simp add: message_builder_of_def example_reply_def parse_optional_event_id_def parse_event_id_def
        parse_user_ids_def sending_def answering_def message_builder_new_def Let_def)
  have sdk: "re_message_sdk ?env i = sending_sdk" for i by (simp add: sending_def Let_def)
  have p: "xe_parsers (re_exec ?env) = example_parsers\<lparr>parse_sync := \<lambda>_. Some example_like\<rparr>"
    by (simp add: sending_def re_exec_def Let_def)
  have "text_event (xe_parsers (re_exec ?env)) sending_sdk \<lparr>mb_content = SendText ''hi'', mb_related = Some ''$r'',
      mb_mentioned = [''@c:x''], mb_room_mentioned = False, mb_thread = Some ''$t''\<rparr> ''hi'' = Inr example_out"
    unfolding p
    by (simp add: text_event_def add_thread_metadata_def get_thread_reply_metadata_def get_event_sender_id_def
        sending_sdk_def example_sdk_def sender_id_from_timeline_event_def example_like_def example_out_def
        proto_mentions_to_matrix_mentions_def)
  then have send: "fst (send_message_request ?env example_reply ?c) = Inr ''$m''"
    using session room
    by (auto simp: send_message_request_def builder with_session_def with_room_def on_files_result send_message_def
        sdk send_text_def Messages.send_event_def) (simp add: sending_sdk_def)
  then obtain c' where run: "send_message_request ?env example_reply ?c = (Inr ''$m'', c')" by (metis prod.collapse)
  have content: "ms_content example_reply = Some (SendText ''hi'')" by (simp add: example_reply_def)
  have delivers: "delivers (re_message_sdk ?env (sr_id ?r)) example_delivered example_content"
    by (auto simp: delivers_def example_delivered_def sdk sending_sdk_def made_of_def example_out_def
        example_content_def matrix_mentions_to_proto_mentions_def room_flag_def split: if_splits)
  have id: "ev_id example_delivered = ''$m''" by (simp add: example_delivered_def)
  have r: "sr_id ?r = sr_id ?r" "sr_is_joined ?r"
    "map snd ?acts = actions_of 9 (MessageLikeReceived ?r example_delivered)"
    by (simp_all add: comp_def del: actions_of.simps)
  from sent_text_is_announced [OF run content room delivers id r, of ex] send
  show "let r = ?r; env = sending r env;
         acts = map (Pair (re_exec env)) (actions_of 9 (MessageLikeReceived r example_delivered))
     in fst (send_message_request env example_reply ?c) = Inr ''$m'' \<and>
       (case in_view ''$m'' (ex_sent (run_actions acts ex)) of
          None \<Rightarrow> False
        | Some m \<Rightarrow> m_content m = Some (CText ''hi'') \<and> m_thread_id m = Some ''$t'' \<and> m_related_id m = None \<and>
            ''@c:x'' \<in> set (m_mentions m))"
    by (auto simp: Let_def example_reply_def simp del: actions_of.simps)
qed

end
