(* ===== verification/Spec2Isabelle.thy ===== *)
theory Spec2Isabelle
  imports Utils Bridge Polls ProtoCache Notifications Media Messages CacheProperties TidyRooms Redecryption
    Verification Session Rooms Users Events EventProperties RoomIsolation EventQueue EventFeedback EventDispatch Client ClientRequests ClientApi ClientProperties ClientRooms
    ClientRestart ClientRejects ClientSystem ClientLifecycle LiveAndFetched SentMessages
begin

text \<open>
  A model of the crate \<open>gouda_matrix\<close> (src/src/): the adapter between the chat API of GOuda,
  a protocol of requests and events, and the Matrix SDK.  The application sends requests
  (client.rs); the adapter asks the SDK, converts the answers and sends events back.  Two
  background activities run beside the requests: the sync loop (session.rs) and the handlers
  of the SDK's events (events.rs).  Both, and the requests, share three stores: a persistent
  cache of users and of the sync token (proto_cache.rs, sealed by crypto.rs), the files of
  avatars and attachments (media.rs), and the cache of a room's messages and relations in
  memory (memory_cache.rs).

  \<^bold>\<open>Theories\<close>, in the order of their imports:

  \<^item> \<open>Prelude\<close>: machine integers, hash maps as lists of entries in iteration order, locks
    with their poison flag, results with a state, lists.
  \<^item> \<open>ChatTypes\<close>: the messages of the API and the views of the SDK's events, declared outside
    src/, with the fields and variants the code names.
  \<^item> \<open>Errors\<close> (error.rs and the error types of the other files): the adapter's errors and
    their conversion to the error of the API.
  \<^item> \<open>Utils\<close> (utils.rs), \<open>Bridge\<close> (bridge.rs): merging and comparing, parsing of timeline events;
    the conversions between the values of both sides.
  \<^item> \<open>Polls\<close> (polls.rs): a poll assembled from its start and its relations; its votes as a map
    from users to options.
  \<^item> \<open>FileSystem\<close>: paths, directories and files with operations that may fail or write a prefix,
    and a source of random bytes; the ground of the next theories.
  \<^item> \<open>Crypto\<close> (crypto.rs): sealed files, with the contract \<open>sealed_store\<close> the others rest on.
  \<^item> \<open>ProtoCache\<close> (proto_cache.rs): the persistent cache, its codec, its save and load, and its
    histories as an inductive relation over saves, crashes and restarts.
  \<^item> \<open>Notifications\<close> (notifications.rs): the settings as a lattice, loading them and reporting
    changes; the contract \<open>change_feed\<close>.
  \<^item> \<open>Media\<close> (media.rs): the manager of stored assets and the four kinds of asset; the contract
    \<open>asset\<close> is the code's trait \<open>Asset\<close>, with an interpretation for each implementation.
  \<^item> \<open>Messages\<close> (messages.rs): converting received messages, building and sending messages.
  \<^item> \<open>MemoryCache\<close> (memory_cache.rs): rooms, messages and relations, the processing of every
    event, decryption retries and the two fetchers; the contract \<open>room_relation\<close> says what any
    event can do to a room.
  \<^item> \<open>Refinement\<close>: the contract \<open>data_refinement\<close> of a component and its specification.
  \<^item> \<open>CacheProperties\<close>: what the memory cache keeps; both contracts are interpreted here.
    \<open>TidyRooms\<close>: what each of its rooms keeps whatever the server sends.  \<open>Redecryption\<close>: what a
    retry tells the application of the events it decrypts.
  \<^item> \<open>Verification\<close> (verification.rs, sas.rs): the two flows of an interactive verification as
    loops over their inputs; the contract \<open>event_flow\<close> of their handlers.
  \<^item> \<open>Session\<close> (session.rs): the session file, the start of the sync and the background loop,
    also as the step relation \<open>sync_step\<close> with its invariants.
  \<^item> \<open>Rooms\<close> (rooms.rs), \<open>Users\<close> (user.rs): assembling rooms and public rooms, the calls that change
    a room; users from the cache and from the server, and their sync in the background.
  \<^item> \<open>Events\<close> (events.rs): the executor, its tables and memory cache, and a handler for each action.
  \<^item> \<open>EventProperties\<close>: the contracts \<open>marker_relation\<close>, \<open>quiet_relation\<close> and \<open>executor_relation\<close>, each
    extending the one before, lift a relation from the executor's basic steps to every run; they
    are interpreted for its tables, its log, the rooms it knows and their keys.
  \<^item> \<open>RoomIsolation\<close>: the contract \<open>isolated_parts\<close> of parts of a state that do not disturb each
    other, which the executor meets for its rooms.
  \<^item> \<open>EventQueue\<close> (events.rs): the manager with its bounded channel and counter, its handlers of the
    SDK's events, and the runs of senders and executor as an inductive relation.
    \<open>EventFeedback\<close> (events.rs, \<open>on_response\<close> of client.rs): the loop in which the executor's events come
    back as discoveries, its steps, and why it ends.
    \<open>EventDispatch\<close> (events.rs): the handlers registered with the SDK, and the actions that an
    event of the SDK gives through them.
  \<^item> \<open>Client\<close>, \<open>ClientRequests\<close>, \<open>ClientApi\<close> (client.rs): the client's state, its session and logins;
    the handler of every request; the requests as the application sends them, on a client that
    may not be initialised yet.
  \<^item> \<open>ClientProperties\<close>, \<open>ClientRooms\<close>, \<open>ClientRejects\<close>: what resets, reactions and changed avatars do,
    and that refused requests and logins do nothing.  \<open>ClientRestart\<close>: a login, the refreshes of its
    token and the next start.
  \<^item> \<open>ClientSystem\<close>: the whole client as a transition system of requests, tasks, responses and
    events; the contract \<open>session_invariant\<close> lifts a predicate on the event queue to every run.
  \<^item> \<open>LiveAndFetched\<close>: a message as the executor tells of it, its edits and reactions, against the
    message the memory cache builds of the same events for a fetch.  \<open>SentMessages\<close>: a text from the
    request that sends it to the event that announces it.
  \<^item> \<open>ClientLifecycle\<close>: the cell of the client, with initialisations that may overlap, around
    such runs.

  \<^bold>\<open>Correspondence.\<close>  A struct is a record with the fields of the code; an operation on
  \<open>&mut self\<close>, or through a lock, returns its result with the new state; a \<open>Result\<close> is a sum with
  the error on the left.  Macros for logging are left out.  What lies outside src/ is an argument:
  the SDK's and the server's answers (records such as \<open>room_env\<close>, \<open>message_env\<close>, \<open>sync_round\<close>,
  \<open>verification_sdk\<close>, \<open>exec_env\<close>, \<open>client_env\<close>, \<open>request_env\<close>), parsers and codecs, the cipher
  and the key derivation.  Hypotheses on them are named (\<open>delivers\<close>,
  \<open>are_events\<close>, \<open>cipher_ok\<close>, \<open>codecs_ok\<close>, \<open>user_codec_ok\<close>, \<open>json_ok\<close>, \<open>own_store\<close>, \<open>builds_store\<close>,
  \<open>accepts_session\<close>, \<open>rooms_named\<close>, \<open>decrypts_in_place\<close>, \<open>detects_truncation\<close>) and each property that
  has one is applied to concrete values in its witness.

  \<^bold>\<open>Loops.\<close>  Recursion on lists where the code iterates; the decoder of the cache and the decimal
  digits recurse on a length or a number that decreases.  The loops whose end depends on the
  outside (fetching chunks, waiting for changes of a verification, the background sync) run over
  the list of what the outside delivers, and their results say whether they are still waiting;
  that they end is proved for the inputs that should end them.

  \<^bold>\<open>What the lemmas show.\<close>  Polls: a response replaces the votes of its sender and no other.
  Crypto, ProtoCache and Session: what has been saved is read back; users are written before the
  token; a user is cached once through every history of saves and crashes.  Media: the stored
  avatar follows the server, attachments are downloaded once.  Memory cache: the index of
  reactions agrees with the messages through any events, read markers never go back, a built
  message shows the latest replacement and does not depend on the order of the hash maps, a retry settles each event that decrypts once, a fetch is
  finished by the server's last chunk and sends no more than its limit.  Verification: the end of a flow is told at most once.  Session: the
  statuses of the network alternate, the end of the loop is told once, no sync token is lost.
  Events: no action is lost, executed twice or counted wrongly, the loop of the executor's own events
  ends, the tables stay well formed, a discovered room gets the live changes that were queued for it, and what is kept
  and told of a room does not depend on what happens in others; a message followed live among others is the one
  that is fetched, mentions apart; a sent text is announced as it was composed, but for a reply
  inside a thread.  Client: a
  request that is refused for what it names and a login without need have no effect, a removed
  reaction is told once, a reset leaves no session data, a login survives a restart,
  of initialisations that overlap one client comes out, and in every run the queue, the tables, the
  rooms of the memory cache and the index of each stay consistent.  Where the code does not keep what it says,
  a property shows that.

  \<^bold>\<open>Not modelled, and the plan.\<close>  Time passing, tasks running in parallel within one operation
  (an operation on the caches, and a request, runs as a whole), panics (a lock may be poisoned
  from the start, but no modelled operation poisons one) and logging are not modelled.  The SDK's
  store is what building its client creates; what the SDK writes there later is not modelled.  A
  request that starts a sync runs the rounds it is given as one step; with none, the rounds of the
  background sync are steps of their own in \<open>ClientSystem\<close>.  main.rs, lib.rs and
  macros.rs hold the process's set-up and logging macros, test_utils.rs serves the tests.  Worth
  adding: the comparisons of \<open>LiveAndFetched\<close> and \<open>SentMessages\<close> for messages with files, and for
  redactions.
\<close>

end
